(* ===== verification/Authz.thy ===== *)
theory Authz
  imports Prelude
begin

text \<open>
  The policy decision point (\<open>domain/authz/types.py\<close>, \<open>domain/authz/pdp.py\<close>): grants, scope match,
  ABAC predicates, deny-wins resolution, separation of duties and the step-up gate. The PDP parses
  ISO instants in a grant's predicates with \<open>datetime.fromisoformat\<close>; that parser is the argument
  \<open>fromiso\<close> of the definitions (\<open>None\<close> where Python raises ValueError, naive values read as UTC).
\<close>

subsection \<open>Value types\<close>

datatype effect = ALLOW | DENY

datatype scope_level = SYSTEM | FRAMEWORK | PROCESS | FOLDER | DOC_CLASS | ARTIFACT

fun specificity :: "scope_level \<Rightarrow> nat" where
  "specificity ARTIFACT = 5"
| "specificity DOC_CLASS = 4"
| "specificity FOLDER = 3"
| "specificity PROCESS = 2"
| "specificity FRAMEWORK = 1"
| "specificity SYSTEM = 0"

record resolved_grant =
  g_effect :: effect
  g_level :: scope_level
  g_selector :: dict
  g_predicates :: dict
  g_source :: string
  g_is_override :: bool

record resource_context =
  x_artifact_id :: "string option"
  x_document_level :: "string option"
  x_kind :: "string option"
  x_concrete_type :: "string option"
  x_process_ids :: "string set"
  x_folder_path :: "string option"
  x_lifecycle_state :: "string option"
  x_requirement_source :: "string option"
  x_framework_id :: "string option"
  x_version_id :: "string option"
  x_author_user_id :: "string option"
  x_approver_user_ids :: "string set"

definition system_resource :: resource_context where
  "system_resource = \<lparr>x_artifact_id = None, x_document_level = None, x_kind = None,
     x_concrete_type = None, x_process_ids = {}, x_folder_path = None, x_lifecycle_state = None,
     x_requirement_source = None, x_framework_id = None, x_version_id = None,
     x_author_user_id = None, x_approver_user_ids = {}\<rparr>"

record request_context =
  c_now :: instant
  c_source_ip :: "string option"
  c_step_up_satisfied :: bool
  c_actor_user_id :: "string option"
  c_allow_approver_release :: bool

record sod_constraint =
  sod_description :: "string option"
  sod_duty_a :: json
  sod_duty_b :: dict
  sod_severity :: string
  sod_target_binding :: string

record duty_conflict =
  dc_constraint :: string
  dc_duty_a :: json
  dc_duty_b :: dict
  dc_target_binding :: string

record decision =
  d_allow :: bool
  d_reason :: string
  d_source :: "string option"
  d_require_reason :: bool
  d_conflicting_duty :: "duty_conflict option"

subsection \<open>Scope match\<close>

definition as_set :: "json \<Rightarrow> string set" where
  "as_set v = (case v of
      JNull \<Rightarrow> {}
    | JStr s \<Rightarrow> {s}
    | JList xs \<Rightarrow> set (map py_str xs)
    | JObj d \<Rightarrow> set (map fst d)
    | _ \<Rightarrow> {py_str v})"

definition py_or :: "json \<Rightarrow> json \<Rightarrow> json" where
  "py_or a b = (if truthy a then a else b)"

definition partition_tail :: "char \<Rightarrow> string \<Rightarrow> string" where
  "partition_tail c s = drop 1 (dropWhile (\<lambda>x. x \<noteq> c) s)"

definition is_read_action :: "string \<Rightarrow> bool" where
  "is_read_action key =
     (let action = partition_tail (CHR ''.'') key in
      if action = ''print_controlled'' then True
      else (\<exists>seg \<in> set (split_on (CHR ''.'') action). seg = ''read'' \<or> starts_with seg ''read_''))"

definition matches_scope :: "resolved_grant \<Rightarrow> resource_context \<Rightarrow> bool" where
  "matches_scope g x =
     (let sel = g_selector g in
      case g_level g of
        SYSTEM \<Rightarrow> True
      | FRAMEWORK \<Rightarrow>
          (let fw = dget sel ''framework_id''
           in fw \<noteq> JNull \<and> py_eq (opt_json (x_framework_id x)) fw)
      | PROCESS \<Rightarrow>
          (let scoped = as_set (py_or (dget sel ''process_id'') (dget sel ''process_ids''))
           in scoped \<noteq> {} \<and> scoped \<inter> x_process_ids x \<noteq> {})
      | FOLDER \<Rightarrow>
          (let gp = dget sel ''folder_path'' in
           case x_folder_path x of
             None \<Rightarrow> False
           | Some rp \<Rightarrow>
               gp \<noteq> JNull \<and> (py_eq (JStr rp) gp \<or> starts_with rp (py_str gp @ ''.'')))
      | DOC_CLASS \<Rightarrow>
          (let dc = dget sel ''document_level'' in
           if dc = JNull \<or> x_document_level x = None
              \<or> \<not> py_eq (opt_json (x_document_level x)) dc then False
           else if has_key sel ''kind'' \<and> \<not> py_eq (dget sel ''kind'') (opt_json (x_kind x)) then False
           else \<not> (has_key sel ''concrete_type''
                   \<and> \<not> py_eq (dget sel ''concrete_type'') (opt_json (x_concrete_type x))))
      | ARTIFACT \<Rightarrow>
          (let aid = dget sel ''artifact_id''
           in aid \<noteq> JNull \<and> py_eq (opt_json (x_artifact_id x)) aid))"

subsection \<open>ABAC predicates\<close>

definition as_dt :: "(string \<Rightarrow> instant option) \<Rightarrow> json \<Rightarrow> (py_error, instant option) result" where
  "as_dt fromiso v =
     (if v = JNull then Inr None
      else case fromiso (py_str v) of None \<Rightarrow> Inl ValueError | Some t \<Rightarrow> Inr (Some t))"

fun hashable :: "json \<Rightarrow> bool" where
  "hashable (JList _) = False"
| "hashable (JObj _) = False"
| "hashable _ = True"

definition py_set :: "json \<Rightarrow> (py_error, json list) result" where
  "py_set v = (case v of
      JStr s \<Rightarrow> Inr (map (\<lambda>c. JStr [c]) s)
    | JObj d \<Rightarrow> Inr (map (\<lambda>kv. JStr (fst kv)) d)
    | JList xs \<Rightarrow> (if \<forall>x \<in> set xs. hashable x then Inr xs else Inl TypeError)
    | _ \<Rightarrow> Inl TypeError)"

definition ip_passes :: "dict \<Rightarrow> request_context \<Rightarrow> (py_error, bool) result" where
  "ip_passes p c =
     (let ip = dget p ''ip_allow'' in
      if \<not> truthy ip then Inr True
      else case c_source_ip c of
        None \<Rightarrow> Inr False
      | Some a \<Rightarrow> bind_res (py_set ip) (\<lambda>xs. Inr (py_in_list (JStr a) xs)))"

definition context_predicates_pass ::
  "(string \<Rightarrow> instant option) \<Rightarrow> resolved_grant \<Rightarrow> request_context \<Rightarrow> string
   \<Rightarrow> (py_error, bool) result" where
  "context_predicates_pass fromiso g c key =
     (let p = g_predicates g in
      bind_res (as_dt fromiso (dget p ''valid_from'')) (\<lambda>vf.
      bind_res (as_dt fromiso (dget p ''valid_until'')) (\<lambda>vu.
      if (case vf of None \<Rightarrow> False | Some t \<Rightarrow> c_now c < t) then Inr False
      else if (case vu of None \<Rightarrow> False | Some t \<Rightarrow> t < c_now c) then Inr False
      else if truthy (dget p ''read_only'') \<and> \<not> is_read_action key then Inr False
      else ip_passes p c)))"

definition lifecycle_passes :: "dict \<Rightarrow> resource_context \<Rightarrow> bool" where
  "lifecycle_passes p x =
     (let l = dget p ''lifecycle_state'' in
      l = JNull \<or> py_in_list (opt_json (x_lifecycle_state x)) (case l of JList xs \<Rightarrow> xs | _ \<Rightarrow> [l]))"

definition requirement_passes :: "dict \<Rightarrow> resource_context \<Rightarrow> bool" where
  "requirement_passes p x =
     (let r = dget p ''requirement_source''
      in r = JNull \<or> py_eq (opt_json (x_requirement_source x)) r)"

definition predicates_pass ::
  "(string \<Rightarrow> instant option) \<Rightarrow> resolved_grant \<Rightarrow> resource_context \<Rightarrow> request_context \<Rightarrow> string
   \<Rightarrow> (py_error, bool) result" where
  "predicates_pass fromiso g x c key =
     bind_res (context_predicates_pass fromiso g c key) (\<lambda>ok.
       if \<not> ok then Inr False
       else Inr (lifecycle_passes (g_predicates g) x \<and> requirement_passes (g_predicates g) x))"

definition rank :: "resolved_grant \<Rightarrow> nat \<times> nat" where
  "rank g = (specificity (g_level g), if g_is_override g then 1 else 0)"

subsection \<open>Separation of duties\<close>

fun evaluate_sod ::
  "sod_constraint list \<Rightarrow> string \<Rightarrow> resource_context \<Rightarrow> request_context \<Rightarrow> duty_conflict option" where
  "evaluate_sod [] key x c = None"
| "evaluate_sod (s # ss) key x c =
     (case c_actor_user_id c of
        None \<Rightarrow> None
      | Some actor \<Rightarrow>
          if dget (sod_duty_b s) ''permission'' \<noteq> JStr key then evaluate_sod ss key x c
          else if sod_severity s \<noteq> ''HARD_DENY'' then evaluate_sod ss key x c
          else if sod_target_binding s \<noteq> ''SAME_VERSION'' then evaluate_sod ss key x c
          else
            let author_conflict = (x_author_user_id x = Some actor);
                approver_conflict =
                  (actor \<in> x_approver_user_ids x \<and> \<not> c_allow_approver_release c)
            in if author_conflict \<or> approver_conflict then
                 Some \<lparr>dc_constraint =
                         (case sod_description s of
                            None \<Rightarrow> ''sod'' | Some t \<Rightarrow> if t = [] then ''sod'' else t),
                       dc_duty_a = sod_duty_a s, dc_duty_b = sod_duty_b s,
                       dc_target_binding = sod_target_binding s\<rparr>
               else evaluate_sod ss key x c)"

subsection \<open>The decision\<close>

definition grant_applies ::
  "(string \<Rightarrow> instant option) \<Rightarrow> string \<Rightarrow> resource_context \<Rightarrow> request_context \<Rightarrow> resolved_grant
   \<Rightarrow> (py_error, bool) result" where
  "grant_applies fromiso key x c g =
     (if matches_scope g x then predicates_pass fromiso g x c key else Inr False)"

definition no_decision :: "bool \<Rightarrow> string \<Rightarrow> string option \<Rightarrow> decision" where
  "no_decision a r s = \<lparr>d_allow = a, d_reason = r, d_source = s, d_require_reason = False,
     d_conflicting_duty = None\<rparr>"

definition permit ::
  "duty_conflict option \<Rightarrow> bool \<Rightarrow> request_context \<Rightarrow> resolved_grant \<Rightarrow> decision" where
  "permit sod_block sig_hook c winner =
     (case sod_block of
        Some b \<Rightarrow> (no_decision False ''sod_violation'' (Some (dc_constraint b)))
                    \<lparr>d_conflicting_duty := Some b\<rparr>
      | None \<Rightarrow>
          if sig_hook \<and> \<not> c_step_up_satisfied c then
            no_decision False ''step_up_required'' (Some (g_source winner))
          else (no_decision True ''allow'' (Some (g_source winner)))
                 \<lparr>d_require_reason := truthy (dget (g_predicates winner) ''require_reason'')\<rparr>)"

definition resolve ::
  "resolved_grant list \<Rightarrow> duty_conflict option \<Rightarrow> bool \<Rightarrow> request_context \<Rightarrow> decision" where
  "resolve matching sod_block sig_hook c =
     (case filter (\<lambda>g. g_effect g = DENY) matching of
        d # ds \<Rightarrow> no_decision False ''explicit_deny'' (Some (g_source (max_by rank d ds)))
      | [] \<Rightarrow>
        (case filter (\<lambda>g. g_effect g = ALLOW) matching of
           [] \<Rightarrow> no_decision False ''deny_by_default'' None
         | a # as \<Rightarrow> permit sod_block sig_hook c (max_by rank a as)))"

definition authorize ::
  "(string \<Rightarrow> instant option) \<Rightarrow> resolved_grant list \<Rightarrow> string \<Rightarrow> resource_context \<Rightarrow> request_context
   \<Rightarrow> bool \<Rightarrow> sod_constraint list \<Rightarrow> (py_error, decision) result" where
  "authorize fromiso grants key x c sig_hook sod =
     bind_res (filter_res (grant_applies fromiso key x c) grants) (\<lambda>matching.
       Inr (resolve matching (evaluate_sod sod key x c) sig_hook c))"

subsection \<open>The contract of a deny-overrides decision\<close>

text \<open>
  What the callers of the PDP rely on: an allow needs an applicable ALLOW, no applicable DENY, and
  a gate that does not look at the grants. Every consequence below is proved from this alone.
\<close>

locale deny_overrides =
  fixes applies :: "'g \<Rightarrow> bool" and is_allow :: "'g \<Rightarrow> bool" and is_deny :: "'g \<Rightarrow> bool"
    and gate :: bool and verdict :: "'g list \<Rightarrow> bool"
  assumes exclusive: "is_allow g \<Longrightarrow> \<not> is_deny g"
    and verdict_iff: "verdict gs \<longleftrightarrow>
      gate \<and> (\<exists>g \<in> set gs. applies g \<and> is_allow g) \<and> \<not> (\<exists>g \<in> set gs. applies g \<and> is_deny g)"
begin

lemma verdict_empty: "\<not> verdict []"
  by (simp add: verdict_iff)

lemma verdict_cong: "set gs = set hs \<Longrightarrow> verdict gs = verdict hs"
  by (simp add: verdict_iff)

lemma deny_wins: "g \<in> set gs \<Longrightarrow> applies g \<Longrightarrow> is_deny g \<Longrightarrow> \<not> verdict gs"
  by (auto simp: verdict_iff)

lemma denies_only_shrink: "\<forall>g \<in> set ds. is_deny g \<Longrightarrow> verdict (gs @ ds) \<Longrightarrow> verdict gs"
  using exclusive by (auto simp: verdict_iff)

lemma idle_grants_irrelevant: "\<forall>g \<in> set ds. \<not> applies g \<Longrightarrow> verdict (gs @ ds) = verdict gs"
  by (auto simp: verdict_iff)

lemma allows_only_grow:
  "\<forall>g \<in> set ds. is_allow g \<Longrightarrow> verdict gs \<Longrightarrow> verdict (gs @ ds)"
  using exclusive by (auto simp: verdict_iff)

end

definition gate_open :: "sod_constraint list \<Rightarrow> string \<Rightarrow> resource_context \<Rightarrow> request_context \<Rightarrow> bool \<Rightarrow> bool"
  where "gate_open sod key x c sig_hook \<longleftrightarrow>
    evaluate_sod sod key x c = None \<and> (sig_hook \<longrightarrow> c_step_up_satisfied c)"

lemma no_decision_simps [simp]:
  "d_allow (no_decision a r s) = a" "d_reason (no_decision a r s) = r"
  "d_source (no_decision a r s) = s" "\<not> d_require_reason (no_decision a r s)"
  "d_conflicting_duty (no_decision a r s) = None"
  by (simp_all add: no_decision_def)

lemma filter_Nil_bex: "filter P xs = [] \<longleftrightarrow> \<not> (\<exists>x \<in> set xs. P x)"
  by (auto simp: filter_empty_conv)

lemma resolve_deny:
  "\<exists>g \<in> set m. g_effect g = DENY \<Longrightarrow>
     \<not> d_allow (resolve m b h c) \<and> d_reason (resolve m b h c) = ''explicit_deny''"
  by (cases "filter (\<lambda>g. g_effect g = DENY) m") (auto simp: resolve_def filter_Nil_bex)

lemma resolve_default:
  "m = [] \<Longrightarrow> \<not> d_allow (resolve m b h c) \<and> d_reason (resolve m b h c) = ''deny_by_default''"
  by (simp add: resolve_def)

lemma effect_not_deny: "g_effect g \<noteq> DENY \<longleftrightarrow> g_effect g = ALLOW"
  by (cases "g_effect g") auto

lemma permit_allow [simp]:
  "d_allow (permit b h c w) \<longleftrightarrow> b = None \<and> (h \<longrightarrow> c_step_up_satisfied c)"
  by (auto simp: permit_def split: option.splits)

lemma resolve_permit:
  assumes "m \<noteq> []" and "\<not> (\<exists>g \<in> set m. g_effect g = DENY)"
  obtains w where "w \<in> set m" and "\<And>g. g \<in> set m \<Longrightarrow> rank g \<le> rank w"
    and "resolve m b h c = permit b h c w"
proof -
  have deny: "filter (\<lambda>g. g_effect g = DENY) m = []"
    using assms(2) by (simp add: filter_Nil_bex)
  have all: "filter (\<lambda>g. g_effect g = ALLOW) m = m"
    using assms(2) by (auto simp: filter_id_conv simp flip: effect_not_deny)
  obtain a as where m: "m = a # as" using assms(1) by (cases m) auto
  show ?thesis
  proof
    show "max_by rank a as \<in> set m" using max_by_mem [of rank a as] m by simp
    show "rank g \<le> rank (max_by rank a as)" if "g \<in> set m" for g
      using max_by_ge [of g a as rank] that m by simp
    show "resolve m b h c = permit b h c (max_by rank a as)"
      unfolding resolve_def deny all by (simp add: m)
  qed
qed

lemma resolve_allow_iff:
  "d_allow (resolve m b h c) \<longleftrightarrow>
     b = None \<and> (h \<longrightarrow> c_step_up_satisfied c) \<and> (\<exists>g \<in> set m. g_effect g = ALLOW)
       \<and> \<not> (\<exists>g \<in> set m. g_effect g = DENY)"
proof (cases "\<exists>g \<in> set m. g_effect g = DENY")
  case True
  then show ?thesis by (simp add: resolve_deny)
next
  case False
  show ?thesis
  proof (cases "m = []")
    case True
    then show ?thesis by (simp add: resolve_default)
  next
    case ne: False
    then have ex: "\<exists>g \<in> set m. g_effect g = ALLOW"
      using False effect_not_deny by (cases m) auto
    obtain w where "resolve m b h c = permit b h c w"
      using resolve_permit [OF ne False] by metis
    then show ?thesis using False ex by auto
  qed
qed

lemma authorize_Inr:
  "authorize fi gs key x c h sod = Inr d \<Longrightarrow>
     d = resolve (filter (\<lambda>g. grant_applies fi key x c g = Inr True) gs) (evaluate_sod sod key x c) h c"
  by (auto simp: authorize_def dest!: filter_res_Inr)

lemma authorize_defined:
  "(\<exists>d. authorize fi gs key x c h sod = Inr d) \<longleftrightarrow>
     (\<forall>g \<in> set gs. \<exists>b. grant_applies fi key x c g = Inr b)"
  by (auto simp: authorize_def simp flip: filter_res_Inr_iff)

interpretation pdp: deny_overrides
  "\<lambda>g. grant_applies fi key x c g = Inr True"
  "\<lambda>g. g_effect g = ALLOW" "\<lambda>g. g_effect g = DENY"
  "gate_open sod key x c h"
  "\<lambda>gs. d_allow (resolve (filter (\<lambda>g. grant_applies fi key x c g = Inr True) gs)
     (evaluate_sod sod key x c) h c)"
  for fi key x c sod h
  by unfold_locales (auto simp: resolve_allow_iff gate_open_def)

subsection \<open>What the decision guarantees\<close>

definition applying ::
  "(string \<Rightarrow> instant option) \<Rightarrow> string \<Rightarrow> resource_context \<Rightarrow> request_context \<Rightarrow> effect
   \<Rightarrow> resolved_grant list \<Rightarrow> resolved_grant set" where
  "applying fi key x c e gs =
     {g \<in> set gs. g_effect g = e \<and> grant_applies fi key x c g = Inr True}"

lemma resolve_reason:
  "d_reason (resolve m b h c) =
     (if \<exists>g \<in> set m. g_effect g = DENY then ''explicit_deny''
      else if m = [] then ''deny_by_default''
      else if b \<noteq> None then ''sod_violation''
      else if h \<and> \<not> c_step_up_satisfied c then ''step_up_required''
      else ''allow'')"
proof (cases "(\<exists>g \<in> set m. g_effect g = DENY) \<or> m = []")
  case True
  then show ?thesis using resolve_deny [of m b h c] resolve_default [of m b h c] by auto
next
  case False
  then obtain w where "resolve m b h c = permit b h c w"
    using resolve_permit [of m b h c] by blast
  with False show ?thesis by (auto simp: permit_def split: option.splits)
qed

lemma resolve_allow_reason: "d_allow (resolve m b h c) \<longleftrightarrow> d_reason (resolve m b h c) = ''allow''"
proof -
  have "(\<exists>g \<in> set m. g_effect g = ALLOW) \<longleftrightarrow> m \<noteq> []" if "\<not> (\<exists>g \<in> set m. g_effect g = DENY)"
    using that effect_not_deny by (cases m) auto
  then show ?thesis unfolding resolve_reason resolve_allow_iff by auto
qed

lemma resolve_source:
  assumes "d_allow (resolve m b h c)"
  shows "\<exists>w \<in> set m. d_source (resolve m b h c) = Some (g_source w)
     \<and> (\<forall>g \<in> set m. rank g \<le> rank w)"
proof -
  from assms have ok: "m \<noteq> []" "\<not> (\<exists>g \<in> set m. g_effect g = DENY)" "b = None"
    "h \<longrightarrow> c_step_up_satisfied c"
    by (auto simp: resolve_allow_iff)
  obtain w where w: "w \<in> set m" "\<And>g. g \<in> set m \<Longrightarrow> rank g \<le> rank w"
    and r: "resolve m b h c = permit b h c w"
    using resolve_permit [OF ok(1,2)] by blast
  show ?thesis unfolding r using w ok(3,4) by (intro bexI [of _ w]) (auto simp: permit_def)
qed

lemma applying_filter:
  "(\<exists>g \<in> set (filter (\<lambda>g. grant_applies fi key x c g = Inr True) gs). g_effect g = e)
     \<longleftrightarrow> applying fi key x c e gs \<noteq> {}"
  by (auto simp: applying_def)

lemma applying_none:
  "filter (\<lambda>g. grant_applies fi key x c g = Inr True) gs = [] \<longleftrightarrow>
     applying fi key x c DENY gs = {} \<and> applying fi key x c ALLOW gs = {}"
  by (auto simp: applying_def filter_empty_conv) (metis effect.exhaust)

text \<open>C10: The PDP pipeline: whenever no grant predicate is malformed, the verdict is an explicit deny
  as soon as one applicable grant denies (whatever its specificity), a deny by default when no
  grant applies, then a separation-of-duties deny, then a step-up deny, and an allow only when
  none of these holds; and the verdict allows exactly when its reason is \<open>allow\<close>.
\<close>

theorem authorize_pipeline:
  assumes "authorize fi gs key x c h sod = Inr d"
  shows "d_reason d =
      (if applying fi key x c DENY gs \<noteq> {} then ''explicit_deny''
       else if applying fi key x c ALLOW gs = {} then ''deny_by_default''
       else if evaluate_sod sod key x c \<noteq> None then ''sod_violation''
       else if h \<and> \<not> c_step_up_satisfied c then ''step_up_required''
       else ''allow'')
    \<and> (d_allow d \<longleftrightarrow> d_reason d = ''allow'')"
proof -
  let ?m = "filter (\<lambda>g. grant_applies fi key x c g = Inr True) gs"
  have d: "d = resolve ?m (evaluate_sod sod key x c) h c" by (rule authorize_Inr [OF assms])
  have "?m = [] \<longleftrightarrow> applying fi key x c ALLOW gs = {}" if "applying fi key x c DENY gs = {}"
    using that applying_none [of fi key x c gs] by blast
  then show ?thesis
    unfolding d resolve_allow_reason unfolding resolve_reason applying_filter by simp
qed

definition demo_ctx :: request_context where
  "demo_ctx = \<lparr>c_now = 100, c_source_ip = None, c_step_up_satisfied = True,
     c_actor_user_id = Some ''u1'', c_allow_approver_release = False\<rparr>"

definition demo_grant :: "effect \<Rightarrow> scope_level \<Rightarrow> dict \<Rightarrow> dict \<Rightarrow> resolved_grant" where
  "demo_grant e l sel p = \<lparr>g_effect = e, g_level = l, g_selector = sel, g_predicates = p,
     g_source = ''role:Author'', g_is_override = False\<rparr>"

lemmas demo_eval = authorize_def grant_applies_def matches_scope_def predicates_pass_def
  context_predicates_pass_def as_dt_def ip_passes_def lifecycle_passes_def requirement_passes_def
  dget_def demo_grant_def demo_ctx_def system_resource_def resolve_def permit_def no_decision_def
  applying_def

theorem authorize_pipeline_witness:
  "\<exists>d. authorize (\<lambda>_. None) [demo_grant ALLOW SYSTEM [] []] ''document.approve''
      (system_resource\<lparr>x_author_user_id := Some ''u1''\<rparr>) demo_ctx False
      [\<lparr>sod_description = None, sod_duty_a = JNull,
        sod_duty_b = [(''permission'', JStr ''document.approve'')],
        sod_severity = ''HARD_DENY'', sod_target_binding = ''SAME_VERSION''\<rparr>] = Inr d
    \<and> d_reason d = ''sod_violation'' \<and> \<not> d_allow d"
proof -
  obtain d where d: "authorize (\<lambda>_. None) [demo_grant ALLOW SYSTEM [] []] ''document.approve''
      (system_resource\<lparr>x_author_user_id := Some ''u1''\<rparr>) demo_ctx False
      [\<lparr>sod_description = None, sod_duty_a = JNull,
        sod_duty_b = [(''permission'', JStr ''document.approve'')],
        sod_severity = ''HARD_DENY'', sod_target_binding = ''SAME_VERSION''\<rparr>] = Inr d"
    by (simp add: demo_eval)
  from authorize_pipeline [OF d] d show ?thesis
    by (intro exI [of _ d]) (simp add: demo_eval)
qed

text \<open>C37: Deny grants never open a door: adding any number of DENY grants to a principal's grants can
  only turn an allow into a deny, and the order in which the repository returns the grants does
  not change the verdict.
\<close>

theorem authorize_deny_antitone:
  assumes "\<forall>g \<in> set ds. g_effect g = DENY"
    and "authorize fi gs key x c h sod = Inr d" and "authorize fi gs' key x c h sod = Inr d'"
    and "mset gs' = mset (gs @ ds)" and "d_allow d'"
  shows "d_allow d"
proof -
  have d: "d = resolve (filter (\<lambda>g. grant_applies fi key x c g = Inr True) gs)
      (evaluate_sod sod key x c) h c"
    and d': "d' = resolve (filter (\<lambda>g. grant_applies fi key x c g = Inr True) gs')
      (evaluate_sod sod key x c) h c"
    using authorize_Inr assms(2,3) by blast+
  have "set gs' = set (gs @ ds)" using assms(4) by (rule mset_eq_setD)
  from pdp.verdict_cong [OF this] assms(5)
  have "d_allow (resolve (filter (\<lambda>g. grant_applies fi key x c g = Inr True) (gs @ ds))
      (evaluate_sod sod key x c) h c)"
    by (simp add: d')
  then show ?thesis unfolding d by (rule pdp.denies_only_shrink [OF assms(1)])
qed

theorem authorize_deny_antitone_witness:
  "d_allow (resolve [demo_grant ALLOW SYSTEM [] []] None False demo_ctx)"
proof -
  have a: "authorize (\<lambda>_. None) [demo_grant ALLOW SYSTEM [] []] ''x.read'' system_resource demo_ctx
      False [] = Inr (resolve [demo_grant ALLOW SYSTEM [] []] None False demo_ctx)"
    by (simp add: demo_eval)
  have b: "authorize (\<lambda>_. None)
      [demo_grant DENY ARTIFACT [(''artifact_id'', JStr ''a'')] [], demo_grant ALLOW SYSTEM [] []]
      ''x.read'' system_resource demo_ctx False []
      = Inr (resolve [demo_grant ALLOW SYSTEM [] []] None False demo_ctx)"
    by (simp add: demo_eval opt_json_def)
  show ?thesis
    by (rule authorize_deny_antitone
        [where ds = "[demo_grant DENY ARTIFACT [(''artifact_id'', JStr ''a'')] []]", OF _ a b])
      (simp_all add: demo_eval)
qed

lemma evaluate_sod_iff:
  "evaluate_sod sod key x c \<noteq> None \<longleftrightarrow>
     (\<exists>actor. c_actor_user_id c = Some actor
       \<and> (x_author_user_id x = Some actor
          \<or> actor \<in> x_approver_user_ids x \<and> \<not> c_allow_approver_release c))
     \<and> (\<exists>s \<in> set sod. dget (sod_duty_b s) ''permission'' = JStr key
          \<and> sod_severity s = ''HARD_DENY'' \<and> sod_target_binding s = ''SAME_VERSION'')"
proof (induction sod)
  case Nil
  then show ?case by simp
next
  case (Cons s ss)
  show ?case
  proof (cases "c_actor_user_id c")
    case None
    then show ?thesis by simp
  next
    case (Some actor)
    with Cons.IH show ?thesis by (auto simp: Let_def)
  qed
qed

text \<open>C28: Nobody decides on their own version: when a hard separation-of-duties rule covers the
  permission on the same version, the version's author never gets an allow, and neither does a
  prior approver unless the organisation relaxed the approver-release rule. No grant, override or
  scope changes that.
\<close>

theorem authorize_sod_blocks:
  assumes "authorize fi gs key x c h sod = Inr d"
    and "s \<in> set sod" and "dget (sod_duty_b s) ''permission'' = JStr key"
    and "sod_severity s = ''HARD_DENY''" and "sod_target_binding s = ''SAME_VERSION''"
    and "c_actor_user_id c = Some actor"
    and "x_author_user_id x = Some actor
      \<or> actor \<in> x_approver_user_ids x \<and> \<not> c_allow_approver_release c"
  shows "\<not> d_allow d"
proof -
  have "evaluate_sod sod key x c \<noteq> None"
    unfolding evaluate_sod_iff using assms(2-7) by blast
  then show ?thesis using authorize_Inr [OF assms(1)] by (simp add: resolve_allow_iff)
qed

theorem authorize_sod_blocks_witness:
  "\<not> d_allow (resolve [demo_grant ALLOW SYSTEM [] []]
      (evaluate_sod [\<lparr>sod_description = None, sod_duty_a = JNull,
        sod_duty_b = [(''permission'', JStr ''document.release'')],
        sod_severity = ''HARD_DENY'', sod_target_binding = ''SAME_VERSION''\<rparr>] ''document.release''
        (system_resource\<lparr>x_approver_user_ids := {''u1''}\<rparr>) demo_ctx) False demo_ctx)"
  (is "\<not> d_allow ?d")
proof (rule authorize_sod_blocks [where fi = "\<lambda>_. None" and gs = "[demo_grant ALLOW SYSTEM [] []]"
      and key = "''document.release''" and x = "system_resource\<lparr>x_approver_user_ids := {''u1''}\<rparr>"
      and c = demo_ctx and h = False and actor = "''u1''"
      and s = "\<lparr>sod_description = None, sod_duty_a = JNull,
        sod_duty_b = [(''permission'', JStr ''document.release'')],
        sod_severity = ''HARD_DENY'', sod_target_binding = ''SAME_VERSION''\<rparr>"])
  show "authorize (\<lambda>_. None) [demo_grant ALLOW SYSTEM [] []] ''document.release''
      (system_resource\<lparr>x_approver_user_ids := {''u1''}\<rparr>) demo_ctx False
      [\<lparr>sod_description = None, sod_duty_a = JNull,
        sod_duty_b = [(''permission'', JStr ''document.release'')],
        sod_severity = ''HARD_DENY'', sod_target_binding = ''SAME_VERSION''\<rparr>] = Inr ?d"
    by (simp add: authorize_def grant_applies_def matches_scope_def predicates_pass_def
        context_predicates_pass_def as_dt_def ip_passes_def lifecycle_passes_def
        requirement_passes_def dget_def demo_grant_def)
qed (simp_all add: dget_def demo_ctx_def)

lemma dget_filter:
  "dget (filter (\<lambda>kv. fst kv \<in> K) d) k = (if k \<in> K then dget d k else JNull)"
proof -
  have "map_of (filter (\<lambda>kv. fst kv \<in> K) d) k = (if k \<in> K then map_of d k else None)"
    by (induction d) auto
  then show ?thesis by (simp add: dget_def)
qed

lemma ip_passes_filter:
  "ip_passes p c = Inr True \<Longrightarrow> ip_passes (filter (\<lambda>kv. fst kv \<in> K) p) c = Inr True"
  by (auto simp: ip_passes_def dget_filter)

lemma as_dt_null [simp]: "as_dt fi JNull = Inr None"
  by (simp add: as_dt_def)

lemma context_predicates_filter:
  assumes "context_predicates_pass fi g c key = Inr True"
  shows "context_predicates_pass fi
     (g\<lparr>g_predicates := filter (\<lambda>kv. fst kv \<in> K) (g_predicates g)\<rparr>) c key = Inr True"
  using assms ip_passes_filter [of "g_predicates g" c K]
  by (auto simp: context_predicates_pass_def dget_filter Let_def split: if_splits option.splits)

text \<open>
  Predicates only narrow: removing any set of ABAC predicates from a grant never stops it from
  applying, so no predicate can widen a grant.
\<close>

theorem predicates_narrow:
  assumes "grant_applies fi key x c g = Inr True"
  shows "grant_applies fi key x c
     (g\<lparr>g_predicates := filter (\<lambda>kv. fst kv \<in> K) (g_predicates g)\<rparr>) = Inr True"
proof -
  have m: "matches_scope g x" and pass: "predicates_pass fi g x c key = Inr True"
    using assms by (auto simp: grant_applies_def split: if_splits)
  from pass have cp: "context_predicates_pass fi g c key = Inr True"
    and l: "lifecycle_passes (g_predicates g) x" and r: "requirement_passes (g_predicates g) x"
    by (auto simp: predicates_pass_def split: if_splits)
  have "matches_scope (g\<lparr>g_predicates := filter (\<lambda>kv. fst kv \<in> K) (g_predicates g)\<rparr>) x"
    using m by (simp add: matches_scope_def)
  with context_predicates_filter [OF cp, of K] l r show ?thesis
    by (simp add: grant_applies_def predicates_pass_def lifecycle_passes_def requirement_passes_def
        dget_filter Let_def)
qed

theorem predicates_narrow_witness:
  "grant_applies (\<lambda>_. Some 50) ''x.read'' system_resource demo_ctx
     ((demo_grant ALLOW SYSTEM [] [(''valid_from'', JStr ''t''), (''read_only'', JBool True)])
       \<lparr>g_predicates := filter (\<lambda>kv. fst kv \<in> {''valid_from''})
          [(''valid_from'', JStr ''t''), (''read_only'', JBool True)]\<rparr>) = Inr True"
  using predicates_narrow [where K = "{''valid_from''}" and fi = "\<lambda>_. Some 50" and key = "''x.read''"
      and x = system_resource and c = demo_ctx
      and g = "demo_grant ALLOW SYSTEM [] [(''valid_from'', JStr ''t''), (''read_only'', JBool True)]"]
  by (simp add: demo_eval is_read_action_def partition_tail_def starts_with_def)

end
