(* ===== verification/Dates.thy ===== *)
theory Dates
  imports Prelude
begin

text \<open>
  Calendar dates as Python's \<open>datetime.date\<close>: the proleptic Gregorian calendar, years 1 to 9999,
  ordinals counted from 0001-01-01, comparison by year, month, day, and the errors raised when a
  date leaves the range. The retention, CAPA, review and audit components compute with these.
\<close>

datatype date = Date (year: int) (month: int) (day: int)

instantiation date :: linorder
begin

definition less_eq_date :: "date \<Rightarrow> date \<Rightarrow> bool" where
  "d \<le> e \<longleftrightarrow> year d < year e \<or> (year d = year e \<and> (month d < month e \<or>
     (month d = month e \<and> day d \<le> day e)))"

definition less_date :: "date \<Rightarrow> date \<Rightarrow> bool" where
  "d < e \<longleftrightarrow> year d < year e \<or> (year d = year e \<and> (month d < month e \<or>
     (month d = month e \<and> day d < day e)))"

instance
  by standard (auto simp: less_eq_date_def less_date_def intro: date.expand)

end

definition leap :: "int \<Rightarrow> bool" where
  "leap y \<longleftrightarrow> y mod 4 = 0 \<and> (y mod 100 \<noteq> 0 \<or> y mod 400 = 0)"

definition days_in_month :: "int \<Rightarrow> int \<Rightarrow> int" where
  "days_in_month y m =
     (if m = 2 then (if leap y then 29 else 28)
      else if m = 4 \<or> m = 6 \<or> m = 9 \<or> m = 11 then 30 else 31)"

definition days_before_year :: "int \<Rightarrow> int" where
  "days_before_year y = (let p = y - 1 in p * 365 + p div 4 - p div 100 + p div 400)"

definition days_before_month :: "int \<Rightarrow> int \<Rightarrow> int" where
  "days_before_month y m =
     (if m \<le> 1 then 0 else if m = 2 then 31
      else (if leap y then 1 else 0) +
        (if m = 3 then 59 else if m = 4 then 90 else if m = 5 then 120 else if m = 6 then 151
         else if m = 7 then 181 else if m = 8 then 212 else if m = 9 then 243
         else if m = 10 then 273 else if m = 11 then 304 else if m = 12 then 334 else 365))"

definition valid_ymd :: "date \<Rightarrow> bool" where
  "valid_ymd d \<longleftrightarrow> 1 \<le> month d \<and> month d \<le> 12 \<and> 1 \<le> day d \<and> day d \<le> days_in_month (year d) (month d)"

definition valid_date :: "date \<Rightarrow> bool" where
  "valid_date d \<longleftrightarrow> valid_ymd d \<and> 1 \<le> year d \<and> year d \<le> 9999"

definition toordinal :: "date \<Rightarrow> int" where
  "toordinal d = days_before_year (year d) + days_before_month (year d) (month d) + day d"

text \<open>The month of the zero-based day \<open>r\<close> of year \<open>y\<close>.\<close>

definition month_at :: "int \<Rightarrow> int \<Rightarrow> int" where
  "month_at y r =
     (if r < days_before_month y 2 then 1 else if r < days_before_month y 3 then 2
      else if r < days_before_month y 4 then 3 else if r < days_before_month y 5 then 4
      else if r < days_before_month y 6 then 5 else if r < days_before_month y 7 then 6
      else if r < days_before_month y 8 then 7 else if r < days_before_month y 9 then 8
      else if r < days_before_month y 10 then 9 else if r < days_before_month y 11 then 10
      else if r < days_before_month y 12 then 11 else 12)"

definition fromordinal :: "int \<Rightarrow> date" where
  "fromordinal n =
     (let r0 = n - 1;
          n400 = r0 div 146097; r1 = r0 mod 146097;
          n100 = r1 div 36524; r2 = r1 mod 36524;
          n4 = r2 div 1461; r3 = r2 mod 1461;
          n1 = r3 div 365; r4 = r3 mod 365;
          y = n400 * 400 + n100 * 100 + n4 * 4 + n1 + 1
      in if n1 = 4 \<or> n100 = 4 then Date (y - 1) 12 31
         else Date y (month_at y r4) (r4 - days_before_month y (month_at y r4) + 1))"

text \<open>The constructor \<open>date(y, m, d)\<close> and \<open>d + timedelta(days=n)\<close>, with their errors.\<close>

definition mk_date :: "int \<Rightarrow> int \<Rightarrow> int \<Rightarrow> (py_error, date) result" where
  "mk_date y m d = (if valid_date (Date y m d) then Inr (Date y m d) else Inl ValueError)"

definition max_ordinal :: int where
  "max_ordinal = 3652059"

definition add_days :: "date \<Rightarrow> int \<Rightarrow> (py_error, date) result" where
  "add_days d n =
     (let o' = toordinal d + n
      in if 1 \<le> o' \<and> o' \<le> max_ordinal then Inr (fromordinal o') else Inl OverflowError)"

subsection \<open>Ordinals count days\<close>

lemma month_cases:
  assumes "1 \<le> (m::int)" "m \<le> 12"
  obtains "m = 1" | "m = 2" | "m = 3" | "m = 4" | "m = 5" | "m = 6" | "m = 7" | "m = 8"
    | "m = 9" | "m = 10" | "m = 11" | "m = 12"
proof -
  have "m = 1 \<or> m = 2 \<or> m = 3 \<or> m = 4 \<or> m = 5 \<or> m = 6 \<or> m = 7 \<or> m = 8 \<or> m = 9 \<or> m = 10
    \<or> m = 11 \<or> m = 12" using assms by arith
  then show thesis using that by blast
qed

lemma div_pred:
  assumes "0 < (k::int)"
  shows "y div k = (y - 1) div k + (if y mod k = 0 then 1 else 0)"
proof (cases "y mod k = 0")
  case True
  have "y - 1 = k * (y div k - 1) + (k - 1)"
    using True mult_div_mod_eq [of k y] by (simp add: algebra_simps)
  from int_div_pos_eq [OF this] have "(y - 1) div k = y div k - 1" using assms by simp
  with True show ?thesis by simp
next
  case False
  have "0 < y mod k" "y mod k < k"
    using False assms pos_mod_sign [of k y] pos_mod_bound [of k y] by linarith+
  moreover have eq: "y - 1 = k * (y div k) + (y mod k - 1)"
    using mult_div_mod_eq [of k y] by (simp add: algebra_simps)
  ultimately have "(y - 1) div k = y div k" using int_div_pos_eq [OF eq] by simp
  with False show ?thesis by simp
qed

lemma leap_arith:
  fixes a b c y :: int
  assumes "p400 \<Longrightarrow> p100" and "p100 \<Longrightarrow> p4"
  shows "y * 365 + (a + (if p4 then 1 else 0)) - (b + (if p100 then 1 else 0))
      + (c + (if p400 then 1 else 0))
    = (y - 1) * 365 + a - b + c + (if p4 \<and> (\<not> p100 \<or> p400) then 366 else 365)"
  using assms by (cases p4; cases p100; cases p400) auto

lemma days_before_year_Suc: "days_before_year (y + 1) = days_before_year y + (if leap y then 366 else 365)"
proof -
  have c: "y mod 100 = 0" if "y mod 400 = 0"
    using that mod_mod_cancel [of 100 400 y] by simp
  have d: "y mod 4 = 0" if "y mod 100 = 0"
    using that mod_mod_cancel [of 4 100 y] by simp
  have e: "y div 4 = (y - 1) div 4 + (if y mod 4 = 0 then 1 else 0)"
    "y div 100 = (y - 1) div 100 + (if y mod 100 = 0 then 1 else 0)"
    "y div 400 = (y - 1) div 400 + (if y mod 400 = 0 then 1 else 0)"
    by (rule div_pred, simp)+
  have f: "days_before_year (y + 1) = y * 365 + y div 4 - y div 100 + y div 400"
    by (simp add: days_before_year_def)
  show ?thesis
    unfolding f e unfolding days_before_year_def Let_def leap_def by (rule leap_arith [OF c d])
qed

lemma days_before_year_less:
  assumes "y < z"
  shows "days_before_year y + (if leap y then 366 else 365) \<le> days_before_year z"
proof -
  have mono: "days_before_year a \<le> days_before_year b" if "a \<le> b" for a b
    using that
  proof (induction b rule: int_ge_induct)
    case base
    then show ?case by simp
  next
    case (step i)
    then show ?case by (simp add: days_before_year_Suc)
  qed
  from mono [of "y + 1" z] assms show ?thesis by (simp add: days_before_year_Suc)
qed

lemma days_before_month_Suc:
  assumes "1 \<le> m" "m \<le> 12"
  shows "days_before_month y (m + 1) = days_before_month y m + days_in_month y m"
  using assms by (cases rule: month_cases) (simp_all add: days_before_month_def days_in_month_def)

lemma days_before_month_mono:
  assumes "1 \<le> m" "m < m'" "m' \<le> 13"
  shows "days_before_month y m + days_in_month y m \<le> days_before_month y m'"
proof -
  have "m + 1 \<le> m'" using assms by simp
  then have "days_before_month y (m + 1) \<le> days_before_month y m'" using assms(1,3)
  proof (induction m' rule: int_ge_induct)
    case base
    then show ?case by simp
  next
    case (step i)
    then have "days_before_month y (i + 1) = days_before_month y i + days_in_month y i"
      by (intro days_before_month_Suc) auto
    moreover have "0 \<le> days_in_month y i" by (simp add: days_in_month_def)
    ultimately show ?case using step by simp
  qed
  then show ?thesis using assms days_before_month_Suc [of m y] by simp
qed

lemma day_in_year:
  assumes "valid_ymd d"
  shows "1 \<le> days_before_month (year d) (month d) + day d"
    and "days_before_month (year d) (month d) + day d \<le> (if leap (year d) then 366 else 365)"
proof -
  let ?y = "year d" and ?m = "month d"
  have m: "1 \<le> ?m" "?m \<le> 12" "1 \<le> day d" "day d \<le> days_in_month ?y ?m"
    using assms by (auto simp: valid_ymd_def)
  have "0 \<le> days_before_month ?y ?m" by (simp add: days_before_month_def)
  then show "1 \<le> days_before_month ?y ?m + day d" using m by simp
  have "days_before_month ?y ?m + days_in_month ?y ?m \<le> days_before_month ?y 13"
    using m by (intro days_before_month_mono) auto
  then show "days_before_month ?y ?m + day d \<le> (if leap ?y then 366 else 365)"
    using m by (simp add: days_before_month_def split: if_splits)
qed

lemma toordinal_less:
  assumes "valid_ymd d" "valid_ymd e" "d < e"
  shows "toordinal d < toordinal e"
proof (cases "year d < year e")
  case True
  then show ?thesis
    using days_before_year_less [OF True] day_in_year [OF assms(1)] day_in_year [OF assms(2)]
    by (simp add: toordinal_def)
next
  case False
  then have y: "year d = year e" using assms(3) by (auto simp: less_date_def)
  show ?thesis
  proof (cases "month d < month e")
    case True
    have "days_before_month (year d) (month d) + days_in_month (year d) (month d)
        \<le> days_before_month (year d) (month e)"
      using assms(1,2) True by (intro days_before_month_mono) (auto simp: valid_ymd_def)
    then show ?thesis using assms(1,2) y by (auto simp: toordinal_def valid_ymd_def)
  next
    case False
    then show ?thesis using assms(3) y by (auto simp: less_date_def toordinal_def)
  qed
qed

lemma toordinal_less_iff:
  assumes "valid_ymd d" "valid_ymd e"
  shows "toordinal d < toordinal e \<longleftrightarrow> d < e"
  using toordinal_less assms by (metis linorder_neqE not_less_iff_gr_or_eq)

lemma toordinal_le_iff:
  assumes "valid_ymd d" "valid_ymd e"
  shows "toordinal d \<le> toordinal e \<longleftrightarrow> d \<le> e"
  using toordinal_less_iff [OF assms(2,1)] by (simp add: linorder_not_less [symmetric])

lemma toordinal_inj: "valid_ymd d \<Longrightarrow> valid_ymd e \<Longrightarrow> toordinal d = toordinal e \<Longrightarrow> d = e"
  by (metis linorder_neqE order_less_irrefl toordinal_less)

subsection \<open>Ordinals and dates are inverse\<close>

lemma days_before_year_parts:
  assumes "0 \<le> b" "b \<le> 3" "0 \<le> c" "c \<le> 24" "0 \<le> d" "d \<le> (3::int)"
  shows "days_before_year (a * 400 + b * 100 + c * 4 + d + 1)
    = a * 146097 + b * 36524 + c * 1461 + d * 365"
proof -
  let ?p = "a * 400 + b * 100 + c * 4 + d"
  have "?p = 4 * (a * 100 + b * 25 + c) + d" by simp
  from int_div_pos_eq [OF this] have q: "?p div 4 = a * 100 + b * 25 + c" using assms by simp
  have "?p = 100 * (a * 4 + b) + (c * 4 + d)" by simp
  from int_div_pos_eq [OF this] have h: "?p div 100 = a * 4 + b" using assms by simp
  have "?p = 400 * a + (b * 100 + c * 4 + d)" by simp
  from int_div_pos_eq [OF this] have f: "?p div 400 = a" using assms by simp
  have "days_before_year (?p + 1) = ?p * 365 + ?p div 4 - ?p div 100 + ?p div 400"
    by (simp only: days_before_year_def Let_def add_diff_cancel_right')
  then show ?thesis unfolding q h f by simp
qed

lemma month_at_bounds:
  assumes "0 \<le> r" "r \<le> 364"
  shows "1 \<le> month_at y r \<and> month_at y r \<le> 12 \<and> days_before_month y (month_at y r) \<le> r
    \<and> r < days_before_month y (month_at y r) + days_in_month y (month_at y r)"
  using assms by (cases "leap y") (auto simp: month_at_def days_before_month_def days_in_month_def)

lemma fromordinal_in_year:
  fixes y r :: int
  assumes "0 \<le> r" "r \<le> 364"
  defines "m \<equiv> month_at y r"
  shows "valid_ymd (Date y m (r - days_before_month y m + 1))"
    and "toordinal (Date y m (r - days_before_month y m + 1)) = days_before_year y + r + 1"
  using month_at_bounds [OF assms(1,2), of y]
  by (auto simp: m_def valid_ymd_def toordinal_def)

lemma div_mod_parts:
  assumes "0 < (k::int)"
  obtains "x = k * (x div k) + x mod k" and "0 \<le> x mod k" and "x mod k < k"
  using assms mult_div_mod_eq [of k x] pos_mod_sign [of k x] pos_mod_bound [of k x] by auto

lemma leap_parts:
  assumes "a = 4 * q" and "a mod 100 \<noteq> 0 \<or> a mod 400 = 0"
  shows "leap a"
  using assms by (auto simp: leap_def)

lemma dec31:
  assumes "leap y"
  shows "valid_ymd (Date y 12 31)" and "toordinal (Date y 12 31) = days_before_year y + 366"
  using assms by (auto simp: valid_ymd_def toordinal_def days_in_month_def days_before_month_def)

theorem fromordinal_correct: "valid_ymd (fromordinal n) \<and> toordinal (fromordinal n) = n"
proof -
  define r0 where "r0 = n - 1"
  define a where "a = r0 div 146097" define r1 where "r1 = r0 mod 146097"
  define b where "b = r1 div 36524" define r2 where "r2 = r1 mod 36524"
  define c where "c = r2 div 1461" define r3 where "r3 = r2 mod 1461"
  define d where "d = r3 div 365" define r4 where "r4 = r3 mod 365"
  have e1: "r0 = 146097 * a + r1" "0 \<le> r1" "r1 < 146097"
    unfolding a_def r1_def by (rule div_mod_parts [of 146097 r0]; simp)+
  have e2: "r1 = 36524 * b + r2" "0 \<le> r2" "r2 < 36524"
    unfolding b_def r2_def by (rule div_mod_parts [of 36524 r1]; simp)+
  have e3: "r2 = 1461 * c + r3" "0 \<le> r3" "r3 < 1461"
    unfolding c_def r3_def by (rule div_mod_parts [of 1461 r2]; simp)+
  have e4: "r3 = 365 * d + r4" "0 \<le> r4" "r4 < 365"
    unfolding d_def r4_def by (rule div_mod_parts [of 365 r3]; simp)+
  have rng: "0 \<le> b" "b \<le> 4" "0 \<le> c" "c \<le> 24" "0 \<le> d" "d \<le> 4"
    using e1 e2 e3 e4 by linarith+
  let ?y = "a * 400 + b * 100 + c * 4 + d + 1"
  have F: "fromordinal n =
    (if d = 4 \<or> b = 4 then Date (?y - 1) 12 31
     else Date ?y (month_at ?y r4) (r4 - days_before_month ?y (month_at ?y r4) + 1))"
    unfolding fromordinal_def Let_def r4_def d_def r3_def c_def r2_def b_def r1_def a_def r0_def ..
  consider (norm) "d \<noteq> 4" "b \<noteq> 4" | (four) "d = 4" "b \<noteq> 4" | (cent) "b = 4" by blast
  then show ?thesis
  proof cases
    case norm
    then have "days_before_year ?y = a * 146097 + b * 36524 + c * 1461 + d * 365"
      using rng by (intro days_before_year_parts) auto
    then show ?thesis
      using norm fromordinal_in_year [of r4 ?y] e1 e2 e3 e4 r0_def by (simp add: F)
  next
    case four
    have c23: "c \<le> 23" and r4: "r4 = 0" using four e2 e3 e4 rng by linarith+
    let ?z = "a * 400 + b * 100 + c * 4 + 3 + 1"
    have "?z mod 100 = (c * 4 + 4) mod 100"
    proof -
      have "?z = (c * 4 + 4) + 100 * (a * 4 + b)" by simp
      then show ?thesis by (metis mod_mult_self2)
    qed
    also have "\<dots> = c * 4 + 4" using c23 rng by (intro mod_pos_pos_trivial) auto
    finally have l: "leap ?z" using rng by (intro leap_parts [where q = "a * 100 + b * 25 + c + 1"]) auto
    have "days_before_year ?z = a * 146097 + b * 36524 + c * 1461 + 3 * 365"
      using rng four by (intro days_before_year_parts) auto
    then have n: "days_before_year ?z + 366 = n" using four r4 e1 e2 e3 e4 r0_def by linarith
    have "fromordinal n = Date ?z 12 31" unfolding F using four by simp
    then show ?thesis using dec31 [OF l] n by simp
  next
    case cent
    have z: "r2 = 0" "c = 0" "d = 0" "r3 = 0" "r4 = 0" using cent e1 e2 e3 e4 rng by linarith+
    let ?z = "a * 400 + 3 * 100 + 24 * 4 + 3 + 1"
    have l: "leap ?z"
      by (intro leap_parts [where q = "a * 100 + 100"]) auto
    have "days_before_year ?z = a * 146097 + 3 * 36524 + 24 * 1461 + 3 * 365"
      by (intro days_before_year_parts) auto
    then have n: "days_before_year ?z + 366 = n" using cent z e1 e2 r0_def by linarith
    have "fromordinal n = Date ?z 12 31" unfolding F using cent z by simp
    then show ?thesis using dec31 [OF l] n by simp
  qed
qed

lemma fromordinal_toordinal: "valid_ymd d \<Longrightarrow> fromordinal (toordinal d) = d"
  using fromordinal_correct toordinal_inj by blast

lemma fromordinal_le_iff [simp]: "fromordinal n \<le> fromordinal m \<longleftrightarrow> n \<le> m"
  using toordinal_le_iff fromordinal_correct by metis

lemma fromordinal_less_iff [simp]: "fromordinal n < fromordinal m \<longleftrightarrow> n < m"
  using toordinal_less_iff fromordinal_correct by metis

lemma fromordinal_inj [simp]: "fromordinal n = fromordinal m \<longleftrightarrow> n = m"
  using fromordinal_correct by metis

lemma valid_fromordinal: "1 \<le> n \<Longrightarrow> n \<le> max_ordinal \<Longrightarrow> valid_date (fromordinal n)"
proof -
  assume n: "1 \<le> n" "n \<le> max_ordinal"
  have one: "fromordinal 1 = Date 1 1 1" and top: "fromordinal max_ordinal = Date 9999 12 31"
    by (simp_all add: fromordinal_def month_at_def days_before_month_def max_ordinal_def leap_def)
  have "fromordinal 1 \<le> fromordinal n" "fromordinal n \<le> fromordinal max_ordinal"
    using n by simp_all
  then show ?thesis using fromordinal_correct [of n]
    unfolding one top by (auto simp: valid_date_def less_eq_date_def)
qed

lemma valid_date_ordinal:
  assumes "valid_date d"
  shows "1 \<le> toordinal d" and "toordinal d \<le> max_ordinal"
proof -
  have lo: "Date 1 1 1 \<le> d" and hi: "d \<le> Date 9999 12 31" and v: "valid_ymd d"
    using assms by (auto simp: valid_date_def valid_ymd_def less_eq_date_def days_in_month_def
        split: if_splits)
  have "valid_ymd (Date 1 1 1)" "valid_ymd (Date 9999 12 31)"
    by (simp_all add: valid_ymd_def days_in_month_def)
  with lo hi v have "toordinal (Date 1 1 1) \<le> toordinal d" "toordinal d \<le> toordinal (Date 9999 12 31)"
    by (simp_all add: toordinal_le_iff)
  then show "1 \<le> toordinal d" "toordinal d \<le> max_ordinal"
    by (simp_all add: toordinal_def days_before_year_def days_before_month_def max_ordinal_def leap_def)
qed

lemma add_days_Inr:
  "add_days d n = Inr e \<Longrightarrow> valid_date e \<and> toordinal e = toordinal d + n"
  using valid_fromordinal fromordinal_correct by (auto simp: add_days_def Let_def split: if_splits)

end
