(* ===== verification/Bytes.thy ===== *)
theory Bytes
  imports Dates
begin

text \<open>
  Byte strings and the text encodings the audit trail hashes: big-endian lengths, UTF-8, decimal
  numbers, the 8-4-4-4-12 form of a UUID and the fixed-width UTC timestamp. Each comes with the
  fact that it can be read back, which is what the hash chain rests on.
\<close>

type_synonym byte = "8 word"
type_synonym bytes = "byte list"

fun be_bytes :: "nat \<Rightarrow> nat \<Rightarrow> bytes" where
  "be_bytes 0 n = []"
| "be_bytes (Suc k) n = be_bytes k (n div 256) @ [of_nat (n mod 256)]"

lemma length_be_bytes [simp]: "length (be_bytes k n) = k"
  by (induction k arbitrary: n) auto

lemma byte_of_nat_inj: "a < 256 \<Longrightarrow> b < 256 \<Longrightarrow> (of_nat a :: byte) = of_nat b \<Longrightarrow> a = b"
  by (drule arg_cong [where f = unat]) (simp add: unat_of_nat)

lemma be_bytes_inj:
  "n < 256 ^ k \<Longrightarrow> m < 256 ^ k \<Longrightarrow> be_bytes k n = be_bytes k m \<Longrightarrow> n = m"
proof (induction k arbitrary: n m)
  case 0
  then show ?case by simp
next
  case (Suc k)
  have "n div 256 = m div 256"
    using Suc.prems by (intro Suc.IH) (auto simp: less_mult_imp_div_less)
  moreover have "n mod 256 = m mod 256"
    using Suc.prems by (intro byte_of_nat_inj) auto
  ultimately show ?case by (metis div_mult_mod_eq)
qed

subsection \<open>UTF-8\<close>

definition utf8_char :: "char \<Rightarrow> bytes" where
  "utf8_char c =
     (let n = of_char c in
      if n < 128 then [of_nat n] else [of_nat (192 + n div 64), of_nat (128 + n mod 64)])"

definition utf8 :: "string \<Rightarrow> bytes" where
  "utf8 s = concat (map utf8_char s)"

lemma of_char_lt: "(of_char c :: nat) < 256"
  by (metis of_char_mod_256 mod_less_divisor zero_less_numeral)

lemma utf8_char_prefix:
  assumes "utf8_char c @ r = utf8_char d @ s"
  shows "c = d \<and> r = s"
proof -
  let ?n = "of_char c :: nat" and ?m = "of_char d :: nat"
  have lt: "?n < 256" "?m < 256" by (rule of_char_lt)+
  then have nm: "?n div 64 < 4" "?m div 64 < 4" "?n mod 64 < 64" "?m mod 64 < 64" "?n < 256" "?m < 256"
    by (simp_all add: less_mult_imp_div_less)
  have inj: "a = b" if "a < 256" "b < 256" "(of_nat a :: byte) = of_nat b" for a b
    using that by (rule byte_of_nat_inj)
  have "?n = ?m \<and> r = s"
  proof (cases "?n < 128")
    case n: True
    show ?thesis
    proof (cases "?m < 128")
      case True
      with n assms inj [of ?n ?m] nm show ?thesis by (auto simp: utf8_char_def Let_def)
    next
      case False
      with n assms nm have "?n = 192 + ?m div 64"
        by (intro inj) (auto simp: utf8_char_def Let_def)
      with n show ?thesis by simp
    qed
  next
    case n: False
    show ?thesis
    proof (cases "?m < 128")
      case True
      with n assms nm have "192 + ?n div 64 = ?m"
        by (intro inj) (auto simp: utf8_char_def Let_def)
      with True show ?thesis by simp
    next
      case False
      with n assms have h: "(of_nat (192 + ?n div 64) :: byte) = of_nat (192 + ?m div 64)"
        "(of_nat (128 + ?n mod 64) :: byte) = of_nat (128 + ?m mod 64)" "r = s"
        by (simp_all add: utf8_char_def Let_def)
      have "192 + ?n div 64 = 192 + ?m div 64" using nm h(1) by (intro inj) auto
      moreover have "128 + ?n mod 64 = 128 + ?m mod 64" using nm h(2)
        by (intro inj) auto
      ultimately show ?thesis using h(3) by (metis add_left_cancel div_mult_mod_eq)
    qed
  qed
  then show ?thesis by (metis char_of_char)
qed

lemma utf8_char_ne [simp]: "utf8_char c \<noteq> []"
  by (simp add: utf8_char_def Let_def)

lemma utf8_inj: "utf8 s = utf8 t \<Longrightarrow> s = t"
proof (induction s arbitrary: t)
  case Nil
  then show ?case by (cases t) (auto simp: utf8_def)
next
  case (Cons c s)
  then obtain d t' where t: "t = d # t'" by (cases t) (auto simp: utf8_def)
  with Cons.prems have "utf8_char c @ utf8 s = utf8_char d @ utf8 t'" by (simp add: utf8_def)
  then have "c = d" "utf8 s = utf8 t'" using utf8_char_prefix by blast+
  with Cons.IH t show ?case by simp
qed

subsection \<open>Decimal numbers\<close>

lemma nat_str_inj: "nat_str n = nat_str m \<Longrightarrow> n = m"
  by (metis parse_nat_nat_str)

lemma minus_not_digit [simp]: "\<not> is_digit (CHR ''-'')"
  by (simp add: is_digit_def less_eq_char_def)

lemma nat_str_no_minus: "CHR ''-'' \<notin> set (nat_str n)"
  using nat_str_digits minus_not_digit by blast

lemma int_str_inj: "int_str i = int_str j \<Longrightarrow> i = j"
proof -
  assume e: "int_str i = int_str j"
  have no: "nat_str n \<noteq> CHR ''-'' # x" for n x
    using nat_str_no_minus [of n] by auto
  show "i = j"
    using e no no [symmetric] by (auto simp: int_str_def dest!: nat_str_inj split: if_splits)
qed

definition pad :: "nat \<Rightarrow> nat \<Rightarrow> string" where
  "pad k n = replicate (k - length (nat_str n)) (CHR ''0'') @ nat_str n"

lemma parse_nat_pad [simp]: "parse_nat (pad k n) = n"
  by (simp add: pad_def parse_nat_append_zeros)

lemma pad_inj: "pad k n = pad k m \<Longrightarrow> n = m"
  by (metis parse_nat_pad)

lemma pad_digits: "c \<in> set (pad k n) \<Longrightarrow> is_digit c"
  using nat_str_digits by (auto simp: pad_def is_digit_def less_eq_char_def split: if_splits)

lemma length_nat_str_le: "n < 10 ^ k \<Longrightarrow> 1 \<le> k \<Longrightarrow> length (nat_str n) \<le> k"
proof (induction n arbitrary: k rule: nat_str.induct)
  case (1 n)
  show ?case
  proof (cases "n < 10")
    case True
    with "1.prems" show ?thesis by (subst nat_str.simps) simp
  next
    case False
    then obtain k' where k: "k = Suc k'" "1 \<le> k'" using "1.prems"
      by (cases k; cases "k - 1") auto
    then have "length (nat_str (n div 10)) \<le> k'"
      using "1.prems" False by (intro "1.IH") (auto simp: less_mult_imp_div_less)
    then show ?thesis using False k by (subst nat_str.simps) simp
  qed
qed

lemma length_pad: "n < 10 ^ k \<Longrightarrow> 1 \<le> k \<Longrightarrow> length (pad k n) = k"
  using length_nat_str_le [of n k] by (simp add: pad_def)

lemma digits_sep:
  assumes "\<forall>c \<in> set u. is_digit c" "\<forall>c \<in> set v. is_digit c" "\<not> is_digit x" "\<not> is_digit y"
    and "u @ x # r = v @ y # s"
  shows "u = v \<and> x = y \<and> r = s"
proof -
  have "takeWhile is_digit (u @ x # r) = u" "takeWhile is_digit (v @ y # s) = v"
    using assms(1-4) by (auto simp: takeWhile_append2)
  with assms(5) have "u = v" by simp
  with assms(5) show ?thesis by simp
qed

subsection \<open>UUIDs\<close>

fun hex_fixed :: "nat \<Rightarrow> nat \<Rightarrow> string" where
  "hex_fixed 0 n = []"
| "hex_fixed (Suc k) n = hex_fixed k (n div 16) @ [hex_digit (n mod 16)]"

definition uuid_str :: "uuid \<Rightarrow> string" where
  "uuid_str u = (let h = hex_fixed 32 (unat u) in
     take 8 h @ ''-'' @ take 4 (drop 8 h) @ ''-'' @ take 4 (drop 12 h) @ ''-''
       @ take 4 (drop 16 h) @ ''-'' @ drop 20 h)"

lemma length_hex_fixed [simp]: "length (hex_fixed k n) = k"
  by (induction k arbitrary: n) auto

lemma hex_digits: "\<forall>a \<in> set [0..<16]. \<forall>b \<in> set [0..<16]. hex_digit a = hex_digit b \<longrightarrow> a = b"
  by code_simp

lemma hex_digits_lower: "\<forall>a \<in> set [0..<16]. lower_char (hex_digit a) = hex_digit a"
  by code_simp

lemma hex_digit_inj: "a < 16 \<Longrightarrow> b < 16 \<Longrightarrow> hex_digit a = hex_digit b \<Longrightarrow> a = b"
  using hex_digits by auto

lemma hex_fixed_inj:
  "n < 16 ^ k \<Longrightarrow> m < 16 ^ k \<Longrightarrow> hex_fixed k n = hex_fixed k m \<Longrightarrow> n = m"
proof (induction k arbitrary: n m)
  case 0
  then show ?case by simp
next
  case (Suc k)
  have "n div 16 = m div 16"
    using Suc.prems by (intro Suc.IH) (auto simp: less_mult_imp_div_less)
  moreover have "n mod 16 = m mod 16" using Suc.prems by (intro hex_digit_inj) auto
  ultimately show ?case by (metis div_mult_mod_eq)
qed

lemma lower_hex_fixed: "lower (hex_fixed k n) = hex_fixed k n"
  using hex_digits_lower by (induction k arbitrary: n) (auto simp: lower_def)

lemma lower_uuid_str [simp]: "lower (uuid_str u) = uuid_str u"
proof -
  have "map lower_char h = h \<Longrightarrow> map lower_char (take i (drop j h)) = take i (drop j h)" for h i j
    by (metis drop_map take_map)
  moreover have "map lower_char h = h \<Longrightarrow> map lower_char (drop j h) = drop j h" for h j
    by (metis drop_map)
  moreover have "map lower_char h = h \<Longrightarrow> map lower_char (take j h) = take j h" for h j
    by (metis take_map)
  moreover have "map lower_char (hex_fixed 32 (unat u)) = hex_fixed 32 (unat u)"
    using lower_hex_fixed by (simp add: lower_def)
  moreover have "lower_char (CHR ''-'') = CHR ''-''" by code_simp
  ultimately show ?thesis by (simp add: uuid_str_def Let_def lower_def)
qed

lemma uuid_str_inj: "uuid_str u = uuid_str v \<Longrightarrow> u = v"
proof -
  let ?h = "hex_fixed 32 (unat u)" and ?k = "hex_fixed 32 (unat v)"
  assume "uuid_str u = uuid_str v"
  then have p: "take 8 ?h = take 8 ?k" "take 4 (drop 8 ?h) = take 4 (drop 8 ?k)"
    "take 4 (drop 12 ?h) = take 4 (drop 12 ?k)" "take 4 (drop 16 ?h) = take 4 (drop 16 ?k)"
    "drop 20 ?h = drop 20 ?k"
    by (auto simp: uuid_str_def Let_def append_eq_append_conv)
  have split: "x = take 8 x @ take 4 (drop 8 x) @ take 4 (drop 12 x) @ take 4 (drop 16 x) @ drop 20 x"
    for x :: string
  proof -
    have step: "take k (drop i x) @ drop j x = drop i x" if "j = i + k" for i j k
      using append_take_drop_id [of k "drop i x"] by (simp add: that add.commute)
    show ?thesis using step [of 20 16 4] step [of 16 12 4] step [of 12 8 4] by simp
  qed
  have "?h = ?k" using split [of ?h] split [of ?k] p by metis
  moreover have "unat w < 16 ^ 32" for w :: uuid
    using unsigned_less [of w] by simp
  ultimately have "unat u = unat v" by (intro hex_fixed_inj [of _ 32])
  then show "u = v" by (rule unsigned_word_eqI)
qed

end
