(* ===== verification/AuditCanonical.thy ===== *)
theory AuditCanonical
  imports Bytes
begin

text \<open>
  The canonical serialisation of an audit event (\<open>services/audit/canonical.py\<close>): a version
  preamble and eighteen type-length-value fields. The JSON canonicaliser \<open>rfc8785.dumps\<close> and the
  digest \<open>hashlib.sha256\<close> are the arguments \<open>jcs\<close> and \<open>H\<close>; nothing is assumed of them here.
  Text outside Latin-1 is not modelled.
\<close>

subsection \<open>Codes that can be read back from the front\<close>

locale prefix_code =
  fixes enc :: "'a \<Rightarrow> bytes" and ok :: "'a \<Rightarrow> bool" and canon :: "'a \<Rightarrow> 'b"
  assumes unique: "ok x \<Longrightarrow> ok y \<Longrightarrow> enc x @ r = enc y @ s \<Longrightarrow> canon x = canon y \<and> r = s"
begin

lemma enc_inj: "ok x \<Longrightarrow> ok y \<Longrightarrow> enc x = enc y \<Longrightarrow> canon x = canon y"
  using unique [of x y "[]" "[]"] by simp

lemma sequence_unique:
  "length xs = length ys \<Longrightarrow> \<forall>x \<in> set xs. ok x \<Longrightarrow> \<forall>y \<in> set ys. ok y \<Longrightarrow>
     concat (map enc xs) @ r = concat (map enc ys) @ s \<Longrightarrow> map canon xs = map canon ys \<and> r = s"
proof (induction xs ys rule: list_induct2)
  case Nil
  then show ?case by simp
next
  case (Cons x xs y ys)
  then have "enc x @ (concat (map enc xs) @ r) = enc y @ (concat (map enc ys) @ s)" by simp
  from unique [OF _ _ this] Cons.prems
  have "canon x = canon y" "concat (map enc xs) @ r = concat (map enc ys) @ s" by auto
  with Cons.IH Cons.prems show ?case by simp
qed

end

interpretation utf8_code: prefix_code utf8_char "\<lambda>_. True" "\<lambda>c. c"
  by unfold_locales (rule utf8_char_prefix)

subsection \<open>Type-length-value fields\<close>

definition tlv :: "byte \<Rightarrow> bytes \<Rightarrow> bytes" where
  "tlv tag v = tag # be_bytes 8 (length v) @ v"

definition null_tlv :: bytes where
  "null_tlv = 0 # be_bytes 8 0"

definition text_field :: "string option \<Rightarrow> bytes" where
  "text_field v = (case v of None \<Rightarrow> null_tlv | Some s \<Rightarrow> tlv 1 (utf8 s))"

definition raw_field :: "bytes \<Rightarrow> bytes" where
  "raw_field v = tlv 2 v"

interpretation tlv_code: prefix_code "\<lambda>(t, v). tlv t v" "\<lambda>(t, v). length v < 2 ^ 64" "\<lambda>x. x"
proof
  fix x y :: "byte \<times> bytes" and r s
  obtain t v t' v' where x: "x = (t, v)" "y = (t', v')" by (cases x, cases y) auto
  assume ok: "case x of (t, v) \<Rightarrow> length v < 2 ^ 64" "case y of (t, v) \<Rightarrow> length v < 2 ^ 64"
    and e: "(case x of (t, v) \<Rightarrow> tlv t v) @ r = (case y of (t, v) \<Rightarrow> tlv t v) @ s"
  have h: "t = t'" "be_bytes 8 (length v) = be_bytes 8 (length v')" "v @ r = v' @ s"
    using e by (auto simp: x tlv_def append_eq_append_conv)
  have "length v = length v'" using ok h(2) by (intro be_bytes_inj [of _ 8]) (auto simp: x)
  with h show "x = y \<and> r = s" by (simp add: x)
qed

subsection \<open>Instants\<close>

definition instant_ordinal :: "instant \<Rightarrow> int" where
  "instant_ordinal t = 719163 + t div 86400000000"

definition valid_instant :: "instant \<Rightarrow> bool" where
  "valid_instant t \<longleftrightarrow> 1 \<le> instant_ordinal t \<and> instant_ordinal t \<le> max_ordinal"

definition strftime_utc :: "instant \<Rightarrow> string" where
  "strftime_utc t =
     (let d = fromordinal (instant_ordinal t); us = nat (t mod 86400000000); q = us div 1000000 in
      nat_str (nat (year d)) @ CHR ''-'' # pad 2 (nat (month d)) @ CHR ''-'' # pad 2 (nat (day d))
        @ CHR ''T'' # pad 2 (q div 60 div 60) @ CHR '':'' # pad 2 (q div 60 mod 60)
        @ CHR '':'' # pad 2 (q mod 60) @ CHR ''.'' # pad 6 (us mod 1000000))"

definition timestamp_field :: "instant \<Rightarrow> bytes" where
  "timestamp_field t = text_field (Some (strftime_utc t @ ''Z''))"

lemma micros_inj:
  fixes a b :: nat
  assumes "a div 1000000 div 60 div 60 = b div 1000000 div 60 div 60"
    and "a div 1000000 div 60 mod 60 = b div 1000000 div 60 mod 60"
    and "a div 1000000 mod 60 = b div 1000000 mod 60" and "a mod 1000000 = b mod 1000000"
  shows "a = b"
proof -
  have "a div 1000000 div 60 = b div 1000000 div 60" using assms(1,2) by (metis div_mult_mod_eq)
  with assms(3) have "a div 1000000 = b div 1000000" by (metis div_mult_mod_eq)
  with assms(4) show ?thesis by (metis div_mult_mod_eq)
qed

lemma nat_str_all_digits: "\<forall>c \<in> set (nat_str n). is_digit c"
  using pad_digits [of _ 0 n] by (simp add: pad_def)

lemma pad_all_digits: "\<forall>c \<in> set (pad k n). is_digit c"
  using pad_digits by blast

lemma separators [simp]:
  "\<not> is_digit (CHR ''T'')" "\<not> is_digit (CHR '':'')" "\<not> is_digit (CHR ''.'')" "\<not> is_digit (CHR ''Z'')"
  by code_simp+

lemma nat_str_sep_iff:
  "\<not> is_digit x \<Longrightarrow> nat_str n @ x # r = nat_str m @ x # s \<longleftrightarrow> nat_str n = nat_str m \<and> r = s"
  using digits_sep [OF nat_str_all_digits nat_str_all_digits] by blast

lemma pad_sep_iff:
  "\<not> is_digit x \<Longrightarrow> pad k n @ x # r = pad k m @ x # s \<longleftrightarrow> pad k n = pad k m \<and> r = s"
  using digits_sep [OF pad_all_digits pad_all_digits] by blast

lemma strftime_utc_inj:
  assumes v: "valid_instant t" "valid_instant t'"
    and e: "strftime_utc t @ ''Z'' = strftime_utc t' @ ''Z''"
  shows "t = t'"
proof -
  let ?d = "fromordinal (instant_ordinal t)" and ?d' = "fromordinal (instant_ordinal t')"
  let ?u = "nat (t mod 86400000000)" and ?u' = "nat (t' mod 86400000000)"
  have p: "nat_str (nat (year ?d)) = nat_str (nat (year ?d'))"
    "pad 2 (nat (month ?d)) = pad 2 (nat (month ?d'))" "pad 2 (nat (day ?d)) = pad 2 (nat (day ?d'))"
    "pad 2 (?u div 1000000 div 60 div 60) = pad 2 (?u' div 1000000 div 60 div 60)"
    "pad 2 (?u div 1000000 div 60 mod 60) = pad 2 (?u' div 1000000 div 60 mod 60)"
    "pad 2 (?u div 1000000 mod 60) = pad 2 (?u' div 1000000 mod 60)"
    "pad 6 (?u mod 1000000) = pad 6 (?u' mod 1000000)"
    using e by (simp_all add: strftime_utc_def Let_def nat_str_sep_iff pad_sep_iff)
  have "valid_date ?d" "valid_date ?d'" using v by (auto simp: valid_instant_def intro: valid_fromordinal)
  then have pos: "1 \<le> year ?d" "1 \<le> month ?d" "1 \<le> day ?d" "1 \<le> year ?d'" "1 \<le> month ?d'" "1 \<le> day ?d'"
    by (auto simp: valid_date_def valid_ymd_def)
  have "nat (year ?d) = nat (year ?d')" "nat (month ?d) = nat (month ?d')" "nat (day ?d) = nat (day ?d')"
    using p(1-3) by (auto dest: nat_str_inj pad_inj)
  with pos have "?d = ?d'" by (intro date.expand) (simp add: nat_eq_iff)
  then have "t div 86400000000 = t' div 86400000000" by (simp add: instant_ordinal_def)
  moreover have "?u = ?u'" by (rule micros_inj [OF pad_inj [OF p(4)] pad_inj [OF p(5)] pad_inj [OF p(6)] pad_inj [OF p(7)]])
  then have "t mod 86400000000 = t' mod 86400000000"
    using eq_nat_nat_iff [of "t mod 86400000000" "t' mod 86400000000"] by simp
  ultimately show ?thesis by (metis div_mult_mod_eq)
qed

subsection \<open>The hashed projection of an audit event\<close>

record audit_row =
  row_id :: int
  row_org :: uuid
  occurred_at :: instant
  actor_id :: "uuid option"
  actor_type :: string
  event_type :: string
  object_type :: string
  object_id :: "uuid option"
  scope_ref :: "string option"
  reason :: "string option"
  before :: "dict option"
  after :: "dict option"
  request_id :: "uuid option"
  client_ip :: "string option"
  user_agent :: "string option"
  auth_context :: "dict option"
  signature_event_id :: "uuid option"

definition uuid_field :: "uuid option \<Rightarrow> bytes" where
  "uuid_field v = text_field (map_option (\<lambda>u. lower (uuid_str u)) v)"

definition bigint_field :: "int \<Rightarrow> bytes" where
  "bigint_field v = text_field (Some (int_str v))"

definition json_field :: "(dict \<Rightarrow> (py_error, bytes) result) \<Rightarrow> dict option \<Rightarrow> (py_error, bytes) result" where
  "json_field jcs v = (case v of None \<Rightarrow> Inr null_tlv | Some d \<Rightarrow> bind_res (jcs d) (\<lambda>b. Inr (tlv 1 b)))"

definition rsplit_head :: "char \<Rightarrow> string \<Rightarrow> string" where
  "rsplit_head c s = (if c \<in> set s then rev (tl (dropWhile (\<lambda>d. d \<noteq> c) (rev s))) else s)"

definition canonical_inet :: "string option \<Rightarrow> string option" where
  "canonical_inet v = map_option (\<lambda>t. if ends_with t ''/32'' \<or> ends_with t ''/128''
     then rsplit_head (CHR ''/'') t else t) v"

definition preamble :: bytes where
  "preamble = utf8 (''easysynq.audit.v1'' @ [CHR 0x0A])"

definition genesis_hash :: bytes where
  "genesis_hash = replicate 32 0"

definition canonical_serialize ::
    "(dict \<Rightarrow> (py_error, bytes) result) \<Rightarrow> audit_row \<Rightarrow> bytes \<Rightarrow> int \<Rightarrow> (py_error, bytes) result" where
  "canonical_serialize jcs row prev version =
     (if version \<noteq> 1 then Inl ValueError else
      bind_res (json_field jcs (before row)) (\<lambda>jb.
      bind_res (json_field jcs (after row)) (\<lambda>ja.
      bind_res (json_field jcs (auth_context row)) (\<lambda>jc.
      Inr (preamble @ concat
        [bigint_field (row_id row), uuid_field (Some (row_org row)), timestamp_field (occurred_at row),
         uuid_field (actor_id row), text_field (Some (actor_type row)), text_field (Some (event_type row)),
         text_field (Some (object_type row)), uuid_field (object_id row), text_field (scope_ref row),
         text_field (reason row), jb, ja, uuid_field (request_id row),
         text_field (canonical_inet (client_ip row)), text_field (user_agent row), jc,
         uuid_field (signature_event_id row), raw_field prev])))))"

definition compute_row_hash ::
    "(bytes \<Rightarrow> bytes) \<Rightarrow> (dict \<Rightarrow> (py_error, bytes) result) \<Rightarrow> audit_row \<Rightarrow> bytes \<Rightarrow> int
       \<Rightarrow> (py_error, bytes) result" where
  "compute_row_hash H jcs row prev version =
     bind_res (canonical_serialize jcs row prev version) (\<lambda>b. Inr (H b))"

subsection \<open>The serialisation is injective\<close>

definition text_item :: "string option \<Rightarrow> byte \<times> bytes" where
  "text_item v = (case v of None \<Rightarrow> (0, []) | Some s \<Rightarrow> (1, utf8 s))"

definition json_item :: "(dict \<Rightarrow> (py_error, bytes) result) \<Rightarrow> dict option \<Rightarrow> byte \<times> bytes" where
  "json_item jcs v = (case v of None \<Rightarrow> (0, []) | Some d \<Rightarrow> (1, case jcs d of Inl _ \<Rightarrow> [] | Inr b \<Rightarrow> b))"

definition row_items ::
    "(dict \<Rightarrow> (py_error, bytes) result) \<Rightarrow> audit_row \<Rightarrow> bytes \<Rightarrow> (byte \<times> bytes) list" where
  "row_items jcs row prev =
     (let uuid_item = (\<lambda>v. text_item (map_option (\<lambda>u. lower (uuid_str u)) v)) in
     [text_item (Some (int_str (row_id row))), uuid_item (Some (row_org row)),
      text_item (Some (strftime_utc (occurred_at row) @ ''Z'')), uuid_item (actor_id row),
      text_item (Some (actor_type row)), text_item (Some (event_type row)),
      text_item (Some (object_type row)), uuid_item (object_id row), text_item (scope_ref row),
      text_item (reason row), json_item jcs (before row), json_item jcs (after row),
      uuid_item (request_id row), text_item (canonical_inet (client_ip row)),
      text_item (user_agent row), json_item jcs (auth_context row),
      uuid_item (signature_event_id row), (2, prev)])"

text \<open>A row the serialiser is meant for: its instant is a Python datetime and every value is shorter
than the eight-byte length prefix can say.\<close>

definition wf_row :: "(dict \<Rightarrow> (py_error, bytes) result) \<Rightarrow> audit_row \<Rightarrow> bytes \<Rightarrow> bool" where
  "wf_row jcs row prev \<longleftrightarrow> valid_instant (occurred_at row)
     \<and> (\<forall>(t, v) \<in> set (row_items jcs row prev). length v < 2 ^ 64)"

text \<open>What the bytes determine: every hashed field, the address up to its host suffix and the JSON
columns up to their JCS text.\<close>

definition same_row :: "(dict \<Rightarrow> (py_error, bytes) result) \<Rightarrow> audit_row \<Rightarrow> audit_row \<Rightarrow> bool" where
  "same_row jcs r s \<longleftrightarrow> row_id r = row_id s \<and> row_org r = row_org s \<and> occurred_at r = occurred_at s
     \<and> actor_id r = actor_id s \<and> actor_type r = actor_type s \<and> event_type r = event_type s
     \<and> object_type r = object_type s \<and> object_id r = object_id s \<and> scope_ref r = scope_ref s
     \<and> reason r = reason s \<and> map_option jcs (before r) = map_option jcs (before s)
     \<and> map_option jcs (after r) = map_option jcs (after s) \<and> request_id r = request_id s
     \<and> canonical_inet (client_ip r) = canonical_inet (client_ip s) \<and> user_agent r = user_agent s
     \<and> map_option jcs (auth_context r) = map_option jcs (auth_context s)
     \<and> signature_event_id r = signature_event_id s"

lemma text_field_item: "text_field v = (case text_item v of (t, b) \<Rightarrow> tlv t b)"
  by (simp add: text_field_def text_item_def tlv_def null_tlv_def split: option.split)

lemma json_field_item:
  "json_field jcs v = Inr b \<Longrightarrow> b = (case json_item jcs v of (t, c) \<Rightarrow> tlv t c)"
  by (auto simp: json_field_def json_item_def tlv_def null_tlv_def split: option.splits sum.splits)

lemma json_field_ok: "json_field jcs v = Inr b \<Longrightarrow> v = Some d \<Longrightarrow> \<exists>c. jcs d = Inr c"
  by (auto simp: json_field_def)

lemma text_item_eq: "text_item v = text_item w \<longleftrightarrow> v = w"
  by (auto simp: text_item_def dest: utf8_inj split: option.splits)

lemma uuid_str_eq: "uuid_str u = uuid_str v \<longleftrightarrow> u = v"
  using uuid_str_inj by blast

lemma map_uuid_str_eq: "map_option uuid_str v = map_option uuid_str w \<longleftrightarrow> v = w"
  by (cases v; cases w) (auto simp: uuid_str_eq)

lemma int_str_eq: "int_str i = int_str j \<longleftrightarrow> i = j"
  using int_str_inj by blast

lemmas item_eqs = text_item_eq uuid_str_eq map_uuid_str_eq int_str_eq

lemma json_item_inj:
  assumes "json_item jcs v = json_item jcs w" "json_field jcs v = Inr b" "json_field jcs w = Inr c"
  shows "map_option jcs v = map_option jcs w"
  using assms by (auto simp: json_item_def json_field_def split: option.splits sum.splits)

lemma canonical_serialize_Inr:
  assumes "canonical_serialize jcs row prev version = Inr b"
  obtains x y z where "json_field jcs (before row) = Inr x" "json_field jcs (after row) = Inr y"
    "json_field jcs (auth_context row) = Inr z"
    "b = preamble @ concat (map (\<lambda>(t, v). tlv t v) (row_items jcs row prev))"
proof -
  obtain x y z where j: "json_field jcs (before row) = Inr x" "json_field jcs (after row) = Inr y"
    "json_field jcs (auth_context row) = Inr z"
    using assms by (auto simp: canonical_serialize_def split: if_splits)
  then have "b = preamble @ concat (map (\<lambda>(t, v). tlv t v) (row_items jcs row prev))"
    using assms json_field_item [OF j(1)] json_field_item [OF j(2)] json_field_item [OF j(3)]
    by (simp add: canonical_serialize_def row_items_def Let_def bigint_field_def uuid_field_def
        timestamp_field_def raw_field_def text_field_item split: if_splits)
  with j that show ?thesis by blast
qed

lemma length_row_items [simp]: "length (row_items jcs row prev) = 18"
  by (simp add: row_items_def Let_def)

lemma row_items_inj:
  assumes "row_items jcs r p = row_items jcs s q"
    and "json_field jcs (before r) = Inr x" "json_field jcs (after r) = Inr y"
    and "json_field jcs (auth_context r) = Inr z"
    and "json_field jcs (before s) = Inr x'" "json_field jcs (after s) = Inr y'"
    and "json_field jcs (auth_context s) = Inr z'"
    and "valid_instant (occurred_at r)" "valid_instant (occurred_at s)"
  shows "p = q \<and> same_row jcs r s"
proof -
  have j: "json_item jcs (before r) = json_item jcs (before s)" "json_item jcs (after r) = json_item jcs (after s)"
    "json_item jcs (auth_context r) = json_item jcs (auth_context s)"
    "strftime_utc (occurred_at r) @ ''Z'' = strftime_utc (occurred_at s) @ ''Z''"
    using assms(1) by (simp_all add: row_items_def item_eqs)
  then have t: "occurred_at r = occurred_at s" using assms(8,9) by (intro strftime_utc_inj)
  show ?thesis
    using assms(1) t json_item_inj [OF j(1) assms(2,5)] json_item_inj [OF j(2) assms(3,6)]
      json_item_inj [OF j(3) assms(4,7)]
    by (simp add: row_items_def same_row_def item_eqs)
qed

lemma canonical_serialize_inj:
  assumes "canonical_serialize jcs r p v = Inr b" "canonical_serialize jcs s q w = Inr b"
    and wf: "wf_row jcs r p" "wf_row jcs s q"
  shows "p = q \<and> same_row jcs r s"
proof -
  obtain x y z where r: "json_field jcs (before r) = Inr x" "json_field jcs (after r) = Inr y"
    "json_field jcs (auth_context r) = Inr z"
    "b = preamble @ concat (map (\<lambda>(t, v). tlv t v) (row_items jcs r p))"
    using assms(1) by (rule canonical_serialize_Inr)
  obtain x' y' z' where s: "json_field jcs (before s) = Inr x'" "json_field jcs (after s) = Inr y'"
    "json_field jcs (auth_context s) = Inr z'"
    "b = preamble @ concat (map (\<lambda>(t, v). tlv t v) (row_items jcs s q))"
    using assms(2) by (rule canonical_serialize_Inr)
  have "concat (map (\<lambda>(t, v). tlv t v) (row_items jcs r p)) @ []
      = concat (map (\<lambda>(t, v). tlv t v) (row_items jcs s q)) @ []"
    using r(4) s(4) by simp
  then have "map (\<lambda>x. x) (row_items jcs r p) = map (\<lambda>x. x) (row_items jcs s q) \<and> ([]::bytes) = []"
    using wf by (intro tlv_code.sequence_unique) (auto simp: wf_row_def)
  then have "row_items jcs r p = row_items jcs s q" by simp
  with r s wf show ?thesis by (intro row_items_inj) (auto simp: wf_row_def)
qed

lemma compute_row_hash_inj:
  assumes "compute_row_hash H jcs r p v = Inr h" "compute_row_hash H jcs s q w = Inr h"
    and "wf_row jcs r p" "wf_row jcs s q"
    and "\<And>b c. canonical_serialize jcs r p v = Inr b \<Longrightarrow> canonical_serialize jcs s q w = Inr c \<Longrightarrow> H b = H c \<Longrightarrow> b = c"
  shows "p = q \<and> same_row jcs r s"
proof -
  obtain b c where "canonical_serialize jcs r p v = Inr b" "canonical_serialize jcs s q w = Inr c" "H b = H c"
    using assms(1,2) by (auto simp: compute_row_hash_def)
  with assms(3-5) show ?thesis by (metis canonical_serialize_inj)
qed

subsection \<open>Lengths\<close>

lemma utf8_length: "length (utf8 s) \<le> 2 * length s"
  by (induction s) (auto simp: utf8_def utf8_char_def Let_def)

lemma length_uuid_str [simp]: "length (uuid_str u) = 36"
  by (simp add: uuid_str_def Let_def)

lemma canonical_inet_length: "canonical_inet (Some t) = Some u \<Longrightarrow> length u \<le> length t"
  using length_dropWhile_le [of "\<lambda>d. d \<noteq> CHR ''/''" "rev t"]
  by (auto simp: canonical_inet_def rsplit_head_def)

lemma length_pad2: "n < 100 \<Longrightarrow> length (pad 2 n) = 2"
  by (rule length_pad) auto

lemma length_pad6: "n < 1000000 \<Longrightarrow> length (pad 6 n) = 6"
  by (rule length_pad) auto

lemma strftime_length:
  assumes "valid_instant t"
  shows "length (strftime_utc t) \<le> 26"
proof -
  let ?d = "fromordinal (instant_ordinal t)" and ?u = "nat (t mod 86400000000)"
  have "valid_date ?d" using assms by (auto simp: valid_instant_def intro: valid_fromordinal)
  then have d: "1 \<le> year ?d" "year ?d \<le> 9999" "1 \<le> month ?d" "month ?d \<le> 12" "1 \<le> day ?d" "day ?d \<le> 31"
    by (auto simp: valid_date_def valid_ymd_def days_in_month_def split: if_splits)
  have "?u < 100 * 3600000000" by (simp add: nat_less_iff pos_mod_bound [THEN less_le_trans])
  then have "?u div 3600000000 < 100" by (rule less_mult_imp_div_less)
  then have "length (pad 2 (?u div 1000000 div 60 div 60)) = 2"
    by (intro length_pad2) (simp add: div_mult2_eq [symmetric])
  moreover have "length (nat_str (nat (year ?d))) \<le> 4" using d by (intro length_nat_str_le) auto
  moreover have "length (pad 2 (nat (month ?d))) = 2" using d by (intro length_pad2) auto
  moreover have "length (pad 2 (nat (day ?d))) = 2" using d by (intro length_pad2) auto
  moreover have "length (pad 6 (?u mod 1000000)) = 6" by (intro length_pad6) simp
  moreover have "m mod 60 < 100" for m :: nat using mod_less_divisor [of 60 m] by linarith
  then have "length (pad 2 (m mod 60)) = 2" for m by (intro length_pad2)
  ultimately show ?thesis by (simp add: strftime_utc_def Let_def)
qed

end
