(* ===== verification/AuditChain.thy ===== *)
theory AuditChain
  imports AuditCanonical
begin

text \<open>
  The per-organisation hash chain over \<open>audit_event\<close>: the linker that stamps rows
  (\<open>services/audit/linker.py\<close>: \<open>_seed_prev_hash\<close>, \<open>link_org_chain\<close>) and the verifier that re-walks
  them (\<open>services/audit/verify.py\<close>). The table is a list of events; a query is a filter and a sort on
  the id. One snapshot serves a whole call: concurrent writers are the subject of the watermark theory. The clock read once per batch is a function of the rows linked before it.
\<close>

subsection \<open>The table\<close>

record audit_event =
  ev_row :: audit_row
  ev_prev :: "bytes option"
  ev_hash :: "bytes option"
  ev_chained_at :: "instant option"

type_synonym event_table = "audit_event list"

abbreviation ev_id :: "audit_event \<Rightarrow> int" where
  "ev_id e \<equiv> row_id (ev_row e)"

definition org_linked :: "uuid \<Rightarrow> event_table \<Rightarrow> audit_event list" where
  "org_linked org db = sort_key ev_id (filter (\<lambda>e. row_org (ev_row e) = org \<and> ev_chained_at e \<noteq> None) db)"

definition org_unlinked :: "uuid \<Rightarrow> int \<Rightarrow> event_table \<Rightarrow> audit_event list" where
  "org_unlinked org max_id db =
     sort_key ev_id (filter (\<lambda>e. row_org (ev_row e) = org \<and> ev_chained_at e = None \<and> ev_id e \<le> max_id) db)"

definition put_events :: "audit_event list \<Rightarrow> event_table \<Rightarrow> event_table" where
  "put_events es db =
     map (\<lambda>e. case map_of (map (\<lambda>s. (ev_id s, s)) es) (ev_id e) of None \<Rightarrow> e | Some s \<Rightarrow> s) db"

subsection \<open>The linker\<close>

definition seed_prev_hash :: "uuid \<Rightarrow> event_table \<Rightarrow> bytes" where
  "seed_prev_hash org db =
     (case rev (org_linked org db) of [] \<Rightarrow> genesis_hash
      | e # _ \<Rightarrow> (case ev_hash e of None \<Rightarrow> genesis_hash | Some h \<Rightarrow> h))"

fun stamp_batch ::
    "(bytes \<Rightarrow> bytes) \<Rightarrow> (dict \<Rightarrow> (py_error, bytes) result) \<Rightarrow> instant \<Rightarrow> bytes \<Rightarrow> audit_event list
       \<Rightarrow> (py_error, audit_event list \<times> bytes) result" where
  "stamp_batch H jcs now prev [] = Inr ([], prev)"
| "stamp_batch H jcs now prev (e # es) =
     bind_res (compute_row_hash H jcs (ev_row e) prev 1) (\<lambda>digest.
     bind_res (stamp_batch H jcs now digest es) (\<lambda>(es', p).
     Inr (e\<lparr>ev_prev := Some prev, ev_hash := Some digest, ev_chained_at := Some now\<rparr> # es', p)))"

definition link_batch_size :: nat where
  "link_batch_size = 500"

lemma stamp_batch_chained:
  "stamp_batch H jcs now prev es = Inr (es', p) \<Longrightarrow>
     map ev_row es' = map ev_row es \<and> (\<forall>e \<in> set es'. ev_chained_at e = Some now)"
  by (induction es arbitrary: prev es' p) auto

lemma filter_map_le:
  "(\<And>x. P (g x) \<Longrightarrow> P x) \<Longrightarrow> length (filter P (map g xs)) \<le> length (filter P xs)"
  by (induction xs) (auto simp: le_SucI)

lemma filter_map_less:
  assumes "\<And>x. P (g x) \<Longrightarrow> P x" "e \<in> set xs" "P e" "\<not> P (g e)"
  shows "length (filter P (map g xs)) < length (filter P xs)"
proof -
  obtain us vs where "xs = us @ e # vs" using split_list [OF assms(2)] by blast
  then show ?thesis
    using filter_map_le [of P g us] filter_map_le [of P g vs] assms by (simp add: less_Suc_eq_le)
qed

lemma put_events_unlinked:
  assumes "stamp_batch H jcs now prev (take k (org_unlinked org m db)) = Inr (es, p)"
    and "take k (org_unlinked org m db) \<noteq> []"
  shows "length (org_unlinked org m (put_events es db)) < length (org_unlinked org m db)"
proof -
  let ?P = "\<lambda>e. row_org (ev_row e) = org \<and> ev_chained_at e = None \<and> ev_id e \<le> m"
  let ?g = "\<lambda>e. case map_of (map (\<lambda>s. (ev_id s, s)) es) (ev_id e) of None \<Rightarrow> e | Some s \<Rightarrow> s"
  have ch: "\<forall>e \<in> set es. ev_chained_at e = Some now" and ids: "map ev_row es = map ev_row (take k (org_unlinked org m db))"
    using stamp_batch_chained [OF assms(1)] by auto
  have g: "?P (?g e) \<Longrightarrow> ?P e" for e
    using ch by (auto dest!: map_of_SomeD split: option.splits)
  obtain e where e: "e \<in> set (take k (org_unlinked org m db))" using assms(2) by (meson list.set_sel(1))
  then have "e \<in> set db" "?P e" by (auto simp: org_unlinked_def dest!: in_set_takeD)
  have "ev_row e \<in> set (map ev_row es)" using e ids by auto
  then obtain x where "x \<in> set es" "ev_id e = ev_id x" by auto
  then have "map_of (map (\<lambda>s. (ev_id s, s)) es) (ev_id e) \<noteq> None"
    by (simp add: map_of_eq_None_iff image_image)
  then obtain s where s: "map_of (map (\<lambda>s. (ev_id s, s)) es) (ev_id e) = Some s" by auto
  then have "s \<in> set es" by (auto dest!: map_of_SomeD)
  with s have ne: "\<not> ?P (?g e)" using ch by simp
  have "length (filter ?P (map ?g db)) < length (filter ?P db)"
    using g \<open>e \<in> set db\<close> \<open>?P e\<close> ne by (rule filter_map_less)
  then show ?thesis by (simp add: org_unlinked_def put_events_def)
qed

function link_loop ::
    "(bytes \<Rightarrow> bytes) \<Rightarrow> (dict \<Rightarrow> (py_error, bytes) result) \<Rightarrow> (nat \<Rightarrow> instant) \<Rightarrow> uuid \<Rightarrow> int \<Rightarrow> event_table \<Rightarrow> bytes
       \<Rightarrow> nat \<Rightarrow> (py_error, event_table \<times> nat) result" where
  "link_loop H jcs clock org max_id db prev linked =
     (let rows = take link_batch_size (org_unlinked org max_id db) in
      if rows = [] then Inr (db, linked)
      else case stamp_batch H jcs (clock linked) prev rows of
        Inl x \<Rightarrow> Inl x
      | Inr (es, p) \<Rightarrow>
          (let db' = put_events es db; n = linked + length rows in
           if length rows < link_batch_size then Inr (db', n)
           else link_loop H jcs clock org max_id db' p n))"
  by pat_completeness auto

termination
  by (relation "measure (\<lambda>(H, jcs, clock, org, m, db, prev, n). length (org_unlinked org m db))")
    (auto intro: put_events_unlinked)

declare link_loop.simps [simp del]

definition link_org_chain ::
    "(bytes \<Rightarrow> bytes) \<Rightarrow> (dict \<Rightarrow> (py_error, bytes) result) \<Rightarrow> (nat \<Rightarrow> instant) \<Rightarrow> uuid \<Rightarrow> int \<Rightarrow> event_table
       \<Rightarrow> (py_error, event_table \<times> nat) result" where
  "link_org_chain H jcs clock org max_id db =
     link_loop H jcs clock org max_id db (seed_prev_hash org db) 0"

end
