(* ===== verification/AuditVerify.thy ===== *)
theory AuditVerify
  imports AuditChain
begin

text \<open>
  The chain verifier (\<open>services/audit/verify.py\<close>: \<open>verify_chain\<close>,
  \<open>_check_checkpoint_with_verifier\<close>) and what the linker and it guarantee together. The signature
  check of a checkpoint is the argument \<open>verify_sig\<close>.
\<close>

subsection \<open>Results\<close>

record chain_break =
  at_id :: int
  break_reason :: string

record checkpoint_status =
  cp_present :: bool
  signature_ok :: "bool option"
  hash_match :: "bool option"
  cp_latest_id :: "int option"
  cp_reason :: "string option"

record verify_result =
  verified :: bool
  checked :: nat
  pending :: nat
  breaks :: "chain_break list"
  checkpoint :: "checkpoint_status option"

record audit_checkpoint =
  cp_org :: uuid
  latest_id :: int
  latest_row_hash :: bytes
  cp_timestamp :: instant
  app_signature :: "bytes option"

type_synonym signature_verifier = "uuid \<Rightarrow> int \<Rightarrow> bytes \<Rightarrow> instant \<Rightarrow> bytes option \<Rightarrow> bool"

subsection \<open>The walk\<close>

definition stored_hash :: "audit_event \<Rightarrow> bytes" where
  "stored_hash e = (case ev_hash e of None \<Rightarrow> [] | Some h \<Rightarrow> h)"

definition event_prev :: "audit_event \<Rightarrow> bytes" where
  "event_prev e = (case ev_prev e of None \<Rightarrow> genesis_hash | Some p \<Rightarrow> if p = [] then genesis_hash else p)"

definition walk_step ::
    "(bytes \<Rightarrow> bytes) \<Rightarrow> (dict \<Rightarrow> (py_error, bytes) result) \<Rightarrow> int \<Rightarrow> bool \<Rightarrow> bytes \<Rightarrow> audit_event
       \<Rightarrow> (py_error, chain_break list) result" where
  "walk_step H jcs version skip prev e =
     bind_res (compute_row_hash H jcs (ev_row e) (event_prev e) version) (\<lambda>recomputed.
     Inr (if recomputed \<noteq> stored_hash e
          then [\<lparr>at_id = ev_id e, break_reason = ''row_hash mismatch (row mutated)''\<rparr>]
          else if \<not> skip \<and> event_prev e \<noteq> prev
          then [\<lparr>at_id = ev_id e, break_reason = ''prev_hash mismatch (chain reorder/deletion)''\<rparr>]
          else []))"

fun verify_walk ::
    "(bytes \<Rightarrow> bytes) \<Rightarrow> (dict \<Rightarrow> (py_error, bytes) result) \<Rightarrow> int \<Rightarrow> bool \<Rightarrow> bytes \<Rightarrow> audit_event list
       \<Rightarrow> (py_error, chain_break list) result" where
  "verify_walk H jcs version skip prev [] = Inr []"
| "verify_walk H jcs version skip prev (e # es) =
     bind_res (walk_step H jcs version skip prev e) (\<lambda>b.
     bind_res (verify_walk H jcs version False (stored_hash e) es) (\<lambda>bs. Inr (b @ bs)))"

definition linked_window :: "uuid \<Rightarrow> int option \<Rightarrow> int option \<Rightarrow> event_table \<Rightarrow> audit_event list" where
  "linked_window org from_id to_id db =
     filter (\<lambda>e. (case from_id of None \<Rightarrow> True | Some f \<Rightarrow> f \<le> ev_id e)
       \<and> (case to_id of None \<Rightarrow> True | Some t \<Rightarrow> ev_id e \<le> t)) (org_linked org db)"

text \<open>The first row of a bounded walk against the linked row before it.\<close>

definition head_breaks ::
    "(bytes \<Rightarrow> bytes) \<Rightarrow> (dict \<Rightarrow> (py_error, bytes) result) \<Rightarrow> int \<Rightarrow> uuid \<Rightarrow> event_table \<Rightarrow> audit_event list
       \<Rightarrow> (py_error, chain_break list) result" where
  "head_breaks H jcs version org db rows =
     (case rows of [] \<Rightarrow> Inr []
      | e # _ \<Rightarrow>
        bind_res (compute_row_hash H jcs (ev_row e) (event_prev e) version) (\<lambda>recomputed.
        let expected_prev =
          (case rev (filter (\<lambda>x. ev_id x < ev_id e) (org_linked org db)) of [] \<Rightarrow> genesis_hash
           | x # _ \<Rightarrow> (case ev_hash x of None \<Rightarrow> genesis_hash | Some h \<Rightarrow> h)) in
        Inr (if recomputed = stored_hash e \<and> event_prev e \<noteq> expected_prev
             then [\<lparr>at_id = ev_id e, break_reason = ''prev_hash mismatch (chain reorder/deletion)''\<rparr>]
             else [])))"

subsection \<open>Checkpoints\<close>

definition check_checkpoint ::
    "event_table \<Rightarrow> audit_checkpoint list \<Rightarrow> uuid \<Rightarrow> signature_verifier \<Rightarrow> checkpoint_status \<times> chain_break list" where
  "check_checkpoint db cps org ver =
     (case rev (sort_key (\<lambda>c. (latest_id c, cp_timestamp c)) (filter (\<lambda>c. cp_org c = org) cps)) of
        [] \<Rightarrow> (\<lparr>cp_present = False, signature_ok = None, hash_match = None, cp_latest_id = None,
                 cp_reason = Some ''no checkpoint anchored yet''\<rparr>, [])
      | cp # _ \<Rightarrow>
        if \<not> ver (cp_org cp) (latest_id cp) (latest_row_hash cp) (cp_timestamp cp) (app_signature cp) then
          let reason = ''checkpoint signature invalid (forged/rewritten checkpoint)'' in
          (\<lparr>cp_present = True, signature_ok = Some False, hash_match = None, cp_latest_id = Some (latest_id cp),
             cp_reason = Some reason\<rparr>, [\<lparr>at_id = latest_id cp, break_reason = reason\<rparr>])
        else
          (let stored = (case filter (\<lambda>e. ev_id e = latest_id cp) (org_linked org db) of
                           [] \<Rightarrow> None | e # _ \<Rightarrow> ev_hash e) in
           if stored = None then
             let reason = ''checkpoint references a missing/unchained row (deletion)'' in
             (\<lparr>cp_present = True, signature_ok = Some True, hash_match = Some False,
                cp_latest_id = Some (latest_id cp), cp_reason = Some reason\<rparr>,
              [\<lparr>at_id = latest_id cp, break_reason = reason\<rparr>])
           else if stored \<noteq> Some (latest_row_hash cp) then
             let reason = ''checkpoint latest_row_hash mismatch (chain rewritten since last authentic anchor)'' in
             (\<lparr>cp_present = True, signature_ok = Some True, hash_match = Some False,
                cp_latest_id = Some (latest_id cp), cp_reason = Some reason\<rparr>,
              [\<lparr>at_id = latest_id cp, break_reason = reason\<rparr>])
           else (\<lparr>cp_present = True, signature_ok = Some True, hash_match = Some True,
                   cp_latest_id = Some (latest_id cp), cp_reason = None\<rparr>, [])))"

subsection \<open>The verifier\<close>

definition verify_chain ::
    "(bytes \<Rightarrow> bytes) \<Rightarrow> (dict \<Rightarrow> (py_error, bytes) result) \<Rightarrow> ('key \<Rightarrow> signature_verifier) \<Rightarrow> event_table
       \<Rightarrow> audit_checkpoint list \<Rightarrow> uuid \<Rightarrow> int option \<Rightarrow> int option \<Rightarrow> int \<Rightarrow> 'key option
       \<Rightarrow> signature_verifier option \<Rightarrow> (py_error, verify_result) result" where
  "verify_chain H jcs verify_sig db cps org from_id to_id version verify_key checkpoint_verifier =
     (if verify_key \<noteq> None \<and> checkpoint_verifier \<noteq> None then Inl ValueError
      else
        let rows = linked_window org from_id to_id db in
        bind_res (verify_walk H jcs version (from_id \<noteq> None) genesis_hash rows) (\<lambda>walk.
        bind_res (if from_id = None then Inr [] else head_breaks H jcs version org db rows) (\<lambda>hd_bs.
        let selected = (case checkpoint_verifier of Some v \<Rightarrow> Some v | None \<Rightarrow> map_option verify_sig verify_key);
            cp = (if from_id = None \<and> to_id = None then map_option (check_checkpoint db cps org) selected else None);
            bs = hd_bs @ walk @ (case cp of None \<Rightarrow> [] | Some (_, cbs) \<Rightarrow> cbs) in
        Inr \<lparr>verified = (bs = []), checked = length rows,
             pending = length (filter (\<lambda>e. row_org (ev_row e) = org \<and> ev_chained_at e = None) db),
             breaks = bs, checkpoint = map_option fst cp\<rparr>)))"

subsection \<open>The linker extends a verified chain\<close>

definition table_ok :: "event_table \<Rightarrow> bool" where
  "table_ok db \<longleftrightarrow> distinct (map ev_id db)"

text \<open>The order the safe watermark promises: up to \<open>m\<close>, no row waits below a linked one.\<close>

definition linked_below :: "uuid \<Rightarrow> int \<Rightarrow> event_table \<Rightarrow> bool" where
  "linked_below org m db \<longleftrightarrow>
     (\<forall>e \<in> set (org_linked org db). \<forall>u \<in> set (org_unlinked org m db). ev_id e < ev_id u)"

lemma verify_walk_append:
  "verify_walk H jcs v skip p (xs @ ys) =
     bind_res (verify_walk H jcs v skip p xs) (\<lambda>a.
     bind_res (verify_walk H jcs v (skip \<and> xs = []) (if xs = [] then p else stored_hash (last xs)) ys) (\<lambda>b.
     Inr (a @ b)))"
proof (induction xs arbitrary: skip p)
  case (Cons x xs)
  then show ?case
    by (cases "walk_step H jcs v skip p x"; cases "verify_walk H jcs v False (stored_hash x) xs")
      (auto simp: bind_res_def split: sum.splits)
qed (auto simp: bind_res_def split: sum.split)

lemma stamp_batch_walk:
  assumes "stamp_batch H jcs now p es = Inr (es', q)" "p \<noteq> []" "\<And>b. H b \<noteq> []"
  shows "verify_walk H jcs 1 False p es' = Inr [] \<and> q = (if es' = [] then p else stored_hash (last es'))
     \<and> q \<noteq> []"
  using assms
proof (induction es arbitrary: p es' q)
  case (Cons e es)
  obtain d es'' where d: "compute_row_hash H jcs (ev_row e) p 1 = Inr d"
    "stamp_batch H jcs now d es = Inr (es'', q)"
    "es' = e\<lparr>ev_prev := Some p, ev_hash := Some d, ev_chained_at := Some now\<rparr> # es''"
    using Cons.prems(1) by auto
  have "d \<noteq> []" using d(1) Cons.prems(3) by (auto simp: compute_row_hash_def)
  with Cons.IH [OF d(2) this Cons.prems(3)] d Cons.prems(2) show ?case
    by (auto simp: walk_step_def event_prev_def stored_hash_def)
qed simp

lemma sorted_ids [simp]:
  "sorted (map ev_id (org_linked org db))" "sorted (map ev_id (org_unlinked org m db))"
  by (simp_all add: org_linked_def org_unlinked_def)

lemma set_org_linked: "set (org_linked org db) = {e \<in> set db. row_org (ev_row e) = org \<and> ev_chained_at e \<noteq> None}"
  by (auto simp: org_linked_def)

lemma set_org_unlinked: "set (org_unlinked org m db)
    = {e \<in> set db. row_org (ev_row e) = org \<and> ev_chained_at e = None \<and> ev_id e \<le> m}"
  by (auto simp: org_unlinked_def)

lemma distinct_ids:
  assumes "table_ok db"
  shows "distinct (map ev_id (org_linked org db))" "distinct (map ev_id (org_unlinked org m db))"
proof -
  have "mset (map ev_id (sort_key ev_id (filter P db))) = mset (map ev_id (filter P db))" for P
    by simp
  then have "distinct (map ev_id (sort_key ev_id (filter P db)))" for P
    using assms by (metis table_ok_def distinct_map_filter mset_eq_imp_distinct_iff)
  then show "distinct (map ev_id (org_linked org db))" "distinct (map ev_id (org_unlinked org m db))"
    by (simp_all add: org_linked_def org_unlinked_def)
qed

lemma unique_by_id:
  assumes "sorted (map ev_id xs)" "distinct (map ev_id xs)" "sorted (map ev_id ys)" "distinct (map ev_id ys)"
    and "set xs = set ys"
  shows "xs = ys"
  using assms by (intro map_sorted_distinct_set_unique [where f = ev_id]) (auto simp: distinct_map)

definition stamped :: "audit_event list \<Rightarrow> audit_event \<Rightarrow> audit_event" where
  "stamped es e = (case map_of (map (\<lambda>s. (ev_id s, s)) es) (ev_id e) of None \<Rightarrow> e | Some s \<Rightarrow> s)"

lemma put_events_map: "put_events es db = map (stamped es) db"
  by (simp add: put_events_def stamped_def)

lemma stamped_out:
  assumes "ev_id e \<notin> ev_id ` set es"
  shows "stamped es e = e"
proof -
  have "map_of (map (\<lambda>s. (ev_id s, s)) es) (ev_id e) = None"
    using assms by (simp add: map_of_eq_None_iff image_image)
  then show ?thesis by (simp add: stamped_def)
qed

lemma stamped_in:
  assumes "distinct (map ev_id es)" "s \<in> set es" "ev_id e = ev_id s"
  shows "stamped es e = s"
proof -
  have "map_of (map (\<lambda>s. (ev_id s, s)) es) (ev_id e) = Some s"
    using assms by (intro map_of_is_SomeI) (auto simp: comp_def)
  then show ?thesis by (simp add: stamped_def)
qed

lemma map_ids: "map ev_row xs = map ev_row ys \<Longrightarrow> map ev_id xs = map ev_id ys"
  by (drule arg_cong [where f = "map row_id"]) (simp add: comp_def)

lemma batch_facts:
  assumes "table_ok db" "stamp_batch H jcs now p (take k (org_unlinked org m db)) = Inr (es, q)"
  shows "map ev_row es = map ev_row (take k (org_unlinked org m db))"
    and "\<forall>s \<in> set es. ev_chained_at s = Some now"
    and "map ev_id es = map ev_id (take k (org_unlinked org m db))"
    and "distinct (map ev_id es)" and "sorted (map ev_id es)"
proof -
  show r: "map ev_row es = map ev_row (take k (org_unlinked org m db))"
    and "\<forall>s \<in> set es. ev_chained_at s = Some now"
    using stamp_batch_chained [OF assms(2)] by auto
  from r show i: "map ev_id es = map ev_id (take k (org_unlinked org m db))"
    by (rule map_ids)
  show "distinct (map ev_id es)" "sorted (map ev_id es)"
    unfolding i using distinct_ids(2) [OF assms(1), of org m] sorted_ids(2) [of org m db]
    by (simp_all add: take_map [symmetric] sorted_wrt_take del: sorted_ids)
qed

lemma stamped_row:
  assumes "table_ok db" "stamp_batch H jcs now p (take k (org_unlinked org m db)) = Inr (es, q)" "e \<in> set db"
  shows "ev_row (stamped es e) = ev_row e"
proof (cases "ev_id e \<in> ev_id ` set es")
  case False
  then show ?thesis by (simp add: stamped_out)
next
  case True
  note b = batch_facts [OF assms(1,2)]
  from True obtain s where s: "s \<in> set es" "ev_id e = ev_id s" by auto
  then have "ev_row s \<in> set (map ev_row es)" by auto
  then obtain x where x: "x \<in> set (take k (org_unlinked org m db))" "ev_row s = ev_row x"
    unfolding b(1) by auto
  then have "x \<in> set db" by (auto simp: set_org_unlinked dest!: in_set_takeD)
  with x s assms(1,3) have "x = e" by (auto simp: table_ok_def distinct_map dest: inj_onD)
  with x stamped_in [OF b(4) s] show ?thesis by simp
qed

lemma put_rows:
  assumes "table_ok db" "stamp_batch H jcs now p (take k (org_unlinked org m db)) = Inr (es, q)"
  shows "map ev_row (put_events es db) = map ev_row db" and "table_ok (put_events es db)"
proof -
  show r: "map ev_row (put_events es db) = map ev_row db"
    using stamped_row [OF assms] by (simp add: put_events_map)
  then have "map ev_id (put_events es db) = map ev_id db" by (rule map_ids)
  then show "table_ok (put_events es db)" using assms(1) by (simp add: table_ok_def)
qed

lemma linked_put:
  assumes "table_ok db" "stamp_batch H jcs now p (take k (org_unlinked org m db)) = Inr (es, q)"
    and "linked_below org m db"
  shows "org_linked org (put_events es db) = org_linked org db @ es"
proof (rule unique_by_id)
  note b = batch_facts [OF assms(1,2)] and r = stamped_row [OF assms(1,2)]
  have batch: "e \<in> set db \<and> row_org (ev_row e) = org \<and> ev_chained_at e = None \<and> ev_id e \<le> m"
    if "e \<in> set (take k (org_unlinked org m db))" for e
    using that by (auto simp: set_org_unlinked dest!: in_set_takeD)
  have inB: "\<exists>e \<in> set (take k (org_unlinked org m db)). ev_row e = ev_row s" if "s \<in> set es" for s
  proof -
    have "ev_row s \<in> set (map ev_row es)" using that by simp
    then show ?thesis unfolding b(1) by auto
  qed
  have out: "stamped es e = e" if "e \<in> set db" "ev_chained_at e \<noteq> None" for e
  proof (rule stamped_out, rule notI)
    assume "ev_id e \<in> ev_id ` set es"
    then obtain s where s: "s \<in> set es" "ev_id e = ev_id s" by blast
    then obtain x where x: "x \<in> set (take k (org_unlinked org m db))" "ev_row x = ev_row s" using inB by blast
    with s have "x \<in> set db" "ev_id x = ev_id e" "ev_chained_at x = None" using batch by auto
    moreover have "inj_on ev_id (set db)" using assms(1) by (simp add: table_ok_def distinct_map)
    ultimately have "x = e" using that(1) by (metis inj_onD)
    with \<open>ev_chained_at x = None\<close> that(2) show False by simp
  qed
  show "set (org_linked org (put_events es db)) = set (org_linked org db @ es)" (is "?L = ?R")
  proof
    show "?L \<subseteq> ?R"
    proof
      fix x assume "x \<in> ?L"
      then obtain e where e: "e \<in> set db" "x = stamped es e" "row_org (ev_row x) = org" "ev_chained_at x \<noteq> None"
        by (auto simp: set_org_linked put_events_map)
      show "x \<in> ?R"
      proof (cases "ev_id e \<in> ev_id ` set es")
        case True
        then obtain s where "s \<in> set es" "ev_id e = ev_id s" by auto
        with stamped_in [OF b(4) this] e(2) show ?thesis by simp
      next
        case False
        with e show ?thesis by (simp add: stamped_out set_org_linked)
      qed
    qed
    show "?R \<subseteq> ?L"
    proof
      fix x assume "x \<in> ?R"
      then consider "x \<in> set (org_linked org db)" | "x \<in> set es" by auto
      then show "x \<in> ?L"
      proof cases
        case 1
        then have "x \<in> set db" "ev_chained_at x \<noteq> None" "row_org (ev_row x) = org" by (auto simp: set_org_linked)
        with out [OF this(1,2)] show ?thesis by (force simp: set_org_linked put_events_map)
      next
        case 2
        with inB obtain e where e: "e \<in> set (take k (org_unlinked org m db))" "ev_row e = ev_row x" by blast
        then have "stamped es e = x" using 2 by (intro stamped_in [OF b(4)]) auto
        with e batch [OF e(1)] b(2) 2 show ?thesis by (force simp: set_org_linked put_events_map)
      qed
    qed
  qed
  have below: "ev_id e < ev_id s" if "e \<in> set (org_linked org db)" "s \<in> set es" for e s
  proof -
    from inB [OF that(2)] obtain u where "u \<in> set (take k (org_unlinked org m db))" "ev_row u = ev_row s"
      by blast
    with that(1) assms(3) show ?thesis by (metis linked_below_def in_set_takeD)
  qed
  show "sorted (map ev_id (org_linked org db @ es))" "distinct (map ev_id (org_linked org db @ es))"
    using b(4,5) below distinct_ids(1) [OF assms(1)]
    by (fastforce simp: sorted_append)+
qed (simp_all add: distinct_ids put_rows(2) [OF assms(1,2)])

lemma unlinked_put:
  assumes "table_ok db" "stamp_batch H jcs now p (take k (org_unlinked org m db)) = Inr (es, q)"
  shows "org_unlinked org m (put_events es db) = drop k (org_unlinked org m db)"
proof (rule unique_by_id)
  note b = batch_facts [OF assms(1,2)] and r = stamped_row [OF assms(1,2)]
  let ?U = "org_unlinked org m db"
  have ids: "ev_id ` set es = ev_id ` set (take k ?U)" using arg_cong [OF b(3), of set] by simp
  have "distinct (map ev_id (take k ?U @ drop k ?U))" using distinct_ids(2) [OF assms(1), of org m] by simp
  then have disj: "ev_id ` set (take k ?U) \<inter> ev_id ` set (drop k ?U) = {}"
    unfolding map_append distinct_append by simp
  have U: "set ?U = set (take k ?U) \<union> set (drop k ?U)" by (metis append_take_drop_id set_append)
  show "set (org_unlinked org m (put_events es db)) = set (drop k ?U)" (is "?L = ?R")
  proof
    show "?L \<subseteq> ?R"
    proof
      fix x assume "x \<in> ?L"
      then obtain e where e: "e \<in> set db" "x = stamped es e" "row_org (ev_row x) = org" "ev_chained_at x = None" "ev_id x \<le> m"
        by (auto simp: set_org_unlinked put_events_map)
      have out: "ev_id e \<notin> ev_id ` set es"
        using stamped_in [OF b(4), of _ e] e(2,4) b(2) by auto
      with e have "x = e" by (simp add: stamped_out)
      with e have "e \<in> set ?U" by (simp add: set_org_unlinked)
      with out ids U \<open>x = e\<close> show "x \<in> ?R" by blast
    qed
    show "?R \<subseteq> ?L"
    proof
      fix x assume x: "x \<in> ?R"
      then have "x \<in> set ?U" using U by blast
      moreover have "stamped es x = x" using x disj ids by (intro stamped_out) blast
      ultimately show "x \<in> ?L" by (force simp: set_org_unlinked put_events_map)
    qed
  qed
  show "sorted (map ev_id (drop k ?U))" "distinct (map ev_id (drop k ?U))"
    using distinct_ids(2) [OF assms(1), of org m] by (simp_all add: drop_map [symmetric] sorted_wrt_drop)
qed (simp_all add: distinct_ids put_rows(2) [OF assms])

lemma linked_below_put:
  assumes "table_ok db" "stamp_batch H jcs now p (take k (org_unlinked org m db)) = Inr (es, q)"
    and "linked_below org m db"
  shows "linked_below org m (put_events es db)"
proof -
  let ?U = "org_unlinked org m db"
  note b = batch_facts [OF assms(1,2)]
  have "ev_id s < ev_id u" if "s \<in> set es" "u \<in> set (drop k ?U)" for s u
  proof -
    have "sorted (map ev_id (take k ?U @ drop k ?U))" "distinct (map ev_id (take k ?U @ drop k ?U))"
      using distinct_ids(2) [OF assms(1), of org m] by simp_all
    then have "\<forall>x \<in> ev_id ` set (take k ?U). \<forall>y \<in> ev_id ` set (drop k ?U). x \<le> y \<and> x \<noteq> y"
      unfolding map_append sorted_append distinct_append by auto
    moreover have "ev_id s \<in> ev_id ` set (take k ?U)" using that(1) arg_cong [OF b(3), of set] by auto
    ultimately show ?thesis using that(2) by force
  qed
  moreover have "ev_id e < ev_id u" if "e \<in> set (org_linked org db)" "u \<in> set (drop k ?U)" for e u
    using that assms(3) by (meson in_set_dropD linked_below_def)
  ultimately show ?thesis
    by (auto simp: linked_below_def linked_put [OF assms] unlinked_put [OF assms(1,2)])
qed

definition chain_tip :: "audit_event list \<Rightarrow> bytes" where
  "chain_tip es = (if es = [] then genesis_hash else stored_hash (last es))"

lemma link_loop_ok:
  assumes "link_loop H jcs clock org m db p n = Inr (db', n')"
    and "table_ok db" "linked_below org m db" "verify_walk H jcs 1 False genesis_hash (org_linked org db) = Inr []"
    and "p = chain_tip (org_linked org db)" "p \<noteq> []" and H: "\<And>b. H b \<noteq> []"
  shows "verify_walk H jcs 1 False genesis_hash (org_linked org db') = Inr [] \<and> org_unlinked org m db' = []
    \<and> n' = n + length (org_unlinked org m db) \<and> map ev_row db' = map ev_row db
    \<and> (\<exists>es. org_linked org db' = org_linked org db @ es \<and> length es = length (org_unlinked org m db))"
  using assms
proof (induction H jcs clock org m db p n arbitrary: db' n' rule: link_loop.induct)
  case (1 H jcs clock org m db p n)
  let ?U = "org_unlinked org m db" and ?B = "take link_batch_size (org_unlinked org m db)"
  note loop = "1.prems"(1) [unfolded link_loop.simps [of H jcs clock org m db p n] Let_def]
  show ?case
  proof (cases "?B = []")
    case True
    then have "?U = []" by (simp add: link_batch_size_def)
    with loop "1.prems" show ?thesis by (simp add: link_batch_size_def)
  next
    case False
    then obtain es q where st: "stamp_batch H jcs (clock n) p ?B = Inr (es, q)"
      using loop by (auto split: sum.splits)
    note w = stamp_batch_walk [OF st "1.prems"(6,7)]
    note put = linked_put [OF "1.prems"(2) st "1.prems"(3)] unlinked_put [OF "1.prems"(2) st]
      put_rows [OF "1.prems"(2) st] linked_below_put [OF "1.prems"(2) st "1.prems"(3)]
    have len: "length es = length ?B"
      using batch_facts(1) [OF "1.prems"(2) st] by (metis length_map)
    then have "es \<noteq> []" using False by (metis length_0_conv)
    have walk: "verify_walk H jcs 1 False genesis_hash (org_linked org (put_events es db)) = Inr []"
      using w "1.prems"(4,5) by (simp add: put(1) verify_walk_append chain_tip_def)
    have tip: "q = chain_tip (org_linked org (put_events es db))"
      using w \<open>es \<noteq> []\<close> by (simp add: put(1) chain_tip_def)
    show ?thesis
    proof (cases "length ?B < link_batch_size")
      case True
      then have "drop link_batch_size ?U = []" "?B = ?U" by (auto simp: min_def split: if_splits)
      moreover have "db' = put_events es db" "n' = n + length ?B"
        using loop by (simp_all only: False True st if_False if_True sum.case prod.case sum.inject prod.inject)
      ultimately show ?thesis using walk put len by simp
    next
      case b: False
      have "link_loop H jcs clock org m (put_events es db) q (n + length ?B) = Inr (db', n')"
        using loop False st b by simp
      note IH = "1.IH" [OF refl False st refl refl refl b this put(4) put(5) walk tip conjunct2 [OF conjunct2 [OF w]] "1.prems"(7)]
      moreover have "length ?B + length (drop link_batch_size ?U) = length ?U" by simp
      ultimately show ?thesis using put len by auto
    qed
  qed
qed

subsection \<open>A chain commits to its rows\<close>

fun sealed :: "('r \<Rightarrow> bytes \<Rightarrow> bytes option) \<Rightarrow> (bytes \<Rightarrow> bytes) \<Rightarrow> bytes \<Rightarrow> ('r \<times> bytes) list \<Rightarrow> bool" where
  "sealed ser H p [] = True"
| "sealed ser H p ((r, h) # xs) = (h \<in> H ` set_option (ser r p) \<and> sealed ser H h xs)"

fun sealed_tip :: "bytes \<Rightarrow> ('r \<times> bytes) list \<Rightarrow> bytes" where
  "sealed_tip p [] = p"
| "sealed_tip p ((r, h) # xs) = sealed_tip h xs"

fun sealed_links :: "bytes \<Rightarrow> ('r \<times> bytes) list \<Rightarrow> ('r \<times> bytes) list" where
  "sealed_links p [] = []"
| "sealed_links p ((r, h) # xs) = (r, p) # sealed_links h xs"

definition sealed_messages :: "('r \<Rightarrow> bytes \<Rightarrow> bytes option) \<Rightarrow> bytes \<Rightarrow> ('r \<times> bytes) list \<Rightarrow> bytes set" where
  "sealed_messages ser p xs = (\<Union>(r, q) \<in> set (sealed_links p xs). set_option (ser r q))"

lemma sealed_append:
  "sealed ser H p (xs @ ys) \<longleftrightarrow> sealed ser H p xs \<and> sealed ser H (sealed_tip p xs) ys"
  "sealed_tip p (xs @ ys) = sealed_tip (sealed_tip p xs) ys"
  "sealed_links p (xs @ ys) = sealed_links p xs @ sealed_links (sealed_tip p xs) ys"
  by (induction xs arbitrary: p) auto

locale sealed_chain =
  fixes ser :: "'r \<Rightarrow> bytes \<Rightarrow> bytes option" and ok :: "'r \<Rightarrow> bytes \<Rightarrow> bool" and same :: "'r \<Rightarrow> 'r \<Rightarrow> bool"
  assumes ser_inj: "ser r p = Some b \<Longrightarrow> ser s q = Some b \<Longrightarrow> ok r p \<Longrightarrow> ok s q \<Longrightarrow> p = q \<and> same r s"
begin

lemma link_inj:
  assumes "h \<in> H ` set_option (ser r p)" "h \<in> H ` set_option (ser s q)" "ok r p" "ok s q"
    and "inj_on H (set_option (ser r p) \<union> set_option (ser s q))"
  shows "p = q \<and> same r s"
proof -
  obtain b where b: "ser r p = Some b" "h = H b" using assms(1) by (cases "ser r p") auto
  obtain c where c: "ser s q = Some c" "h = H c" using assms(2) by (cases "ser s q") auto
  note bc = b(1) c(1) trans [OF b(2) [symmetric] c(2)]
  have "b = c" using bc(1,2) by (intro inj_onD [OF assms(5) bc(3)]) auto
  with bc(1,2) have "ser r p = Some b" "ser s q = Some b" by simp_all
  then show ?thesis using assms(3,4) by (rule ser_inj)
qed

lemma commitment:
  assumes "sealed ser H g xs" "sealed ser H g ys" "sealed_tip g xs = sealed_tip g ys"
    and "\<forall>(r, p) \<in> set (sealed_links g xs) \<union> set (sealed_links g ys). ok r p"
    and "inj_on H (sealed_messages ser g xs \<union> sealed_messages ser g ys)"
    and "g \<notin> H ` (sealed_messages ser g xs \<union> sealed_messages ser g ys)"
  shows "list_all2 (\<lambda>(r, _) (s, _). same r s) xs ys"
  using assms
proof (induction xs arbitrary: ys rule: rev_induct)
  case Nil
  then show ?case by (cases ys rule: rev_cases) (auto simp: sealed_append sealed_messages_def)
next
  case (snoc x xs)
  obtain r h where x: "x = (r, h)" by (cases x)
  show ?case
  proof (cases ys rule: rev_cases)
    case Nil
    with snoc.prems x show ?thesis by (auto simp: sealed_append sealed_messages_def)
  next
    case (snoc ys' y)
    obtain s k where y: "y = (s, k)" by (cases y)
    note p = snoc.prems [unfolded x snoc y]
    let ?p = "sealed_tip g xs" and ?q = "sealed_tip g ys'"
    have m: "sealed_messages ser g (xs @ [(r, h)]) = sealed_messages ser g xs \<union> set_option (ser r ?p)"
      "sealed_messages ser g (ys' @ [(s, k)]) = sealed_messages ser g ys' \<union> set_option (ser s ?q)"
      by (auto simp: sealed_messages_def sealed_append)
    have "h = k" using p(3) by (simp add: sealed_append)
    have "?p = ?q \<and> same r s"
    proof (rule link_inj)
      show "h \<in> H ` set_option (ser r ?p)" "h \<in> H ` set_option (ser s ?q)"
        using p(1,2) \<open>h = k\<close> by (simp_all add: sealed_append)
      show "ok r ?p" "ok s ?q" using p(4) by (auto simp: sealed_append)
      show "inj_on H (set_option (ser r ?p) \<union> set_option (ser s ?q))"
        using p(5) unfolding m by (rule inj_on_subset) blast
    qed
    moreover have "list_all2 (\<lambda>(r, _) (s, _). same r s) xs ys'"
    proof (rule snoc.IH)
      show "sealed ser H g xs" "sealed ser H g ys'" using p(1,2) by (simp_all add: sealed_append)
      show "\<forall>(r, p) \<in> set (sealed_links g xs) \<union> set (sealed_links g ys'). ok r p"
        using p(4) by (auto simp: sealed_append)
      show "inj_on H (sealed_messages ser g xs \<union> sealed_messages ser g ys')"
        using p(5) unfolding m by (rule inj_on_subset) blast
      show "g \<notin> H ` (sealed_messages ser g xs \<union> sealed_messages ser g ys')"
        using p(6) unfolding m by blast
    qed (use calculation in blast)
    ultimately show ?thesis unfolding x snoc y by (intro list_all2_appendI) auto
  qed
qed

end

definition row_ser :: "(dict \<Rightarrow> (py_error, bytes) result) \<Rightarrow> audit_row \<Rightarrow> bytes \<Rightarrow> bytes option" where
  "row_ser jcs r p = (case canonical_serialize jcs r p 1 of Inl _ \<Rightarrow> None | Inr b \<Rightarrow> Some b)"

interpretation audit_chain: sealed_chain "row_ser jcs" "wf_row jcs" "same_row jcs" for jcs
proof
  fix r s p q b
  assume "row_ser jcs r p = Some b" "row_ser jcs s q = Some b" and wf: "wf_row jcs r p" "wf_row jcs s q"
  then have "canonical_serialize jcs r p 1 = Inr b" "canonical_serialize jcs s q 1 = Inr b"
    by (cases "canonical_serialize jcs r p 1"; cases "canonical_serialize jcs s q 1"; simp add: row_ser_def)+
  then show "p = q \<and> same_row jcs r s" using wf by (rule canonical_serialize_inj)
qed

subsection \<open>Properties of the chain\<close>

lemma verify_chain_full:
  "verify_chain H jcs vs db cps org None None v None None =
     bind_res (verify_walk H jcs v False genesis_hash (org_linked org db)) (\<lambda>walk.
     Inr \<lparr>verified = (walk = []), checked = length (org_linked org db),
          pending = length (filter (\<lambda>e. row_org (ev_row e) = org \<and> ev_chained_at e = None) db),
          breaks = walk, checkpoint = None\<rparr>)"
  by (simp add: verify_chain_def linked_window_def Let_def)

lemma verified_full:
  "verify_chain H jcs vs db cps org None None v None None = Inr R \<Longrightarrow> verified R \<Longrightarrow>
     verify_walk H jcs v False genesis_hash (org_linked org db) = Inr []"
  by (auto simp: verify_chain_full)

lemma walk_step_Nil:
  "walk_step H jcs v False p e = Inr [] \<Longrightarrow>
     event_prev e = p \<and> compute_row_hash H jcs (ev_row e) p v = Inr (stored_hash e)"
  by (auto simp: walk_step_def split: if_splits)

lemma genesis_ne [simp]: "genesis_hash \<noteq> []"
  by (simp add: genesis_hash_def)

lemma seed_is_tip:
  assumes "verify_walk H jcs v False genesis_hash (org_linked org db) = Inr []" "\<And>b. H b \<noteq> []"
  shows "seed_prev_hash org db = chain_tip (org_linked org db)" and "chain_tip (org_linked org db) \<noteq> []"
proof -
  let ?L = "org_linked org db"
  have "(case rev ?L of [] \<Rightarrow> genesis_hash | e # _ \<Rightarrow> (case ev_hash e of None \<Rightarrow> genesis_hash | Some h \<Rightarrow> h))
      = chain_tip ?L \<and> chain_tip ?L \<noteq> []"
  proof (cases ?L rule: rev_cases)
    case (snoc es e)
    have "\<exists>p. walk_step H jcs v False p e = Inr []"
      using assms(1) by (auto simp: snoc verify_walk_append)
    then obtain p where "compute_row_hash H jcs (ev_row e) p v = Inr (stored_hash e)"
      using walk_step_Nil by blast
    then have "stored_hash e \<noteq> []" using assms(2) by (auto simp: compute_row_hash_def)
    then show ?thesis by (simp add: snoc chain_tip_def) (simp add: stored_hash_def split: option.splits)
  qed (simp add: chain_tip_def)
  then show "seed_prev_hash org db = chain_tip ?L" "chain_tip ?L \<noteq> []"
    by (simp_all add: seed_prev_hash_def)
qed

text \<open>C8: the linker extends a chain that verifies into a chain that verifies. If the organisation's
chain verifies and no unlinked row up to the watermark lies below a linked one, then after
\<open>link_org_chain\<close> the chain still verifies in full, it covers exactly the waiting rows up to the
watermark in addition, the rows linked before are as they were and no row's data has changed.\<close>

theorem link_org_chain_verifies:
  assumes "link_org_chain H jcs clock org m db = Inr (db', n)"
    and "table_ok db" "linked_below org m db"
    and "verify_chain H jcs vs db cps org None None 1 None None = Inr R" "verified R"
    and "\<And>b. H b \<noteq> []"
  shows "\<exists>R'. verify_chain H jcs vs db' cps org None None 1 None None = Inr R' \<and> verified R'
     \<and> checked R' = checked R + n \<and> n = length (org_unlinked org m db) \<and> org_unlinked org m db' = []
     \<and> map ev_row db' = map ev_row db \<and> take (checked R) (org_linked org db') = org_linked org db"
proof -
  note w = verified_full [OF assms(4,5)]
  note tip = seed_is_tip [OF w assms(6)]
  have "link_loop H jcs clock org m db (seed_prev_hash org db) 0 = Inr (db', n)"
    using assms(1) by (simp add: link_org_chain_def)
  note ok = link_loop_ok [OF this assms(2,3) w tip(1) tip(2) [folded tip(1)] assms(6)]
  have "checked R = length (org_linked org db)" using assms(4) w by (auto simp: verify_chain_full)
  with ok show ?thesis by (auto simp: verify_chain_full)
qed

text \<open>C32: the canonical bytes determine the event. Two rows that serialise to the same bytes have
the same previous hash and agree in all seventeen hashed fields, the address up to its host suffix and
the JSON columns up to their canonical text.\<close>

theorem canonical_bytes_determine_row:
  assumes "canonical_serialize jcs r p v = Inr b" "canonical_serialize jcs s q w = Inr b"
    and "wf_row jcs r p" "wf_row jcs s q"
  shows "p = q \<and> same_row jcs r s"
  using assms by (rule canonical_serialize_inj)

definition chain_messages :: "(dict \<Rightarrow> (py_error, bytes) result) \<Rightarrow> audit_event list \<Rightarrow> bytes set" where
  "chain_messages jcs es = (\<Union>e \<in> set es. set_option (row_ser jcs (ev_row e) (event_prev e)))"

lemma walk_sealed:
  assumes "verify_walk H jcs 1 False p es = Inr []"
  shows "sealed (row_ser jcs) H p (map (\<lambda>e. (ev_row e, stored_hash e)) es)
    \<and> sealed_tip p (map (\<lambda>e. (ev_row e, stored_hash e)) es) = (if es = [] then p else stored_hash (last es))
    \<and> sealed_links p (map (\<lambda>e. (ev_row e, stored_hash e)) es) = map (\<lambda>e. (ev_row e, event_prev e)) es"
  using assms
proof (induction es arbitrary: p)
  case (Cons e es)
  then have e: "walk_step H jcs 1 False p e = Inr []" and r: "verify_walk H jcs 1 False (stored_hash e) es = Inr []"
    by auto
  have "stored_hash e \<in> H ` set_option (row_ser jcs (ev_row e) p)"
    using walk_step_Nil [OF e] by (auto simp: compute_row_hash_def row_ser_def)
  with Cons.IH [OF r] walk_step_Nil [OF e] show ?case by simp
qed simp

text \<open>C16: a chain commits to its history. Two states of the table whose chains verify in full and end
in the same row hash have the same rows in the same order, if the digest has no collision among the
serialised rows at hand and none of them hashes to the genesis value.\<close>

theorem chain_commits_to_history:
  assumes "verify_chain H jcs vs db cps org None None 1 None None = Inr R" "verified R"
    and "verify_chain H jcs vs db' cps' org None None 1 None None = Inr R'" "verified R'"
    and "chain_tip (org_linked org db) = chain_tip (org_linked org db')"
    and "\<forall>e \<in> set (org_linked org db) \<union> set (org_linked org db'). wf_row jcs (ev_row e) (event_prev e)"
    and "inj_on H (chain_messages jcs (org_linked org db) \<union> chain_messages jcs (org_linked org db'))"
    and "genesis_hash \<notin> H ` (chain_messages jcs (org_linked org db) \<union> chain_messages jcs (org_linked org db'))"
  shows "list_all2 (\<lambda>e e'. same_row jcs (ev_row e) (ev_row e')) (org_linked org db) (org_linked org db')"
proof -
  let ?xs = "map (\<lambda>e. (ev_row e, stored_hash e)) (org_linked org db)"
    and ?ys = "map (\<lambda>e. (ev_row e, stored_hash e)) (org_linked org db')"
  note x = walk_sealed [OF verified_full [OF assms(1,2)]] and y = walk_sealed [OF verified_full [OF assms(3,4)]]
  have m: "sealed_messages (row_ser jcs) genesis_hash ?xs = chain_messages jcs (org_linked org db)"
    "sealed_messages (row_ser jcs) genesis_hash ?ys = chain_messages jcs (org_linked org db')"
    using x y by (simp_all add: sealed_messages_def chain_messages_def)
  have "list_all2 (\<lambda>(r, _) (s, _). same_row jcs r s) ?xs ?ys"
  proof (rule audit_chain.commitment)
    show "sealed_tip genesis_hash ?xs = sealed_tip genesis_hash ?ys"
      using x y assms(5) by (simp add: chain_tip_def)
  qed (use x y m assms(6-8) in auto)
  then show ?thesis by (simp add: list_all2_map1 list_all2_map2)
qed

lemma sort_key_map: "(\<And>x. k (f x) = k x) \<Longrightarrow> sort_key k (map f xs) = map f (sort_key k xs)"
proof (induction xs)
  case (Cons x xs)
  have "insort_key k (f x) (map f ys) = map f (insort_key k x ys)" for ys
    by (induction ys) (simp_all add: Cons.prems)
  with Cons show ?case by simp
qed simp

lemma filter_map_same: "(\<And>x. x \<in> set xs \<Longrightarrow> P (f x) = P x) \<Longrightarrow> filter P (map f xs) = map f (filter P xs)"
  by (induction xs) auto

text \<open>A privileged \<open>UPDATE\<close> of one row's data that leaves the stored hashes.\<close>

definition rewrite_row :: "int \<Rightarrow> audit_row \<Rightarrow> event_table \<Rightarrow> event_table" where
  "rewrite_row i r db = map (\<lambda>e. if ev_id e = i then e\<lparr>ev_row := r\<rparr> else e) db"

lemma org_linked_rewrite:
  assumes "table_ok db" "e \<in> set (org_linked org db)" "row_id r = ev_id e" "row_org r = org"
  shows "org_linked org (rewrite_row (ev_id e) r db)
    = map (\<lambda>x. if ev_id x = ev_id e then x\<lparr>ev_row := r\<rparr> else x) (org_linked org db)"
proof -
  have e: "e \<in> set db" "row_org (ev_row e) = org" using assms(2) by (auto simp: set_org_linked)
  have "x = e" if "x \<in> set db" "ev_id x = ev_id e" for x
    using that e(1) assms(1) by (auto simp: table_ok_def distinct_map dest: inj_onD)
  then show ?thesis
    unfolding org_linked_def rewrite_row_def using assms(3,4) e
    by (subst filter_map_same) (auto simp: sort_key_map)
qed

lemma walk_step_rewritten:
  assumes "walk_step H jcs 1 False p e = Inr []" "canonical_serialize jcs r p 1 = Inr b"
    and "wf_row jcs (ev_row e) p" "wf_row jcs r p" "\<not> same_row jcs (ev_row e) r" "row_id r = ev_id e"
    and "\<And>c. canonical_serialize jcs (ev_row e) p 1 = Inr c \<Longrightarrow> H c = H b \<Longrightarrow> c = b"
  shows "walk_step H jcs 1 skip q (e\<lparr>ev_row := r\<rparr>)
    = Inr [\<lparr>at_id = ev_id e, break_reason = ''row_hash mismatch (row mutated)''\<rparr>]"
proof -
  note old = walk_step_Nil [OF assms(1)]
  have "H b \<noteq> stored_hash e"
  proof
    assume eq: "H b = stored_hash e"
    obtain c where c: "canonical_serialize jcs (ev_row e) p 1 = Inr c" "H c = stored_hash e"
      using conjunct2 [OF old] by (auto simp: compute_row_hash_def)
    with eq assms(7) have "c = b" by simp
    with canonical_serialize_inj [OF c(1) [unfolded \<open>c = b\<close>] assms(2-4)] assms(5) show False by simp
  qed
  moreover have "event_prev (e\<lparr>ev_row := r\<rparr>) = p" "stored_hash (e\<lparr>ev_row := r\<rparr>) = stored_hash e"
    using old by (simp_all add: event_prev_def stored_hash_def)
  ultimately show ?thesis using assms(2,6) by (simp add: walk_step_def compute_row_hash_def)
qed

text \<open>C24: a mutated row is found, and found exactly. In a chain that verifies, replace the data of one
linked row and leave every stored hash: the full walk then reports one break, at that row, as a
mutation, if the digest does not collide on the old and the new row.\<close>

theorem mutation_pinpointed:
  assumes "table_ok db" "verify_chain H jcs vs db cps org None None 1 None None = Inr R" "verified R"
    and "e \<in> set (org_linked org db)" "row_id r = ev_id e" "row_org r = org"
    and "canonical_serialize jcs r (event_prev e) 1 = Inr b"
    and "wf_row jcs (ev_row e) (event_prev e)" "wf_row jcs r (event_prev e)" "\<not> same_row jcs (ev_row e) r"
    and "\<And>c. canonical_serialize jcs (ev_row e) (event_prev e) 1 = Inr c \<Longrightarrow> H c = H b \<Longrightarrow> c = b"
  shows "\<exists>R'. verify_chain H jcs vs (rewrite_row (ev_id e) r db) cps org None None 1 None None = Inr R'
    \<and> \<not> verified R'
    \<and> breaks R' = [\<lparr>at_id = ev_id e, break_reason = ''row_hash mismatch (row mutated)''\<rparr>]"
proof -
  let ?f = "\<lambda>x. if ev_id x = ev_id e then x\<lparr>ev_row := r\<rparr> else x"
  note w = verified_full [OF assms(2,3)]
  obtain us vs' where L: "org_linked org db = us @ e # vs'" using split_list [OF assms(4)] by blast
  have "distinct (map ev_id (us @ e # vs'))" using distinct_ids(1) [OF assms(1)] L by metis
  then have "ev_id e \<notin> ev_id ` set us" "ev_id e \<notin> ev_id ` set vs'" by simp_all
  then have "map ?f us = us" "map ?f vs' = vs'" by (auto intro!: map_idI simp: image_iff)
  then have L': "org_linked org (rewrite_row (ev_id e) r db) = us @ e\<lparr>ev_row := r\<rparr> # vs'"
    using org_linked_rewrite [OF assms(1,4,5,6)] by (simp add: L)
  let ?p = "if us = [] then genesis_hash else stored_hash (last us)"
  have us: "verify_walk H jcs 1 False genesis_hash us = Inr []"
    and e: "walk_step H jcs 1 False ?p e = Inr []"
    and vs: "verify_walk H jcs 1 False (stored_hash e) vs' = Inr []"
    using w by (auto simp: L verify_walk_append)
  have p: "event_prev e = ?p" using walk_step_Nil [OF e] by blast
  have "walk_step H jcs 1 False ?p (e\<lparr>ev_row := r\<rparr>)
      = Inr [\<lparr>at_id = ev_id e, break_reason = ''row_hash mismatch (row mutated)''\<rparr>]"
    using assms(7-11) unfolding p by (intro walk_step_rewritten [OF e]) (auto simp: assms(5))
  moreover have "stored_hash (e\<lparr>ev_row := r\<rparr>) = stored_hash e" by (simp add: stored_hash_def)
  ultimately have "verify_walk H jcs 1 False genesis_hash (org_linked org (rewrite_row (ev_id e) r db))
      = Inr [\<lparr>at_id = ev_id e, break_reason = ''row_hash mismatch (row mutated)''\<rparr>]"
    using us vs by (simp add: L' verify_walk_append)
  then show ?thesis by (simp add: verify_chain_full)
qed

subsection \<open>Concrete chains\<close>

definition sample_row :: "int \<Rightarrow> string \<Rightarrow> string \<Rightarrow> audit_row" where
  "sample_row i ip why =
     \<lparr>row_id = i, row_org = 0, occurred_at = 0, actor_id = None, actor_type = ''USER'',
      event_type = ''DOC_RELEASED'', object_type = ''document'', object_id = None, scope_ref = None,
      reason = Some why, before = None, after = None, request_id = None, client_ip = Some ip,
      user_agent = None, auth_context = None, signature_event_id = None\<rparr>"

definition sample_jcs :: "dict \<Rightarrow> (py_error, bytes) result" where
  "sample_jcs d = Inr []"

definition sample_H :: "bytes \<Rightarrow> bytes" where
  "sample_H b = 1 # b"

definition sample_msg :: "audit_row \<Rightarrow> bytes \<Rightarrow> bytes" where
  "sample_msg r p = (case canonical_serialize sample_jcs r p 1 of Inl _ \<Rightarrow> [] | Inr b \<Rightarrow> b)"

definition sample_event :: "audit_row \<Rightarrow> bytes \<Rightarrow> audit_event" where
  "sample_event r p = \<lparr>ev_row = r, ev_prev = Some p, ev_hash = Some (sample_H (sample_msg r p)), ev_chained_at = Some 0\<rparr>"

lemma sample_serialize: "canonical_serialize sample_jcs (sample_row i ip why) p 1
    = Inr (sample_msg (sample_row i ip why) p)"
  by (simp add: sample_msg_def canonical_serialize_def sample_row_def json_field_def)

lemma sample_wf:
  assumes "length ip < 1000" "length why < 1000"
  shows "wf_row sample_jcs (sample_row 7 ip why) genesis_hash"
proof -
  have u: "length (utf8 t) < 2 ^ 64" if "length t < 5000" for t
    using that utf8_length [of t] by simp
  have "length (int_str 7) < 5000" using length_nat_str_le [of 7 1] by (simp add: int_str_def)
  moreover have "length (strftime_utc 0 @ ''Z'') < 5000" using strftime_length [of 0] by (simp add: valid_instant_def instant_ordinal_def max_ordinal_def)
  moreover have "length (canonical) < 5000" if "canonical_inet (Some ip) = Some canonical" for canonical
    using that assms(1) canonical_inet_length [of ip canonical] by simp
  ultimately show ?thesis using assms u
    by (auto simp: wf_row_def row_items_def Let_def sample_row_def text_item_def json_item_def valid_instant_def
      instant_ordinal_def max_ordinal_def genesis_hash_def split: option.splits)
qed

lemma sample_verify:
  "verify_chain sample_H sample_jcs vs [sample_event (sample_row 7 ip why) genesis_hash] cps 0 None None 1 None None
     = Inr \<lparr>verified = True, checked = 1, pending = 0, breaks = [], checkpoint = None\<rparr>"
  by (simp add: verify_chain_full org_linked_def walk_step_def compute_row_hash_def sample_event_def
      event_prev_def stored_hash_def sample_serialize) (simp add: sample_row_def)

lemma sample_suffix:
  "canonical_serialize sample_jcs (sample_row 7 ''10.0.0.1/32'' ''ok'') p 1
     = Inr (sample_msg (sample_row 7 ''10.0.0.1'' ''ok'') p)"
proof -
  have c: "canonical_inet (Some ''10.0.0.1/32'') = Some ''10.0.0.1''" "canonical_inet (Some ''10.0.0.1'') = Some ''10.0.0.1''"
    by code_simp+
  show ?thesis
    unfolding sample_serialize [symmetric] by (simp add: canonical_serialize_def sample_row_def c)
qed

lemma sample_H_inj: "inj_on sample_H A" "genesis_hash \<notin> sample_H ` A" "sample_H b \<noteq> []"
  by (auto simp: sample_H_def inj_on_def genesis_hash_def numeral_eq_Suc)

lemma sample_linked: "org_linked 0 [sample_event (sample_row 7 ip why) p] = [sample_event (sample_row 7 ip why) p]"
  by (simp add: org_linked_def sample_event_def sample_row_def)

lemma sample_event_prev: "ev_row (sample_event r genesis_hash) = r" "event_prev (sample_event r genesis_hash) = genesis_hash"
  by (simp_all add: sample_event_def event_prev_def)

lemma canonical_bytes_determine_row_witness:
  "same_row sample_jcs (sample_row 7 ''10.0.0.1/32'' ''ok'') (sample_row 7 ''10.0.0.1'' ''ok'')"
  using canonical_bytes_determine_row [OF sample_suffix sample_serialize sample_wf sample_wf] by simp

lemma link_org_chain_verifies_witness:
  "\<exists>db' R'. link_org_chain sample_H sample_jcs (\<lambda>_. 0) 0 9
       [sample_event (sample_row 7 ''10.0.0.1'' ''ok'') genesis_hash,
        \<lparr>ev_row = sample_row 8 ''10.0.0.1'' ''next'', ev_prev = None, ev_hash = None, ev_chained_at = None\<rparr>] = Inr (db', 1)
     \<and> verify_chain sample_H sample_jcs (\<lambda>_ :: unit. undefined) db' [] 0 None None 1 None None = Inr R' \<and> verified R' \<and> checked R' = 2"
proof -
  let ?e = "sample_event (sample_row 7 ''10.0.0.1'' ''ok'') genesis_hash"
  let ?u = "\<lparr>ev_row = sample_row 8 ''10.0.0.1'' ''next'', ev_prev = None, ev_hash = None, ev_chained_at = None\<rparr>"
  have L: "org_linked 0 [?e, ?u] = [?e]" "org_unlinked 0 9 [?e, ?u] = [?u]"
    by (simp_all add: org_linked_def org_unlinked_def sample_event_def sample_row_def)
  have "\<exists>db'. link_org_chain sample_H sample_jcs (\<lambda>_. 0) 0 9 [?e, ?u] = Inr (db', 1)"
    by (simp add: link_org_chain_def link_loop.simps [of _ _ _ _ _ "[?e, ?u]"] L link_batch_size_def Let_def
        compute_row_hash_def sample_serialize)
  then obtain db' where db': "link_org_chain sample_H sample_jcs (\<lambda>_. 0) 0 9 [?e, ?u] = Inr (db', 1)" by blast
  moreover have "table_ok [?e, ?u]" "linked_below 0 9 [?e, ?u]"
    by (simp_all add: table_ok_def linked_below_def L) (simp_all add: sample_event_def sample_row_def)
  moreover have "verify_chain sample_H sample_jcs (\<lambda>_ :: unit. undefined) [?e, ?u] [] 0 None None 1 None None
      = Inr \<lparr>verified = True, checked = 1, pending = 1, breaks = [], checkpoint = None\<rparr>"
    by (simp add: verify_chain_full L walk_step_def compute_row_hash_def stored_hash_def sample_event_prev sample_serialize)
      (simp add: sample_event_def sample_row_def)
  ultimately show ?thesis
    using link_org_chain_verifies [of sample_H sample_jcs "\<lambda>_. 0" 0 9 "[?e, ?u]" db' 1 "\<lambda>_ :: unit. undefined" "[]"
      "\<lparr>verified = True, checked = 1, pending = 1, breaks = [], checkpoint = None\<rparr>"] sample_H_inj(3) by auto
qed

lemma chain_commits_to_history_witness:
  "list_all2 (\<lambda>e e'. same_row sample_jcs (ev_row e) (ev_row e'))
     (org_linked 0 [sample_event (sample_row 7 ''10.0.0.1/32'' ''ok'') genesis_hash])
     (org_linked 0 [sample_event (sample_row 7 ''10.0.0.1'' ''ok'') genesis_hash])"
proof (rule chain_commits_to_history [OF sample_verify _ sample_verify])
  show "chain_tip (org_linked 0 [sample_event (sample_row 7 ''10.0.0.1/32'' ''ok'') genesis_hash])
      = chain_tip (org_linked 0 [sample_event (sample_row 7 ''10.0.0.1'' ''ok'') genesis_hash])"
    using sample_suffix [unfolded sample_serialize]
    by (simp add: sample_linked chain_tip_def stored_hash_def) (simp add: sample_event_def)
qed (auto simp: sample_linked sample_event_prev sample_H_inj sample_wf)

lemma mutation_pinpointed_witness:
  "\<exists>R'. verify_chain sample_H sample_jcs (\<lambda>_ :: unit. undefined)
      (rewrite_row 7 (sample_row 7 ''10.0.0.1'' ''no'') [sample_event (sample_row 7 ''10.0.0.1'' ''ok'') genesis_hash])
      [] 0 None None 1 None None = Inr R' \<and> \<not> verified R'
    \<and> breaks R' = [\<lparr>at_id = 7, break_reason = ''row_hash mismatch (row mutated)''\<rparr>]"
proof -
  let ?e = "sample_event (sample_row 7 ''10.0.0.1'' ''ok'') genesis_hash" and ?r = "sample_row 7 ''10.0.0.1'' ''no''"
  have id: "ev_id ?e = 7" "row_id ?r = 7" "row_org ?r = 0" by (simp_all add: sample_event_def sample_row_def)
  have "\<not> same_row sample_jcs (ev_row ?e) ?r" by (simp add: sample_event_def sample_row_def same_row_def)
  moreover have "table_ok [?e]" by (simp add: table_ok_def)
  moreover have "canonical_serialize sample_jcs ?r (event_prev ?e) 1 = Inr (sample_msg ?r genesis_hash)"
    by (simp add: sample_event_prev sample_serialize)
  moreover have "wf_row sample_jcs (ev_row ?e) (event_prev ?e)" "wf_row sample_jcs ?r (event_prev ?e)"
    by (simp_all add: sample_event_prev sample_wf)
  moreover have "c = sample_msg ?r genesis_hash" if "sample_H c = sample_H (sample_msg ?r genesis_hash)" for c
    using that by (simp add: sample_H_def)
  ultimately show ?thesis
    using mutation_pinpointed [of "[?e]" sample_H sample_jcs "\<lambda>_ :: unit. undefined" "[]" 0 _ ?e ?r "sample_msg ?r genesis_hash"]
    by (simp add: sample_verify sample_linked id)
qed

end
