(* ===== verification/Watermark.thy ===== *)
theory Watermark
  imports Prelude
begin

text \<open>
  The safe-prefix watermark of the chain linker (\<open>services/audit/watermark.py\<close> and the drain loop of
  \<open>link_all\<close> in \<open>services/audit/linker.py\<close>), proved against a model of what the database does around
  it: transactions draw ids from a sequence, end by commit or rollback, and the linker sees the ids of
  committed transactions together with the bounds of the snapshot it saw them in. The model has the
  precondition the source states: an id is drawn by a transaction that already has its xid.
\<close>

subsection \<open>One tick\<close>

record watermark_state =
  watermark :: int
  stall_xmax :: "int option"
  stall_ceiling :: "int option"

record watermark_step =
  step_state :: watermark_state
  link_up_to :: int

fun dense_run :: "int \<Rightarrow> int list \<Rightarrow> int" where
  "dense_run e [] = e"
| "dense_run e (i # is) = (if i = e + 1 then dense_run i is else e)"

definition advance_watermark :: "watermark_state \<Rightarrow> int list \<Rightarrow> int \<Rightarrow> int \<Rightarrow> watermark_step" where
  "advance_watermark prior ids_above snap_xmin snap_xmax =
     (let w = watermark prior;
          to = (\<lambda>x. \<lparr>step_state = \<lparr>watermark = x, stall_xmax = None, stall_ceiling = None\<rparr>, link_up_to = x\<rparr>) in
      if ids_above = [] then to w
      else
        let dense_end = dense_run w ids_above; max_seen = last ids_above in
        if dense_end = max_seen then to dense_end
        else if (case stall_xmax prior of None \<Rightarrow> False | Some x \<Rightarrow> snap_xmin \<ge> x) then
          to (max dense_end (case stall_ceiling prior of None \<Rightarrow> dense_end | Some c \<Rightarrow> if c = 0 then dense_end else c))
        else
          let keep = (stall_xmax prior \<noteq> None
                \<and> (case stall_ceiling prior of None \<Rightarrow> False | Some c \<Rightarrow> dense_end + 1 \<le> c)) in
          \<lparr>step_state = \<lparr>watermark = dense_end,
             stall_xmax = (if keep then stall_xmax prior else Some snap_xmax),
             stall_ceiling = (if keep then stall_ceiling prior else Some max_seen)\<rparr>,
           link_up_to = dense_end\<rparr>)"

text \<open>The loop of \<open>link_all\<close>: one entry per window it may read, each the ids above the watermark
with the snapshot bounds. The result is the cursor to save and the bounds the organisations were linked
up to.\<close>

fun drain_windows ::
    "nat \<Rightarrow> watermark_state \<Rightarrow> (watermark_state \<Rightarrow> int list \<times> int \<times> int) list \<Rightarrow> watermark_state \<times> int list" where
  "drain_windows win prior [] = (prior, [])"
| "drain_windows win prior (q # qs) =
     (case q prior of (rows, xmin, xmax) \<Rightarrow>
        if rows = [] then (step_state (advance_watermark prior [] 0 0), [])
        else
          let step = advance_watermark prior rows xmin xmax;
              advanced = link_up_to step > watermark prior;
              linked = (if advanced then [link_up_to step] else []) in
          if stall_xmax (step_state step) \<noteq> None \<or> \<not> advanced \<or> length rows < win
          then (step_state step, linked)
          else (case drain_windows win (step_state step) qs of (s, ls) \<Rightarrow> (s, linked @ ls)))"

subsection \<open>The database around it\<close>

record pg_state =
  next_xid :: int
  next_id :: int
  owner :: "int \<Rightarrow> int"
  running :: "int set"
  committed :: "int set"
  cursor :: watermark_state

definition pg_init :: pg_state where
  "pg_init = \<lparr>next_xid = 1, next_id = 1, owner = (\<lambda>_. 0), running = {}, committed = {},
     cursor = \<lparr>watermark = 0, stall_xmax = None, stall_ceiling = None\<rparr>\<rparr>"

definition visible :: "pg_state \<Rightarrow> int set" where
  "visible s = {i. 1 \<le> i \<and> i < next_id s \<and> owner s i \<in> committed s}"

definition snapshot_xmin :: "pg_state \<Rightarrow> int" where
  "snapshot_xmin s = (if running s = {} then next_xid s else Min (running s))"

text \<open>The window query: the lowest \<open>win\<close> visible ids above the watermark.\<close>

definition window :: "nat \<Rightarrow> pg_state \<Rightarrow> int list" where
  "window win s = take win (sorted_list_of_set {i \<in> visible s. watermark (cursor s) < i})"

definition do_tick :: "nat \<Rightarrow> pg_state \<Rightarrow> pg_state" where
  "do_tick win s =
     s\<lparr>cursor := step_state (advance_watermark (cursor s) (window win s) (snapshot_xmin s) (next_xid s))\<rparr>"

inductive pg_step :: "nat \<Rightarrow> pg_state \<Rightarrow> pg_state \<Rightarrow> bool" for win where
  start: "pg_step win s (s\<lparr>next_xid := next_xid s + 1, running := insert (next_xid s) (running s)\<rparr>)"
| insert_row: "x \<in> running s \<Longrightarrow> pg_step win s (s\<lparr>next_id := next_id s + 1, owner := (owner s)(next_id s := x)\<rparr>)"
| commit: "x \<in> running s \<Longrightarrow> pg_step win s (s\<lparr>running := running s - {x}, committed := insert x (committed s)\<rparr>)"
| rollback: "x \<in> running s \<Longrightarrow> pg_step win s (s\<lparr>running := running s - {x}\<rparr>)"
| tick: "pg_step win s (do_tick win s)"

inductive_cases pg_stepE [step_elims]: "pg_step win s s'"

abbreviation pg_reachable :: "nat \<Rightarrow> pg_state \<Rightarrow> bool" where
  "pg_reachable win s \<equiv> (pg_step win)\<^sup>*\<^sup>* pg_init s"

subsection \<open>The invariant\<close>

definition decided :: "pg_state \<Rightarrow> int \<Rightarrow> bool" where
  "decided s i \<longleftrightarrow> i < next_id s \<and> owner s i \<notin> running s"

definition pg_inv :: "pg_state \<Rightarrow> bool" where
  "pg_inv s \<longleftrightarrow> finite (running s) \<and> 0 \<le> watermark (cursor s) \<and> 1 \<le> next_id s
     \<and> (\<forall>x \<in> running s \<union> committed s. x < next_xid s) \<and> running s \<inter> committed s = {}
     \<and> (\<forall>i. 1 \<le> i \<and> i < next_id s \<longrightarrow> owner s i < next_xid s)
     \<and> (\<forall>i. 1 \<le> i \<and> i \<le> watermark (cursor s) \<longrightarrow> decided s i)
     \<and> (\<forall>x. stall_xmax (cursor s) = Some x \<longrightarrow> x \<le> next_xid s)
     \<and> (\<forall>x c. stall_xmax (cursor s) = Some x \<and> stall_ceiling (cursor s) = Some c \<longrightarrow>
           c < next_id s \<and> (\<forall>i. 1 \<le> i \<and> i \<le> c \<longrightarrow> owner s i < x))"

lemma finite_visible [simp]: "finite {i \<in> visible s. watermark (cursor s) < i}"
  by (rule finite_subset [of _ "{1..<next_id s}"]) (auto simp: visible_def)

lemma dense_run_facts:
  "e \<le> dense_run e is \<and> (\<forall>i. e < i \<and> i \<le> dense_run e is \<longrightarrow> i \<in> set is)"
proof (induction "is" arbitrary: e)
  case (Cons i "is")
  show ?case
  proof (cases "i = e + 1")
    case True
    with Cons.IH [of i] show ?thesis by auto (metis add1_zle_eq order_le_less)
  qed auto
qed simp

lemma window_visible: "i \<in> set (window win s) \<Longrightarrow> i \<in> visible s"
  by (auto simp: window_def dest!: in_set_takeD)

lemma visible_decided: "pg_inv s \<Longrightarrow> i \<in> visible s \<Longrightarrow> decided s i"
  by (auto simp: pg_inv_def visible_def decided_def)

lemma pg_inv_init: "pg_inv pg_init"
  by (auto simp: pg_inv_def pg_init_def)

lemma pg_invI:
  assumes "finite (running s)" "0 \<le> watermark (cursor s)" "1 \<le> next_id s"
    and "\<And>x. x \<in> running s \<Longrightarrow> x < next_xid s" "\<And>x. x \<in> committed s \<Longrightarrow> x < next_xid s"
    and "running s \<inter> committed s = {}"
    and "\<And>i. 1 \<le> i \<Longrightarrow> i < next_id s \<Longrightarrow> owner s i < next_xid s"
    and "\<And>i. 1 \<le> i \<Longrightarrow> i \<le> watermark (cursor s) \<Longrightarrow> decided s i"
    and "\<And>x. stall_xmax (cursor s) = Some x \<Longrightarrow> x \<le> next_xid s"
    and "\<And>x c. stall_xmax (cursor s) = Some x \<Longrightarrow> stall_ceiling (cursor s) = Some c \<Longrightarrow>
           c < next_id s \<and> (\<forall>i. 1 \<le> i \<and> i \<le> c \<longrightarrow> owner s i < x)"
  shows "pg_inv s"
  using assms unfolding pg_inv_def by blast

lemma pg_invD:
  assumes "pg_inv s"
  shows "finite (running s)" "0 \<le> watermark (cursor s)" "1 \<le> next_id s"
    and "x \<in> running s \<Longrightarrow> x < next_xid s" "x \<in> committed s \<Longrightarrow> x < next_xid s"
    and "running s \<inter> committed s = {}"
    and "1 \<le> i \<Longrightarrow> i < next_id s \<Longrightarrow> owner s i < next_xid s"
    and "1 \<le> i \<Longrightarrow> i \<le> watermark (cursor s) \<Longrightarrow> decided s i"
    and "stall_xmax (cursor s) = Some x \<Longrightarrow> x \<le> next_xid s"
    and "stall_xmax (cursor s) = Some x \<Longrightarrow> stall_ceiling (cursor s) = Some c \<Longrightarrow>
           c < next_id s \<and> (\<forall>i. 1 \<le> i \<and> i \<le> c \<longrightarrow> owner s i < x)"
  using assms unfolding pg_inv_def by blast+

lemma inv_start:
  assumes "pg_inv s"
  shows "pg_inv (s\<lparr>next_xid := next_xid s + 1, running := insert (next_xid s) (running s)\<rparr>)" (is "pg_inv ?t")
proof (rule pg_invI)
  note D = pg_invD [OF assms]
  show "decided ?t i" if "1 \<le> i" "i \<le> watermark (cursor ?t)" for i
    using that D(8) [of i] D(7) [of i] by (auto simp: decided_def)
  show "x < next_xid ?t" if "x \<in> running ?t" for x using that D(4) [of x] by auto
  show "x < next_xid ?t" if "x \<in> committed ?t" for x using that D(5) [of x] by auto
  show "running ?t \<inter> committed ?t = {}" using D(5) [of "next_xid s"] D(6) by auto
  show "owner ?t i < next_xid ?t" if "1 \<le> i" "i < next_id ?t" for i using that D(7) [of i] by auto
  show "x \<le> next_xid ?t" if "stall_xmax (cursor ?t) = Some x" for x using that D(9) [of x] by auto
qed (use pg_invD [OF assms] in auto)

lemma inv_insert:
  assumes "pg_inv s" "x \<in> running s"
  shows "pg_inv (s\<lparr>next_id := next_id s + 1, owner := (owner s)(next_id s := x)\<rparr>)" (is "pg_inv ?t")
proof (rule pg_invI)
  note D = pg_invD [OF assms(1)]
  show "decided ?t i" if "1 \<le> i" "i \<le> watermark (cursor ?t)" for i
    using that D(8) [of i] by (auto simp: decided_def)
  show "owner ?t i < next_xid ?t" if "1 \<le> i" "i < next_id ?t" for i
    using that D(7) [of i] D(4) [OF assms(2)] by (auto split: if_splits)
  show "c < next_id ?t \<and> (\<forall>i. 1 \<le> i \<and> i \<le> c \<longrightarrow> owner ?t i < y)"
    if "stall_xmax (cursor ?t) = Some y" "stall_ceiling (cursor ?t) = Some c" for y c
    using that D(10) [of y c] by auto
qed (use pg_invD [OF assms(1)] in auto)

lemma inv_end:
  assumes "pg_inv s" "x \<in> running s" "cs = committed s \<or> cs = insert x (committed s)"
  shows "pg_inv (s\<lparr>running := running s - {x}, committed := cs\<rparr>)"
proof (rule pg_invI)
  note D = pg_invD [OF assms(1)]
  show "decided (s\<lparr>running := running s - {x}, committed := cs\<rparr>) i"
    if "1 \<le> i" "i \<le> watermark (cursor (s\<lparr>running := running s - {x}, committed := cs\<rparr>))" for i
    using that D(8) [of i] by (auto simp: decided_def)
  show "y < next_xid (s\<lparr>running := running s - {x}, committed := cs\<rparr>)"
    if "y \<in> committed (s\<lparr>running := running s - {x}, committed := cs\<rparr>)" for y
    using that D(4,5) assms(2,3) by auto
qed (use pg_invD [OF assms(1)] assms(3) in auto)

lemma dense_decided:
  assumes "pg_inv s" "1 \<le> i" "i \<le> dense_run (watermark (cursor s)) (window win s)"
  shows "decided s i"
proof (cases "i \<le> watermark (cursor s)")
  case True
  with assms show ?thesis by (auto simp: pg_inv_def)
next
  case False
  then have "i \<in> set (window win s)"
    using assms(3) dense_run_facts [of "watermark (cursor s)" "window win s"] by auto
  then show ?thesis using assms(1) window_visible visible_decided by blast
qed

lemma below_xmin_decided:
  assumes "pg_inv s" "1 \<le> i" "i < next_id s" "owner s i < x" "x \<le> snapshot_xmin s"
  shows "decided s i"
proof -
  have "owner s i < y" if "y \<in> running s" for y
  proof -
    have "Min (running s) \<le> y" using assms(1) that by (auto simp: pg_inv_def)
    with assms(4,5) that show ?thesis by (auto simp: snapshot_xmin_def split: if_splits)
  qed
  then show ?thesis using assms(3) by (auto simp: decided_def)
qed

lemma inv_cursor:
  assumes "pg_inv s" "0 \<le> watermark c" "\<And>i. 1 \<le> i \<Longrightarrow> i \<le> watermark c \<Longrightarrow> decided s i"
    and "\<And>x. stall_xmax c = Some x \<Longrightarrow> x \<le> next_xid s"
    and "\<And>x m. stall_xmax c = Some x \<Longrightarrow> stall_ceiling c = Some m \<Longrightarrow>
           m < next_id s \<and> (\<forall>i. 1 \<le> i \<and> i \<le> m \<longrightarrow> owner s i < x)"
  shows "pg_inv (s\<lparr>cursor := c\<rparr>)"
proof (rule pg_invI)
  show "decided (s\<lparr>cursor := c\<rparr>) i" if "1 \<le> i" "i \<le> watermark (cursor (s\<lparr>cursor := c\<rparr>))" for i
    using that assms(3) [of i] by (simp add: decided_def)
qed (use pg_invD [OF assms(1)] assms(2,4,5) in auto)

lemma inv_tick_cursor:
  assumes "pg_inv s"
  shows "pg_inv (s\<lparr>cursor := step_state (advance_watermark (cursor s) (window win s) (snapshot_xmin s) (next_xid s))\<rparr>)"
proof -
  let ?c = "cursor s" and ?W = "window win s"
  let ?d = "dense_run (watermark ?c) ?W"
  note d = dense_decided [OF assms, of _ win]
  have w0: "0 \<le> watermark ?c" and wd: "\<And>i. 1 \<le> i \<Longrightarrow> i \<le> watermark ?c \<Longrightarrow> decided s i"
    using assms by (auto simp: pg_inv_def)
  have le: "watermark ?c \<le> ?d" using dense_run_facts by blast
  consider (empty) "?W = []" | (dense) "?W \<noteq> []" "?d = last ?W"
    | (proved) x where "?W \<noteq> []" "?d \<noteq> last ?W" "stall_xmax ?c = Some x" "x \<le> snapshot_xmin s"
    | (wait) "?W \<noteq> []" "?d \<noteq> last ?W" "case stall_xmax ?c of None \<Rightarrow> True | Some x \<Rightarrow> \<not> x \<le> snapshot_xmin s"
    by (cases "stall_xmax ?c") auto
  then show ?thesis
  proof cases
    case empty
    then show ?thesis using w0 wd by (intro inv_cursor [OF assms]) (auto simp: advance_watermark_def Let_def)
  next
    case dense
    then show ?thesis using w0 le d by (intro inv_cursor [OF assms]) (auto simp: advance_watermark_def Let_def)
  next
    case proved
    have "decided s i" if "stall_ceiling ?c = Some m" "1 \<le> i" "i \<le> m" for i m
      using that assms proved(3,4) by (intro below_xmin_decided [of s i x]) (auto simp: pg_inv_def)
    with proved show ?thesis using w0 le d
      by (intro inv_cursor [OF assms]) (auto simp: advance_watermark_def Let_def max_def split: option.splits if_splits)
  next
    case wait
    have "last ?W < next_id s" using wait(1) window_visible [of "last ?W" win s] by (auto simp: visible_def)
    moreover have "owner s i < next_xid s" if "1 \<le> i" "i < next_id s" for i
      using assms that by (auto simp: pg_inv_def)
    moreover have "stall_xmax ?c = Some x \<Longrightarrow> x \<le> next_xid s"
      "stall_xmax ?c = Some x \<Longrightarrow> stall_ceiling ?c = Some m \<Longrightarrow>
         m < next_id s \<and> (\<forall>i. 1 \<le> i \<and> i \<le> m \<longrightarrow> owner s i < x)" for x m
      using assms by (auto simp: pg_inv_def)
    moreover have st: "step_state (advance_watermark ?c ?W (snapshot_xmin s) (next_xid s)) =
       (let keep = (stall_xmax ?c \<noteq> None \<and> (case stall_ceiling ?c of None \<Rightarrow> False | Some c \<Rightarrow> ?d + 1 \<le> c)) in
        \<lparr>watermark = ?d, stall_xmax = (if keep then stall_xmax ?c else Some (next_xid s)),
         stall_ceiling = (if keep then stall_ceiling ?c else Some (last ?W))\<rparr>)"
      using wait by (simp add: advance_watermark_def Let_def split: option.splits)
    ultimately show ?thesis unfolding st Let_def using w0 le d
      by (intro inv_cursor [OF assms]) (auto split: option.splits if_splits)
  qed
qed

lemma inv_tick: "pg_inv s \<Longrightarrow> pg_inv (do_tick win s)"
  by (simp add: do_tick_def inv_tick_cursor)

lemma pg_step_inv: "pg_step win s s' \<Longrightarrow> pg_inv s \<Longrightarrow> pg_inv s'"
proof (induction rule: pg_step.induct)
  case (rollback x s)
  then show ?case using inv_end [of s x "committed s"] by simp
qed (auto intro: inv_start inv_insert inv_end inv_tick)

lemma pg_reachable_inv: "pg_reachable win s \<Longrightarrow> pg_inv s"
  by (induction rule: rtranclp_induct) (auto intro: pg_inv_init pg_step_inv)

subsection \<open>What the watermark promises\<close>

lemma advance_mono: "watermark c \<le> watermark (step_state (advance_watermark c ids xmin xmax))"
  using dense_run_facts [of "watermark c" ids]
  by (auto simp: advance_watermark_def Let_def max_def split: option.splits)

lemma link_up_to_eq: "link_up_to (advance_watermark c ids xmin xmax) = watermark (step_state (advance_watermark c ids xmin xmax))"
  by (simp add: advance_watermark_def Let_def)

lemma decided_stable:
  assumes "pg_step win s t" "pg_inv s" "1 \<le> i" "decided s i"
  shows "decided t i \<and> (i \<in> visible t \<longleftrightarrow> i \<in> visible s)"
  using assms
proof (cases rule: pg_step.cases)
  case start
  with assms pg_invD(7) [OF assms(2), of i] show ?thesis by (auto simp: decided_def visible_def)
next
  case tick
  then show ?thesis using assms by (simp add: do_tick_def decided_def visible_def)
qed (auto simp: decided_def visible_def)

lemma step_watermark_mono: "pg_step win s t \<Longrightarrow> watermark (cursor s) \<le> watermark (cursor t)"
  by (induction rule: pg_step.induct) (auto simp: do_tick_def advance_mono)

lemma later_stable:
  assumes "(pg_step win)\<^sup>*\<^sup>* s t" "pg_inv s"
  shows "pg_inv t \<and> watermark (cursor s) \<le> watermark (cursor t)
    \<and> (\<forall>i. 1 \<le> i \<and> decided s i \<longrightarrow> decided t i \<and> (i \<in> visible t \<longleftrightarrow> i \<in> visible s))"
  using assms
proof (induction rule: rtranclp_induct)
  case (step t u)
  then show ?case using pg_step_inv decided_stable step_watermark_mono by (meson order_trans)
qed auto



definition stall_ok :: "watermark_state \<Rightarrow> bool" where
  "stall_ok c \<longleftrightarrow> (\<forall>x. stall_xmax c = Some x \<longrightarrow> (\<exists>m. stall_ceiling c = Some m \<and> watermark c < m \<and> m \<noteq> 0))"

lemma dense_run_le_last: "is \<noteq> [] \<Longrightarrow> sorted_wrt (<) is \<Longrightarrow> e < hd is \<Longrightarrow> dense_run e is \<le> last is"
proof (induction "is" arbitrary: e)
  case (Cons a as)
  show ?case
  proof (cases "as = []")
    case False
    with Cons.prems have "a < hd as" "a < last as" "sorted_wrt (<) as" by auto
    moreover from this Cons.prems have "e \<le> last as" by simp
    ultimately show ?thesis using Cons.IH [OF False, of a] False by (cases "a = e + 1") simp_all
  qed (use Cons.prems in auto)
qed simp

lemma window_sorted: "sorted_wrt (<) (window win s)"
  by (simp add: window_def sorted_wrt_take)

lemma window_above: "i \<in> set (window win s) \<Longrightarrow> watermark (cursor s) < i"
  by (auto simp: window_def dest!: in_set_takeD)

lemma dense_window_le: "window win s \<noteq> [] \<Longrightarrow> dense_run (watermark (cursor s)) (window win s) \<le> last (window win s)"
  using window_sorted window_above hd_in_set by (intro dense_run_le_last) blast+

lemma tick_stall_ok:
  assumes "stall_ok (cursor s)" "pg_inv s"
  shows "stall_ok (cursor (do_tick win s))"
proof (cases "window win s = []")
  case False
  have "0 < last (window win s)" using window_above [of "last (window win s)" win s] False pg_invD(2) [OF assms(2)] by simp
  with assms(1) dense_window_le [OF False] show ?thesis
    by (auto simp: do_tick_def stall_ok_def advance_watermark_def Let_def split: option.splits if_splits)
qed (simp add: do_tick_def stall_ok_def advance_watermark_def Let_def)

lemma reachable_stall_ok: "pg_reachable win s \<Longrightarrow> stall_ok (cursor s)"
proof (induction rule: rtranclp_induct)
  case base
  then show ?case by (simp add: pg_init_def stall_ok_def)
next
  case (step s t)
  from step(2,1,3) show ?case
    by (cases rule: pg_step.cases) (auto intro: tick_stall_ok pg_reachable_inv)
qed

lemma quiet_tick:
  assumes "pg_inv s" "stall_ok (cursor s)" "running s = {}" "window win s \<noteq> []"
  shows "watermark (cursor s) < watermark (cursor (do_tick win s))
    \<or> watermark (cursor (do_tick win s)) = watermark (cursor s)
      \<and> stall_xmax (cursor (do_tick win s)) = Some (next_xid s)
      \<and> stall_ceiling (cursor (do_tick win s)) = Some (last (window win s))"
proof -
  have x: "\<And>x. stall_xmax (cursor s) = Some x \<Longrightarrow> x \<le> snapshot_xmin s"
    using pg_invD(9) [OF assms(1)] assms(3) by (auto simp: snapshot_xmin_def)
  have l: "watermark (cursor s) < last (window win s)" 
    using assms(4) window_above [of "last (window win s)" win s] by simp
  have d: "watermark (cursor s) \<le> dense_run (watermark (cursor s)) (window win s)" using dense_run_facts by blast
  show ?thesis using x l d assms(2,4)
    by (auto simp: do_tick_def advance_watermark_def Let_def stall_ok_def max_def split: option.splits)
qed

lemma do_tick_same [simp]:
  "running (do_tick win s) = running s" "visible (do_tick win s) = visible s" "next_xid (do_tick win s) = next_xid s"
  "snapshot_xmin (do_tick win s) = snapshot_xmin s"
  by (simp_all add: do_tick_def visible_def snapshot_xmin_def)

lemma two_ticks_advance:
  assumes "pg_inv s" "stall_ok (cursor s)" "running s = {}" "window win s \<noteq> []"
  shows "watermark (cursor s) < watermark (cursor (do_tick win (do_tick win s)))"
proof -
  let ?t = "do_tick win s"
  have m: "watermark (cursor ?t) \<le> watermark (cursor (do_tick win ?t))"
    unfolding do_tick_def [of win ?t] by (simp add: advance_mono)
  from quiet_tick [OF assms] show ?thesis
  proof
    assume "watermark (cursor s) < watermark (cursor ?t)"
    with m show ?thesis by simp
  next
    assume t: "watermark (cursor ?t) = watermark (cursor s) \<and> stall_xmax (cursor ?t) = Some (next_xid s)
      \<and> stall_ceiling (cursor ?t) = Some (last (window win s))"
    then have w: "window win ?t = window win s" by (simp add: window_def)
    have inv: "pg_inv ?t" "stall_ok (cursor ?t)" using assms inv_tick tick_stall_ok by blast+
    have "window win ?t \<noteq> []" using w assms(4) by simp
    from quiet_tick [OF inv _ this] assms(3)
    have "watermark (cursor ?t) < watermark (cursor (do_tick win ?t)) \<or> stall_xmax (cursor (do_tick win ?t)) \<noteq> None"
      by auto
    moreover have "stall_xmax (cursor (do_tick win ?t)) = None"
      unfolding do_tick_def [of win ?t] using t assms(3) by (simp add: advance_watermark_def Let_def snapshot_xmin_def)
    ultimately show ?thesis using t by simp
  qed
qed



subsection \<open>The drain loop\<close>

text \<open>The cursor saved after a drain is the last bound linked up to, and the bounds rise strictly.\<close>

lemma drain_windows_linked:
  "drain_windows win p qs = (s, ls) \<Longrightarrow>
     sorted_wrt (<) (watermark p # ls) \<and> last (watermark p # ls) = watermark s"
proof (induction win p qs arbitrary: s ls rule: drain_windows.induct)
  case (2 win prior q qs)
  obtain rows xmin xmax where q: "q prior = (rows, xmin, xmax)" by (metis prod_cases3)
  let ?st = "advance_watermark prior rows xmin xmax"
  have mono: "watermark prior \<le> watermark (step_state ?st)" by (rule advance_mono)
  show ?case
  proof (cases "rows = [] \<or> stall_xmax (step_state ?st) \<noteq> None \<or> \<not> link_up_to ?st > watermark prior \<or> length rows < win")
    case True
    with "2.prems" q mono show ?thesis
      by (auto simp: Let_def link_up_to_eq advance_watermark_def [of prior "[]"] split: if_splits)
  next
    case False
    obtain s' ls' where d: "drain_windows win (step_state ?st) qs = (s', ls')" by (cases "drain_windows win (step_state ?st) qs")
    have "s = s'" "ls = watermark (step_state ?st) # ls'" using "2.prems" q d False by (auto simp: Let_def link_up_to_eq)
    moreover have "sorted_wrt (<) (watermark (step_state ?st) # ls') \<and> last (watermark (step_state ?st) # ls') = watermark s'"
      using "2.IH" [OF q [symmetric] refl _ refl refl refl _ d] False by auto
    ultimately show ?thesis using False by (auto simp: link_up_to_eq)
  qed
qed simp

end
