(* ===== verification/Fsm.thy ===== *)
theory Fsm
  imports Prelude
begin

text \<open>
  The interface of the small state machines the program keeps as tables: a function that gives the
  targets allowed from a state, the guard that asks for one of them and the test for a terminal state.
  The domain machines of Lifecycles interpret it on their own tables.
\<close>

inductive fsm_run :: "('s \<Rightarrow> 's \<Rightarrow> bool) \<Rightarrow> 's \<Rightarrow> 's list \<Rightarrow> bool" for ok where
  fsm_stay: "fsm_run ok s []"
| fsm_move: "ok s t \<Longrightarrow> fsm_run ok t ts \<Longrightarrow> fsm_run ok s (t # ts)"

inductive_cases fsm_run_ConsE [elim!]: "fsm_run ok s (t # ts)"
inductive_simps fsm_run_simps [simp]: "fsm_run ok s []" "fsm_run ok s (t # ts)"

locale fsm =
  fixes targets :: "'s \<Rightarrow> 's set" and allowed :: "'s \<Rightarrow> 's \<Rightarrow> bool" and terminal :: "'s \<Rightarrow> bool"
  assumes allowed_targets: "allowed s t \<longleftrightarrow> t \<in> targets s"
    and terminal_targets: "terminal s \<longleftrightarrow> targets s = {}"
begin

lemma terminal_stuck: "terminal s \<Longrightarrow> \<not> allowed s t"
  by (simp add: allowed_targets terminal_targets)

lemma not_terminal_moves: "\<not> terminal s \<Longrightarrow> \<exists>t. allowed s t"
  by (auto simp: allowed_targets terminal_targets)

lemma run_from_terminal: "terminal s \<Longrightarrow> fsm_run allowed s ts \<longleftrightarrow> ts = []"
  by (cases ts) (auto simp: terminal_stuck)

lemma run_append: "fsm_run allowed s (ts @ us) \<longleftrightarrow> fsm_run allowed s ts \<and> fsm_run allowed (last (s # ts)) us"
  by (induction ts arbitrary: s) auto

lemma run_invariant:
  assumes "P s" "\<And>s t. P s \<Longrightarrow> t \<in> targets s \<Longrightarrow> P t" "fsm_run allowed s ts"
  shows "\<forall>t \<in> set (s # ts). P t"
  using assms(3,1) by (induction rule: fsm_run.induct) (auto simp: allowed_targets dest: assms(2))

lemma reachable_invariant:
  assumes "allowed\<^sup>*\<^sup>* s t" "P s" "\<And>s t. P s \<Longrightarrow> t \<in> targets s \<Longrightarrow> P t"
  shows "P t"
  using assms(1,2) by (induction rule: rtranclp_induct) (auto simp: allowed_targets dest: assms(3))

lemma last_step: "fsm_run allowed s (us @ [t]) \<Longrightarrow> t \<in> targets (last (s # us))"
  by (simp add: run_append allowed_targets)

lemma single_entry:
  assumes "fsm_run allowed s (us @ [t])" "\<And>r. t \<in> targets r \<Longrightarrow> r = p" "s \<noteq> p"
  shows "\<exists>vs. us = vs @ [p]"
proof -
  have l: "last (s # us) = p" using last_step [OF assms(1)] assms(2) by blast
  with assms(3) have "us \<noteq> []" by auto
  with l show ?thesis by (metis append_butlast_last_id last_ConsR)
qed

lemma only_entry:
  assumes "allowed\<^sup>*\<^sup>* s t" "s \<noteq> t" "\<And>r. t \<in> targets r \<Longrightarrow> r \<in> R"
  shows "\<exists>r \<in> R. allowed\<^sup>*\<^sup>* s r"
  using assms(1,2)
proof (cases rule: rtranclp.cases)
  case (rtrancl_into_rtrancl b)
  then show ?thesis using assms(3) [of b] by (auto simp: allowed_targets)
qed simp

end

locale ranked_fsm = fsm +
  fixes rank :: "'s \<Rightarrow> nat"
  assumes rank_rises: "t \<in> targets s \<Longrightarrow> rank s < rank t"
begin

lemma run_bounded: "fsm_run allowed s ts \<Longrightarrow> rank s + length ts \<le> rank (last (s # ts))"
proof (induction ts arbitrary: s)
  case (Cons t ts)
  then have "rank s < rank t" "rank t + length ts \<le> rank (last (t # ts))"
    by (auto simp: allowed_targets dest: rank_rises)
  then show ?case by simp
qed simp

lemma no_return: "allowed\<^sup>+\<^sup>+ s t \<Longrightarrow> rank s < rank t"
  by (induction rule: tranclp_induct) (auto simp: allowed_targets dest!: rank_rises)

lemma acyclic: "\<not> allowed\<^sup>+\<^sup>+ s s"
  using no_return by blast

end

end
