(* ===== verification/Lifecycles.thy ===== *)
theory Lifecycles
  imports Fsm Dates
begin

text \<open>
  The domain state machines of the corrective-action (CAPA), document-change-request (DCR),
  improvement and internal-audit families and of record disposition, each as the table the code
  keeps, with the pure predicates beside it: CAPA closure, CAPA separation of duties, target dates,
  the audit close gate and the disposer rule. Every machine interprets the interface of Fsm.
\<close>

definition table_targets :: "('s \<times> 's list) list \<Rightarrow> 's \<Rightarrow> 's set" where
  "table_targets t s = (case map_of t s of None \<Rightarrow> {} | Some ts \<Rightarrow> set ts)"

subsection \<open>CAPA\<close>

datatype capa_state =
    C_Raised | C_Containment | C_RootCause | C_ActionPlan | C_Implement | C_Verify | C_Closed | C_Rejected

definition capa_transitions :: "(capa_state \<times> capa_state list) list" where
  "capa_transitions =
     [(C_Raised, [C_Containment, C_Rejected]),
      (C_Containment, [C_RootCause, C_Rejected]),
      (C_RootCause, [C_ActionPlan, C_Rejected]),
      (C_ActionPlan, [C_Implement, C_Rejected]),
      (C_Implement, [C_Verify, C_Rejected]),
      (C_Verify, [C_Closed, C_RootCause]),
      (C_Closed, []),
      (C_Rejected, [])]"

definition capa_targets :: "capa_state \<Rightarrow> capa_state set" where
  "capa_targets s = table_targets capa_transitions s"

definition capa_allowed :: "capa_state \<Rightarrow> capa_state \<Rightarrow> bool" where
  "capa_allowed s t \<longleftrightarrow> t \<in> capa_targets s"

definition capa_terminal :: "capa_state \<Rightarrow> bool" where
  "capa_terminal s \<longleftrightarrow> capa_targets s = {}"

lemma capa_targets_simps [simp]:
  "capa_targets C_Raised = {C_Containment, C_Rejected}"
  "capa_targets C_Containment = {C_RootCause, C_Rejected}"
  "capa_targets C_RootCause = {C_ActionPlan, C_Rejected}"
  "capa_targets C_ActionPlan = {C_Implement, C_Rejected}"
  "capa_targets C_Implement = {C_Verify, C_Rejected}"
  "capa_targets C_Verify = {C_Closed, C_RootCause}"
  "capa_targets C_Closed = {}"
  "capa_targets C_Rejected = {}"
  by (simp_all add: capa_targets_def table_targets_def capa_transitions_def)

interpretation capa: fsm capa_targets capa_allowed capa_terminal
  by unfold_locales (auto simp: capa_allowed_def capa_terminal_def)

datatype nc_severity = Critical | Major | Minor

datatype closure_outcome = CLOSE | LOOP | INCOMPLETE

definition verifier_effective :: string where "verifier_effective = ''effective''"
definition verifier_decisions :: "string set" where
  "verifier_decisions = {verifier_effective, ''not_effective''}"

definition adjudicate_capa_closure :: "string \<Rightarrow> bool \<Rightarrow> bool \<Rightarrow> bool \<Rightarrow> closure_outcome \<times> string list" where
  "adjudicate_capa_closure decision has_root_cause has_implemented_with_evidence has_effectiveness_evidence =
     (if decision \<noteq> verifier_effective then (LOOP, [])
      else
        let missing = (if has_root_cause then [] else [''root_cause''])
              @ (if has_implemented_with_evidence then [] else [''implemented_action_with_evidence''])
              @ (if has_effectiveness_evidence then [] else [''effectiveness_evidence'']) in
        if missing \<noteq> [] then (INCOMPLETE, missing) else (CLOSE, []))"

lemma adjudicate_close_iff:
  "fst (adjudicate_capa_closure d r i e) = CLOSE \<longleftrightarrow> d = verifier_effective \<and> r \<and> i \<and> e"
  by (simp add: adjudicate_capa_closure_def)

definition capa_self_verify_blocked :: "uuid \<Rightarrow> uuid set \<Rightarrow> nc_severity \<Rightarrow> bool \<Rightarrow> bool" where
  "capa_self_verify_blocked verifier implementers severity allow_self =
     (if verifier \<notin> implementers then False
      else if severity \<in> {Critical, Major} then True
      else \<not> allow_self)"

definition capa_target_days :: "nc_severity \<Rightarrow> int" where
  "capa_target_days s = (case s of Critical \<Rightarrow> 30 | Major \<Rightarrow> 60 | Minor \<Rightarrow> 90)"

definition default_target_date :: "nc_severity \<Rightarrow> date \<Rightarrow> (py_error, date) result" where
  "default_target_date s raised_on = add_days raised_on (capa_target_days s)"

subsection \<open>DCR\<close>

datatype dcr_state =
    DCR_Open | DCR_Assessed | DCR_Routed | DCR_InApproval | DCR_Approved | DCR_Implemented | DCR_Closed | DCR_Cancelled | DCR_Rejected

definition dcr_transitions :: "(dcr_state \<times> dcr_state list) list" where
  "dcr_transitions =
     [(DCR_Open, [DCR_Assessed, DCR_Cancelled]),
      (DCR_Assessed, [DCR_Routed, DCR_Cancelled]),
      (DCR_Routed, [DCR_InApproval, DCR_Cancelled]),
      (DCR_InApproval, [DCR_Approved, DCR_Rejected, DCR_Open]),
      (DCR_Approved, [DCR_Implemented]),
      (DCR_Implemented, [DCR_Closed]),
      (DCR_Closed, []),
      (DCR_Cancelled, []),
      (DCR_Rejected, [])]"

definition dcr_targets :: "dcr_state \<Rightarrow> dcr_state set" where
  "dcr_targets s = table_targets dcr_transitions s"

definition dcr_allowed :: "dcr_state \<Rightarrow> dcr_state \<Rightarrow> bool" where
  "dcr_allowed s t \<longleftrightarrow> t \<in> dcr_targets s"

definition dcr_terminal :: "dcr_state \<Rightarrow> bool" where
  "dcr_terminal s \<longleftrightarrow> dcr_targets s = {}"

lemma dcr_targets_simps [simp]:
  "dcr_targets DCR_Open = {DCR_Assessed, DCR_Cancelled}"
  "dcr_targets DCR_Assessed = {DCR_Routed, DCR_Cancelled}"
  "dcr_targets DCR_Routed = {DCR_InApproval, DCR_Cancelled}"
  "dcr_targets DCR_InApproval = {DCR_Approved, DCR_Rejected, DCR_Open}"
  "dcr_targets DCR_Approved = {DCR_Implemented}"
  "dcr_targets DCR_Implemented = {DCR_Closed}"
  "dcr_targets DCR_Closed = {}"
  "dcr_targets DCR_Cancelled = {}"
  "dcr_targets DCR_Rejected = {}"
  by (simp_all add: dcr_targets_def table_targets_def dcr_transitions_def)

interpretation dcr: fsm dcr_targets dcr_allowed dcr_terminal
  by unfold_locales (auto simp: dcr_allowed_def dcr_terminal_def)

subsection \<open>Improvement initiatives\<close>

datatype improvement_stage = I_Open | I_InProgress | I_Completed | I_Closed | I_Cancelled

definition improvement_transitions :: "(improvement_stage \<times> improvement_stage list) list" where
  "improvement_transitions =
     [(I_Open, [I_InProgress, I_Cancelled]),
      (I_InProgress, [I_Completed, I_Cancelled]),
      (I_Completed, [I_Closed]),
      (I_Closed, []),
      (I_Cancelled, [])]"

definition improvement_targets :: "improvement_stage \<Rightarrow> improvement_stage set" where
  "improvement_targets s = table_targets improvement_transitions s"

definition improvement_allowed :: "improvement_stage \<Rightarrow> improvement_stage \<Rightarrow> bool" where
  "improvement_allowed s t \<longleftrightarrow> t \<in> improvement_targets s"

definition improvement_terminal :: "improvement_stage \<Rightarrow> bool" where
  "improvement_terminal s \<longleftrightarrow> improvement_targets s = {}"

lemma improvement_targets_simps [simp]:
  "improvement_targets I_Open = {I_InProgress, I_Cancelled}"
  "improvement_targets I_InProgress = {I_Completed, I_Cancelled}"
  "improvement_targets I_Completed = {I_Closed}"
  "improvement_targets I_Closed = {}"
  "improvement_targets I_Cancelled = {}"
  by (simp_all add: improvement_targets_def table_targets_def improvement_transitions_def)

fun improvement_rank :: "improvement_stage \<Rightarrow> nat" where
  "improvement_rank I_Open = 0"
| "improvement_rank I_InProgress = 1"
| "improvement_rank I_Completed = 2"
| "improvement_rank I_Closed = 3"
| "improvement_rank I_Cancelled = 3"

interpretation improvement: ranked_fsm improvement_targets improvement_allowed improvement_terminal improvement_rank
proof unfold_locales
  fix s t
  assume "t \<in> improvement_targets s"
  then show "improvement_rank s < improvement_rank t" by (cases s) auto
qed (auto simp: improvement_allowed_def improvement_terminal_def)

subsection \<open>Internal audits\<close>

datatype audit_state =
    A_Scheduled | A_Planned | A_InProgress | A_FindingsDraft | A_Reported | A_Closing | A_Closed

definition audit_transitions :: "(audit_state \<times> audit_state) list" where
  "audit_transitions =
     [(A_Scheduled, A_Planned), (A_Planned, A_InProgress), (A_InProgress, A_FindingsDraft),
      (A_FindingsDraft, A_Reported), (A_Reported, A_Closing), (A_Closing, A_Closed)]"

definition audit_next :: "audit_state \<Rightarrow> audit_state option" where
  "audit_next s = map_of audit_transitions s"

definition audit_allowed :: "audit_state \<Rightarrow> audit_state \<Rightarrow> bool" where
  "audit_allowed s t \<longleftrightarrow> map_of audit_transitions s = Some t"

lemma audit_next_simps [simp]:
  "audit_next A_Scheduled = Some A_Planned"
  "audit_next A_Planned = Some A_InProgress"
  "audit_next A_InProgress = Some A_FindingsDraft"
  "audit_next A_FindingsDraft = Some A_Reported"
  "audit_next A_Reported = Some A_Closing"
  "audit_next A_Closing = Some A_Closed"
  "audit_next A_Closed = None"
  by (simp_all add: audit_next_def audit_transitions_def)

fun audit_rank :: "audit_state \<Rightarrow> nat" where
  "audit_rank A_Scheduled = 0"
| "audit_rank A_Planned = 1"
| "audit_rank A_InProgress = 2"
| "audit_rank A_FindingsDraft = 3"
| "audit_rank A_Reported = 4"
| "audit_rank A_Closing = 5"
| "audit_rank A_Closed = 6"

interpretation audit: ranked_fsm "\<lambda>s. set_option (audit_next s)" audit_allowed "\<lambda>s. audit_next s = None" audit_rank
proof unfold_locales
  fix s t
  assume "t \<in> set_option (audit_next s)"
  then show "audit_rank s < audit_rank t" by (cases s) auto
qed (auto simp: audit_allowed_def audit_next_def elem_set)

datatype finding_type = NC | OBSERVATION | OFI

definition finding_blocks_close :: "finding_type \<Rightarrow> bool \<Rightarrow> capa_state option \<Rightarrow> bool" where
  "finding_blocks_close ft superseded capa_close_state =
     (if ft \<noteq> NC then False
      else if superseded then False
      else capa_close_state \<noteq> Some C_Closed)"

subsection \<open>Record disposition\<close>

datatype disposition_state = ACTIVE | DUE_FOR_REVIEW | ON_HOLD | DISPOSED

definition disposition_table :: "(disposition_state \<times> disposition_state) list" where
  "disposition_table =
     [(ACTIVE, DUE_FOR_REVIEW), (DUE_FOR_REVIEW, DISPOSED), (DUE_FOR_REVIEW, ACTIVE),
      (ACTIVE, ON_HOLD), (DUE_FOR_REVIEW, ON_HOLD), (ON_HOLD, ACTIVE)]"

definition legal_disposition_transition :: "disposition_state \<Rightarrow> disposition_state \<Rightarrow> bool" where
  "legal_disposition_transition s t \<longleftrightarrow> (s, t) \<in> set disposition_table"

definition disposition_targets :: "disposition_state \<Rightarrow> disposition_state set" where
  "disposition_targets s = {t. legal_disposition_transition s t}"

lemma disposition_targets_simps [simp]:
  "disposition_targets ACTIVE = {DUE_FOR_REVIEW, ON_HOLD}"
  "disposition_targets DUE_FOR_REVIEW = {DISPOSED, ACTIVE, ON_HOLD}"
  "disposition_targets ON_HOLD = {ACTIVE}"
  "disposition_targets DISPOSED = {}"
  by (auto simp: disposition_targets_def legal_disposition_transition_def disposition_table_def)

interpretation disposition: fsm disposition_targets legal_disposition_transition "\<lambda>s. s = DISPOSED"
proof unfold_locales
  fix s show "s = DISPOSED \<longleftrightarrow> disposition_targets s = {}" by (cases s) auto
qed (simp add: disposition_targets_def)

definition self_disposition_blocked :: "uuid \<Rightarrow> uuid \<Rightarrow> bool \<Rightarrow> bool" where
  "self_disposition_blocked actor captured_by allow_self \<longleftrightarrow> \<not> allow_self \<and> actor = captured_by"

subsection \<open>What the tables guarantee\<close>

lemma capa_run_prefix: "fsm_run capa_allowed s (us @ vs) \<Longrightarrow> fsm_run capa_allowed s us"
  by (simp add: capa.run_append)

lemma capa_closed_shape:
  assumes "fsm_run capa_allowed C_Raised (us @ [C_Closed])"
  shows "\<exists>vs. us = vs @ [C_RootCause, C_ActionPlan, C_Implement, C_Verify]"
proof -
  have p: "r = C_Verify" if "C_Closed \<in> capa_targets r" for r using that by (cases r) auto
  have q: "r = C_Implement" if "C_Verify \<in> capa_targets r" for r using that by (cases r) auto
  have w: "r = C_ActionPlan" if "C_Implement \<in> capa_targets r" for r using that by (cases r) auto
  have x: "r = C_RootCause" if "C_ActionPlan \<in> capa_targets r" for r using that by (cases r) auto
  obtain a where a: "us = a @ [C_Verify]" using capa.single_entry [OF assms p] by auto
  obtain b where b: "a = b @ [C_Implement]"
    using capa.single_entry [OF capa_run_prefix [OF assms [unfolded a]] q] by auto
  have rb: "fsm_run capa_allowed C_Raised (b @ [C_Implement])"
    using capa_run_prefix assms a b by (metis append.assoc)
  obtain c where c: "b = c @ [C_ActionPlan]" using capa.single_entry [OF rb w] by auto
  obtain d where d: "c = d @ [C_RootCause]"
    using capa.single_entry [OF capa_run_prefix [OF rb [unfolded c]] x] by auto
  show ?thesis using a b c d by simp
qed

lemma dcr_run_prefix: "fsm_run dcr_allowed s (us @ vs) \<Longrightarrow> fsm_run dcr_allowed s us"
  by (simp add: dcr.run_append)

lemma dcr_closed_shape:
  assumes "fsm_run dcr_allowed DCR_Open (us @ [DCR_Closed])"
  shows "\<exists>vs. us = vs @ [DCR_Assessed, DCR_Routed, DCR_InApproval, DCR_Approved, DCR_Implemented]"
proof -
  have p: "r = DCR_Implemented" if "DCR_Closed \<in> dcr_targets r" for r using that by (cases r) auto
  have q: "r = DCR_Approved" if "DCR_Implemented \<in> dcr_targets r" for r using that by (cases r) auto
  have w: "r = DCR_InApproval" if "DCR_Approved \<in> dcr_targets r" for r using that by (cases r) auto
  have x: "r = DCR_Routed" if "DCR_InApproval \<in> dcr_targets r" for r using that by (cases r) auto
  have y: "r = DCR_Assessed" if "DCR_Routed \<in> dcr_targets r" for r using that by (cases r) auto
  obtain a where a: "us = a @ [DCR_Implemented]" using dcr.single_entry [OF assms p] by auto
  have ra: "fsm_run dcr_allowed DCR_Open (a @ [DCR_Implemented])" using dcr_run_prefix [OF assms] a by simp
  obtain b where b: "a = b @ [DCR_Approved]" using dcr.single_entry [OF ra q] by auto
  have rb: "fsm_run dcr_allowed DCR_Open (b @ [DCR_Approved])" using dcr_run_prefix [OF ra] b by simp
  obtain c where c: "b = c @ [DCR_InApproval]" using dcr.single_entry [OF rb w] by auto
  have rc: "fsm_run dcr_allowed DCR_Open (c @ [DCR_InApproval])" using dcr_run_prefix [OF rb] c by simp
  obtain d where d: "c = d @ [DCR_Routed]" using dcr.single_entry [OF rc x] by auto
  have rd: "fsm_run dcr_allowed DCR_Open (d @ [DCR_Routed])" using dcr_run_prefix [OF rc] d by simp
  obtain e where e: "d = e @ [DCR_Assessed]" using dcr.single_entry [OF rd y] by auto
  show ?thesis using a b c d e by simp
qed

lemma audit_step_rank: "audit_allowed s t \<Longrightarrow> audit_rank t = Suc (audit_rank s)"
  by (cases s) (auto simp: audit_allowed_def audit_transitions_def split: if_splits)

lemma audit_run_rank: "fsm_run audit_allowed s ts \<Longrightarrow> audit_rank (last (s # ts)) = audit_rank s + length ts"
  by (induction ts arbitrary: s) (auto dest: audit_step_rank)

lemma audit_closed_length:
  "fsm_run audit_allowed A_Scheduled as \<Longrightarrow> last (A_Scheduled # as) = A_Closed \<Longrightarrow> length as = 6"
  using audit_run_rank [of A_Scheduled as] by simp

text \<open>The lifecycle tables cannot be used to skip a duty. Every run of a CAPA that ends in Closed
  ends with root cause, approved plan, implementation and verification in that order, however often
  the effectiveness loop was taken before; every run of a change request that ends in Closed ends with
  assessment, routing, approval and implementation.\<close>

theorem lifecycles_skip_nothing:
  assumes "fsm_run capa_allowed C_Raised (us @ [C_Closed])"
    and "fsm_run dcr_allowed DCR_Open (ds @ [DCR_Closed])"
  shows "(\<exists>vs. us = vs @ [C_RootCause, C_ActionPlan, C_Implement, C_Verify]) \<and>
    (\<exists>vs. ds = vs @ [DCR_Assessed, DCR_Routed, DCR_InApproval, DCR_Approved, DCR_Implemented])"
  using capa_closed_shape [OF assms(1)] dcr_closed_shape [OF assms(2)] by blast

theorem lifecycles_skip_nothing_witness:
  defines "us \<equiv> [C_Containment, C_RootCause, C_ActionPlan, C_Implement, C_Verify, C_RootCause, C_ActionPlan,
      C_Implement, C_Verify]"
    and "ds \<equiv> [DCR_Assessed, DCR_Routed, DCR_InApproval, DCR_Open, DCR_Assessed, DCR_Routed, DCR_InApproval, DCR_Approved,
      DCR_Implemented]"
  shows "fsm_run capa_allowed C_Raised (us @ [C_Closed]) \<and> fsm_run dcr_allowed DCR_Open (ds @ [DCR_Closed]) \<and>
    (\<exists>vs. us = vs @ [C_RootCause, C_ActionPlan, C_Implement, C_Verify])"
proof -
  have a: "fsm_run capa_allowed C_Raised (us @ [C_Closed])" by (simp add: us_def capa_allowed_def)
  have b: "fsm_run dcr_allowed DCR_Open (ds @ [DCR_Closed])" by (simp add: ds_def dcr_allowed_def)
  show ?thesis using a b lifecycles_skip_nothing [OF a b] by blast
qed



end
