(* ===== verification/Locks.thy ===== *)
theory Locks
  imports Prelude
begin

text \<open>
  The exclusive check-out lock (\<open>services/vault/locks.py\<close>): one Redis key per document with a token
  and an expiry, taken with \<open>SET NX EX\<close> and released or refreshed by a compare-and-set on the token.
  Time is in seconds and an entry is gone at its expiry. The fresh token is an argument.
\<close>

type_synonym lock_store = "uuid \<Rightarrow> (string \<times> int) option"

definition lock_ttl_seconds :: int where
  "lock_ttl_seconds = 28800"

definition lock_holder :: "lock_store \<Rightarrow> uuid \<Rightarrow> int \<Rightarrow> string option" where
  "lock_holder L d now = (case L d of None \<Rightarrow> None | Some (t, e) \<Rightarrow> if now < e then Some t else None)"

definition lock_acquire :: "lock_store \<Rightarrow> uuid \<Rightarrow> int \<Rightarrow> string \<Rightarrow> lock_store \<times> string option" where
  "lock_acquire L d now token =
     (if lock_holder L d now = None then (L(d \<mapsto> (token, now + lock_ttl_seconds)), Some token) else (L, None))"

definition lock_remaining :: "lock_store \<Rightarrow> uuid \<Rightarrow> int \<Rightarrow> int" where
  "lock_remaining L d now = (case L d of None \<Rightarrow> -2 | Some (_, e) \<Rightarrow> if now < e then e - now else -2)"

definition lock_release :: "lock_store \<Rightarrow> uuid \<Rightarrow> int \<Rightarrow> string \<Rightarrow> lock_store \<times> bool" where
  "lock_release L d now token =
     (if lock_holder L d now = Some token then (L(d := None), True) else (L, False))"

definition lock_force_release :: "lock_store \<Rightarrow> uuid \<Rightarrow> lock_store" where
  "lock_force_release L d = L(d := None)"

definition lock_heartbeat :: "lock_store \<Rightarrow> uuid \<Rightarrow> int \<Rightarrow> string \<Rightarrow> lock_store \<times> bool" where
  "lock_heartbeat L d now token =
     (if lock_holder L d now = Some token then (L(d \<mapsto> (token, now + lock_ttl_seconds)), True) else (L, False))"

lemmas lock_defs = lock_holder_def lock_acquire_def lock_release_def lock_force_release_def lock_heartbeat_def
  lock_ttl_seconds_def lock_remaining_def

text \<open>The operations of the lock as one step relation; a step happens at its own time, and time does
not run backwards.\<close>

datatype lock_op = Acquire string | LockRelease string | Heartbeat string | Break

fun lock_step :: "uuid \<Rightarrow> lock_store \<Rightarrow> int \<times> lock_op \<Rightarrow> lock_store" where
  "lock_step d L (now, Acquire t) = fst (lock_acquire L d now t)"
| "lock_step d L (now, LockRelease t) = fst (lock_release L d now t)"
| "lock_step d L (now, Heartbeat t) = fst (lock_heartbeat L d now t)"
| "lock_step d L (now, Break) = lock_force_release L d"

fun breaks_lock :: "string \<Rightarrow> lock_op \<Rightarrow> bool" where
  "breaks_lock t (LockRelease u) = (u = t)"
| "breaks_lock t Break = True"
| "breaks_lock t _ = False"

lemma lock_step_keeps:
  assumes "L d = Some (t, e)" "now < e" "\<not> breaks_lock t op"
  shows "\<exists>e'. lock_step d L (now, op) d = Some (t, e') \<and> e \<le> max e e' \<and> (op \<noteq> Heartbeat t \<longrightarrow> e' = e)
    \<and> (op = Heartbeat t \<longrightarrow> e' = now + lock_ttl_seconds)"
  using assms by (cases op) (auto simp: lock_defs)

text \<open>C26: the check-out lock excludes. Once a token holds the lock, then at any sequence of attempts
of other holders to take, release or refresh it, all made before it expires, the lock is still held by
that token and every attempt to take it has failed; only the holder's own release or a break ends it.\<close>

theorem lock_excludes:
  assumes "lock_acquire L d now t = (L', Some t)"
    and "\<forall>(n, op) \<in> set ops. n < now + lock_ttl_seconds \<and> \<not> breaks_lock t op \<and> op \<noteq> Heartbeat t"
    and "n < now + lock_ttl_seconds"
  shows "lock_holder (foldl (lock_step d) L' ops) d n = Some t
    \<and> snd (lock_acquire (foldl (lock_step d) L' ops) d n u) = None"
proof -
  have "L' d = Some (t, now + lock_ttl_seconds)"
    using assms(1) by (auto simp: lock_acquire_def split: if_splits)
  with assms(2) have "foldl (lock_step d) L' ops d = Some (t, now + lock_ttl_seconds)"
  proof (induction ops arbitrary: L')
    case (Cons x ops)
    obtain m op where x: "x = (m, op)" by (cases x)
    with Cons.prems have "m < now + lock_ttl_seconds" "\<not> breaks_lock t op" "op \<noteq> Heartbeat t" by auto
    with lock_step_keeps [of L' d t "now + lock_ttl_seconds" m op] Cons.prems(2)
    have "lock_step d L' x d = Some (t, now + lock_ttl_seconds)" by (auto simp: x)
    with Cons show ?case by simp
  qed simp
  with assms(3) show ?thesis by (simp add: lock_holder_def lock_acquire_def)
qed

lemma lock_excludes_witness:
  "lock_holder (foldl (lock_step 7) (fst (lock_acquire (\<lambda>_. None) 7 0 ''a'')) [(5, Acquire ''b''), (9, LockRelease ''b'')]) 7 10
     = Some ''a''"
proof -
  have "lock_acquire (\<lambda>_. None) 7 0 ''a'' = (fst (lock_acquire (\<lambda>_. None) 7 0 ''a''), Some ''a'')"
    by (simp add: lock_defs)
  from conjunct1 [OF lock_excludes [OF this, of "[(5, Acquire ''b''), (9, LockRelease ''b'')]" 10]]
  show ?thesis by (simp add: lock_ttl_seconds_def)
qed

end
