(* ===== verification/VaultFsm.thy ===== *)
theory VaultFsm
  imports Bytes
begin

text \<open>
  The pure document vault: the lifecycle table (\<open>domain/vault/lifecycle.py\<close>) and the identifier and
  revision-label formats (\<open>domain/vault/identifier.py\<close>). A version constructor carries the prefix
  \<open>V_\<close> and a document one \<open>D_\<close>, after the aliases \<open>V\<close> and \<open>D\<close> of the source.
\<close>

subsection \<open>The lifecycle table\<close>

datatype version_state = V_Draft | V_InReview | V_Approved | V_Effective | V_Superseded | V_Obsolete

datatype doc_state = D_Draft | D_InReview | D_Approved | D_Effective | D_UnderRevision | D_Superseded | D_Obsolete

datatype action = Submit_review | Approve | Request_changes | Release | Start_revision | Make_obsolete

fun action_value :: "action \<Rightarrow> string" where
  "action_value Submit_review = ''submit_review''"
| "action_value Approve = ''approve''"
| "action_value Request_changes = ''request_changes''"
| "action_value Release = ''release''"
| "action_value Start_revision = ''start_revision''"
| "action_value Make_obsolete = ''obsolete''"

record transition =
  tr_action :: action
  from_version_state :: "version_state option"
  to_version_state :: "version_state option"
  to_doc_state :: doc_state

definition tr :: "action \<Rightarrow> version_state option \<Rightarrow> version_state option \<Rightarrow> doc_state \<Rightarrow> transition" where
  "tr a f t d = \<lparr>tr_action = a, from_version_state = f, to_version_state = t, to_doc_state = d\<rparr>"

definition lifecycle_table :: "((doc_state \<times> action) \<times> transition) list" where
  "lifecycle_table =
     [((D_Draft, Submit_review), tr Submit_review (Some V_Draft) (Some V_InReview) D_InReview),
      ((D_UnderRevision, Submit_review), tr Submit_review (Some V_Draft) (Some V_InReview) D_InReview),
      ((D_InReview, Approve), tr Approve (Some V_InReview) (Some V_Approved) D_Approved),
      ((D_InReview, Request_changes), tr Request_changes (Some V_InReview) (Some V_Draft) D_Draft),
      ((D_Approved, Release), tr Release (Some V_Approved) (Some V_Effective) D_Effective),
      ((D_Effective, Start_revision), tr Start_revision None None D_UnderRevision),
      ((D_Effective, Make_obsolete), tr Make_obsolete (Some V_Effective) (Some V_Obsolete) D_Obsolete)]"

definition allowed_actions :: "doc_state \<Rightarrow> string list" where
  "allowed_actions d = sort (map (\<lambda>((s, a), _). action_value a) (filter (\<lambda>((s, _), _). s = d) lifecycle_table))"

datatype illegal_transition = IllegalTransition action doc_state "string list"

definition illegal :: "action \<Rightarrow> doc_state \<Rightarrow> illegal_transition" where
  "illegal a d = IllegalTransition a d (allowed_actions d)"

definition apply_transition :: "doc_state \<Rightarrow> action \<Rightarrow> (illegal_transition, transition) result" where
  "apply_transition d a = (case map_of lifecycle_table (d, a) of None \<Rightarrow> Inl (illegal a d) | Some t \<Rightarrow> Inr t)"

lemma apply_transition_cases:
  "apply_transition d a = Inr t \<longleftrightarrow>
     (d, a, t) \<in> {(D_Draft, Submit_review, tr Submit_review (Some V_Draft) (Some V_InReview) D_InReview),
       (D_UnderRevision, Submit_review, tr Submit_review (Some V_Draft) (Some V_InReview) D_InReview),
       (D_InReview, Approve, tr Approve (Some V_InReview) (Some V_Approved) D_Approved),
       (D_InReview, Request_changes, tr Request_changes (Some V_InReview) (Some V_Draft) D_Draft),
       (D_Approved, Release, tr Release (Some V_Approved) (Some V_Effective) D_Effective),
       (D_Effective, Start_revision, tr Start_revision None None D_UnderRevision),
       (D_Effective, Make_obsolete, tr Make_obsolete (Some V_Effective) (Some V_Obsolete) D_Obsolete)}"
  by (cases d; cases a) (auto simp: apply_transition_def lifecycle_table_def)

lemma allowed_actions_iff:
  "action_value a \<in> set (allowed_actions d) \<longleftrightarrow> (\<exists>t. apply_transition d a = Inr t)"
  by (cases d; cases a) (simp_all add: allowed_actions_def lifecycle_table_def apply_transition_def)

lemma obsolete_terminal: "allowed_actions D_Obsolete = [] \<and> apply_transition D_Obsolete a = Inl (illegal a D_Obsolete)"
  by (cases a) (simp_all add: allowed_actions_def lifecycle_table_def apply_transition_def)

subsection \<open>Identifiers\<close>

record parsed_identifier =
  type_code :: string
  area_code :: "string option"
  id_seq :: "nat option"

text \<open>The truth value of an optional string.\<close>

definition some_text :: "string option \<Rightarrow> bool" where
  "some_text s \<longleftrightarrow> s \<noteq> None \<and> s \<noteq> Some []"

definition format_identifier :: "string \<Rightarrow> nat \<Rightarrow> string option \<Rightarrow> nat \<Rightarrow> string" where
  "format_identifier tcode sq area width =
     join ''-'' ([tcode] @ (if some_text area then [the area] else []) @ [pad width sq])"

text \<open>\<open>str.isdigit\<close> holds of the three Latin-1 superscripts as well, which \<open>int\<close> refuses.\<close>

definition py_isdigit :: "string \<Rightarrow> bool" where
  "py_isdigit s \<longleftrightarrow> s \<noteq> [] \<and> (\<forall>c \<in> set s. is_digit c \<or> c \<in> {CHR 0xB2, CHR 0xB3, CHR 0xB9})"

definition py_int :: "string \<Rightarrow> (py_error, nat) result" where
  "py_int s = (if s \<noteq> [] \<and> list_all is_digit s then Inr (parse_nat s) else Inl ValueError)"

definition parse_identifier :: "string \<Rightarrow> (py_error, parsed_identifier) result" where
  "parse_identifier ident =
     (let parts = split_on (CHR ''-'') ident; tcode = hd parts in
      if length parts \<ge> 2 \<and> py_isdigit (last parts) then
        bind_res (py_int (last parts)) (\<lambda>sq.
        let area = join ''-'' (butlast (tl parts)) in
        Inr \<lparr>type_code = tcode, area_code = (if area = [] then None else Some area), id_seq = Some sq\<rparr>)
      else Inr \<lparr>type_code = tcode, area_code = None, id_seq = None\<rparr>)"

subsection \<open>Revision labels\<close>

function to_letters :: "int \<Rightarrow> string" where
  "to_letters n = (if n \<le> 0 then [] else to_letters ((n - 1) div 26) @ [char_of (65 + (n - 1) mod 26)])"
  by pat_completeness auto
termination
  by (relation "measure nat") (auto simp: nat_less_iff int_one_le_iff_zero_less zdiv_int)

declare to_letters.simps [simp del]

definition revision_label :: "int \<Rightarrow> string \<Rightarrow> string" where
  "revision_label version_seq style =
     (if style = ''numeric'' then int_str version_seq else ''Rev '' @ to_letters version_seq)"

definition of_letters :: "string \<Rightarrow> int" where
  "of_letters s = foldl (\<lambda>n c. 26 * n + (of_char c - 64)) 0 s"

lemma of_letters_to_letters: "0 \<le> n \<Longrightarrow> of_letters (to_letters n) = n"
proof (induction n rule: to_letters.induct)
  case (1 n)
  show ?case
  proof (cases "n \<le> 0")
    case True
    with "1.prems" have "n = 0" by simp
    then show ?thesis by (simp add: to_letters.simps [of 0] of_letters_def)
  next
    case False
    let ?r = "(n - 1) mod 26"
    have "(of_char (char_of (65 + ?r)) :: int) = 65 + ?r"
      by (simp add: of_char_of)
    moreover have "of_letters (to_letters ((n - 1) div 26)) = (n - 1) div 26" using "1.IH" False by simp
    moreover have "26 * ((n - 1) div 26) + ?r = n - 1" by simp
    ultimately show ?thesis using False by (simp add: to_letters.simps [of n] of_letters_def)
  qed
qed

subsection \<open>Properties\<close>

lemma digits_no_dash: "c \<in> set (pad k n) \<Longrightarrow> c \<noteq> CHR ''-''"
  using pad_digits [of c k n] by auto

lemma pad_isdigit: "py_isdigit (pad k n)" "py_int (pad k n) = Inr n"
  using pad_digits [of _ k n] by (auto simp: py_isdigit_def py_int_def list_all_iff) (simp_all add: pad_def)

lemma split_on_snoc: "c \<notin> set w \<Longrightarrow> split_on c (s @ c # w) = split_on c s @ [w]"
proof (induction s)
  case (Cons x s)
  then show ?case by (cases "split_on c s") auto
qed (simp add: split_on_no_sep)

text \<open>C39: identifiers round-trip. A formatted identifier parses back to its type code, its area and
its sequence number, for every type code without a dash; the area may contain dashes.\<close>

theorem identifier_round_trip:
  assumes "CHR ''-'' \<notin> set t" "area \<noteq> Some []"
  shows "parse_identifier (format_identifier t n area w) = Inr \<lparr>type_code = t, area_code = area, id_seq = Some n\<rparr>"
proof -
  have d: "CHR ''-'' \<notin> set (pad w n)" using digits_no_dash by blast
  show ?thesis
  proof (cases area)
    case None
    then have "split_on (CHR ''-'') (format_identifier t n area w) = [t, pad w n]"
      using split_on_append [OF assms(1), of "pad w n"] d
      by (simp add: format_identifier_def some_text_def split_on_no_sep)
    then show ?thesis using None by (simp add: parse_identifier_def Let_def pad_isdigit)
  next
    case (Some a)
    with assms(2) have a: "a \<noteq> []" by simp
    have "format_identifier t n area w = t @ CHR ''-'' # (a @ CHR ''-'' # pad w n)"
      using Some a by (simp add: format_identifier_def some_text_def)
    then have "split_on (CHR ''-'') (format_identifier t n area w) = t # split_on (CHR ''-'') a @ [pad w n]"
      using split_on_append [OF assms(1)] split_on_snoc [OF d, of a] by simp
    then show ?thesis using Some a
      by (simp add: parse_identifier_def Let_def pad_isdigit join_split_on)
  qed
qed

lemma identifier_round_trip_witness:
  "parse_identifier (format_identifier ''SOP'' 14 (Some ''PUR-EU'') 3)
     = Inr \<lparr>type_code = ''SOP'', area_code = Some ''PUR-EU'', id_seq = Some 14\<rparr>"
  by (rule identifier_round_trip) auto

text \<open>C40: revision labels do not repeat. In either style two revisions of a document that carry the
same label are the same revision.\<close>

theorem revision_label_unique:
  assumes "revision_label n style = revision_label m style" "0 \<le> n" "0 \<le> m"
  shows "n = m"
proof (cases "style = ''numeric''")
  case True
  with assms(1) show ?thesis by (auto simp: revision_label_def dest: int_str_inj)
next
  case False
  with assms(1) have "to_letters n = to_letters m" by (simp add: revision_label_def)
  with assms(2,3) show ?thesis by (metis of_letters_to_letters)
qed

lemma revision_label_unique_witness: "revision_label 27 ''letter'' = ''Rev AA'' \<and> (27::int) = 27"
proof -
  have l: "to_letters 27 = ''AA''"
    by (simp add: to_letters.simps [of 27] to_letters.simps [of 1] to_letters.simps [of 0] char_of_def)
  then show ?thesis using revision_label_unique [of 27 "''letter''" 27] by (simp add: revision_label_def)
qed

text \<open>Parsing an identifier can fail. The parser says it tolerates a code that does not conform,
and a superscript digit makes it raise instead: \<open>isdigit\<close> accepts the character and \<open>int\<close> refuses it.\<close>

theorem parse_identifier_raises: "parse_identifier (''SOP-'' @ [CHR 0xB2]) = Inl ValueError"
  by (simp add: parse_identifier_def Let_def py_isdigit_def py_int_def is_digit_def less_eq_char_def)

end
