(* ===== verification/VaultStore.thy ===== *)
theory VaultStore
  imports VaultFsm Locks Dates
begin

text \<open>
  The stateful document vault: the tables \<open>documented_information\<close>, \<open>document_version\<close> and
  \<open>working_draft\<close>, the numbering counters, the audit and signature rows and the post-commit queues, with
  the operations of \<open>services/vault/lifecycle.py\<close> and the check-out cycle of \<open>services/vault/service.py\<close>.
  An operation is a function from the state to an error or a new state: an exception rolls the session
  back. The Redis lock is part of the state. What the operations read outside these tables (document
  types, clause mappings, the blob store, the obsoletion legs, the time zone) is the record \<open>vault_env\<close>.
\<close>

subsection \<open>Tables\<close>

record version =
  ver_id :: uuid
  ver_doc :: uuid
  ver_seq :: int
  ver_label :: string
  ver_significance :: string
  ver_reason :: string
  ver_state :: version_state
  ver_sha :: string
  ver_snapshot :: dict
  ver_author :: "uuid option"
  ver_effective_from :: "instant option"
  ver_effective_to :: "instant option"
  ver_superseded_by :: "uuid option"

record document =
  doc_id :: uuid
  doc_org :: uuid
  doc_framework :: uuid
  doc_identifier :: string
  doc_title :: string
  doc_area :: "string option"
  doc_owner :: uuid
  doc_folder :: "string option"
  doc_classification :: string
  doc_type :: "uuid option"
  doc_singleton :: bool
  doc_current :: doc_state
  doc_effective :: "uuid option"
  doc_review_months :: "int option"
  doc_last_reviewed :: "instant option"
  doc_next_review :: "date option"
  doc_ack :: bool
  doc_updated_by :: "uuid option"

record app_user =
  user_id :: uuid
  user_org :: uuid

record working_draft =
  wd_by :: uuid
  wd_source :: "uuid option"
  wd_token :: "string option"
  wd_at :: instant

record vault_audit =
  va_event :: string
  va_actor :: "uuid option"
  va_object_type :: string
  va_object :: uuid
  va_identifier :: "string option"
  va_reason :: "string option"

record vault_signature =
  sg_version :: uuid
  sg_meaning :: string
  sg_signer :: "uuid option"
  sg_digest :: string
  sg_intent :: "string option"

record vault =
  docs :: "document list"
  versions :: "version list"
  drafts :: "uuid \<Rightarrow> working_draft option"
  locks :: lock_store
  counters :: "uuid \<times> string \<times> string \<Rightarrow> int option"
  audits :: "vault_audit list"
  signatures :: "vault_signature list"
  queued :: "(string \<times> string) list"
  plinks :: "(uuid \<times> uuid) list"
  templates :: "uuid \<Rightarrow> json option"

record document_type =
  dt_org :: uuid
  dt_code :: string
  dt_singleton :: bool

record distribution_entry =
  de_target_type :: string
  de_target :: uuid
  de_ack :: bool

record vault_env =
  doc_types :: "uuid \<Rightarrow> document_type option"
  framework_of :: "uuid \<Rightarrow> uuid option"
  distribution_of :: "uuid \<Rightarrow> distribution_entry list"
  objective_row :: "uuid \<Rightarrow> bool"
  review_row :: "uuid \<Rightarrow> bool"
  clause_count :: "uuid \<Rightarrow> nat"
  leadership_flag :: "uuid \<Rightarrow> bool"
  blob_known :: "string \<Rightarrow> bool"
  blob_refusal :: "string \<Rightarrow> (nat \<times> string) option"
  blob_worm :: "string \<Rightarrow> bool"
  content_digest :: "json \<Rightarrow> (py_error, string) result"
  governing :: "document \<Rightarrow> (string \<times> string) list"
  referencing :: "document \<Rightarrow> (string \<times> string) list"
  sole_star :: "document \<Rightarrow> (string \<times> string) list"
  org_date :: "uuid \<Rightarrow> instant \<Rightarrow> date"

text \<open>A problem response (status and code), an illegal transition, a violated unique index, a query
that expected one row, or a Python exception.\<close>

datatype vault_error =
    Problem nat string | Illegal illegal_transition | RaceLoss | MultipleRows | Raised py_error

definition type_codes :: "vault_env \<Rightarrow> uuid \<Rightarrow> string option" where
  "type_codes E t = map_option dt_code (doc_types E t)"

definition lift_fsm :: "(illegal_transition, 'a) result \<Rightarrow> (vault_error, 'a) result" where
  "lift_fsm r = (case r of Inl x \<Rightarrow> Inl (Illegal x) | Inr y \<Rightarrow> Inr y)"

definition lift_py :: "(py_error, 'a) result \<Rightarrow> (vault_error, 'a) result" where
  "lift_py r = (case r of Inl x \<Rightarrow> Inl (Raised x) | Inr y \<Rightarrow> Inr y)"

definition get_doc :: "vault \<Rightarrow> uuid \<Rightarrow> document option" where
  "get_doc v i = find (\<lambda>d. doc_id d = i) (docs v)"

definition get_version :: "vault \<Rightarrow> uuid \<Rightarrow> version option" where
  "get_version v i = find (\<lambda>x. ver_id x = i) (versions v)"

definition put_doc :: "document \<Rightarrow> vault \<Rightarrow> vault" where
  "put_doc d v = v\<lparr>docs := map (\<lambda>x. if doc_id x = doc_id d then d else x) (docs v)\<rparr>"

definition put_version :: "version \<Rightarrow> vault \<Rightarrow> vault" where
  "put_version r v = v\<lparr>versions := map (\<lambda>x. if ver_id x = ver_id r then r else x) (versions v)\<rparr>"

definition doc_versions :: "vault \<Rightarrow> uuid \<Rightarrow> version list" where
  "doc_versions v i = filter (\<lambda>x. ver_doc x = i) (versions v)"

definition latest_version :: "vault \<Rightarrow> uuid \<Rightarrow> version option" where
  "latest_version v i = (case rev (sort_key ver_seq (doc_versions v i)) of [] \<Rightarrow> None | x # _ \<Rightarrow> Some x)"

definition next_version_seq :: "vault \<Rightarrow> uuid \<Rightarrow> int" where
  "next_version_seq v i = (case latest_version v i of None \<Rightarrow> 1 | Some x \<Rightarrow> ver_seq x + 1)"

definition effective_versions :: "vault \<Rightarrow> uuid \<Rightarrow> version list" where
  "effective_versions v i = filter (\<lambda>x. ver_state x = V_Effective) (doc_versions v i)"

subsection \<open>Audit, signatures and queues\<close>

definition emit ::
    "string \<Rightarrow> uuid option \<Rightarrow> string \<Rightarrow> uuid \<Rightarrow> string option \<Rightarrow> string option \<Rightarrow> vault \<Rightarrow> vault" where
  "emit ev actor otype oid ident why v =
     v\<lparr>audits := audits v @ [\<lparr>va_event = ev, va_actor = actor, va_object_type = otype, va_object = oid,
        va_identifier = ident, va_reason = why\<rparr>]\<rparr>"

definition emit_signature :: "version \<Rightarrow> string \<Rightarrow> uuid option \<Rightarrow> string option \<Rightarrow> vault \<Rightarrow> vault" where
  "emit_signature r meaning signer intent v =
     v\<lparr>signatures := signatures v @ [\<lparr>sg_version = ver_id r, sg_meaning = meaning, sg_signer = signer,
        sg_digest = ver_sha r, sg_intent = intent\<rparr>]\<rparr>"

definition enqueue :: "string \<Rightarrow> string \<Rightarrow> vault \<Rightarrow> vault" where
  "enqueue queue arg v = v\<lparr>queued := queued v @ [(queue, arg)]\<rparr>"

lemmas vault_upd_defs = put_doc_def put_version_def emit_def emit_signature_def enqueue_def

subsection \<open>The metadata snapshot\<close>

text \<open>The snapshot of the metadata frozen on a version. A form template, objective, review or register
adds its own content under one further key.\<close>

definition distribution_snapshot :: "vault_env \<Rightarrow> uuid \<Rightarrow> json list" where
  "distribution_snapshot E i = map (\<lambda>e. JObj [(''target_type'', JStr (de_target_type e)),
     (''target_id'', JStr (uuid_str (de_target e))), (''ack_required'', JBool (de_ack e))]) (distribution_of E i)"

definition snapshot :: "document \<Rightarrow> (string \<times> json) option \<Rightarrow> json list \<Rightarrow> dict" where
  "snapshot d content distribution =
     [(''identifier'', JStr (doc_identifier d)), (''title'', JStr (doc_title d)),
      (''document_type_id'', opt_json (map_option uuid_str (doc_type d))),
      (''owner_user_id'', JStr (uuid_str (doc_owner d))), (''folder_path'', opt_json (doc_folder d)),
      (''classification'', JStr (doc_classification d)), (''framework_id'', JStr (uuid_str (doc_framework d))),
      (''review_period_months'', (case doc_review_months d of None \<Rightarrow> JNull | Some n \<Rightarrow> JInt n)),
      (''acknowledgement_required'', JBool (doc_ack d)), (''distribution'', JList distribution)]
     @ (case content of None \<Rightarrow> [] | Some (k, c) \<Rightarrow> [(k, c)])"

subsection \<open>Review dates\<close>

definition add_months :: "date \<Rightarrow> int \<Rightarrow> (py_error, date) result" where
  "add_months d months =
     (let total = month d - 1 + months; y = year d + total div 12; m = total mod 12 + 1 in
      mk_date y m (min (day d) (days_in_month y m)))"

definition compute_next_review_due ::
    "int option \<Rightarrow> instant option \<Rightarrow> instant option \<Rightarrow> (instant \<Rightarrow> date) \<Rightarrow> (py_error, date option) result" where
  "compute_next_review_due months reviewed effective to_date =
     (case months of None \<Rightarrow> Inr None
      | Some n \<Rightarrow>
        (let anchors = (case reviewed of None \<Rightarrow> [] | Some a \<Rightarrow> [a]) @ (case effective of None \<Rightarrow> [] | Some a \<Rightarrow> [a]) in
         if anchors = [] then Inr None
         else bind_res (add_months (to_date (Max (set anchors))) n) (\<lambda>d. Inr (Some d))))"

definition review_state :: "date option \<Rightarrow> date \<Rightarrow> (py_error, string option) result" where
  "review_state due today =
     (case due of None \<Rightarrow> Inr None
      | Some d \<Rightarrow> if d \<le> today then Inr (Some ''overdue'')
         else bind_res (add_days d (-30)) (\<lambda>lead.
           Inr (Some (if lead \<le> today then ''due_soon'' else ''current''))))"

subsection \<open>Guards\<close>

definition managed_register :: "vault_env \<Rightarrow> document \<Rightarrow> bool" where
  "managed_register E d =
     (case doc_type d of None \<Rightarrow> False
      | Some t \<Rightarrow> (case type_codes E t of None \<Rightarrow> False | Some c \<Rightarrow> c \<in> {''RSK'', ''CTX'', ''IPR''}))"

definition reject_managed_register_mutation :: "vault_env \<Rightarrow> document \<Rightarrow> (vault_error, unit) result" where
  "reject_managed_register_mutation E d =
     (if managed_register E d then Inl (Problem 422 ''validation_error'') else Inr ())"

definition reject_objective_byte_path :: "vault_env \<Rightarrow> document \<Rightarrow> (vault_error, unit) result" where
  "reject_objective_byte_path E d =
     bind_res (reject_managed_register_mutation E d) (\<lambda>_.
     if objective_row E (doc_id d) then Inl (Problem 422 ''validation_error'')
     else if review_row E (doc_id d) then Inl (Problem 422 ''validation_error'') else Inr ())"

definition require_editable_state :: "document \<Rightarrow> (vault_error, unit) result" where
  "require_editable_state d =
     (if doc_current d \<in> {D_Draft, D_UnderRevision} then Inr () else Inl (Problem 409 ''not_editable''))"

record obsoletion_safety =
  os_blocked :: bool
  os_reasons :: "(string \<times> string) list"

definition evaluate_obsoletion ::
    "(string \<times> string) list \<Rightarrow> (string \<times> string) list \<Rightarrow> (string \<times> string) list \<Rightarrow> obsoletion_safety" where
  "evaluate_obsoletion gov refs stars =
     (let names = (\<lambda>xs. join '', '' (map snd xs));
          leg = (\<lambda>xs code pre post. if xs = [] then []
                   else [(code, pre @ nat_str (length xs) @ post @ names xs)]);
          reasons = leg gov ''governs_active_process'' ''still governs '' '' active process(es): ''
            @ leg refs ''referenced_by_effective'' ''referenced by '' '' Effective doc(s): ''
            @ leg stars ''sole_star_coverage'' ''sole Effective coverer of '' '' star clause(s): '' in
      \<lparr>os_blocked = (reasons \<noteq> []), os_reasons = reasons\<rparr>)"

definition assert_obsoletion_allowed ::
    "vault_env \<Rightarrow> document \<Rightarrow> bool \<Rightarrow> string option \<Rightarrow> (vault_error, obsoletion_safety) result" where
  "assert_obsoletion_allowed E d force_retire justification =
     (let safety = evaluate_obsoletion (governing E d) (referencing E d) (sole_star E d) in
      if force_retire then
        (if strip (case justification of None \<Rightarrow> [] | Some j \<Rightarrow> j) = [] then Inl (Problem 422 ''validation_error'')
         else Inr safety)
      else if os_blocked safety then Inl (Problem 409 ''obsoletion_blocked'')
      else Inr safety)"

definition assert_release_authorized :: "vault_env \<Rightarrow> vault \<Rightarrow> document \<Rightarrow> version \<Rightarrow> (vault_error, unit) result" where
  "assert_release_authorized E v d r =
     (case doc_type d of None \<Rightarrow> Inr ()
      | Some t \<Rightarrow>
        if \<not> leadership_flag E (doc_org d) then Inr ()
        else if (case type_codes E t of None \<Rightarrow> True | Some c \<Rightarrow> c \<notin> {''POL'', ''OBJ'', ''MR''}) then Inr ()
        else if list_ex (\<lambda>s. sg_version s = ver_id r \<and> sg_meaning s = ''verify'') (signatures v) then Inr ()
        else Inl (Problem 409 ''leadership_authorization_required''))"

subsection \<open>The vault of a new installation\<close>

definition empty_vault :: vault where
  "empty_vault = \<lparr>docs = [], versions = [], drafts = (\<lambda>_. None), locks = (\<lambda>_. None), counters = (\<lambda>_. None),
     audits = [], signatures = [], queued = [], plinks = [], templates = (\<lambda>_. None)\<rparr>"

end
