(* ===== verification/VaultOps.thy ===== *)
theory VaultOps
  imports VaultStore
begin

text \<open>
  The operations of the vault: creation, the check-out cycle, the review transitions, the release
  cutover, the sweep of scheduled releases and obsoletion, each as the source composes it. A document
  the caller holds is named by its id; an operation on an id without a row is an error of the caller
  and yields \<open>Problem 404\<close>. An exception leaves the tables as they were.
\<close>

type_synonym 'a outcome = "(vault_error, 'a) result"

definition with_doc :: "vault \<Rightarrow> uuid \<Rightarrow> (document \<Rightarrow> 'a outcome) \<Rightarrow> 'a outcome" where
  "with_doc v i f = (case get_doc v i of None \<Rightarrow> Inl (Problem 404 ''not_found'') | Some d \<Rightarrow> f d)"

subsection \<open>Creation and check-out\<close>

definition allocate_seq :: "uuid \<Rightarrow> string \<Rightarrow> string \<Rightarrow> vault \<Rightarrow> vault \<times> int" where
  "allocate_seq org tcode area v =
     (let n = (case counters v (org, tcode, area) of None \<Rightarrow> 1 | Some k \<Rightarrow> k + 1) in
      (v\<lparr>counters := (counters v)((org, tcode, area) \<mapsto> n)\<rparr>, n))"

definition link_process :: "app_user \<Rightarrow> uuid \<Rightarrow> string \<Rightarrow> uuid \<times> string \<Rightarrow> vault \<Rightarrow> vault" where
  "link_process actor i ident p v =
     emit ''PROCESS_LINKED'' (Some (user_id actor)) ''document'' i (Some ident) None (v\<lparr>plinks := plinks v @ [(fst p, i)]\<rparr>)"

definition create_document ::
    "vault_env \<Rightarrow> app_user \<Rightarrow> uuid \<Rightarrow> string \<Rightarrow> uuid \<Rightarrow> string option \<Rightarrow> string option \<Rightarrow> string
       \<Rightarrow> (uuid \<times> string) list \<Rightarrow> vault \<Rightarrow> vault outcome" where
  "create_document E actor new_id title dtype area_opt folder klass processes v =
     (case doc_types E dtype of None \<Rightarrow> Inl (Problem 422 ''validation_error'')
      | Some dt \<Rightarrow>
        if dt_org dt \<noteq> user_org actor then Inl (Problem 422 ''validation_error'')
        else (case framework_of E (user_org actor) of None \<Rightarrow> Inl (Problem 422 ''validation_error'')
        | Some fw \<Rightarrow>
          if klass \<notin> {''Public'', ''Internal'', ''Confidential'', ''Restricted''} then Inl (Problem 422 ''validation_error'')
          else
            let area = (if some_text area_opt then the area_opt else ''GEN'');
                (v1, n) = allocate_seq (user_org actor) (dt_code dt) area v;
                ident = format_identifier (dt_code dt) (nat n) (Some area) 3;
                d = \<lparr>doc_id = new_id, doc_org = user_org actor, doc_framework = fw, doc_identifier = ident,
                     doc_title = title, doc_area = Some area, doc_owner = user_id actor, doc_folder = folder,
                     doc_classification = klass, doc_type = Some dtype, doc_singleton = dt_singleton dt,
                     doc_current = D_Draft, doc_effective = None, doc_review_months = Some 24,
                     doc_last_reviewed = None, doc_next_review = None, doc_ack = False, doc_updated_by = None\<rparr> in
            if get_doc v new_id \<noteq> None \<or> list_ex (\<lambda>x. doc_org x = user_org actor \<and> doc_identifier x = ident) (docs v)
            then Inl RaceLoss
            else Inr (fold (link_process actor new_id ident) processes
                  (emit ''DOCUMENT_CREATED'' (Some (user_id actor)) ''document'' new_id (Some ident) None
                    (v1\<lparr>docs := docs v1 @ [d]\<rparr>)))))"

definition take_draft :: "app_user \<Rightarrow> uuid \<Rightarrow> uuid option \<Rightarrow> string \<Rightarrow> instant \<Rightarrow> vault \<Rightarrow> vault" where
  "take_draft actor i src token now v =
     v\<lparr>drafts := (drafts v)(i \<mapsto> \<lparr>wd_by = user_id actor, wd_source = src, wd_token = Some token, wd_at = now\<rparr>)\<rparr>"

definition secs :: "instant \<Rightarrow> int" where
  "secs t = t div 1000000"

definition checkout :: "vault_env \<Rightarrow> app_user \<Rightarrow> uuid \<Rightarrow> instant \<Rightarrow> string \<Rightarrow> vault \<Rightarrow> vault outcome" where
  "checkout E actor i now token v =
     with_doc v i (\<lambda>d.
     bind_res (reject_objective_byte_path E d) (\<lambda>_.
     bind_res (require_editable_state d) (\<lambda>_.
     case lock_acquire (locks v) i (secs now) token of
       (_, None) \<Rightarrow> Inl (Problem 409 ''lock_conflict'')
     | (L, Some t) \<Rightarrow>
         Inr (emit ''CHECKOUT'' (Some (user_id actor)) ''document'' i (Some (doc_identifier d)) None
           (take_draft actor i (map_option ver_id (latest_version v i)) t now (v\<lparr>locks := L\<rparr>))))))"

definition release_after_commit :: "uuid \<Rightarrow> instant \<Rightarrow> string \<Rightarrow> vault \<Rightarrow> vault" where
  "release_after_commit i now token v =
     (if token = [] then v else v\<lparr>locks := fst (lock_release (locks v) i (secs now) token)\<rparr>)"

definition checkin ::
    "vault_env \<Rightarrow> app_user \<Rightarrow> uuid \<Rightarrow> instant \<Rightarrow> uuid \<Rightarrow> string \<Rightarrow> string \<Rightarrow> string \<Rightarrow> vault
       \<Rightarrow> (vault \<times> bool) outcome" where
  "checkin E actor i now new_id sha change_reason significance v =
     with_doc v i (\<lambda>d.
     bind_res (reject_objective_byte_path E d) (\<lambda>_.
     bind_res (require_editable_state d) (\<lambda>_.
     case drafts v i of
       None \<Rightarrow> Inl (Problem 409 ''lock_conflict'')
     | Some wd \<Rightarrow>
       if wd_by wd \<noteq> user_id actor then Inl (Problem 409 ''lock_conflict'')
       else if strip change_reason = [] then Inl (Problem 422 ''validation_error'')
       else if significance \<notin> {''MAJOR'', ''MINOR''} then Inl (Problem 422 ''validation_error'')
       else
         let token = (case wd_token wd of None \<Rightarrow> [] | Some t \<Rightarrow> t);
             drop_wd = (\<lambda>w. w\<lparr>drafts := (drafts w)(i := None)\<rparr>) in
         if map_option ver_sha (latest_version v i) = Some sha then
           (if \<not> blob_worm E sha then Inl (Problem 423 ''source_bytes_in_foreign_bucket'')
            else Inr (release_after_commit i now token
              (emit ''NO_CHANGE'' (Some (user_id actor)) ''document'' i (Some (doc_identifier d)) None (drop_wd v)), False))
         else if \<not> blob_known E sha \<and> blob_refusal E sha \<noteq> None then Inl (case_prod Problem (the (blob_refusal E sha)))
         else if \<not> blob_worm E sha then Inl (Problem 423 ''source_bytes_in_foreign_bucket'')
         else if get_version v new_id \<noteq> None then Inl RaceLoss
         else
           let n = next_version_seq v i;
               r = \<lparr>ver_id = new_id, ver_doc = i, ver_seq = n, ver_label = revision_label n ''letter'',
                    ver_significance = significance, ver_reason = strip change_reason, ver_state = V_Draft,
                    ver_sha = sha, ver_snapshot = snapshot d None (distribution_snapshot E i), ver_author = Some (user_id actor), ver_effective_from = None,
                    ver_effective_to = None, ver_superseded_by = None\<rparr> in
           Inr (release_after_commit i now token
             (emit ''CHECKIN'' (Some (user_id actor)) ''document_version'' new_id (Some (doc_identifier d))
                (Some (strip change_reason)) (drop_wd (v\<lparr>versions := versions v @ [r]\<rparr>))), True))))"

definition break_lock :: "app_user \<Rightarrow> uuid \<Rightarrow> vault \<Rightarrow> vault outcome" where
  "break_lock actor i v =
     with_doc v i (\<lambda>d.
     Inr (emit ''LOCK_BROKEN'' (Some (user_id actor)) ''document'' i (Some (doc_identifier d)) None
       (v\<lparr>locks := lock_force_release (locks v) i\<rparr>)))"

definition doc_heartbeat :: "app_user \<Rightarrow> uuid \<Rightarrow> instant \<Rightarrow> vault \<Rightarrow> (vault \<times> int) outcome" where
  "doc_heartbeat actor i now v =
     (case drafts v i of
        None \<Rightarrow> Inl (Problem 409 ''lock_conflict'')
      | Some wd \<Rightarrow>
        if wd_by wd \<noteq> user_id actor then Inl (Problem 409 ''lock_conflict'')
        else (case lock_heartbeat (locks v) i (secs now) (case wd_token wd of None \<Rightarrow> [] | Some t \<Rightarrow> t) of
                (L, False) \<Rightarrow> Inl (Problem 409 ''lock_conflict'')
              | (L, True) \<Rightarrow> Inr (v\<lparr>locks := L\<rparr>, lock_remaining L i (secs now))))"

subsection \<open>Review transitions\<close>

record transition_result =
  tres_doc :: document
  tres_version :: version
  tres_event :: string
  tres_reason :: "string option"

definition audit_transition :: "transition_result \<Rightarrow> app_user \<Rightarrow> vault \<Rightarrow> vault" where
  "audit_transition t actor =
     emit (tres_event t) (Some (user_id actor)) ''document_version'' (ver_id (tres_version t))
       (Some (doc_identifier (tres_doc t))) (tres_reason t)"

definition advance_active_version ::
    "app_user \<Rightarrow> document \<Rightarrow> action \<Rightarrow> string \<Rightarrow> string option \<Rightarrow> vault \<Rightarrow> (vault \<times> transition_result) outcome" where
  "advance_active_version actor d a ev why v =
     bind_res (lift_fsm (apply_transition (doc_current d) a)) (\<lambda>t.
     case (latest_version v (doc_id d), to_version_state t) of
       (Some r, Some s) \<Rightarrow>
         if Some (ver_state r) \<noteq> from_version_state t then Inl (Illegal (illegal a (doc_current d)))
         else
           let r' = r\<lparr>ver_state := s\<rparr>;
               d' = d\<lparr>doc_current := to_doc_state t, doc_updated_by := Some (user_id actor)\<rparr> in
           Inr (put_doc d' (put_version r' v), \<lparr>tres_doc = d', tres_version = r', tres_event = ev, tres_reason = why\<rparr>)
     | _ \<Rightarrow> Inl (Illegal (illegal a (doc_current d))))"

definition submit_review :: "vault_env \<Rightarrow> app_user \<Rightarrow> uuid \<Rightarrow> vault \<Rightarrow> (vault \<times> transition_result) outcome" where
  "submit_review E actor i v =
     with_doc v i (\<lambda>d.
     if clause_count E i = 0 then Inl (Problem 422 ''validation_error'')
     else
       let d' = (if doc_review_months d = None then d\<lparr>doc_review_months := Some 24\<rparr> else d) in
       advance_active_version actor d' Submit_review ''SUBMITTED_FOR_REVIEW'' None v)"

definition approve :: "app_user \<Rightarrow> uuid \<Rightarrow> instant option \<Rightarrow> vault \<Rightarrow> (vault \<times> transition_result) outcome" where
  "approve actor i effective_from v =
     with_doc v i (\<lambda>d.
     bind_res (lift_fsm (apply_transition (doc_current d) Approve)) (\<lambda>t.
     case (latest_version v i, to_version_state t) of
       (Some r, Some s) \<Rightarrow>
         if Some (ver_state r) \<noteq> from_version_state t then Inl (Illegal (illegal Approve (doc_current d)))
         else
           let r' = r\<lparr>ver_state := s, ver_effective_from := effective_from\<rparr>;
               d' = d\<lparr>doc_current := to_doc_state t, doc_updated_by := Some (user_id actor)\<rparr> in
           Inr (put_doc d' (put_version r' v),
                \<lparr>tres_doc = d', tres_version = r', tres_event = ''APPROVED'', tres_reason = None\<rparr>)
     | _ \<Rightarrow> Inl (Illegal (illegal Approve (doc_current d)))))"

definition request_changes :: "app_user \<Rightarrow> uuid \<Rightarrow> string \<Rightarrow> vault \<Rightarrow> (vault \<times> transition_result) outcome" where
  "request_changes actor i comment v =
     with_doc v i (\<lambda>d.
     if strip comment = [] then Inl (Problem 422 ''validation_error'')
     else advance_active_version actor d Request_changes ''CHANGES_REQUESTED'' (Some (strip comment)) v)"

definition start_revision :: "app_user \<Rightarrow> uuid \<Rightarrow> instant \<Rightarrow> string \<Rightarrow> vault \<Rightarrow> vault outcome" where
  "start_revision actor i now token v =
     with_doc v i (\<lambda>d.
     bind_res (lift_fsm (apply_transition (doc_current d) Start_revision)) (\<lambda>t.
     case doc_effective d of
       None \<Rightarrow> Inl (Problem 409 ''conflict'')
     | Some src \<Rightarrow>
       (case lock_acquire (locks v) i (secs now) token of
          (_, None) \<Rightarrow> Inl (Problem 409 ''lock_conflict'')
        | (L, Some tok) \<Rightarrow>
            Inr (emit ''REVISION_STARTED'' (Some (user_id actor)) ''document'' i (Some (doc_identifier d)) None
              (put_doc (d\<lparr>doc_current := to_doc_state t, doc_updated_by := Some (user_id actor)\<rparr>)
                (take_draft actor i (Some src) tok now (v\<lparr>locks := L\<rparr>)))))))"

subsection \<open>Obsoletion\<close>

definition archive_superseded :: "app_user \<Rightarrow> document \<Rightarrow> version \<Rightarrow> string \<Rightarrow> vault \<Rightarrow> vault" where
  "archive_superseded actor d r why v =
     emit ''MADE_OBSOLETE'' (Some (user_id actor)) ''document_version'' (ver_id r) (Some (doc_identifier d)) (Some why)
       (emit_signature r ''obsolete'' (Some (user_id actor)) (Some why)
         (put_doc (d\<lparr>doc_updated_by := Some (user_id actor)\<rparr>) (put_version (r\<lparr>ver_state := V_Obsolete\<rparr>) v)))"

definition retire_document ::
    "vault_env \<Rightarrow> app_user \<Rightarrow> document \<Rightarrow> string \<Rightarrow> bool \<Rightarrow> string option \<Rightarrow> vault \<Rightarrow> vault outcome" where
  "retire_document E actor d why force_retire justification v =
     bind_res (lift_fsm (apply_transition (doc_current d) Make_obsolete)) (\<lambda>t.
     case (case doc_effective d of None \<Rightarrow> None | Some e \<Rightarrow> get_version v e) of
       None \<Rightarrow> Inl (Illegal (illegal Make_obsolete (doc_current d)))
     | Some r \<Rightarrow>
         bind_res (assert_obsoletion_allowed E d force_retire justification) (\<lambda>_.
         let retire_reason = (if force_retire then why @ '' | force_retire: ''
               @ (case justification of None \<Rightarrow> ''None'' | Some j \<Rightarrow> j) else why) in
         Inr (enqueue ''ack'' ''obsolete'' (enqueue ''mirror'' ''obsolete''
           (emit ''MADE_OBSOLETE'' (Some (user_id actor)) ''document_version'' (ver_id r) (Some (doc_identifier d))
              (Some retire_reason)
             (emit_signature r ''obsolete'' (Some (user_id actor)) (Some retire_reason)
               (put_doc (d\<lparr>doc_effective := None, doc_current := to_doc_state t,
                          doc_updated_by := Some (user_id actor)\<rparr>)
                 (put_version (r\<lparr>ver_state := V_Obsolete\<rparr>) v))))))))"

definition obsolete ::
    "vault_env \<Rightarrow> app_user \<Rightarrow> uuid \<Rightarrow> string \<Rightarrow> uuid option \<Rightarrow> bool \<Rightarrow> string option \<Rightarrow> vault \<Rightarrow> vault outcome" where
  "obsolete E actor i reason version_id force_retire justification v =
     with_doc v i (\<lambda>d.
     bind_res (reject_managed_register_mutation E d) (\<lambda>_.
     if strip reason = [] then Inl (Problem 422 ''validation_error'')
     else
       let why = strip reason in
       case version_id of
         None \<Rightarrow> retire_document E actor d why force_retire justification v
       | Some vid \<Rightarrow>
         (case get_version v vid of
            None \<Rightarrow> Inl (Problem 404 ''not_found'')
          | Some r \<Rightarrow>
            if ver_doc r \<noteq> i then Inl (Problem 404 ''not_found'')
            else if ver_state r = V_Superseded then Inr (archive_superseded actor d r why v)
            else if ver_state r \<noteq> V_Effective then Inl (Problem 409 ''invalid_state_transition'')
            else retire_document E actor d why force_retire justification v)))"

subsection \<open>The release cutover\<close>

definition approved_version :: "vault \<Rightarrow> uuid \<Rightarrow> version option" where
  "approved_version v i =
     (case rev (sort_key ver_seq (filter (\<lambda>x. ver_state x = V_Approved) (doc_versions v i))) of
        [] \<Rightarrow> None | x # _ \<Rightarrow> Some x)"

text \<open>The two partial unique indexes: one Effective version per document, one Effective singleton per
organisation and type.\<close>

definition one_effective_index :: "vault \<Rightarrow> bool" where
  "one_effective_index v \<longleftrightarrow> distinct (map ver_doc (filter (\<lambda>x. ver_state x = V_Effective) (versions v)))"

definition singleton_index :: "vault \<Rightarrow> bool" where
  "singleton_index v \<longleftrightarrow>
     distinct (map (\<lambda>d. (doc_org d, doc_type d))
       (filter (\<lambda>d. doc_current d = D_Effective \<and> doc_singleton d \<and> doc_type d \<noteq> None) (docs v)))"

definition cutover_target :: "vault \<Rightarrow> uuid \<Rightarrow> uuid option \<Rightarrow> version option outcome" where
  "cutover_target v i version_id =
     (case version_id of
        None \<Rightarrow> Inr (approved_version v i)
      | Some vid \<Rightarrow>
        (case get_version v vid of
           None \<Rightarrow> Inl (Problem 404 ''not_found'')
         | Some r \<Rightarrow> if ver_doc r \<noteq> i then Inl (Problem 404 ''not_found'') else Inr (Some r)))"

definition demote :: "version \<Rightarrow> uuid \<Rightarrow> instant \<Rightarrow> version" where
  "demote prior vid now =
     prior\<lparr>ver_state := V_Superseded, ver_effective_to := Some now, ver_superseded_by := Some vid\<rparr>"

definition promote ::
    "vault_env \<Rightarrow> app_user option \<Rightarrow> document \<Rightarrow> version \<Rightarrow> transition \<Rightarrow> version option \<Rightarrow> instant \<Rightarrow> instant \<Rightarrow> vault
       \<Rightarrow> vault outcome" where
  "promote E actor d r t prior eff_from now v =
     (let swap = (case prior of None \<Rightarrow> False | Some p \<Rightarrow> ver_id p \<noteq> ver_id r);
          v1 = (if swap then put_version (demote (the prior) (ver_id r) now) v else v);
          r' = r\<lparr>ver_state := V_Effective, ver_effective_from := Some eff_from\<rparr> in
      bind_res (lift_py (compute_next_review_due (doc_review_months d) (doc_last_reviewed d) (Some eff_from)
          (org_date E (doc_org d)))) (\<lambda>due.
      let d' = d\<lparr>doc_effective := Some (ver_id r), doc_current := to_doc_state t, doc_next_review := due,
                 doc_updated_by := (case actor of None \<Rightarrow> doc_updated_by d | Some a \<Rightarrow> Some (user_id a))\<rparr>;
          who = map_option user_id actor;
          v2 = emit ''RELEASED'' who ''document_version'' (ver_id r) (Some (doc_identifier d)) None
            (emit_signature r' ''release'' who None (put_doc d' (put_version r' v1)));
          v3 = (if swap then emit ''SUPERSEDED'' who ''document_version'' (ver_id (the prior)) (Some (doc_identifier d)) None v2
                else v2);
          v4 = enqueue ''awareness'' ''doc.released'' v3 in
      if one_effective_index v4 \<and> singleton_index v4 then Inr v4 else Inl RaceLoss))"

definition cutover ::
    "vault_env \<Rightarrow> uuid \<Rightarrow> uuid option \<Rightarrow> app_user option \<Rightarrow> instant \<Rightarrow> vault \<Rightarrow> vault outcome" where
  "cutover E i version_id actor now v =
     with_doc v i (\<lambda>d.
     if (case actor of None \<Rightarrow> False | Some a \<Rightarrow> doc_org d \<noteq> user_org a) then Inl (Problem 404 ''not_found'')
     else
       bind_res (lift_fsm (apply_transition (doc_current d) Release)) (\<lambda>t.
       bind_res (cutover_target v i version_id) (\<lambda>target.
       case target of
         None \<Rightarrow> Inl (Illegal (illegal Release (doc_current d)))
       | Some r \<Rightarrow>
         if Some (ver_state r) \<noteq> from_version_state t then Inl (Illegal (illegal Release (doc_current d)))
         else
           bind_res (assert_release_authorized E v d r) (\<lambda>_.
           let eff_from = (case ver_effective_from r of None \<Rightarrow> now | Some e \<Rightarrow> e) in
           if eff_from > now then Inl (Problem 422 ''validation_error'')
           else (case effective_versions v i of
                   [] \<Rightarrow> promote E actor d r t None eff_from now v
                 | [p] \<Rightarrow> promote E actor d r t (Some p) eff_from now v
                 | _ \<Rightarrow> Inl MultipleRows)))))"

definition release :: "vault_env \<Rightarrow> app_user \<Rightarrow> uuid \<Rightarrow> uuid option \<Rightarrow> instant \<Rightarrow> vault \<Rightarrow> vault outcome" where
  "release E actor i version_id now v =
     (case cutover E i version_id (Some actor) now v of
        Inl RaceLoss \<Rightarrow> Inl (Problem 409 ''conflict'')
      | Inl e \<Rightarrow> Inl e
      | Inr w \<Rightarrow> Inr (enqueue ''ack'' ''release'' (enqueue ''mirror'' ''release'' w)))"

definition due_rows :: "instant \<Rightarrow> vault \<Rightarrow> (uuid \<times> uuid) list" where
  "due_rows now v =
     map (\<lambda>x. (ver_id x, ver_doc x))
       (filter (\<lambda>x. ver_state x = V_Approved \<and> (case ver_effective_from x of None \<Rightarrow> False | Some e \<Rightarrow> e \<le> now))
          (versions v))"

text \<open>A cutover that loses a race, meets a problem or finds the document moved on is skipped; another
exception ends the sweep.\<close>

definition sweep_skips :: "vault_error \<Rightarrow> bool" where
  "sweep_skips e = (case e of Problem _ _ \<Rightarrow> True | Illegal _ \<Rightarrow> True | RaceLoss \<Rightarrow> True | MultipleRows \<Rightarrow> False | Raised _ \<Rightarrow> False)"

fun sweep :: "vault_env \<Rightarrow> instant \<Rightarrow> (uuid \<times> uuid) list \<Rightarrow> vault \<Rightarrow> vault \<times> uuid list \<times> uuid list \<times> vault_error option" where
  "sweep E now [] v = (v, [], [], None)"
| "sweep E now ((vid, i) # rows) v =
     (case cutover E i (Some vid) None now v of
        Inr w \<Rightarrow> (case sweep E now rows w of (u, rs, ds, e) \<Rightarrow> (u, vid # rs, i # ds, e))
      | Inl e \<Rightarrow> if sweep_skips e then sweep E now rows v else (v, [], [], Some e))"

definition release_due :: "vault_env \<Rightarrow> instant \<Rightarrow> vault \<Rightarrow> vault \<times> (vault_error, uuid list) result" where
  "release_due E now v =
     (case sweep E now (due_rows now v) v of
        (w, rs, ds, Some e) \<Rightarrow> (w, Inl e)
      | (w, rs, ds, None) \<Rightarrow>
          (if rs = [] then w
           else fold (\<lambda>_. enqueue ''ack'' ''release_due'') ds (enqueue ''mirror'' ''release_due'' w), Inr rs))"

end
