(* ===== verification/FormSchema.thy ===== *)
theory FormSchema
  imports Bytes
begin

text \<open>
  The field schema of a form template (\<open>domain/records/form_schema.py\<close>): the well-formedness check of
  a schema and the check of submitted values against a schema, both lists of field errors in the order
  the code appends them. A \<open>TypeError\<close> of an unhashable type name and the \<open>OverflowError\<close> of
  \<open>float\<close> are results. A schema whose keys are not strings is refused before values are checked, so
  \<open>validate_values\<close> takes schemas with string keys only (another key is given as \<open>KeyError\<close>).
\<close>

subsection \<open>ISO dates and floats\<close>

text \<open>\<open>datetime.date.fromisoformat\<close>: the calendar and week forms, with or without dashes.\<close>

definition week1_monday :: "int \<Rightarrow> int" where
  "week1_monday y =
     (let f = toordinal (Date y 1 1); w = (f + 6) mod 7; m = f - w in if w > 3 then m + 7 else m)"

definition long_iso_year :: "int \<Rightarrow> bool" where
  "long_iso_year y = (let w = toordinal (Date y 1 1) mod 7 in w = 4 \<or> (w = 3 \<and> leap y))"

definition from_isoweek :: "int \<Rightarrow> int \<Rightarrow> int \<Rightarrow> (py_error, date) result" where
  "from_isoweek y w d =
     (if \<not> (1 \<le> y \<and> y \<le> 9999) \<or> \<not> (1 \<le> w \<and> (w \<le> 52 \<or> (w = 53 \<and> long_iso_year y))) \<or> \<not> (1 \<le> d \<and> d \<le> 7)
      then Inl ValueError
      else
        let n = week1_monday y + (w - 1) * 7 + (d - 1) in
        if 1 \<le> n \<and> n \<le> max_ordinal then Inr (fromordinal n) else Inl ValueError)"

definition digits :: "string \<Rightarrow> bool" where
  "digits s \<longleftrightarrow> list_all is_digit s"

definition date_fromisoformat :: "string \<Rightarrow> (py_error, date) result" where
  "date_fromisoformat s =
     (let y = take 4 s; sep = (take 1 (drop 4 s) = ''-''); r = (if sep then drop 5 s else drop 4 s);
          num = (\<lambda>t. int (parse_nat t)) in
      if length s \<notin> {7, 8, 10} \<or> \<not> digits y then Inl ValueError
      else if take 1 r = ''W'' then
        let w = take 2 (drop 1 r); q = drop 3 r in
        if \<not> digits w \<or> length w < 2 then Inl ValueError
        else if q = [] then from_isoweek (num y) (num w) 1
        else if (take 1 q = ''-'') \<noteq> sep then Inl ValueError
        else let d = (if sep then drop 1 q else q) in
          if length d \<noteq> 1 \<or> \<not> digits d then Inl ValueError else from_isoweek (num y) (num w) (num d)
      else
        let m = take 2 r; q = drop 2 r in
        if length m < 2 \<or> \<not> digits m \<or> (take 1 q = ''-'') \<noteq> sep then Inl ValueError
        else let d = (if sep then drop 1 q else q) in
          if length d \<noteq> 2 \<or> \<not> digits d then Inl ValueError else mk_date (num y) (num m) (num d))"

text \<open>\<open>float\<close> of an integer: rounded to 53 bits, ties to even, overflow above the largest double.\<close>

fun bit_size :: "nat \<Rightarrow> nat" where
  "bit_size n = (if n = 0 then 0 else Suc (bit_size (n div 2)))"

declare bit_size.simps [simp del]

definition float_of_int :: "int \<Rightarrow> (py_error, rat) result" where
  "float_of_int i =
     (let a = abs i; k = bit_size (nat a) in
      if k \<le> 53 then Inr (of_int i)
      else
        let p = 2 ^ (k - 53); q = a div p; r = a mod p;
            q' = (if 2 * r > p \<or> (2 * r = p \<and> odd q) then q + 1 else q); v = q' * p in
        if bit_size (nat v) > 1024 then Inl OverflowError else Inr (of_int (sgn i * v)))"

definition as_number :: "json \<Rightarrow> (py_error, rat option) result" where
  "as_number v = (case v of JInt i \<Rightarrow> bind_res (float_of_int i) (\<lambda>q. Inr (Some q)) | JFloat _ q \<Rightarrow> Inr (Some q) | _ \<Rightarrow> Inr None)"

definition is_integer :: "rat \<Rightarrow> bool" where
  "is_integer q \<longleftrightarrow> snd (quotient_of q) = 1"

definition parse_date :: "string \<Rightarrow> date option" where
  "parse_date s = (case date_fromisoformat s of Inl _ \<Rightarrow> None | Inr d \<Rightarrow> Some d)"

subsection \<open>Serialised size\<close>

definition json_esc :: "char \<Rightarrow> string" where
  "json_esc c =
     (if c = CHR 0x22 then [CHR 0x5C, CHR 0x22] else if c = CHR 0x5C then [CHR 0x5C, CHR 0x5C]
      else if c = CHR 0x0A then [CHR 0x5C, CHR ''n''] else if c = CHR 0x0D then [CHR 0x5C, CHR ''r'']
      else if c = CHR 0x09 then [CHR 0x5C, CHR ''t''] else if c = CHR 0x08 then [CHR 0x5C, CHR ''b'']
      else if c = CHR 0x0C then [CHR 0x5C, CHR ''f'']
      else if c < CHR '' '' then [CHR 0x5C, CHR ''u'', CHR ''0'', CHR ''0'', hex_digit (of_char c div 16),
        hex_digit (of_char c mod 16)]
      else [c])"

definition json_str :: "string \<Rightarrow> string" where
  "json_str s = CHR 0x22 # concat (map json_esc s) @ [CHR 0x22]"

fun json_text :: "json \<Rightarrow> string"
  and json_texts :: "json list \<Rightarrow> string list"
  and json_items :: "dict \<Rightarrow> string list" where
  "json_text JNull = ''null''"
| "json_text (JBool b) = (if b then ''true'' else ''false'')"
| "json_text (JInt i) = int_str i"
| "json_text (JFloat t q) = t"
| "json_text (JStr s) = json_str s"
| "json_text (JList xs) = ''['' @ join '','' (json_texts xs) @ '']''"
| "json_text (JObj d) = ''{'' @ join '','' (json_items d) @ ''}''"
| "json_texts [] = []"
| "json_texts (x # xs) = json_text x # json_texts xs"
| "json_items [] = []"
| "json_items ((k, v) # d) = (json_str k @ '':'' @ json_text v) # json_items d"

definition serialized_size :: "json \<Rightarrow> int" where
  "serialized_size v = int (length (utf8 (json_text v)))"

lemma length_utf8: "int (length (utf8 s)) = (\<Sum>c \<leftarrow> s. if c < CHR 0x80 then 1 else 2)"
  by (induction s) (auto simp: utf8_def utf8_char_def less_char_def Let_def)

lemma serialized_size_code [code]:
  "serialized_size v = (\<Sum>c \<leftarrow> json_text v. if c < CHR 0x80 then 1 else 2)"
  by (simp only: serialized_size_def length_utf8)

definition max_values_bytes :: int where "max_values_bytes = 64 * 1024"
definition max_schema_bytes :: int where "max_schema_bytes = 64 * 1024"

definition values_too_large :: "json \<Rightarrow> bool" where
  "values_too_large v \<longleftrightarrow> serialized_size v > max_values_bytes"

subsection \<open>The schema definition\<close>

record field_error =
  fe_field :: string
  fe_code :: string
  fe_message :: string

definition ferr :: "string \<Rightarrow> string \<Rightarrow> string \<Rightarrow> field_error" where
  "ferr f c m = \<lparr>fe_field = f, fe_code = c, fe_message = m\<rparr>"

definition as_dict :: "field_error \<Rightarrow> dict" where
  "as_dict e = [(''field'', JStr (fe_field e)), (''code'', JStr (fe_code e)), (''message'', JStr (fe_message e))]"

definition field_types :: "string list" where
  "field_types = [''string'', ''text'', ''number'', ''integer'', ''boolean'', ''date'', ''enum'']"

definition numeric_types :: "string list" where "numeric_types = [''number'', ''integer'']"
definition textual_types :: "string list" where "textual_types = [''string'', ''text'']"

text \<open>\<open>x in S\<close> for a frozen set of strings: an unhashable \<open>x\<close> raises.\<close>

definition in_names :: "json \<Rightarrow> string list \<Rightarrow> (py_error, bool) result" where
  "in_names v ns = (case v of JList _ \<Rightarrow> Inl TypeError | JObj _ \<Rightarrow> Inl TypeError | JStr s \<Rightarrow> Inr (s \<in> set ns) | _ \<Rightarrow> Inr False)"

definition bound_error :: "string \<Rightarrow> bool \<Rightarrow> string \<times> json \<Rightarrow> (py_error, field_error list) result" where
  "bound_error loc is_date nb =
     (case nb of (name, b) \<Rightarrow>
      if b = JNull then Inr []
      else if is_date then
        Inr (if (case b of JStr s \<Rightarrow> parse_date s \<noteq> None | _ \<Rightarrow> False) then []
             else [ferr (loc @ ''.'' @ name) ''invalid'' ''date bound must be ISO-8601''])
      else bind_res (as_number b) (\<lambda>n.
        Inr (if n = None then [ferr (loc @ ''.'' @ name) ''invalid'' (name @ '' must be numeric'')] else [])))"

definition order_error :: "string \<Rightarrow> bool \<Rightarrow> json \<Rightarrow> json \<Rightarrow> (py_error, field_error list) result" where
  "order_error loc is_date lo hi =
     (let bad = [ferr (loc @ ''.max'') ''invalid'' ''max precedes min''] in
      if is_date then
        Inr (case (lo, hi) of (JStr a, JStr b) \<Rightarrow>
               (case (parse_date a, parse_date b) of (Some x, Some y) \<Rightarrow> if x > y then bad else [] | _ \<Rightarrow> [])
             | _ \<Rightarrow> [])
      else bind_res (as_number lo) (\<lambda>x. case x of None \<Rightarrow> Inr []
        | Some p \<Rightarrow> bind_res (as_number hi) (\<lambda>y. case y of None \<Rightarrow> Inr []
          | Some q \<Rightarrow> Inr (if p > q then bad else []))))"

definition enum_errors :: "string \<Rightarrow> json \<Rightarrow> field_error list" where
  "enum_errors loc members =
     (case members of JList ms \<Rightarrow>
        if ms = [] then [ferr (loc @ ''.enum'') ''required'' ''enum requires a non-empty list'']
        else (if length ms > 100 then [ferr (loc @ ''.enum'') ''too_many'' ''too many enum members''] else [])
          @ (if list_all (\<lambda>m. case m of JStr s \<Rightarrow> 0 < length s \<and> length s \<le> 200 | _ \<Rightarrow> False) ms then []
             else [ferr (loc @ ''.enum'') ''invalid'' ''enum members must be short strings''])
      | _ \<Rightarrow> [ferr (loc @ ''.enum'') ''required'' ''enum requires a non-empty list''])"

definition validate_field_constraints :: "string \<Rightarrow> dict \<Rightarrow> json \<Rightarrow> (py_error, field_error list) result" where
  "validate_field_constraints loc field ftype =
     (let lo = dget field ''min''; hi = dget field ''max''; is_date = (ftype = JStr ''date'') in
      bind_res (in_names ftype numeric_types) (\<lambda>num. bind_res (in_names ftype textual_types) (\<lambda>txt.
      bind_res
        (if num \<or> txt \<or> is_date then
           bind_res (bound_error loc is_date (''min'', lo)) (\<lambda>e1. bind_res (bound_error loc is_date (''max'', hi)) (\<lambda>e2.
           bind_res (order_error loc is_date lo hi) (\<lambda>e3. Inr (e1 @ e2 @ e3))))
         else Inr [])
        (\<lambda>es. Inr (es @ (if ftype = JStr ''enum'' then enum_errors loc (dget field ''enum'')
           else if has_key field ''enum'' then [ferr (loc @ ''.enum'') ''invalid'' ''enum is only valid for type=enum'']
           else []))))))"

definition key_errors :: "string \<Rightarrow> string list \<Rightarrow> json \<Rightarrow> field_error list \<times> string list" where
  "key_errors loc seen k =
     (case k of JStr key \<Rightarrow>
        if strip key = [] then ([ferr (loc @ ''.key'') ''required'' ''key must be a non-empty string''], seen)
        else ((if length key > 100 then [ferr (loc @ ''.key'') ''too_long'' ''key over 100 chars''] else [])
           @ (if key \<in> set seen then [ferr (loc @ ''.key'') ''duplicate'' (''duplicate key '' @ str_repr key)] else []),
           key # seen)
      | _ \<Rightarrow> ([ferr (loc @ ''.key'') ''required'' ''key must be a non-empty string''], seen))"

definition validate_field :: "string \<Rightarrow> string list \<Rightarrow> json \<Rightarrow> (py_error, field_error list \<times> string list) result" where
  "validate_field loc seen f =
     (case f of JObj field \<Rightarrow>
        (case key_errors loc seen (dget field ''key'') of (ke, seen') \<Rightarrow>
         let ftype = dget field ''type''; label = dget field ''label'' in
         bind_res (in_names ftype field_types) (\<lambda>known.
         let te = (if known then [] else [ferr (loc @ ''.type'') ''invalid''
                (''type must be one of '' @ py_repr (JList (map JStr (sort field_types))))]);
             le = (if label \<noteq> JNull \<and> (case label of JStr s \<Rightarrow> length s > 200 | _ \<Rightarrow> True)
                   then [ferr (loc @ ''.label'') ''invalid'' ''label must be a short string''] else []);
             re = (if has_key field ''required'' \<and> (case dget field ''required'' of JBool _ \<Rightarrow> False | _ \<Rightarrow> True)
                   then [ferr (loc @ ''.required'') ''invalid'' ''required must be a boolean''] else []) in
         bind_res (validate_field_constraints loc field ftype) (\<lambda>ce. Inr (ke @ te @ le @ re @ ce, seen'))))
      | _ \<Rightarrow> Inr ([ferr loc ''invalid'' ''each field must be an object''], seen))"

fun validate_fields :: "nat \<Rightarrow> string list \<Rightarrow> json list \<Rightarrow> (py_error, field_error list) result" where
  "validate_fields idx seen [] = Inr []"
| "validate_fields idx seen (f # fs) =
     bind_res (validate_field (''fields['' @ nat_str idx @ '']'') seen f) (\<lambda>(es, seen').
     bind_res (validate_fields (Suc idx) seen' fs) (\<lambda>rest. Inr (es @ rest)))"

definition validate_schema :: "json \<Rightarrow> (py_error, field_error list) result" where
  "validate_schema s =
     (case s of JObj d \<Rightarrow>
        if serialized_size s > max_schema_bytes
        then Inr [ferr ''field_schema'' ''too_large'' (''schema exceeds '' @ int_str max_schema_bytes @ '' bytes'')]
        else (case dget d ''fields'' of JList fs \<Rightarrow>
            if fs = [] then Inr [ferr ''fields'' ''required'' ''fields must be a non-empty list'']
            else bind_res (validate_fields 0 [] fs) (\<lambda>es.
              Inr ((if length fs > 200 then [ferr ''fields'' ''too_many'' ''at most 200 fields''] else []) @ es))
          | _ \<Rightarrow> Inr [ferr ''fields'' ''required'' ''fields must be a non-empty list''])
      | _ \<Rightarrow> Inr [ferr ''field_schema'' ''invalid'' ''field_schema must be an object''])"

subsection \<open>Submitted values\<close>

fun put_assoc :: "'k \<Rightarrow> 'v \<Rightarrow> ('k \<times> 'v) list \<Rightarrow> ('k \<times> 'v) list" where
  "put_assoc k v [] = [(k, v)]"
| "put_assoc k v ((k', v') # xs) = (if k' = k then (k, v) # xs else (k', v') # put_assoc k v xs)"

fun field_map :: "json list \<Rightarrow> (string \<times> dict) list \<Rightarrow> (py_error, (string \<times> dict) list) result" where
  "field_map [] m = Inr m"
| "field_map (JObj f # fs) m =
     (if has_key f ''key'' then (case dget f ''key'' of JStr k \<Rightarrow> field_map fs (put_assoc k f m) | _ \<Rightarrow> Inl KeyError)
      else field_map fs m)"
| "field_map (x # fs) m = field_map fs m"

definition numeric_errors :: "string \<Rightarrow> json \<Rightarrow> json \<Rightarrow> json \<Rightarrow> json \<Rightarrow> (py_error, field_error list) result" where
  "numeric_errors key ftype lo hi value =
     bind_res (as_number value) (\<lambda>num.
     case num of
       None \<Rightarrow> Inr [ferr key ''type'' (str_repr key @ '' must be '' @ (if ftype = JStr ''integer'' then ''an integer'' else ''a number''))]
     | Some n \<Rightarrow>
       if ftype = JStr ''integer'' \<and> \<not> is_integer n
       then Inr [ferr key ''type'' (str_repr key @ '' must be an integer'')]
       else bind_res (as_number lo) (\<lambda>l. bind_res (as_number hi) (\<lambda>h.
         Inr ((case l of Some x \<Rightarrow> if n < x then [ferr key ''min'' (str_repr key @ '' below minimum '' @ py_str lo)] else [] | None \<Rightarrow> [])
            @ (case h of Some x \<Rightarrow> if n > x then [ferr key ''max'' (str_repr key @ '' above maximum '' @ py_str hi)] else [] | None \<Rightarrow> [])))))"

definition text_errors :: "string \<Rightarrow> json \<Rightarrow> json \<Rightarrow> json \<Rightarrow> field_error list" where
  "text_errors key lo hi value =
     (case value of JStr s \<Rightarrow>
        (let max_len = (case hi of JInt h \<Rightarrow> h | _ \<Rightarrow> 10000) in
         (case lo of JInt l \<Rightarrow> if int (length s) < l
              then [ferr key ''min'' (str_repr key @ '' shorter than '' @ int_str l @ '' chars'')] else [] | _ \<Rightarrow> [])
         @ (if int (length s) > max_len
            then [ferr key ''max'' (str_repr key @ '' longer than '' @ int_str max_len @ '' chars'')] else []))
      | _ \<Rightarrow> [ferr key ''type'' (str_repr key @ '' must be a string'')])"

definition date_errors :: "string \<Rightarrow> json \<Rightarrow> json \<Rightarrow> json \<Rightarrow> field_error list" where
  "date_errors key lo hi value =
     (case (case value of JStr s \<Rightarrow> parse_date s | _ \<Rightarrow> None) of
        None \<Rightarrow> [ferr key ''type'' (str_repr key @ '' must be an ISO-8601 date'')]
      | Some d \<Rightarrow>
        (case lo of JStr l \<Rightarrow> (case parse_date l of Some x \<Rightarrow> if d < x then [ferr key ''min'' (str_repr key @ '' before '' @ l)] else []
            | None \<Rightarrow> []) | _ \<Rightarrow> [])
        @ (case hi of JStr h \<Rightarrow> (case parse_date h of Some x \<Rightarrow> if d > x then [ferr key ''max'' (str_repr key @ '' after '' @ h)] else []
            | None \<Rightarrow> []) | _ \<Rightarrow> []))"

definition enum_members :: "dict \<Rightarrow> json list" where
  "enum_members field = (case dget field ''enum'' of JList ms \<Rightarrow> ms | _ \<Rightarrow> [])"

definition validate_one_value :: "string \<Rightarrow> dict \<Rightarrow> json \<Rightarrow> (py_error, field_error list) result" where
  "validate_one_value key field value =
     (let ftype = dget field ''type''; lo = dget field ''min''; hi = dget field ''max'' in
      bind_res (in_names ftype numeric_types) (\<lambda>num. bind_res (in_names ftype textual_types) (\<lambda>txt.
      if num then numeric_errors key ftype lo hi value
      else if txt then Inr (text_errors key lo hi value)
      else if ftype = JStr ''boolean'' then
        Inr (case value of JBool _ \<Rightarrow> [] | _ \<Rightarrow> [ferr key ''type'' (str_repr key @ '' must be a boolean'')])
      else if ftype = JStr ''date'' then Inr (date_errors key lo hi value)
      else if ftype = JStr ''enum'' then
        Inr (if py_in_list value (enum_members field) then []
             else [ferr key ''enum'' (str_repr key @ '' not in '' @ py_repr (JList (enum_members field)))])
      else Inr [ferr key ''type'' (str_repr key @ '' has an unknown field type'')])))"

fun values_errors :: "dict \<Rightarrow> (string \<times> dict) list \<Rightarrow> (py_error, field_error list) result" where
  "values_errors values [] = Inr []"
| "values_errors values ((key, field) # fs) =
     bind_res (if dget values key = JNull
               then Inr (if dget field ''required'' = JBool True then [ferr key ''required'' (str_repr key @ '' is required'')] else [])
               else validate_one_value key field (dget values key)) (\<lambda>es.
     bind_res (values_errors values fs) (\<lambda>rest. Inr (es @ rest)))"

definition schema_fields :: "json \<Rightarrow> json list" where
  "schema_fields s = (case s of JObj d \<Rightarrow> (case dget d ''fields'' of JList fs \<Rightarrow> fs | _ \<Rightarrow> []) | _ \<Rightarrow> [])"

definition validate_values :: "json \<Rightarrow> json \<Rightarrow> (py_error, field_error list) result" where
  "validate_values schema values =
     (case values of JObj vs \<Rightarrow>
        if serialized_size values > max_values_bytes
        then Inr [ferr ''form_field_values'' ''too_large'' (''values exceed '' @ int_str max_values_bytes @ '' bytes'')]
        else bind_res (field_map (schema_fields schema) []) (\<lambda>fields.
          bind_res (values_errors vs fields) (\<lambda>es.
          Inr (map (\<lambda>k. ferr k ''unknown_field'' (str_repr k @ '' is not a schema field''))
                 (filter (\<lambda>k. k \<notin> fst ` set fields) (map fst vs)) @ es)))
      | _ \<Rightarrow> Inr [ferr ''form_field_values'' ''invalid'' ''form_field_values must be an object''])"

subsection \<open>What an accepted value is\<close>

text \<open>The contract of the schema language, one clause per field type, stated without the code.\<close>

fun in_range :: "rat option \<Rightarrow> rat option \<Rightarrow> rat \<Rightarrow> bool" where
  "in_range l h x = ((case l of None \<Rightarrow> True | Some a \<Rightarrow> a \<le> x) \<and> (case h of None \<Rightarrow> True | Some b \<Rightarrow> x \<le> b))"

definition conforms :: "dict \<Rightarrow> json \<Rightarrow> bool" where
  "conforms field v \<longleftrightarrow> (let lo = dget field ''min''; hi = dget field ''max'' in
     (dget field ''type'' \<in> {JStr ''string'', JStr ''text''} \<and>
        (\<exists>s. v = JStr s \<and> (\<forall>l. lo = JInt l \<longrightarrow> l \<le> int (length s))
           \<and> int (length s) \<le> (case hi of JInt h \<Rightarrow> h | _ \<Rightarrow> 10000)))
   \<or> (dget field ''type'' = JStr ''number'' \<and>
        (\<exists>q l h. as_number v = Inr (Some q) \<and> as_number lo = Inr l \<and> as_number hi = Inr h \<and> in_range l h q))
   \<or> (dget field ''type'' = JStr ''integer'' \<and>
        (\<exists>q l h. as_number v = Inr (Some q) \<and> is_integer q \<and> as_number lo = Inr l \<and> as_number hi = Inr h \<and> in_range l h q))
   \<or> (dget field ''type'' = JStr ''boolean'' \<and> (\<exists>b. v = JBool b))
   \<or> (dget field ''type'' = JStr ''date'' \<and>
        (\<exists>s d. v = JStr s \<and> parse_date s = Some d \<and> (\<forall>l x. lo = JStr l \<and> parse_date l = Some x \<longrightarrow> x \<le> d)
           \<and> (\<forall>h x. hi = JStr h \<and> parse_date h = Some x \<longrightarrow> d \<le> x)))
   \<or> (dget field ''type'' = JStr ''enum'' \<and> (\<exists>m \<in> set (enum_members field). py_eq v m)))"

lemma numeric_errors_ok:
  "numeric_errors key t lo hi v = Inr [] \<longleftrightarrow>
     (\<exists>q l h. as_number v = Inr (Some q) \<and> (t = JStr ''integer'' \<longrightarrow> is_integer q)
        \<and> as_number lo = Inr l \<and> as_number hi = Inr h \<and> in_range l h q)"
proof (cases "as_number v")
  case (Inr n)
  show ?thesis
  proof (cases n)
    case (Some q)
    show ?thesis
    proof (cases "as_number lo")
      case lo: (Inr l)
      show ?thesis
        by (cases "as_number hi"; cases l; cases "projr (as_number hi)")
          (auto simp: numeric_errors_def Inr Some lo not_less)
    qed (simp add: numeric_errors_def Inr Some)
  qed (simp add: numeric_errors_def Inr)
qed (simp add: numeric_errors_def)

lemma text_errors_ok:
  "text_errors key lo hi v = [] \<longleftrightarrow> (\<exists>s. v = JStr s \<and> (\<forall>l. lo = JInt l \<longrightarrow> l \<le> int (length s))
     \<and> int (length s) \<le> (case hi of JInt h \<Rightarrow> h | _ \<Rightarrow> 10000))"
  by (cases v; cases lo; cases hi) (auto simp: text_errors_def)

lemma date_errors_ok:
  "date_errors key lo hi v = [] \<longleftrightarrow> (\<exists>s d. v = JStr s \<and> parse_date s = Some d
     \<and> (\<forall>l x. lo = JStr l \<and> parse_date l = Some x \<longrightarrow> x \<le> d) \<and> (\<forall>h x. hi = JStr h \<and> parse_date h = Some x \<longrightarrow> d \<le> x))"
  by (cases v; cases lo; cases hi) (auto simp: date_errors_def not_less split: option.splits)

lemmas one_value_simps = validate_one_value_def conforms_def Let_def in_names_def numeric_types_def textual_types_def

lemma validate_one_value_ok: "validate_one_value key field v = Inr [] \<longleftrightarrow> conforms field v"
proof (cases "dget field ''type''")
  case (JStr t)
  consider (c_text) "t = ''string'' \<or> t = ''text''" | (c_number) "t = ''number''" | (c_integer) "t = ''integer''"
    | (c_boolean) "t = ''boolean''" | (c_date) "t = ''date''" | (c_enum) "t = ''enum''" | (c_unknown) "t \<notin> set field_types"
    by (auto simp: field_types_def)
  then show ?thesis
  proof cases
    case c_text
    then show ?thesis using JStr by (elim disjE) (simp_all add: one_value_simps text_errors_ok)
  next
    case c_number
    then show ?thesis using JStr by (simp add: one_value_simps numeric_errors_ok del: in_range.simps)
  next
    case c_integer
    then show ?thesis using JStr by (simp add: one_value_simps numeric_errors_ok del: in_range.simps)
  next
    case c_boolean
    then show ?thesis using JStr by (cases v) (simp_all add: one_value_simps)
  next
    case c_date
    then show ?thesis using JStr by (simp add: one_value_simps date_errors_ok)
  next
    case c_enum
    then show ?thesis using JStr by (simp add: one_value_simps py_in_list_def)
  next
    case c_unknown
    then show ?thesis using JStr by (simp add: one_value_simps field_types_def)
  qed
qed (simp_all add: one_value_simps)

lemma values_errors_ok:
  "values_errors vs fs = Inr [] \<longleftrightarrow> (\<forall>(k, f) \<in> set fs.
     (dget vs k = JNull \<longrightarrow> dget f ''required'' \<noteq> JBool True) \<and> (dget vs k \<noteq> JNull \<longrightarrow> conforms f (dget vs k)))"
proof (induction vs fs rule: values_errors.induct)
  case (2 vs k f fs)
  then show ?case by (auto simp: validate_one_value_ok)
qed simp

subsection \<open>The contracts\<close>

definition field_key :: "json \<Rightarrow> string" where
  "field_key f = (case f of JObj d \<Rightarrow> (case dget d ''key'' of JStr k \<Rightarrow> k | _ \<Rightarrow> []) | _ \<Rightarrow> [])"

definition field_dict :: "json \<Rightarrow> dict" where
  "field_dict f = (case f of JObj d \<Rightarrow> d | _ \<Rightarrow> [])"

definition good_field :: "json \<Rightarrow> bool" where
  "good_field f \<longleftrightarrow> (\<exists>d k t. f = JObj d \<and> dget d ''key'' = JStr k \<and> strip k \<noteq> [] \<and> length k \<le> 100
     \<and> dget d ''type'' = JStr t \<and> t \<in> set field_types)"

lemma in_names_True: "in_names v ns = Inr True \<Longrightarrow> \<exists>t. v = JStr t \<and> t \<in> set ns"
  by (cases v) (auto simp: in_names_def)

lemma key_errors_ok:
  "key_errors loc seen k = ([], seen') \<Longrightarrow>
     \<exists>key. k = JStr key \<and> strip key \<noteq> [] \<and> length key \<le> 100 \<and> key \<notin> set seen \<and> seen' = key # seen"
  by (cases k) (auto simp: key_errors_def ferr_def split: if_splits)

lemma validate_field_ok:
  assumes "validate_field loc seen f = Inr ([], seen')"
  shows "good_field f \<and> field_key f \<notin> set seen \<and> seen' = field_key f # seen"
proof -
  obtain d where d: "f = JObj d" using assms by (cases f) (auto simp: validate_field_def)
  obtain ke s1 where ke: "key_errors loc seen (dget d ''key'') = (ke, s1)" by (cases "key_errors loc seen (dget d ''key'')")
  have k: "ke = []" "s1 = seen'" "in_names (dget d ''type'') field_types = Inr True"
    using assms by (auto simp: d validate_field_def ke Let_def split: if_splits)
  show ?thesis
    using key_errors_ok [OF ke [unfolded k(1)]] in_names_True [OF k(3)] k(2)
    by (auto simp: good_field_def field_key_def d)
qed

lemma validate_fields_ok:
  "validate_fields idx seen fs = Inr [] \<Longrightarrow>
     (\<forall>f \<in> set fs. good_field f) \<and> distinct (map field_key fs) \<and> set (map field_key fs) \<inter> set seen = {}"
proof (induction fs arbitrary: idx seen)
  case (Cons f fs)
  then obtain seen' where "validate_field (''fields['' @ nat_str idx @ '']'') seen f = Inr ([], seen')"
    "validate_fields (Suc idx) seen' fs = Inr []" by auto
  with validate_field_ok Cons.IH show ?case by fastforce
qed simp

lemma put_assoc_new: "k \<notin> fst ` set m \<Longrightarrow> put_assoc k v m = m @ [(k, v)]"
  by (induction k v m rule: put_assoc.induct) auto

lemma field_map_ok:
  "\<forall>f \<in> set fs. good_field f \<Longrightarrow> distinct (map field_key fs) \<Longrightarrow> set (map field_key fs) \<inter> fst ` set m = {}
   \<Longrightarrow> field_map fs m = Inr (m @ map (\<lambda>f. (field_key f, field_dict f)) fs)"
proof (induction fs arbitrary: m)
  case (Cons f fs)
  then obtain d k where f: "f = JObj d" "dget d ''key'' = JStr k" by (auto simp: good_field_def)
  have key: "has_key d ''key''" "field_key f = k" "field_dict f = d"
    using f(2) by (auto simp: dget_def has_key_def field_key_def field_dict_def f split: option.splits)
  have "k \<notin> fst ` set m" using Cons.prems(3) key by auto
  then have "field_map (f # fs) m = field_map fs (m @ [(k, d)])"
    using f key by (simp add: put_assoc_new)
  also have "\<dots> = Inr ((m @ [(k, d)]) @ map (\<lambda>f. (field_key f, field_dict f)) fs)"
    using Cons.prems key by (intro Cons.IH) auto
  finally show ?case using key by simp
qed simp

text \<open>C33: a schema the check accepts is fit for use: it has between 1 and 200 fields, every key is a
non-blank string of at most 100 characters, keys are distinct, every type is one of the seven, and the
table the value check builds from it has exactly one entry per field, in the order of the fields.\<close>

theorem accepted_schema_sound:
  assumes "validate_schema schema = Inr []"
  shows "schema_fields schema \<noteq> [] \<and> length (schema_fields schema) \<le> 200
    \<and> (\<forall>f \<in> set (schema_fields schema). good_field f) \<and> distinct (map field_key (schema_fields schema))
    \<and> field_map (schema_fields schema) [] = Inr (map (\<lambda>f. (field_key f, field_dict f)) (schema_fields schema))"
proof -
  obtain d where d: "schema = JObj d" using assms by (cases schema) (auto simp: validate_schema_def)
  obtain fs where fs: "dget d ''fields'' = JList fs" "fs \<noteq> []" "length fs \<le> 200" "validate_fields 0 [] fs = Inr []"
    using assms by (cases "dget d ''fields''") (auto simp: d validate_schema_def split: if_splits)
  have sf: "schema_fields schema = fs" by (simp add: schema_fields_def d fs)
  show ?thesis using fs validate_fields_ok [OF fs(4)] field_map_ok [of fs "[]"] by (simp add: sf)
qed

text \<open>A small template: a required text, an enumeration and a bounded number.\<close>

definition demo_schema :: json where
  "demo_schema = JObj [(''fields'', JList
     [JObj [(''key'', JStr ''op''), (''type'', JStr ''string''), (''required'', JBool True), (''max'', JInt 5)],
      JObj [(''key'', JStr ''res''), (''type'', JStr ''enum''), (''enum'', JList [JStr ''pass'', JStr ''fail''])],
      JObj [(''key'', JStr ''n''), (''type'', JStr ''number''), (''min'', JInt 0), (''max'', JInt 9)]])]"

lemma demo_accepted: "validate_schema demo_schema = Inr []"
  by code_simp

lemma accepted_schema_sound_witness:
  "map field_key (schema_fields demo_schema) = [''op'', ''res'', ''n''] \<and> distinct (map field_key (schema_fields demo_schema))"
proof -
  have "map field_key (schema_fields demo_schema) = [''op'', ''res'', ''n'']" by code_simp
  with accepted_schema_sound [OF demo_accepted] show ?thesis by simp
qed



subsection \<open>Three gaps\<close>

text \<open>A type that is not hashable raises instead of being reported.\<close>

lemma unhashable_type_raises:
  "validate_schema (JObj [(''fields'', JList [JObj [(''key'', JStr ''a''), (''type'', JList [])]])]) = Inl TypeError"
  by code_simp

text \<open>A bound written with a fraction is accepted for a text field and then ignored: five characters at
most, and eight are accepted.\<close>

lemma float_bound_ignored:
  "let s = JObj [(''fields'', JList [JObj [(''key'', JStr ''a''), (''type'', JStr ''string''), (''max'', JFloat ''5.0'' 5)]])]
   in validate_schema s = Inr [] \<and> validate_values s (JObj [(''a'', JStr ''12345678'')]) = Inr []"
  by code_simp

text \<open>A number too large for a double raises.\<close>

lemma bit_size_power: "bit_size (2 ^ n) = Suc n"
proof (induction n)
  case (Suc n)
  then show ?case by (subst bit_size.simps) simp
qed (simp add: bit_size.simps)

lemma huge_number_raises: "as_number (JInt (2 ^ 1024)) = Inl OverflowError"
proof -
  have size: "bit_size (nat (2 ^ n)) = Suc n" for n by (simp add: bit_size_power nat_power_eq)
  have q: "(2::int) ^ 1024 div 2 ^ 972 = 2 ^ 52" "(2::int) ^ 1024 mod 2 ^ 972 = 0" by simp_all
  have "float_of_int (2 ^ 1024) = Inl OverflowError"
    unfolding float_of_int_def Let_def
    using size [of 1024] by (simp del: power_numeral add: q)
  then show ?thesis by (simp add: as_number_def)
qed

end
