(* ===== verification/VaultFreeze.thy ===== *)
theory VaultFreeze
  imports VaultOps FormSchema
begin

text \<open>
  Versions whose content is data: a form template freezes its working field schema, an objective its
  commitment, a management review its minutes, and the risk, context and interested-party registers
  their rows (\<open>services/vault/service.py\<close>). The content is serialised and digested by
  \<open>content_digest\<close> (\<open>rfc8785\<close> and SHA-256), sealed as a blob and pinned under its own key of the
  metadata snapshot of a new draft version.
\<close>

subsection \<open>Guards\<close>

definition assert_documents_worm_blob :: "vault_env \<Rightarrow> string \<Rightarrow> unit outcome" where
  "assert_documents_worm_blob E sha =
     (if \<not> blob_worm E sha then Inl (Problem 423 ''source_bytes_in_foreign_bucket'') else Inr ())"

definition ensure_generated_documents_blob :: "vault_env \<Rightarrow> string \<Rightarrow> unit outcome" where
  "ensure_generated_documents_blob E sha =
     (if \<not> blob_known E sha \<and> blob_refusal E sha \<noteq> None then Inl (case_prod Problem (the (blob_refusal E sha)))
      else assert_documents_worm_blob E sha)"

definition reject_managed_register_creation :: "string option \<Rightarrow> unit outcome" where
  "reject_managed_register_creation code =
     (if (case code of None \<Rightarrow> False | Some c \<Rightarrow> c \<in> {''RSK'', ''CTX'', ''IPR''})
      then Inl (Problem 422 ''validation_error'') else Inr ())"

definition require_form_template_doc :: "vault_env \<Rightarrow> document \<Rightarrow> bool \<Rightarrow> unit outcome" where
  "require_form_template_doc E d must_be_editable =
     (if (case doc_type d of None \<Rightarrow> None | Some t \<Rightarrow> type_codes E t) \<noteq> Some ''FRM''
      then Inl (Problem 422 ''validation_error'')
      else if must_be_editable \<and> doc_current d \<notin> {D_Draft, D_UnderRevision} then Inl (Problem 409 ''not_editable'')
      else Inr ())"

definition checked_schema :: "json \<Rightarrow> unit outcome" where
  "checked_schema s = bind_res (lift_py (validate_schema s)) (\<lambda>es.
     if es = [] then Inr () else Inl (Problem 422 ''validation_error''))"

subsection \<open>Freezing content into a version\<close>

definition frozen_version ::
    "vault_env \<Rightarrow> app_user \<Rightarrow> document \<Rightarrow> uuid \<Rightarrow> string \<Rightarrow> json \<Rightarrow> string \<Rightarrow> string \<Rightarrow> string \<Rightarrow> vault \<Rightarrow> version" where
  "frozen_version E actor d new_id key content sha why significance v =
     (let n = next_version_seq v (doc_id d) in
      \<lparr>ver_id = new_id, ver_doc = doc_id d, ver_seq = n, ver_label = revision_label n ''letter'',
       ver_significance = significance, ver_reason = strip why, ver_state = V_Draft, ver_sha = sha,
       ver_snapshot = snapshot d (Some (key, content)) (distribution_snapshot E (doc_id d)),
       ver_author = Some (user_id actor), ver_effective_from = None, ver_effective_to = None,
       ver_superseded_by = None\<rparr>)"

definition freeze ::
    "vault_env \<Rightarrow> app_user \<Rightarrow> document \<Rightarrow> uuid \<Rightarrow> string \<Rightarrow> json \<Rightarrow> string \<Rightarrow> string \<Rightarrow> vault \<Rightarrow> (vault \<times> version) outcome" where
  "freeze E actor d new_id key content why significance v =
     (if strip why = [] then Inl (Problem 422 ''validation_error'')
      else if significance \<notin> {''MAJOR'', ''MINOR''} then Inl (Problem 422 ''validation_error'')
      else bind_res (lift_py (content_digest E content)) (\<lambda>sha.
        bind_res (ensure_generated_documents_blob E sha) (\<lambda>_.
        if get_version v new_id \<noteq> None then Inl RaceLoss
        else
          let r = frozen_version E actor d new_id key content sha why significance v in
          Inr (emit ''CHECKIN'' (Some (user_id actor)) ''document_version'' new_id (Some (doc_identifier d))
                (Some (strip why)) (v\<lparr>versions := versions v @ [r]\<rparr>), r))))"

definition checkin_objective_commitment ::
    "vault_env \<Rightarrow> app_user \<Rightarrow> document \<Rightarrow> uuid \<Rightarrow> dict \<Rightarrow> string \<Rightarrow> string \<Rightarrow> vault \<Rightarrow> (vault \<times> version) outcome" where
  "checkin_objective_commitment E actor d new_id commitment = freeze E actor d new_id ''objective_commitment'' (JObj commitment)"

definition checkin_risk_register ::
    "vault_env \<Rightarrow> app_user \<Rightarrow> document \<Rightarrow> uuid \<Rightarrow> dict \<Rightarrow> string \<Rightarrow> string \<Rightarrow> vault \<Rightarrow> (vault \<times> version) outcome" where
  "checkin_risk_register E actor d new_id rows = freeze E actor d new_id ''risk_register'' (JObj rows)"

definition checkin_context_register ::
    "vault_env \<Rightarrow> app_user \<Rightarrow> document \<Rightarrow> uuid \<Rightarrow> dict \<Rightarrow> string \<Rightarrow> string \<Rightarrow> vault \<Rightarrow> (vault \<times> version) outcome" where
  "checkin_context_register E actor d new_id rows = freeze E actor d new_id ''context_register'' (JObj rows)"

definition checkin_interested_party_register ::
    "vault_env \<Rightarrow> app_user \<Rightarrow> document \<Rightarrow> uuid \<Rightarrow> dict \<Rightarrow> string \<Rightarrow> string \<Rightarrow> vault \<Rightarrow> (vault \<times> version) outcome" where
  "checkin_interested_party_register E actor d new_id rows = freeze E actor d new_id ''interested_party_register'' (JObj rows)"

definition checkin_management_review_minutes ::
    "vault_env \<Rightarrow> app_user \<Rightarrow> document \<Rightarrow> uuid \<Rightarrow> dict \<Rightarrow> string \<Rightarrow> string \<Rightarrow> vault \<Rightarrow> (vault \<times> version) outcome" where
  "checkin_management_review_minutes E actor d new_id minutes = freeze E actor d new_id ''mgmt_review_minutes'' (JObj minutes)"

subsection \<open>Form templates\<close>

definition set_working_schema :: "vault_env \<Rightarrow> app_user \<Rightarrow> uuid \<Rightarrow> json \<Rightarrow> vault \<Rightarrow> vault outcome" where
  "set_working_schema E actor i schema v =
     with_doc v i (\<lambda>d.
     bind_res (require_form_template_doc E d True) (\<lambda>_.
     bind_res (checked_schema schema) (\<lambda>_.
     Inr (emit ''FORM_SCHEMA_SET'' (Some (user_id actor)) ''document'' i (Some (doc_identifier d)) None
       (v\<lparr>templates := (templates v)(i \<mapsto> schema)\<rparr>)))))"

definition get_working_schema :: "vault \<Rightarrow> uuid \<Rightarrow> json option" where
  "get_working_schema v i = templates v i"

definition checkin_form_schema ::
    "vault_env \<Rightarrow> app_user \<Rightarrow> uuid \<Rightarrow> uuid \<Rightarrow> string \<Rightarrow> string \<Rightarrow> vault \<Rightarrow> (vault \<times> version) outcome" where
  "checkin_form_schema E actor i new_id why significance v =
     with_doc v i (\<lambda>d.
     bind_res (require_form_template_doc E d True) (\<lambda>_.
     case templates v i of
       None \<Rightarrow> Inl (Problem 422 ''validation_error'')
     | Some schema \<Rightarrow>
         bind_res (checked_schema schema) (\<lambda>_. freeze E actor d new_id ''field_schema'' schema why significance v)))"

definition schema_from_version :: "version \<Rightarrow> (py_error, json option) result" where
  "schema_from_version r =
     (case dget (ver_snapshot r) ''field_schema'' of
        JObj s \<Rightarrow> bind_res (validate_schema (JObj s)) (\<lambda>es. Inr (if es = [] then Some (JObj s) else None))
      | _ \<Rightarrow> Inr None)"

definition latest_non_obsolete_version :: "vault \<Rightarrow> uuid \<Rightarrow> version option" where
  "latest_non_obsolete_version v i =
     (case rev (sort_key ver_seq (filter (\<lambda>x. ver_state x \<noteq> V_Obsolete) (doc_versions v i))) of
        [] \<Rightarrow> None | x # _ \<Rightarrow> Some x)"

definition effective_version :: "vault \<Rightarrow> uuid \<Rightarrow> version option outcome" where
  "effective_version v i =
     (case effective_versions v i of [] \<Rightarrow> Inr None | [x] \<Rightarrow> Inr (Some x) | _ \<Rightarrow> Inl MultipleRows)"

definition resolve_template_version :: "bool \<Rightarrow> vault \<Rightarrow> uuid \<Rightarrow> version outcome" where
  "resolve_template_version allow_pre_release v i =
     bind_res (effective_version v i) (\<lambda>eff.
     case eff of
       Some x \<Rightarrow> Inr x
     | None \<Rightarrow>
         if allow_pre_release then
           (case latest_non_obsolete_version v i of None \<Rightarrow> Inl (Problem 422 ''validation_error'') | Some x \<Rightarrow> Inr x)
         else Inl (Problem 422 ''validation_error''))"

fun state_value :: "version_state \<Rightarrow> string" where
  "state_value V_Draft = ''Draft''"
| "state_value V_InReview = ''InReview''"
| "state_value V_Approved = ''Approved''"
| "state_value V_Effective = ''Effective''"
| "state_value V_Superseded = ''Superseded''"
| "state_value V_Obsolete = ''Obsolete''"

definition get_effective_schema :: "vault_env \<Rightarrow> bool \<Rightarrow> vault \<Rightarrow> uuid \<Rightarrow> dict outcome" where
  "get_effective_schema E allow_pre_release v i =
     with_doc v i (\<lambda>d.
     bind_res (require_form_template_doc E d False) (\<lambda>_.
     bind_res (resolve_template_version allow_pre_release v i) (\<lambda>r.
     bind_res (lift_py (schema_from_version r)) (\<lambda>s.
     case s of None \<Rightarrow> Inl (Problem 409 ''conflict'')
     | Some schema \<Rightarrow> Inr [(''source_version_id'', JStr (uuid_str (ver_id r))), (''revision_label'', JStr (ver_label r)),
         (''version_state'', JStr (state_value (ver_state r))), (''field_schema'', schema)]))))"

end
