(* ===== verification/VaultInv.thy ===== *)
theory VaultInv
  imports VaultFreeze "HOL-Library.Sublist"
begin

text \<open>
  The invariant of the vault. Every operation keeps it, so every reachable state has at most one
  Effective version per document, the effective pointer names exactly that version, and the document
  state and the state of its latest version agree.
\<close>

subsection \<open>The invariant\<close>

fun head_state_ok :: "doc_state \<Rightarrow> version_state option \<Rightarrow> bool" where
  "head_state_ok D_Draft s = (s = None \<or> s = Some V_Draft)"
| "head_state_ok D_InReview s = (s = Some V_InReview)"
| "head_state_ok D_Approved s = (s = Some V_Approved)"
| "head_state_ok D_Effective s = (s = Some V_Effective)"
| "head_state_ok D_UnderRevision s = (s = Some V_Draft \<or> s = Some V_Effective)"
| "head_state_ok D_Superseded s = False"
| "head_state_ok D_Obsolete s = (s = Some V_Obsolete)"

definition last_state :: "version list \<Rightarrow> version_state option" where
  "last_state xs = (if xs = [] then None else Some (ver_state (last xs)))"

definition effective_ids :: "version list \<Rightarrow> uuid list" where
  "effective_ids xs = map ver_id (filter (\<lambda>x. ver_state x = V_Effective) xs)"

definition doc_ok :: "document \<Rightarrow> version list \<Rightarrow> bool" where
  "doc_ok d xs \<longleftrightarrow> head_state_ok (doc_current d) (last_state xs)
     \<and> (\<forall>x \<in> set (butlast xs). ver_state x \<notin> {V_InReview, V_Approved})
     \<and> effective_ids xs = (case doc_effective d of None \<Rightarrow> [] | Some e \<Rightarrow> [e])
     \<and> (doc_current d = D_UnderRevision \<longrightarrow> doc_effective d \<noteq> None)"

definition vault_inv :: "vault \<Rightarrow> bool" where
  "vault_inv v \<longleftrightarrow> distinct (map doc_id (docs v)) \<and> distinct (map ver_id (versions v))
     \<and> (\<forall>x \<in> set (versions v). ver_doc x \<in> doc_id ` set (docs v))
     \<and> (\<forall>i. sorted_wrt (<) (map ver_seq (doc_versions v i)))
     \<and> (\<forall>d \<in> set (docs v). doc_ok d (doc_versions v (doc_id d)))"

lemma vault_invD:
  assumes "vault_inv v"
  shows "distinct (map doc_id (docs v))" "distinct (map ver_id (versions v))"
    and "x \<in> set (versions v) \<Longrightarrow> ver_doc x \<in> doc_id ` set (docs v)"
    and "sorted_wrt (<) (map ver_seq (doc_versions v i))"
    and "d \<in> set (docs v) \<Longrightarrow> doc_ok d (doc_versions v (doc_id d))"
  using assms by (auto simp: vault_inv_def)

lemma vault_inv_cong:
  "docs w = docs v \<Longrightarrow> versions w = versions v \<Longrightarrow> vault_inv w \<longleftrightarrow> vault_inv v"
  by (simp add: vault_inv_def doc_versions_def)

lemma inv_frames [simp]:
  "vault_inv (emit ev a ot i ident why v) \<longleftrightarrow> vault_inv v"
  "vault_inv (emit_signature r m s intent v) \<longleftrightarrow> vault_inv v"
  "vault_inv (enqueue q arg v) \<longleftrightarrow> vault_inv v"
  "vault_inv (take_draft actor i src tok now v) \<longleftrightarrow> vault_inv v"
  "vault_inv (release_after_commit i now tok v) \<longleftrightarrow> vault_inv v"
  "vault_inv (audit_transition t u v) \<longleftrightarrow> vault_inv v"
  "vault_inv (v\<lparr>locks := L\<rparr>) \<longleftrightarrow> vault_inv v"
  "vault_inv (v\<lparr>drafts := D\<rparr>) \<longleftrightarrow> vault_inv v"
  by (intro vault_inv_cong; simp add: vault_upd_defs take_draft_def release_after_commit_def audit_transition_def)+

lemma get_doc_Some: "get_doc v i = Some d \<Longrightarrow> d \<in> set (docs v) \<and> doc_id d = i"
  by (auto simp: get_doc_def find_Some_iff)

lemma with_doc_Inr: "with_doc v i f = Inr w \<longleftrightarrow> (\<exists>d. get_doc v i = Some d \<and> f d = Inr w)"
  by (auto simp: with_doc_def split: option.split)

lemma with_docE:
  assumes "with_doc v i f = Inr w"
  obtains d where "d \<in> set (docs v)" "doc_id d = i" "get_doc v i = Some d" "f d = Inr w"
  using assms get_doc_Some by (auto simp: with_doc_Inr)

lemma lift_fsm_Inr [simp]: "lift_fsm r = Inr x \<longleftrightarrow> r = Inr x"
  by (simp add: lift_fsm_def split: sum.split)

lemma lift_py_Inr [simp]: "lift_py r = Inr x \<longleftrightarrow> r = Inr x"
  by (simp add: lift_py_def split: sum.split)

lemma latest_version_last:
  assumes "vault_inv v"
  shows "latest_version v i = (if doc_versions v i = [] then None else Some (last (doc_versions v i)))"
proof -
  have "sorted (map ver_seq (doc_versions v i))" using vault_invD(4) [OF assms] by (rule strict_sorted_imp_sorted)
  then have "sort_key ver_seq (doc_versions v i) = doc_versions v i" by (rule sort_key_id_if_sorted)
  then show ?thesis by (cases "doc_versions v i" rule: rev_cases) (auto simp: latest_version_def)
qed

lemma get_version_Some:
  assumes "vault_inv v"
  shows "get_version v j = Some r \<longleftrightarrow> r \<in> set (versions v) \<and> ver_id r = j"
proof
  assume "get_version v j = Some r"
  then show "r \<in> set (versions v) \<and> ver_id r = j" by (auto simp: get_version_def find_Some_iff)
next
  assume r: "r \<in> set (versions v) \<and> ver_id r = j"
  then obtain x where x: "get_version v j = Some x" by (cases "get_version v j") (auto simp: get_version_def find_None_iff)
  then have "x \<in> set (versions v)" "ver_id x = j" by (auto simp: get_version_def find_Some_iff)
  with r vault_invD(2) [OF assms] have "x = r" by (auto simp: distinct_map dest: inj_onD)
  with x show "get_version v j = Some r" by simp
qed

subsection \<open>Replacing one version\<close>

lemma put_version_ids [simp]:
  "docs (put_version r v) = docs v" "map ver_id (versions (put_version r v)) = map ver_id (versions v)"
  by (auto simp: put_version_def)

lemma doc_versions_put:
  assumes "distinct (map ver_id (versions v))" "x \<in> set (versions v)" "ver_id r = ver_id x" "ver_doc r = ver_doc x"
  shows "doc_versions (put_version r v) j
    = (if j = ver_doc x then map (\<lambda>y. if ver_id y = ver_id x then r else y) (doc_versions v j) else doc_versions v j)"
proof -
  have same: "y = x" if "y \<in> set (versions v)" "ver_id y = ver_id x" for y
    using that assms(1,2) by (auto simp: distinct_map dest: inj_onD)
  have "filter (\<lambda>y. ver_doc y = j) (map (\<lambda>y. if ver_id y = ver_id x then r else y) ys)
      = (if j = ver_doc x then map (\<lambda>y. if ver_id y = ver_id x then r else y) (filter (\<lambda>y. ver_doc y = j) ys)
         else filter (\<lambda>y. ver_doc y = j) ys)" if "set ys \<subseteq> set (versions v)" for ys
    using that by (induction ys) (use same assms(4) in auto)
  then show ?thesis by (simp add: doc_versions_def put_version_def assms(3))
qed

lemma doc_versions_put_doc [simp]: "doc_versions (put_doc d v) j = doc_versions v j"
  by (simp add: doc_versions_def put_doc_def)

lemma versions_put_doc [simp]: "versions (put_doc d v) = versions v"
  by (simp add: put_doc_def)

lemma map_replace_last:
  assumes "distinct (map f xs)" "xs \<noteq> []"
  shows "map (\<lambda>y. if f y = f (last xs) then r else y) xs = butlast xs @ [r]"
proof -
  obtain ys y where xs: "xs = ys @ [y]" using assms(2) by (cases xs rule: rev_cases) auto
  then have "f y \<notin> f ` set ys" using assms(1) by simp
  then have "\<forall>z \<in> set ys. f z \<noteq> f y" by (metis imageI)
  then show ?thesis by (simp add: xs map_idI)
qed

lemma distinct_doc_versions: "distinct (map ver_id (versions v)) \<Longrightarrow> distinct (map ver_id (doc_versions v i))"
  by (simp add: doc_versions_def distinct_map_filter)

text \<open>A step that changes one document and the versions of that document only.\<close>

lemma inv_one_doc:
  assumes "vault_inv v" "d \<in> set (docs v)" "doc_id d' = doc_id d"
    and "docs w = docs (put_doc d' v)" "map ver_id (versions w) = map ver_id (versions v)"
    and "\<And>j. j \<noteq> doc_id d \<Longrightarrow> doc_versions w j = doc_versions v j"
    and "map ver_seq (doc_versions w (doc_id d)) = map ver_seq (doc_versions v (doc_id d))"
    and "doc_ok d' (doc_versions w (doc_id d))"
    and "\<forall>x \<in> set (versions w). ver_doc x \<in> ver_doc ` set (versions v)"
  shows "vault_inv w"
proof -
  have docs: "docs w = map (\<lambda>x. if doc_id x = doc_id d then d' else x) (docs v)"
    using assms(3,4) by (simp add: put_doc_def)
  then have ids: "map doc_id (docs w) = map doc_id (docs v)" using assms(3) by (auto simp: comp_def)
  have "\<forall>x \<in> set (versions w). ver_doc x \<in> doc_id ` set (docs w)"
    using assms(9) vault_invD(3) [OF assms(1)] arg_cong [OF ids, of set] by fastforce
  moreover have "sorted_wrt (<) (map ver_seq (doc_versions w i))" for i
    using vault_invD(4) [OF assms(1), of i] assms(6) [of i] assms(7) by (cases "i = doc_id d") auto
  moreover have "doc_ok x (doc_versions w (doc_id x))" if "x \<in> set (docs w)" for x
  proof (cases "doc_id x = doc_id d")
    case True
    with that docs assms(3) have "x = d'" by auto
    with True assms(3,8) show ?thesis by simp
  next
    case False
    with that docs have "x \<in> set (docs v)" using assms(3) by (auto split: if_splits)
    with False vault_invD(5) [OF assms(1)] assms(6) show ?thesis by simp
  qed
  ultimately show ?thesis
    unfolding vault_inv_def using ids assms(5) vault_invD(1,2) [OF assms(1)] by simp
qed

lemma last_version:
  assumes "vault_inv v" "doc_versions v i \<noteq> []" "r = last (doc_versions v i)"
  shows "r \<in> set (versions v)" "ver_doc r = i"
  using last_in_set [OF assms(2)] by (auto simp: assms(3) doc_versions_def)

lemma inv_replace_last:
  assumes "vault_inv v" "d \<in> set (docs v)" "doc_id d' = doc_id d" "doc_versions v (doc_id d) \<noteq> []"
    and r: "r = last (doc_versions v (doc_id d))"
    and r': "ver_id r' = ver_id r" "ver_doc r' = ver_doc r" "ver_seq r' = ver_seq r"
    and ok: "doc_ok d' (butlast (doc_versions v (doc_id d)) @ [r'])"
  shows "vault_inv (put_doc d' (put_version r' v))"
    and "doc_versions (put_doc d' (put_version r' v)) (doc_id d) = butlast (doc_versions v (doc_id d)) @ [r']"
proof -
  let ?xs = "doc_versions v (doc_id d)" and ?w = "put_doc d' (put_version r' v)"
  note rv = last_version [OF assms(1,4) r] and D = vault_invD(2) [OF assms(1)]
  have dv: "doc_versions ?w j = (if j = doc_id d then map (\<lambda>y. if ver_id y = ver_id r then r' else y) (doc_versions v j)
      else doc_versions v j)" for j
    using doc_versions_put [OF D rv(1) r'(1,2)] rv(2) by simp
  show xs: "doc_versions ?w (doc_id d) = butlast ?xs @ [r']"
    using dv [of "doc_id d"] map_replace_last [OF distinct_doc_versions [OF D] assms(4)] r by simp
  show "vault_inv ?w"
  proof (rule inv_one_doc [OF assms(1-3)])
    have "map ver_seq (butlast ?xs @ [r']) = map ver_seq (butlast ?xs @ [last ?xs])" using r r'(3) by simp
    then show "map ver_seq (doc_versions ?w (doc_id d)) = map ver_seq ?xs" using xs assms(4) by simp
    show "\<forall>x \<in> set (versions ?w). ver_doc x \<in> ver_doc ` set (versions v)"
      using rv(1) r'(2) by (auto simp: put_version_def)
  qed (use xs ok dv in \<open>simp_all add: put_doc_def\<close>)
qed

lemma doc_ok_replace:
  assumes "doc_ok d xs" "xs \<noteq> []" "ver_state (last xs) \<noteq> V_Effective" "ver_state r' \<noteq> V_Effective"
    and "head_state_ok (doc_current d') (Some (ver_state r'))" "doc_effective d' = doc_effective d"
    and "doc_current d' \<noteq> D_UnderRevision"
  shows "doc_ok d' (butlast xs @ [r'])"
proof -
  obtain ys y where "xs = ys @ [y]" using assms(2) by (cases xs rule: rev_cases) auto
  then show ?thesis using assms by (simp add: doc_ok_def last_state_def effective_ids_def)
qed

subsection \<open>Every operation keeps the invariant\<close>

lemma advance_Inr:
  assumes "advance_active_version actor d a ev why v = Inr (w, tres)"
  obtains t r s where "apply_transition (doc_current d) a = Inr t" "latest_version v (doc_id d) = Some r"
    "to_version_state t = Some s" "Some (ver_state r) = from_version_state t"
    "w = put_doc (d\<lparr>doc_current := to_doc_state t, doc_updated_by := Some (user_id actor)\<rparr>)
       (put_version (r\<lparr>ver_state := s\<rparr>) v)"
    "tres_version tres = r\<lparr>ver_state := s\<rparr>" "tres_event tres = ev"
proof -
  obtain t where t: "apply_transition (doc_current d) a = Inr t"
    using assms by (auto simp: advance_active_version_def)
  obtain r where r: "latest_version v (doc_id d) = Some r"
    using assms t by (cases "latest_version v (doc_id d)") (simp_all add: advance_active_version_def lift_fsm_def)
  obtain s where s: "to_version_state t = Some s"
    using assms t r by (cases "to_version_state t") (simp_all add: advance_active_version_def lift_fsm_def)
  show thesis
    using assms t r s by (intro that) (auto simp: advance_active_version_def lift_fsm_def Let_def split: if_splits)
qed

lemma advance_inv:
  assumes "advance_active_version actor d a ev why v = Inr (w, tres)" "vault_inv v"
    and "d0 \<in> set (docs v)" "doc_id d = doc_id d0" "doc_current d = doc_current d0" "doc_effective d = doc_effective d0"
    and "a \<in> {Submit_review, Request_changes}"
  shows "vault_inv w"
proof -
  let ?xs = "doc_versions v (doc_id d0)"
  obtain t r s where t: "apply_transition (doc_current d) a = Inr t" "latest_version v (doc_id d) = Some r"
    "to_version_state t = Some s" "Some (ver_state r) = from_version_state t"
    "w = put_doc (d\<lparr>doc_current := to_doc_state t, doc_updated_by := Some (user_id actor)\<rparr>)
       (put_version (r\<lparr>ver_state := s\<rparr>) v)"
    using assms(1) by (rule advance_Inr)
  have xs: "?xs \<noteq> []" "r = last ?xs"
    using t(2) latest_version_last [OF assms(2), of "doc_id d"] assms(4) by (auto split: if_splits)
  note ok = vault_invD(5) [OF assms(2,3)]
  have st: "ver_state r \<noteq> V_Effective" "s \<noteq> V_Effective" "to_doc_state t \<noteq> D_UnderRevision"
    "head_state_ok (to_doc_state t) (Some s)"
    using t(1,3,4) assms(7) by (auto simp: apply_transition_cases tr_def)
  have "doc_ok (d\<lparr>doc_current := to_doc_state t, doc_updated_by := Some (user_id actor)\<rparr>)
      (butlast ?xs @ [r\<lparr>ver_state := s\<rparr>])"
    using st xs assms(6) by (intro doc_ok_replace [OF ok]) auto
  then show ?thesis unfolding t(5)
    by (intro inv_replace_last [OF assms(2,3)]) (use xs assms(4) in auto)
qed

lemma submit_inv: "submit_review E actor i v = Inr (w, t) \<Longrightarrow> vault_inv v \<Longrightarrow> vault_inv w"
  unfolding submit_review_def
  by (erule with_docE) (auto simp: Let_def split: if_splits intro: advance_inv)

lemma request_changes_inv: "request_changes actor i c v = Inr (w, t) \<Longrightarrow> vault_inv v \<Longrightarrow> vault_inv w"
  unfolding request_changes_def
  by (erule with_docE) (auto split: if_splits intro: advance_inv)

lemma approve_inv:
  assumes "approve actor i eff v = Inr (w, tres)" "vault_inv v"
  shows "vault_inv w"
  using assms(1) unfolding approve_def
proof (rule with_docE)
  fix d assume d: "d \<in> set (docs v)" "doc_id d = i"
    and f: "bind_res (lift_fsm (apply_transition (doc_current d) Approve)) (\<lambda>t.
     case (latest_version v i, to_version_state t) of
       (Some r, Some s) \<Rightarrow>
         if Some (ver_state r) \<noteq> from_version_state t then Inl (Illegal (illegal Approve (doc_current d)))
         else
           let r' = r\<lparr>ver_state := s, ver_effective_from := eff\<rparr>;
               d' = d\<lparr>doc_current := to_doc_state t, doc_updated_by := Some (user_id actor)\<rparr> in
           Inr (put_doc d' (put_version r' v),
                \<lparr>tres_doc = d', tres_version = r', tres_event = ''APPROVED'', tres_reason = None\<rparr>)
     | _ \<Rightarrow> Inl (Illegal (illegal Approve (doc_current d)))) = Inr (w, tres)"
  let ?xs = "doc_versions v (doc_id d)"
  obtain r where r: "doc_current d = D_InReview" "latest_version v i = Some r" "ver_state r = V_InReview"
    "w = put_doc (d\<lparr>doc_current := D_Approved, doc_updated_by := Some (user_id actor)\<rparr>)
       (put_version (r\<lparr>ver_state := V_Approved, ver_effective_from := eff\<rparr>) v)"
    using f by (auto simp: apply_transition_cases tr_def Let_def split: option.splits if_splits)
  have xs: "?xs \<noteq> []" "r = last ?xs"
    using r(2) latest_version_last [OF assms(2), of i] d by (auto split: if_splits)
  have "doc_ok (d\<lparr>doc_current := D_Approved, doc_updated_by := Some (user_id actor)\<rparr>)
      (butlast ?xs @ [r\<lparr>ver_state := V_Approved, ver_effective_from := eff\<rparr>])"
    using xs r(3) by (intro doc_ok_replace [OF vault_invD(5) [OF assms(2) d(1)]]) auto
  then show ?thesis unfolding r(4)
    by (intro inv_replace_last [OF assms(2) d(1)]) (use xs in auto)
qed

lemma doc_only_inv:
  assumes "vault_inv v" "d \<in> set (docs v)" "doc_id d' = doc_id d" "doc_ok d' (doc_versions v (doc_id d))"
  shows "vault_inv (put_doc d' v)"
  by (rule inv_one_doc [OF assms(1-3)]) (use assms(4) in auto)

lemma start_revision_inv:
  assumes "start_revision actor i now token v = Inr w" "vault_inv v"
  shows "vault_inv w"
  using assms(1) unfolding start_revision_def
proof (rule with_docE)
  fix d assume d: "d \<in> set (docs v)" "doc_id d = i"
    and f: "bind_res (lift_fsm (apply_transition (doc_current d) Start_revision)) (\<lambda>t.
     case doc_effective d of
       None \<Rightarrow> Inl (Problem 409 ''conflict'')
     | Some src \<Rightarrow>
       (case lock_acquire (locks v) i (secs now) token of
          (_, None) \<Rightarrow> Inl (Problem 409 ''lock_conflict'')
        | (L, Some tok) \<Rightarrow>
            Inr (emit ''REVISION_STARTED'' (Some (user_id actor)) ''document'' i (Some (doc_identifier d)) None
              (put_doc (d\<lparr>doc_current := to_doc_state t, doc_updated_by := Some (user_id actor)\<rparr>)
                (take_draft actor i (Some src) tok now (v\<lparr>locks := L\<rparr>)))))) = Inr w"
  obtain L tok src where w: "doc_current d = D_Effective" "doc_effective d = Some src"
    "w = emit ''REVISION_STARTED'' (Some (user_id actor)) ''document'' i (Some (doc_identifier d)) None
       (put_doc (d\<lparr>doc_current := D_UnderRevision, doc_updated_by := Some (user_id actor)\<rparr>)
         (take_draft actor i (Some src) tok now (v\<lparr>locks := L\<rparr>)))"
    using f by (auto simp: apply_transition_cases tr_def split: option.splits prod.splits)
  let ?v = "take_draft actor i (Some src) tok now (v\<lparr>locks := L\<rparr>)"
  have dv: "docs ?v = docs v" "doc_versions ?v j = doc_versions v j" for j
    by (simp_all add: take_draft_def doc_versions_def)
  have "doc_ok (d\<lparr>doc_current := D_UnderRevision, doc_updated_by := Some (user_id actor)\<rparr>) (doc_versions ?v (doc_id d))"
    using vault_invD(5) [OF assms(2) d(1)] w(1,2) unfolding dv by (auto simp: doc_ok_def)
  then have "vault_inv (put_doc (d\<lparr>doc_current := D_UnderRevision, doc_updated_by := Some (user_id actor)\<rparr>) ?v)"
    using assms(2) d(1) dv by (intro doc_only_inv [of ?v d]) auto
  then show ?thesis unfolding w(3) by simp
qed

lemma checkout_inv: "checkout E actor i now token v = Inr w \<Longrightarrow> vault_inv v \<Longrightarrow> vault_inv w"
  unfolding checkout_def by (erule with_docE) (auto split: option.splits prod.splits)

lemma break_lock_inv: "break_lock actor i v = Inr w \<Longrightarrow> vault_inv v \<Longrightarrow> vault_inv w"
  unfolding break_lock_def by (erule with_docE) auto

lemma heartbeat_inv: "doc_heartbeat actor i now v = Inr (w, n) \<Longrightarrow> vault_inv v \<Longrightarrow> vault_inv w"
  by (auto simp: doc_heartbeat_def split: option.splits if_splits prod.splits bool.splits)

lemma append_version_inv:
  assumes "vault_inv v" "d \<in> set (docs v)" "doc_current d \<in> {D_Draft, D_UnderRevision}"
    and r: "ver_doc r = doc_id d" "ver_state r = V_Draft" "ver_id r \<notin> ver_id ` set (versions v)"
    and seq: "ver_seq r = next_version_seq v (doc_id d)"
  shows "vault_inv (v\<lparr>versions := versions v @ [r]\<rparr>)"
proof -
  let ?w = "v\<lparr>versions := versions v @ [r]\<rparr>" and ?xs = "doc_versions v (doc_id d)"
  have dv: "doc_versions ?w j = doc_versions v j @ (if j = doc_id d then [r] else [])" for j
    using r(1) by (auto simp: doc_versions_def)
  have sorted: "sorted_wrt (<) (map ver_seq (doc_versions ?w j))" for j
  proof (cases "j = doc_id d")
    case True
    have "\<forall>x \<in> set ?xs. ver_seq x < ver_seq r"
    proof (cases ?xs rule: rev_cases)
      case (snoc ys y)
      then have "ver_seq r = ver_seq y + 1" using seq latest_version_last [OF assms(1)] by (simp add: next_version_seq_def)
      moreover have "\<forall>x \<in> set ys. ver_seq x < ver_seq y"
        using vault_invD(4) [OF assms(1), of "doc_id d"] snoc by (simp add: sorted_wrt_append)
      ultimately show ?thesis using snoc by auto
    qed simp
    then show ?thesis using vault_invD(4) [OF assms(1), of j] True dv by (simp add: sorted_wrt_append)
  qed (use vault_invD(4) [OF assms(1), of j] dv in simp)
  have ok: "doc_ok x (doc_versions ?w (doc_id x))" if x: "x \<in> set (docs ?w)" for x
  proof (cases "doc_id x = doc_id d")
    case True
    with x assms(2) vault_invD(1) [OF assms(1)] have "x = d" by (auto simp: distinct_map dest: inj_onD)
    have "doc_ok d ?xs" using vault_invD(5) [OF assms(1,2)] .
    then have "\<forall>x \<in> set ?xs. ver_state x \<notin> {V_InReview, V_Approved}"
      using assms(3) by (cases ?xs rule: rev_cases) (auto simp: doc_ok_def last_state_def)
    with \<open>doc_ok d ?xs\<close> have "doc_ok d (?xs @ [r])"
      using assms(3) r(2) by (auto simp: doc_ok_def last_state_def effective_ids_def)
    then show ?thesis using \<open>x = d\<close> dv by simp
  next
    case False
    then show ?thesis using vault_invD(5) [OF assms(1)] x dv by simp
  qed
  show ?thesis
    unfolding vault_inv_def using vault_invD(1-3) [OF assms(1)] r assms(2) sorted ok by auto
qed

lemma find_None_ids: "get_version v j = None \<Longrightarrow> j \<notin> ver_id ` set (versions v)"
  by (auto simp: get_version_def find_None_iff)

lemma checkin_inv:
  assumes "checkin E actor i now new_id sha why sig v = Inr (w, b)" "vault_inv v"
  shows "vault_inv w"
  using assms(1) unfolding checkin_def
proof (rule with_docE)
  fix d
  let ?r = "\<lparr>ver_id = new_id, ver_doc = i, ver_seq = next_version_seq v i,
      ver_label = revision_label (next_version_seq v i) ''letter'', ver_significance = sig, ver_reason = strip why,
      ver_state = V_Draft, ver_sha = sha, ver_snapshot = snapshot d None (distribution_snapshot E i), ver_author = Some (user_id actor), ver_effective_from = None,
      ver_effective_to = None, ver_superseded_by = None\<rparr>"
  assume d: "d \<in> set (docs v)" "doc_id d = i"
  have inv: "vault_inv (v\<lparr>versions := versions v @ [?r]\<rparr>)"
    if "doc_current d \<in> {D_Draft, D_UnderRevision}" "get_version v new_id = None"
    using that d by (intro append_version_inv [OF assms(2) d(1)]) (auto dest: find_None_ids)
  have frame: "vault_inv (x\<lparr>drafts := D\<rparr>) = vault_inv x" for x D by simp
  assume f: "bind_res (reject_objective_byte_path E d) (\<lambda>_.
     bind_res (require_editable_state d) (\<lambda>_.
     case drafts v i of
       None \<Rightarrow> Inl (Problem 409 ''lock_conflict'')
     | Some wd \<Rightarrow>
       if wd_by wd \<noteq> user_id actor then Inl (Problem 409 ''lock_conflict'')
       else if strip why = [] then Inl (Problem 422 ''validation_error'')
       else if sig \<notin> {''MAJOR'', ''MINOR''} then Inl (Problem 422 ''validation_error'')
       else
         let token = (case wd_token wd of None \<Rightarrow> [] | Some t \<Rightarrow> t);
             drop_wd = (\<lambda>w. w\<lparr>drafts := (drafts w)(i := None)\<rparr>) in
         if map_option ver_sha (latest_version v i) = Some sha then
           (if \<not> blob_worm E sha then Inl (Problem 423 ''source_bytes_in_foreign_bucket'')
            else Inr (release_after_commit i now token
              (emit ''NO_CHANGE'' (Some (user_id actor)) ''document'' i (Some (doc_identifier d)) None (drop_wd v)), False))
         else if \<not> blob_known E sha \<and> blob_refusal E sha \<noteq> None then Inl (case_prod Problem (the (blob_refusal E sha)))
         else if \<not> blob_worm E sha then Inl (Problem 423 ''source_bytes_in_foreign_bucket'')
         else if get_version v new_id \<noteq> None then Inl RaceLoss
         else
           let n = next_version_seq v i;
               r = \<lparr>ver_id = new_id, ver_doc = i, ver_seq = n, ver_label = revision_label n ''letter'',
                    ver_significance = sig, ver_reason = strip why, ver_state = V_Draft,
                    ver_sha = sha, ver_snapshot = snapshot d None (distribution_snapshot E i), ver_author = Some (user_id actor), ver_effective_from = None,
                    ver_effective_to = None, ver_superseded_by = None\<rparr> in
           Inr (release_after_commit i now token
             (emit ''CHECKIN'' (Some (user_id actor)) ''document_version'' new_id (Some (doc_identifier d))
                (Some (strip why)) (drop_wd (v\<lparr>versions := versions v @ [r]\<rparr>))), True))) = Inr (w, b)"
  then obtain wd where e: "doc_current d \<in> {D_Draft, D_UnderRevision}" "drafts v i = Some wd"
    by (cases "drafts v i") (auto simp: require_editable_state_def split: if_splits)
  from f e assms(2) inv show ?thesis
    by (simp add: Let_def require_editable_state_def split: if_splits) auto
qed

lemma in_doc_versions: "r \<in> set (doc_versions v i) \<longleftrightarrow> r \<in> set (versions v) \<and> ver_doc r = i"
  by (auto simp: doc_versions_def)

lemma same_version: "vault_inv v \<Longrightarrow> x \<in> set (versions v) \<Longrightarrow> y \<in> set (versions v) \<Longrightarrow> ver_id x = ver_id y \<Longrightarrow> x = y"
  using vault_invD(2) by (auto simp: distinct_map dest: inj_onD)

lemma same_doc: "vault_inv v \<Longrightarrow> x \<in> set (docs v) \<Longrightarrow> y \<in> set (docs v) \<Longrightarrow> doc_id x = doc_id y \<Longrightarrow> x = y"
  using vault_invD(1) by (auto simp: distinct_map dest: inj_onD)

lemma inv_put_version:
  assumes "vault_inv v" "d \<in> set (docs v)" "doc_id d' = doc_id d" "r \<in> set (doc_versions v (doc_id d))"
    and r': "ver_id r' = ver_id r" "ver_doc r' = ver_doc r" "ver_seq r' = ver_seq r"
    and ok: "doc_ok d' (map (\<lambda>y. if ver_id y = ver_id r then r' else y) (doc_versions v (doc_id d)))"
  shows "vault_inv (put_doc d' (put_version r' v))"
proof -
  let ?xs = "doc_versions v (doc_id d)" and ?w = "put_doc d' (put_version r' v)"
  have rv: "r \<in> set (versions v)" "ver_doc r = doc_id d" using assms(4) by (simp_all add: in_doc_versions)
  have dv: "doc_versions ?w j = (if j = doc_id d then map (\<lambda>y. if ver_id y = ver_id r then r' else y) (doc_versions v j)
      else doc_versions v j)" for j
    using doc_versions_put [OF vault_invD(2) [OF assms(1)] rv(1) r'(1,2)] rv(2) by simp
  show ?thesis
  proof (rule inv_one_doc [OF assms(1-3)])
    have "ver_seq (if ver_id y = ver_id r then r' else y) = ver_seq y" if "y \<in> set ?xs" for y
      using that rv(1) r'(3) same_version [OF assms(1)] by (auto simp: in_doc_versions)
    then show "map ver_seq (doc_versions ?w (doc_id d)) = map ver_seq ?xs" by (subst dv) simp
    show "\<forall>x \<in> set (versions ?w). ver_doc x \<in> ver_doc ` set (versions v)"
      using rv(1) r'(2) by (auto simp: put_version_def)
  qed (use ok dv in \<open>simp_all add: put_doc_def\<close>)
qed

lemma archive_inv:
  assumes "vault_inv v" "d \<in> set (docs v)" "r \<in> set (versions v)" "ver_doc r = doc_id d" "ver_state r = V_Superseded"
  shows "vault_inv (archive_superseded actor d r why v)"
proof -
  let ?xs = "doc_versions v (doc_id d)" and ?r = "r\<lparr>ver_state := V_Obsolete\<rparr>"
  let ?f = "\<lambda>y. if ver_id y = ver_id r then ?r else y"
  note ok = vault_invD(5) [OF assms(1,2)]
  have rx: "r \<in> set ?xs" using assms(3,4) by (simp add: in_doc_versions)
  have id: "y = r" if "y \<in> set ?xs" "ver_id y = ver_id r" for y
    using that assms(3) same_version [OF assms(1)] by (auto simp: in_doc_versions)
  obtain ys z where xs: "?xs = ys @ [z]" using rx by (cases ?xs rule: rev_cases) auto
  have "z \<noteq> r" using ok assms(5) xs by (cases "doc_current d") (auto simp: doc_ok_def last_state_def)
  then have zf: "?f z = z" using id [of z] xs by auto
  have ne: "ver_id y \<noteq> ver_id r" if "y \<in> set ?xs" "ver_state y = V_Effective" for y
    using id [OF that(1)] that(2) assms(5) by auto
  have "filter (\<lambda>x. ver_state x = V_Effective) (map ?f us) = filter (\<lambda>x. ver_state x = V_Effective) us"
    if "set us \<subseteq> set ?xs" for us
    using that by (induction us) (use ne in auto)
  then have eff: "effective_ids (map ?f ?xs) = effective_ids ?xs" by (simp add: effective_ids_def)
  have "\<forall>x \<in> set (butlast (map ?f ?xs)). ver_state x \<notin> {V_InReview, V_Approved}"
    using ok xs by (auto simp: doc_ok_def)
  moreover have "last_state (map ?f ?xs) = last_state ?xs" using xs zf by (simp add: last_state_def)
  ultimately have "doc_ok (d\<lparr>doc_updated_by := Some (user_id actor)\<rparr>) (map ?f ?xs)"
    using ok eff by (simp add: doc_ok_def)
  then show ?thesis unfolding archive_superseded_def
    using inv_put_version [OF assms(1,2) _ rx, of "d\<lparr>doc_updated_by := Some (user_id actor)\<rparr>" ?r] by simp
qed

lemma retire_inv:
  assumes "retire_document E actor d why fr j v = Inr w" "vault_inv v" "d \<in> set (docs v)"
  shows "vault_inv w"
proof -
  let ?xs = "doc_versions v (doc_id d)"
  obtain t where t: "apply_transition (doc_current d) Make_obsolete = Inr t"
    using assms(1) by (auto simp: retire_document_def)
  obtain e where e: "doc_effective d = Some e"
    using assms(1) t by (cases "doc_effective d") (simp_all add: retire_document_def lift_fsm_def)
  obtain r where r: "get_version v e = Some r"
    using assms(1) t e by (cases "get_version v e") (simp_all add: retire_document_def lift_fsm_def)
  have st: "doc_current d = D_Effective" "to_doc_state t = D_Obsolete"
    using t by (auto simp: apply_transition_cases tr_def)
  note ok = vault_invD(5) [OF assms(2,3)]
  obtain ys z where xs: "?xs = ys @ [z]" using ok st by (cases ?xs rule: rev_cases) (auto simp: doc_ok_def last_state_def)
  have z: "ver_state z = V_Effective" "effective_ids ys = []" "ver_id z = e"
    using ok st e xs by (auto simp: doc_ok_def last_state_def effective_ids_def)
  have "z \<in> set ?xs" by (simp add: xs)
  then have "z = r" using r z(3) same_version [OF assms(2)] by (auto simp: get_version_Some [OF assms(2)] in_doc_versions)
  define who where "who = Some (user_id actor)"
  define d' where "d' = d\<lparr>doc_effective := None, doc_current := to_doc_state t, doc_updated_by := who\<rparr>"
  have "doc_ok d' (butlast ?xs @ [r\<lparr>ver_state := V_Obsolete\<rparr>])"
    using ok z st xs by (auto simp: d'_def doc_ok_def last_state_def effective_ids_def)
  then have "vault_inv (put_doc d' (put_version (r\<lparr>ver_state := V_Obsolete\<rparr>) v))"
    using xs \<open>z = r\<close> by (intro inv_replace_last [OF assms(2,3)]) (auto simp: d'_def)
  then show ?thesis
    using assms(1) t e r by (auto simp: retire_document_def lift_fsm_def Let_def d'_def who_def)
qed

lemma obsolete_inv:
  assumes "obsolete E actor i reason vid fr j v = Inr w" "vault_inv v"
  shows "vault_inv w"
  using assms(1) unfolding obsolete_def
proof (rule with_docE)
  fix d assume d: "d \<in> set (docs v)" "doc_id d = i"
    and f: "bind_res (reject_managed_register_mutation E d) (\<lambda>_.
     if strip reason = [] then Inl (Problem 422 ''validation_error'')
     else
       let why = strip reason in
       case vid of
         None \<Rightarrow> retire_document E actor d why fr j v
       | Some vid \<Rightarrow>
         (case get_version v vid of
            None \<Rightarrow> Inl (Problem 404 ''not_found'')
          | Some r \<Rightarrow>
            if ver_doc r \<noteq> i then Inl (Problem 404 ''not_found'')
            else if ver_state r = V_Superseded then Inr (archive_superseded actor d r why v)
            else if ver_state r \<noteq> V_Effective then Inl (Problem 409 ''invalid_state_transition'')
            else retire_document E actor d why fr j v)) = Inr w"
  show ?thesis
    using f retire_inv [OF _ assms(2) d(1)] archive_inv [OF assms(2) d(1)] d(2)
    by (auto simp: Let_def get_version_Some [OF assms(2)] split: if_splits option.splits)
qed

subsection \<open>The cutover\<close>

lemma approved_is_last:
  assumes "doc_ok d xs" "r \<in> set xs" "ver_state r = V_Approved"
  shows "xs \<noteq> []" "r = last xs" "r \<notin> set (butlast xs)"
  using assms by (cases xs rule: rev_cases; auto simp: doc_ok_def)+

lemma approved_version_Some:
  "approved_version v i = Some r \<Longrightarrow> r \<in> set (doc_versions v i) \<and> ver_state r = V_Approved"
proof -
  assume "approved_version v i = Some r"
  then obtain ys where "rev (sort_key ver_seq (filter (\<lambda>x. ver_state x = V_Approved) (doc_versions v i))) = r # ys"
    by (auto simp: approved_version_def simp del: rev_eq_Cons_iff split: list.splits)
  then have "r \<in> set (rev (sort_key ver_seq (filter (\<lambda>x. ver_state x = V_Approved) (doc_versions v i))))"
    by (simp only: list.set_intros)
  then show ?thesis by simp
qed

lemma cutover_target_Some:
  assumes "cutover_target v i vid = Inr (Some r)" "vault_inv v"
  shows "r \<in> set (doc_versions v i)"
  using assms approved_version_Some
  by (auto simp: cutover_target_def get_version_Some in_doc_versions split: option.splits if_splits)

lemma effective_swap:
  assumes "filter (\<lambda>x. ver_state x = V_Effective) xs = [p]" "ver_state p' \<noteq> V_Effective"
  shows "effective_ids (map (\<lambda>y. if ver_id y = ver_id p then p' else y) xs) = []"
proof -
  have "ver_state (if ver_id y = ver_id p then p' else y) \<noteq> V_Effective" if "y \<in> set xs" for y
  proof (cases "ver_state y = V_Effective")
    case True
    with that have "y \<in> set (filter (\<lambda>x. ver_state x = V_Effective) xs)" by simp
    with assms show ?thesis by simp
  qed (use assms(2) in simp)
  then have "\<forall>z \<in> set (map (\<lambda>y. if ver_id y = ver_id p then p' else y) xs). ver_state z \<noteq> V_Effective"
    by (auto simp only: set_map)
  then show ?thesis unfolding effective_ids_def map_is_Nil_conv filter_empty_conv .
qed

lemma frame_tables [simp]:
  "docs (emit ev a ot i ident why v) = docs v" "versions (emit ev a ot i ident why v) = versions v"
  "docs (emit_signature r m sg intent v) = docs v" "versions (emit_signature r m sg intent v) = versions v"
  "docs (enqueue q arg v) = docs v" "versions (enqueue q arg v) = versions v"
  "docs (put_doc d (put_version r v)) = docs (put_doc d v)"
  by (simp_all add: vault_upd_defs)

lemma docs_put_doc_cong: "docs v = docs w \<Longrightarrow> docs (put_doc d v) = docs (put_doc d w)"
  by (simp add: put_doc_def)

text \<open>What a release leaves in the logs: the signature over the digest, and audit rows.\<close>

definition release_logged :: "app_user option \<Rightarrow> version \<Rightarrow> vault \<Rightarrow> vault \<Rightarrow> bool" where
  "release_logged actor r v w \<longleftrightarrow> length (audits v) < length (audits w) \<and> prefix (audits v) (audits w)
     \<and> signatures w = signatures v @ [\<lparr>sg_version = ver_id r, sg_meaning = ''release'',
         sg_signer = map_option user_id actor, sg_digest = ver_sha r, sg_intent = None\<rparr>]"

lemma log_frames:
  "audits (put_doc d v) = audits v" "signatures (put_doc d v) = signatures v"
  "audits (put_version r v) = audits v" "signatures (put_version r v) = signatures v"
  "audits (emit_signature r m sg intent v) = audits v" "signatures (emit ev a ot i ident why v) = signatures v"
  "audits (enqueue q arg v) = audits v" "signatures (enqueue q arg v) = signatures v"
  "audits (emit ev a ot i ident why v) = audits v @ [\<lparr>va_event = ev, va_actor = a, va_object_type = ot,
     va_object = i, va_identifier = ident, va_reason = why\<rparr>]"
  "signatures (emit_signature r m sg intent v) = signatures v @ [\<lparr>sg_version = ver_id r, sg_meaning = m,
     sg_signer = sg, sg_digest = ver_sha r, sg_intent = intent\<rparr>]"
  by (simp_all add: vault_upd_defs)

lemma promote_Inr:
  assumes "promote E actor d r t prior eff now v = Inr w"
  shows "\<exists>due who.
    docs w = docs (put_doc (d\<lparr>doc_effective := Some (ver_id r), doc_current := to_doc_state t, doc_next_review := due,
        doc_updated_by := who\<rparr>) v)
    \<and> versions w = versions (put_version (r\<lparr>ver_state := V_Effective, ver_effective_from := Some eff\<rparr>)
       (if (case prior of None \<Rightarrow> False | Some p \<Rightarrow> ver_id p \<noteq> ver_id r)
        then put_version (demote (the prior) (ver_id r) now) v else v))
    \<and> one_effective_index w \<and> singleton_index w \<and> release_logged actor r v w"
proof -
  obtain due where due: "compute_next_review_due (doc_review_months d) (doc_last_reviewed d) (Some eff)
      (org_date E (doc_org d)) = Inr due"
    using assms by (auto simp: promote_def Let_def)
  let ?swap = "case prior of None \<Rightarrow> False | Some p \<Rightarrow> ver_id p \<noteq> ver_id r"
  let ?v1 = "if ?swap then put_version (demote (the prior) (ver_id r) now) v else v"
  have "docs ?v1 = docs v" by simp
  note cong = docs_put_doc_cong [OF this]
  show ?thesis
    using assms due
    by (intro exI [of _ due] exI [of _ "case actor of None \<Rightarrow> doc_updated_by d | Some a \<Rightarrow> Some (user_id a)"])
      (auto simp: promote_def Let_def lift_py_def cong release_logged_def log_frames split: if_splits)
qed

text \<open>What the cutover leaves in the tables.\<close>

lemma cutover_Inr:
  assumes "cutover E i vid actor now v = Inr w" "vault_inv v"
  obtains d r eff due who where "d \<in> set (docs v)" "doc_id d = i" "doc_current d = D_Approved"
    "doc_versions v i \<noteq> []" "r = last (doc_versions v i)" "ver_state r = V_Approved"
    "eff \<le> now" "eff = (case ver_effective_from r of None \<Rightarrow> now | Some e \<Rightarrow> e)"
    "assert_release_authorized E v d r = Inr ()" "one_effective_index w" "singleton_index w"
    "release_logged actor r v w"
    "docs w = docs (put_doc (d\<lparr>doc_effective := Some (ver_id r), doc_current := D_Effective, doc_next_review := due,
        doc_updated_by := who\<rparr>) v)"
    "(effective_versions v i = [] \<and> versions w = versions (put_version
        (r\<lparr>ver_state := V_Effective, ver_effective_from := Some eff\<rparr>) v))
     \<or> (\<exists>p. effective_versions v i = [p] \<and> ver_id p \<noteq> ver_id r \<and> versions w = versions (put_version
        (r\<lparr>ver_state := V_Effective, ver_effective_from := Some eff\<rparr>) (put_version (demote p (ver_id r) now) v)))"
proof -
  obtain d where d: "d \<in> set (docs v)" "doc_id d = i" "get_doc v i = Some d"
    using assms(1) unfolding cutover_def by (rule with_docE)
  have org: "\<not> (case actor of None \<Rightarrow> False | Some a \<Rightarrow> doc_org d \<noteq> user_org a)"
    using assms(1) d by (auto simp: cutover_def with_doc_def)
  obtain t where t: "apply_transition (doc_current d) Release = Inr t"
    using assms(1) d org by (auto simp: cutover_def with_doc_def)
  obtain target where tg: "cutover_target v i vid = Inr target"
    using assms(1) d org t by (cases "cutover_target v i vid") (auto simp: cutover_def with_doc_def lift_fsm_def)
  obtain r where r: "target = Some r"
    using assms(1) d org t tg by (cases target) (auto simp: cutover_def with_doc_def lift_fsm_def)
  have tt: "doc_current d = D_Approved" "from_version_state t = Some V_Approved" "to_doc_state t = D_Effective"
    using t by (auto simp: apply_transition_cases tr_def)
  have st: "ver_state r = V_Approved"
    using assms(1) d org t tg r tt by (auto simp: cutover_def with_doc_def lift_fsm_def split: if_splits)
  have au: "assert_release_authorized E v d r = Inr ()"
    using assms(1) d org t tg r tt st
    by (cases "assert_release_authorized E v d r") (auto simp: cutover_def with_doc_def lift_fsm_def split: if_splits)
  define eff where "eff = (case ver_effective_from r of None \<Rightarrow> now | Some e \<Rightarrow> e)"
  have body: "\<not> eff > now" "(case effective_versions v i of [] \<Rightarrow> promote E actor d r t None eff now v
      | [p] \<Rightarrow> promote E actor d r t (Some p) eff now v | _ \<Rightarrow> Inl MultipleRows) = Inr w"
    using assms(1) d(3) org t tg r tt st au unfolding eff_def
    by (simp_all add: cutover_def with_doc_def lift_fsm_def Let_def split: if_splits)
  have rx: "r \<in> set (doc_versions v i)" using cutover_target_Some tg r assms(2) by blast
  note last = approved_is_last [OF vault_invD(5) [OF assms(2) d(1), unfolded d(2)] rx st]
  consider (none) "effective_versions v i = []" "promote E actor d r t None eff now v = Inr w"
    | (one) p where "effective_versions v i = [p]" "promote E actor d r t (Some p) eff now v = Inr w"
    using body(2) by (auto split: list.splits)
  then show thesis
  proof cases
    case none
    from promote_Inr [OF none(2)] obtain due who where w: "docs w = docs (put_doc (d\<lparr>doc_effective := Some (ver_id r),
        doc_current := to_doc_state t, doc_next_review := due, doc_updated_by := who\<rparr>) v)"
      "versions w = versions (put_version (r\<lparr>ver_state := V_Effective, ver_effective_from := Some eff\<rparr>)
         (if (case (None :: version option) of None \<Rightarrow> False | Some p \<Rightarrow> ver_id p \<noteq> ver_id r)
          then put_version (demote (the None) (ver_id r) now) v else v))"
      "one_effective_index w" "singleton_index w" "release_logged actor r v w"
      by blast
    have w2: "versions w = versions (put_version (r\<lparr>ver_state := V_Effective, ver_effective_from := Some eff\<rparr>) v)"
      using w(2) by (simp only: option.case if_False)
    show ?thesis
    proof (rule that [OF d(1,2) tt(1) last(1,2) st _ eff_def au w(3-5) w(1) [unfolded tt(3)]])
      show "eff \<le> now" using body(1) by (simp only: not_less)
    qed (intro disjI1 conjI none(1) w2)
  next
    case one
    have "p \<in> set (effective_versions v i)" using one(1) by simp
    then have "p \<in> set (doc_versions v i)" "ver_state p = V_Effective" by (auto simp: effective_versions_def)
    then have pv: "p \<in> set (versions v)" "p \<noteq> r" using st by (auto simp: in_doc_versions)
    have "r \<in> set (versions v)" using rx by (simp add: in_doc_versions)
    then have pr: "ver_id p \<noteq> ver_id r" using pv same_version [OF assms(2)] by blast
    from promote_Inr [OF one(2)] obtain due who where w: "docs w = docs (put_doc (d\<lparr>doc_effective := Some (ver_id r),
        doc_current := to_doc_state t, doc_next_review := due, doc_updated_by := who\<rparr>) v)"
      "versions w = versions (put_version (r\<lparr>ver_state := V_Effective, ver_effective_from := Some eff\<rparr>)
         (if (case Some p of None \<Rightarrow> False | Some p \<Rightarrow> ver_id p \<noteq> ver_id r)
          then put_version (demote (the (Some p)) (ver_id r) now) v else v))"
      "one_effective_index w" "singleton_index w" "release_logged actor r v w"
      by blast
    have w2: "versions w = versions (put_version (r\<lparr>ver_state := V_Effective, ver_effective_from := Some eff\<rparr>)
        (put_version (demote p (ver_id r) now) v))"
      using w(2) pr by (simp only: option.case if_True option.sel simp_thms)
    show ?thesis
    proof (rule that [OF d(1,2) tt(1) last(1,2) st _ eff_def au w(3-5) w(1) [unfolded tt(3)]])
      show "eff \<le> now" using body(1) by (simp only: not_less)
    qed (intro disjI2 exI [of _ p] conjI one(1) pr w2)
  qed
qed

lemma doc_ok_released:
  assumes "doc_ok d xs" "xs \<noteq> []" "ver_state (last xs) = V_Approved"
    and "effective_ids ys = []" "\<forall>y \<in> set ys. ver_state y \<notin> {V_InReview, V_Approved}" "ver_state r' = V_Effective"
    and "doc_effective d' = Some (ver_id r')" "doc_current d' = D_Effective"
  shows "doc_ok d' (ys @ [r'])"
  using assms by (simp add: doc_ok_def last_state_def effective_ids_def)

lemma no_effective_ids: "effective_versions v i = [] \<Longrightarrow> xs = doc_versions v i \<Longrightarrow> effective_ids (butlast xs) = []"
  by (auto simp: effective_versions_def effective_ids_def filter_empty_conv dest: in_set_butlastD)

lemma cutover_inv:
  assumes "cutover E i vid actor now v = Inr w" "vault_inv v"
  shows "vault_inv w"
  using assms
proof (rule cutover_Inr)
  fix d :: document and r :: version and eff due who
  let ?xs = "doc_versions v i" and ?r = "r\<lparr>ver_state := V_Effective, ver_effective_from := Some eff\<rparr>"
  let ?d = "d\<lparr>doc_effective := Some (ver_id r), doc_current := D_Effective, doc_next_review := due, doc_updated_by := who\<rparr>"
  assume d: "d \<in> set (docs v)" "doc_id d = i" and xs: "?xs \<noteq> []" "r = last ?xs" "ver_state r = V_Approved"
    and docs: "docs w = docs (put_doc ?d v)"
    and vs: "(effective_versions v i = [] \<and> versions w = versions (put_version ?r v))
     \<or> (\<exists>p. effective_versions v i = [p] \<and> ver_id p \<noteq> ver_id r
           \<and> versions w = versions (put_version ?r (put_version (demote p (ver_id r) now) v)))"
  note ok = vault_invD(5) [OF assms(2) d(1), unfolded d(2)] and D = vault_invD(2) [OF assms(2)]
  note rv = last_version [OF assms(2) xs(1,2)]
  from vs show ?thesis
  proof (elim disjE conjE exE)
    assume none: "effective_versions v i = []" and w: "versions w = versions (put_version ?r v)"
    have eff: "effective_ids (butlast ?xs) = []" using none by (rule no_effective_ids) simp
    have "doc_ok ?d (butlast ?xs @ [?r])"
      using ok xs eff by (intro doc_ok_released [OF ok]) (simp_all add: doc_ok_def)
    then have "vault_inv (put_doc ?d (put_version ?r v))"
      using xs d(2) by (intro inv_replace_last [OF assms(2) d(1)]) simp_all
    then show ?thesis using docs w by (subst vault_inv_cong [of _ "put_doc ?d (put_version ?r v)"]) simp_all
  next
    fix p
    assume one: "effective_versions v i = [p]" and pr: "ver_id p \<noteq> ver_id r"
      and w: "versions w = versions (put_version ?r (put_version (demote p (ver_id r) now) v))"
    let ?p = "demote p (ver_id r) now" and ?v1 = "put_version (demote p (ver_id r) now) v"
    let ?f = "\<lambda>y. if ver_id y = ver_id p then ?p else y"
    have "p \<in> set (effective_versions v i)" using one by simp
    then have p: "p \<in> set (versions v)" "ver_doc p = i" by (auto simp: effective_versions_def in_doc_versions)
    have pd: "ver_id ?p = ver_id p" "ver_doc ?p = ver_doc p" "ver_seq ?p = ver_seq p" "ver_state ?p = V_Superseded"
      by (simp_all add: demote_def)
    have dv1: "doc_versions ?v1 j = (if j = i then map ?f (doc_versions v j) else doc_versions v j)" for j
      using doc_versions_put [OF D p(1) pd(1,2)] p(2) by simp
    have f_last: "last (map ?f ?xs) = r" using xs(1,2) pr by (simp add: last_map)
    have rv1: "r \<in> set (versions ?v1)" "ver_doc r = i"
      using rv pr by (auto simp: put_version_def demote_def image_iff intro: bexI [of _ r])
    have D1: "distinct (map ver_id (versions ?v1))" using D by simp
    have dv: "doc_versions (put_version ?r ?v1) j = (if j = i then butlast (map ?f ?xs) @ [?r] else doc_versions v j)" for j
    proof (cases "j = i")
      case True
      have "map (\<lambda>y. if ver_id y = ver_id (last (map ?f ?xs)) then ?r else y) (map ?f ?xs) = butlast (map ?f ?xs) @ [?r]"
        using distinct_doc_versions [OF D1, of i] dv1 [of i] xs(1) by (intro map_replace_last) simp_all
      then show ?thesis
        using doc_versions_put [OF D1 rv1(1), of ?r j] dv1 [of i] True rv1(2) f_last by simp
    next
      case False
      then show ?thesis using doc_versions_put [OF D1 rv1(1), of ?r j] dv1 [of j] rv1(2) by simp
    qed
    have "effective_ids (map ?f ?xs) = []"
      using one pd(4) by (intro effective_swap) (simp_all add: effective_versions_def)
    then have eff: "effective_ids (butlast (map ?f ?xs)) = []"
      by (auto simp: effective_ids_def filter_empty_conv dest: in_set_butlastD)
    have "\<forall>y \<in> set (butlast (map ?f ?xs)). ver_state y \<notin> {V_InReview, V_Approved}"
      using ok pd(4) by (auto simp: doc_ok_def map_butlast [symmetric])
    then have ok': "doc_ok ?d (butlast (map ?f ?xs) @ [?r])"
      using xs eff by (intro doc_ok_released [OF ok]) simp_all
    have seqs: "ver_seq (?f y) = ver_seq y" if "y \<in> set ?xs" for y
    proof (cases "ver_id y = ver_id p")
      case True
      have "y \<in> set (versions v)" using that by (simp add: in_doc_versions)
      then have "y = p" using p(1) True same_version [OF assms(2)] by blast
      then show ?thesis using pd(3) by simp
    qed simp
    show ?thesis
    proof (rule inv_one_doc [OF assms(2) d(1)])
      show "docs w = docs (put_doc ?d v)" by (rule docs)
      show "map ver_id (versions w) = map ver_id (versions v)" by (simp add: w)
      show "doc_versions w j = doc_versions v j" if "j \<noteq> doc_id d" for j
        using dv [of j] that d(2) by (simp add: doc_versions_def w)
      have ne: "map ?f ?xs \<noteq> []" using xs(1) by simp
      have last: "butlast (map ?f ?xs) @ [r] = map ?f ?xs"
        using append_butlast_last_id [OF ne] by (simp only: f_last)
      have "map ver_seq (butlast (map ?f ?xs) @ [?r]) = map ver_seq (butlast (map ?f ?xs) @ [r])" by simp
      also have "\<dots> = map ver_seq (map ?f ?xs)" by (simp only: last)
      also have "\<dots> = map ver_seq ?xs" using seqs by simp
      finally show "map ver_seq (doc_versions w (doc_id d)) = map ver_seq (doc_versions v (doc_id d))"
        using dv [of i] d(2) by (simp add: doc_versions_def w)
      show "doc_ok ?d (doc_versions w (doc_id d))" using dv [of i] ok' d(2) by (simp add: doc_versions_def w)
      show "\<forall>x \<in> set (versions w). ver_doc x \<in> ver_doc ` set (versions v)"
        using rv(1) p(1) pd(2) by (auto simp: w put_version_def)
    qed simp
  qed
qed

lemma release_inv: "release E actor i vid now v = Inr w \<Longrightarrow> vault_inv v \<Longrightarrow> vault_inv w"
  by (auto simp: release_def split: sum.splits vault_error.splits intro: cutover_inv)

lemma sweep_inv: "sweep E now rows v = (w, rs, ds, e) \<Longrightarrow> vault_inv v \<Longrightarrow> vault_inv w"
proof (induction E now rows v arbitrary: w rs ds e rule: sweep.induct)
  case (2 E now vid i rows v)
  then show ?case
    by (cases "cutover E i (Some vid) None now v") (auto split: prod.splits if_splits dest: cutover_inv)
qed simp

lemma fold_enqueue_inv [simp]: "vault_inv (fold (\<lambda>_. enqueue q a) ds v) \<longleftrightarrow> vault_inv v"
  by (induction ds arbitrary: v) auto

lemma release_due_inv: "release_due E now v = (w, r) \<Longrightarrow> vault_inv v \<Longrightarrow> vault_inv w"
  by (auto simp: release_due_def split: prod.splits option.splits if_splits dest: sweep_inv)

lemma link_frames [simp]:
  "docs (link_process u i ident p v) = docs v" "versions (link_process u i ident p v) = versions v"
  "signatures (link_process u i ident p v) = signatures v"
  "audits (link_process u i ident p v) = audits v @ [\<lparr>va_event = ''PROCESS_LINKED'', va_actor = Some (user_id u),
     va_object_type = ''document'', va_object = i, va_identifier = Some ident, va_reason = None\<rparr>]"
  by (simp_all add: link_process_def emit_def)

lemma fold_link_frames [simp]:
  "docs (fold (link_process u i ident) ps v) = docs v" "versions (fold (link_process u i ident) ps v) = versions v"
  "signatures (fold (link_process u i ident) ps v) = signatures v"
  by (induction ps arbitrary: v) simp_all

lemma fold_link_audits: "\<exists>new. audits (fold (link_process u i ident) ps v) = audits v @ new"
proof (induction ps arbitrary: v)
  case (Cons p ps)
  from Cons [of "link_process u i ident p v"] show ?case by auto
qed simp

lemma create_Inr:
  assumes "create_document E actor new_id title dtype area folder klass ps v = Inr w"
  shows "\<exists>d ident cs. doc_id d = new_id \<and> doc_current d = D_Draft \<and> doc_effective d = None
      \<and> get_doc v new_id = None
      \<and> w = fold (link_process actor new_id ident) ps
          (emit ''DOCUMENT_CREATED'' (Some (user_id actor)) ''document'' new_id (Some ident) None
            (v\<lparr>counters := cs, docs := docs v @ [d]\<rparr>))"
proof -
  obtain dt where dt: "doc_types E dtype = Some dt"
    using assms by (cases "doc_types E dtype") (simp_all add: create_document_def)
  obtain fw where fw: "framework_of E (user_org actor) = Some fw"
    using assms dt by (cases "framework_of E (user_org actor)") (simp_all add: create_document_def split: if_splits)
  let ?a = "if some_text area then the area else ''GEN''"
  let ?n = "case counters v (user_org actor, dt_code dt, ?a) of None \<Rightarrow> 1 | Some k \<Rightarrow> k + 1"
  let ?ident = "format_identifier (dt_code dt) (nat ?n) (Some ?a) 3"
  let ?d = "\<lparr>doc_id = new_id, doc_org = user_org actor, doc_framework = fw, doc_identifier = ?ident,
    doc_title = title, doc_area = Some ?a, doc_owner = user_id actor, doc_folder = folder,
    doc_classification = klass, doc_type = Some dtype, doc_singleton = dt_singleton dt,
    doc_current = D_Draft, doc_effective = None, doc_review_months = Some 24,
    doc_last_reviewed = None, doc_next_review = None, doc_ack = False, doc_updated_by = None\<rparr>"
  let ?cs = "(counters v)((user_org actor, dt_code dt, ?a) \<mapsto> ?n)"
  show ?thesis
  proof (intro exI conjI)
    show "doc_id ?d = new_id" "doc_current ?d = D_Draft" "doc_effective ?d = None" by simp_all
    show "get_doc v new_id = None"
      using assms dt fw by (auto simp: create_document_def Let_def allocate_seq_def split: if_splits)
    show "w = fold (link_process actor new_id ?ident) ps
        (emit ''DOCUMENT_CREATED'' (Some (user_id actor)) ''document'' new_id (Some ?ident) None
          (v\<lparr>counters := ?cs, docs := docs v @ [?d]\<rparr>))"
      using assms dt fw
      by (simp only: create_document_def allocate_seq_def Let_def option.case prod.case sum.inject split: if_splits) simp_all
  qed
qed

lemma create_inv:
  assumes "create_document E actor new_id title dtype area folder klass ps v = Inr w" "vault_inv v"
  shows "vault_inv w"
proof -
  from create_Inr [OF assms(1)] obtain d ident cs
    where d: "doc_id d = new_id" "doc_current d = D_Draft" "doc_effective d = None" and new: "get_doc v new_id = None"
      and w: "w = fold (link_process actor new_id ident) ps
          (emit ''DOCUMENT_CREATED'' (Some (user_id actor)) ''document'' new_id (Some ident) None
            (v\<lparr>counters := cs, docs := docs v @ [d]\<rparr>))" by blast
  let ?v = "v\<lparr>counters := cs, docs := docs v @ [d]\<rparr>"
  have fresh: "new_id \<notin> doc_id ` set (docs v)" using new by (auto simp: get_doc_def find_None_iff)
  then have "doc_versions v new_id = []"
    using vault_invD(3) [OF assms(2)] by (auto simp: doc_versions_def filter_empty_conv)
  moreover have dv: "doc_versions ?v j = doc_versions v j" for j by (simp add: doc_versions_def)
  ultimately have "doc_ok d (doc_versions ?v (doc_id d))"
    using d by (simp add: doc_ok_def last_state_def effective_ids_def)
  then have "vault_inv ?v"
    using assms(2) fresh d(1) dv by (auto simp: vault_inv_def)
  then have "vault_inv (emit ''DOCUMENT_CREATED'' (Some (user_id actor)) ''document'' new_id (Some ident) None ?v)" by simp
  then show ?thesis unfolding w
    by (rule iffD1 [OF vault_inv_cong, rotated 2]) simp_all
qed

subsection \<open>Frozen content\<close>

lemma freeze_Inr:
  assumes "freeze E actor d new_id key content why sg v = Inr (w, r)"
  shows "\<exists>sha. r = frozen_version E actor d new_id key content sha why sg v \<and> get_version v new_id = None
    \<and> w = emit ''CHECKIN'' (Some (user_id actor)) ''document_version'' new_id (Some (doc_identifier d)) (Some (strip why))
        (v\<lparr>versions := versions v @ [r]\<rparr>)"
proof -
  have g: "strip why \<noteq> []" "sg \<in> {''MAJOR'', ''MINOR''}"
    using assms by (auto simp: freeze_def split: if_splits)
  obtain sha where sha: "content_digest E content = Inr sha"
    using assms g by (cases "content_digest E content") (auto simp add: freeze_def lift_py_def)
  have "ensure_generated_documents_blob E sha = Inr ()" "get_version v new_id = None"
    using assms g sha by (auto simp add: freeze_def lift_py_def Let_def split: if_splits)
  with assms g sha show ?thesis
    by (intro exI [of _ sha]) (auto simp add: freeze_def lift_py_def Let_def)
qed

lemma freeze_inv:
  assumes "freeze E actor d new_id key content why sg v = Inr (w, r)" "vault_inv v" "d \<in> set (docs v)"
    and "doc_current d \<in> {D_Draft, D_UnderRevision}"
  shows "vault_inv w"
proof -
  from freeze_Inr [OF assms(1)] obtain sha where f: "r = frozen_version E actor d new_id key content sha why sg v"
    "get_version v new_id = None"
    "w = emit ''CHECKIN'' (Some (user_id actor)) ''document_version'' new_id (Some (doc_identifier d)) (Some (strip why))
        (v\<lparr>versions := versions v @ [r]\<rparr>)" by blast
  have "vault_inv (v\<lparr>versions := versions v @ [r]\<rparr>)"
    by (rule append_version_inv [OF assms(2,3,4)])
      (use find_None_ids [OF f(2)] in \<open>simp_all add: f(1) frozen_version_def Let_def\<close>)
  then show ?thesis by (simp add: f(3))
qed

lemma set_schema_inv: "set_working_schema E actor i s v = Inr w \<Longrightarrow> vault_inv v \<Longrightarrow> vault_inv w"
  unfolding set_working_schema_def
  by (erule with_docE) (auto intro: iffD1 [OF vault_inv_cong, rotated 2])

lemma form_checkin_Inr:
  assumes "checkin_form_schema E actor i new_id why sg v = Inr (w, r)"
  shows "\<exists>d schema. d \<in> set (docs v) \<and> doc_id d = i \<and> doc_current d \<in> {D_Draft, D_UnderRevision}
    \<and> templates v i = Some schema \<and> validate_schema schema = Inr []
    \<and> freeze E actor d new_id ''field_schema'' schema why sg v = Inr (w, r)"
  using assms unfolding checkin_form_schema_def
proof (rule with_docE)
  fix d assume d: "d \<in> set (docs v)" "doc_id d = i"
    and f: "bind_res (require_form_template_doc E d True) (\<lambda>_. case templates v i of
       None \<Rightarrow> Inl (Problem 422 ''validation_error'')
     | Some schema \<Rightarrow> bind_res (checked_schema schema) (\<lambda>_. freeze E actor d new_id ''field_schema'' schema why sg v))
     = Inr (w, r)"
  obtain schema where s: "templates v i = Some schema" using f by (cases "templates v i") auto
  with f d show ?thesis
    by (intro exI [of _ d] exI [of _ schema]) (auto simp: require_form_template_doc_def checked_schema_def split: if_splits)
qed

lemma form_checkin_inv: "checkin_form_schema E actor i new_id why sg v = Inr (w, r) \<Longrightarrow> vault_inv v \<Longrightarrow> vault_inv w"
  using form_checkin_Inr freeze_inv by blast

subsection \<open>Runs of the vault\<close>

inductive vault_step :: "vault_env \<Rightarrow> vault \<Rightarrow> vault \<Rightarrow> bool" for E where
  step_create: "create_document E actor new_id title dtype area folder klass ps v = Inr w \<Longrightarrow> vault_step E v w"
| step_checkout: "checkout E actor i now token v = Inr w \<Longrightarrow> vault_step E v w"
| step_checkin: "checkin E actor i now new_id sha why sig v = Inr (w, b) \<Longrightarrow> vault_step E v w"
| step_break: "break_lock actor i v = Inr w \<Longrightarrow> vault_step E v w"
| step_heartbeat: "doc_heartbeat actor i now v = Inr (w, n) \<Longrightarrow> vault_step E v w"
| step_submit: "submit_review E actor i v = Inr (w, t) \<Longrightarrow> vault_step E v (audit_transition t actor w)"
| step_approve: "approve actor i eff v = Inr (w, t) \<Longrightarrow> vault_step E v (audit_transition t actor w)"
| step_changes: "request_changes actor i comment v = Inr (w, t) \<Longrightarrow> vault_step E v (audit_transition t actor w)"
| step_revise: "start_revision actor i now token v = Inr w \<Longrightarrow> vault_step E v w"
| step_obsolete: "obsolete E actor i reason vid force j v = Inr w \<Longrightarrow> vault_step E v w"
| step_release: "release E actor i vid now v = Inr w \<Longrightarrow> vault_step E v w"
| step_sweep: "release_due E now v = (w, r) \<Longrightarrow> vault_step E v w"
| step_set_schema: "set_working_schema E actor i s v = Inr w \<Longrightarrow> vault_step E v w"
| step_form: "checkin_form_schema E actor i new_id why sg v = Inr (w, r) \<Longrightarrow> vault_step E v w"
| step_verify: "vault_step E v (emit_signature r ''verify'' (Some who) intent v)"

inductive_cases vault_stepE [step_elims]: "vault_step E v w"

abbreviation vault_reachable :: "vault_env \<Rightarrow> vault \<Rightarrow> bool" where
  "vault_reachable E v \<equiv> (vault_step E)\<^sup>*\<^sup>* empty_vault v"

lemmas op_invs = create_inv checkout_inv checkin_inv break_lock_inv heartbeat_inv submit_inv approve_inv
  request_changes_inv start_revision_inv obsolete_inv release_inv release_due_inv
  set_schema_inv form_checkin_inv

lemma vault_step_inv: "vault_step E v w \<Longrightarrow> vault_inv v \<Longrightarrow> vault_inv w"
  by (induction rule: vault_step.induct) (simp_all, (erule (1) op_invs)+)

lemma vault_reachable_inv: "vault_reachable E v \<Longrightarrow> vault_inv v"
proof (induction rule: rtranclp_induct)
  case base
  then show ?case by (simp add: vault_inv_def empty_vault_def doc_versions_def)
qed (rule vault_step_inv)

end
