(* ===== verification/VaultProps.thy ===== *)
theory VaultProps
  imports VaultInv
begin

text \<open>
  What the vault promises over its runs: the single governing version, the append-only content and
  logs, the abstract lifecycle every version follows, the release signature, the cutover, and two gaps
  (the singleton index and the broken lock).
\<close>

subsection \<open>The abstract lifecycle of a version\<close>

text \<open>The specification the operations refine: the moves a version may make.\<close>

fun version_move :: "version_state \<Rightarrow> version_state \<Rightarrow> bool" where
  "version_move V_Draft s = (s = V_InReview)"
| "version_move V_InReview s = (s = V_Draft \<or> s = V_Approved)"
| "version_move V_Approved s = (s = V_Effective)"
| "version_move V_Effective s = (s = V_Superseded \<or> s = V_Obsolete)"
| "version_move V_Superseded s = (s = V_Obsolete)"
| "version_move V_Obsolete s = False"

definition version_content :: "version \<Rightarrow> uuid \<times> uuid \<times> int \<times> string \<times> string \<times> string \<times> string \<times> dict
    \<times> uuid option" where
  "version_content x = (ver_id x, ver_doc x, ver_seq x, ver_label x, ver_significance x, ver_reason x, ver_sha x,
     ver_snapshot x, ver_author x)"

definition was_released :: "version_state \<Rightarrow> bool" where
  "was_released s \<longleftrightarrow> (s = V_Effective \<or> s = V_Superseded \<or> s = V_Obsolete)"

definition release_signed :: "vault \<Rightarrow> version \<Rightarrow> bool" where
  "release_signed v x \<longleftrightarrow>
     (\<exists>s \<in> set (signatures v). sg_version s = ver_id x \<and> sg_meaning s = ''release'' \<and> sg_digest s = ver_sha x)"

text \<open>\<open>row_follows v w x y\<close>: the row \<open>x\<close> of \<open>v\<close> has become \<open>y\<close> in \<open>w\<close>.\<close>

definition row_follows :: "vault \<Rightarrow> version \<Rightarrow> version \<Rightarrow> bool" where
  "row_follows w x y \<longleftrightarrow> version_content y = version_content x \<and> version_move\<^sup>*\<^sup>* (ver_state x) (ver_state y)
     \<and> (was_released (ver_state y) \<longrightarrow> was_released (ver_state x) \<or> release_signed w y)"

definition evolves :: "vault \<Rightarrow> vault \<Rightarrow> bool" where
  "evolves v w \<longleftrightarrow> (\<exists>old new. versions w = old @ new \<and> list_all2 (row_follows w) (versions v) old
       \<and> (\<forall>x \<in> set new. version_move\<^sup>*\<^sup>* V_Draft (ver_state x) \<and> (was_released (ver_state x) \<longrightarrow> release_signed w x)))
     \<and> prefix (audits v) (audits w) \<and> prefix (signatures v) (signatures w)"

lemma release_signed_mono:
  assumes "release_signed v x" "prefix (signatures v) (signatures w)" "version_content y = version_content x"
  shows "release_signed w y"
proof -
  obtain s where s: "s \<in> set (signatures v)" "sg_version s = ver_id x" "sg_meaning s = ''release''" "sg_digest s = ver_sha x"
    using assms(1) by (auto simp: release_signed_def)
  have "s \<in> set (signatures w)" using set_mono_prefix [OF assms(2)] s(1) by blast
  moreover have "ver_id y = ver_id x" "ver_sha y = ver_sha x" using assms(3) by (simp_all add: version_content_def)
  ultimately show ?thesis using s(2-4) unfolding release_signed_def by (intro bexI [of _ s]) simp_all
qed

lemma row_follows_refl [simp]: "row_follows w x x"
  by (simp add: row_follows_def)

lemma row_follows_trans:
  assumes "row_follows u x y" "row_follows w y z" "prefix (signatures u) (signatures w)"
  shows "row_follows w x z"
proof -
  have "version_content z = version_content x" using assms(1,2) by (simp add: row_follows_def)
  moreover have "version_move\<^sup>*\<^sup>* (ver_state x) (ver_state z)"
    using assms(1,2) unfolding row_follows_def by (blast intro: rtranclp_trans)
  moreover have "was_released (ver_state x) \<or> release_signed w z" if z: "was_released (ver_state z)"
  proof (cases "release_signed w z")
    case False
    then have "was_released (ver_state y)" using assms(2) z by (simp add: row_follows_def)
    then have "was_released (ver_state x) \<or> release_signed u y" using assms(1) by (simp add: row_follows_def)
    moreover have "\<not> release_signed u y"
      using False release_signed_mono [OF _ assms(3)] assms(2) by (auto simp: row_follows_def)
    ultimately show ?thesis by blast
  qed simp
  ultimately show ?thesis unfolding row_follows_def by blast
qed

lemma list_all2_in_set: "list_all2 P xs ys \<Longrightarrow> x \<in> set xs \<Longrightarrow> \<exists>y \<in> set ys. P x y"
  by (induction rule: list_all2_induct) auto

lemma evolves_refl [simp]: "evolves v v"
  unfolding evolves_def
  by (intro conjI exI [of _ "versions v"] exI [of _ "[]"]) (auto simp: list_all2_same)

lemma new_row_follows:
  assumes "version_move\<^sup>*\<^sup>* V_Draft (ver_state x) \<and> (was_released (ver_state x) \<longrightarrow> release_signed u x)"
    and "row_follows w x y" "prefix (signatures u) (signatures w)"
  shows "version_move\<^sup>*\<^sup>* V_Draft (ver_state y) \<and> (was_released (ver_state y) \<longrightarrow> release_signed w y)"
proof
  show "version_move\<^sup>*\<^sup>* V_Draft (ver_state y)"
    using assms(1,2) unfolding row_follows_def by (blast intro: rtranclp_trans)
  show "was_released (ver_state y) \<longrightarrow> release_signed w y"
    using assms release_signed_mono unfolding row_follows_def by blast
qed

lemma evolves_trans:
  assumes "evolves v u" "evolves u w"
  shows "evolves v w"
proof -
  obtain o1 n1 where u: "versions u = o1 @ n1" "list_all2 (row_follows u) (versions v) o1"
      "\<forall>x \<in> set n1. version_move\<^sup>*\<^sup>* V_Draft (ver_state x) \<and> (was_released (ver_state x) \<longrightarrow> release_signed u x)"
    and pu: "prefix (audits v) (audits u)" "prefix (signatures v) (signatures u)"
    using assms(1) unfolding evolves_def by blast
  obtain o2 n2 where w: "versions w = o2 @ n2" "list_all2 (row_follows w) (versions u) o2"
      "\<forall>x \<in> set n2. version_move\<^sup>*\<^sup>* V_Draft (ver_state x) \<and> (was_released (ver_state x) \<longrightarrow> release_signed w x)"
    and pw: "prefix (audits u) (audits w)" "prefix (signatures u) (signatures w)"
    using assms(2) unfolding evolves_def by blast
  obtain p q where o2: "o2 = p @ q" "list_all2 (row_follows w) o1 p" "list_all2 (row_follows w) n1 q"
    using w(2) unfolding u(1) list_all2_append1 by blast
  have "list_all2 (row_follows w) (versions v) p"
    using u(2) o2(2) by (rule list_all2_trans [rotated]) (rule row_follows_trans [OF _ _ pw(2)])
  moreover have "\<forall>y \<in> set q. version_move\<^sup>*\<^sup>* V_Draft (ver_state y) \<and> (was_released (ver_state y) \<longrightarrow> release_signed w y)"
  proof
    fix y assume "y \<in> set q"
    then obtain k where k: "k < length q" "y = q ! k" by (auto simp: in_set_conv_nth)
    with o2(3) have "k < length n1" "row_follows w (n1 ! k) y" by (auto simp: list_all2_conv_all_nth)
    then show "version_move\<^sup>*\<^sup>* V_Draft (ver_state y) \<and> (was_released (ver_state y) \<longrightarrow> release_signed w y)"
      using u(3) new_row_follows [OF _ _ pw(2)] by (meson nth_mem)
  qed
  ultimately have "\<exists>old new. versions w = old @ new \<and> list_all2 (row_follows w) (versions v) old \<and> (\<forall>x \<in> set new.
      version_move\<^sup>*\<^sup>* V_Draft (ver_state x) \<and> (was_released (ver_state x) \<longrightarrow> release_signed w x))"
    using w(1,3) by (intro exI [of _ p] exI [of _ "q @ n2"]) (auto simp: o2(1))
  moreover have "prefix (audits v) (audits w)" "prefix (signatures v) (signatures w)"
    using pu pw by (blast intro: prefix_order.trans)+
  ultimately show ?thesis unfolding evolves_def by blast
qed

lemma evolves_map:
  assumes "versions w = map f (versions v)" "\<And>x. x \<in> set (versions v) \<Longrightarrow> row_follows w x (f x)"
    and "prefix (audits v) (audits w)" "prefix (signatures v) (signatures w)"
  shows "evolves v w"
  unfolding evolves_def using assms
  by (intro conjI exI [of _ "versions w"] exI [of _ "[]"]) (auto simp: list_all2_map2 list_all2_same)

lemma evolves_frame:
  "versions w = versions v \<Longrightarrow> prefix (audits v) (audits w) \<Longrightarrow> prefix (signatures v) (signatures w) \<Longrightarrow> evolves v w"
  by (rule evolves_map [where f = id]) simp_all

lemma evolves_put:
  assumes "distinct (map ver_id (versions v))" "r \<in> set (versions v)" "version_content r' = version_content r"
    and "version_move\<^sup>*\<^sup>* (ver_state r) (ver_state r')"
    and "was_released (ver_state r') \<longrightarrow> was_released (ver_state r) \<or> release_signed w r'"
    and w: "versions w = versions (put_version r' v)" "prefix (audits v) (audits w)" "prefix (signatures v) (signatures w)"
  shows "evolves v w"
proof (rule evolves_map [OF _ _ w(2,3)])
  show "versions w = map (\<lambda>x. if ver_id x = ver_id r' then r' else x) (versions v)"
    by (simp add: w(1) put_version_def)
  fix x assume "x \<in> set (versions v)"
  moreover have "ver_id r' = ver_id r" using assms(3) by (simp add: version_content_def)
  ultimately have "x = r" if "ver_id x = ver_id r'"
    using assms(1,2) that by (auto simp: distinct_map dest: inj_onD)
  then show "row_follows w x (if ver_id x = ver_id r' then r' else x)"
    using assms(3-5) unfolding row_follows_def by auto
qed

subsection \<open>Every operation evolves the tables, and every change is audited\<close>

definition accounted :: "vault \<Rightarrow> vault \<Rightarrow> bool" where
  "accounted v w \<longleftrightarrow> evolves v w
     \<and> (docs w \<noteq> docs v \<or> versions w \<noteq> versions v \<longrightarrow> length (audits v) < length (audits w))"

lemma accounted_logged: "evolves v w \<Longrightarrow> length (audits v) < length (audits w) \<Longrightarrow> accounted v w"
  by (simp add: accounted_def)

lemma accounted_refl [simp]: "accounted v v"
  by (simp add: accounted_def)

lemma accounted_trans:
  assumes "accounted v u" "accounted u w"
  shows "accounted v w"
proof -
  have le: "length (audits v) \<le> length (audits u)" "length (audits u) \<le> length (audits w)"
    using assms by (auto simp: accounted_def evolves_def dest: prefix_length_le)
  have "evolves v w" using assms evolves_trans by (auto simp: accounted_def)
  moreover have "length (audits v) < length (audits w)" if "docs w \<noteq> docs v \<or> versions w \<noteq> versions v"
  proof -
    from that consider "docs u \<noteq> docs v \<or> versions u \<noteq> versions v" | "docs w \<noteq> docs u \<or> versions w \<noteq> versions u"
      by metis
    then show ?thesis using assms le by cases (auto simp: accounted_def)
  qed
  ultimately show ?thesis by (simp add: accounted_def)
qed

lemmas log_simps = log_frames take_draft_def release_after_commit_def audit_transition_def

lemma audits_release_after_commit [simp]:
  "audits (release_after_commit i now tok v) = audits v" "signatures (release_after_commit i now tok v) = signatures v"
  "versions (release_after_commit i now tok v) = versions v" "docs (release_after_commit i now tok v) = docs v"
  by (simp_all add: release_after_commit_def)

lemma evolves_append:
  assumes "versions w = versions v @ [r]" "ver_state r = V_Draft" "prefix (audits v) (audits w)" "signatures w = signatures v"
  shows "evolves v w"
  unfolding evolves_def using assms
  by (intro conjI exI [of _ "versions v"] exI [of _ "[r]"]) (auto simp: list_all2_same was_released_def)

lemma evolves_extend:
  "versions w = versions v \<or> (\<exists>r. versions w = versions v @ [r] \<and> ver_state r = V_Draft)
   \<Longrightarrow> prefix (audits v) (audits w) \<Longrightarrow> signatures w = signatures v \<Longrightarrow> evolves v w"
  by (elim disjE exE conjE) (auto intro: evolves_append evolves_frame)

lemma create_accounted:
  "create_document E actor new_id title dtype area folder klass ps v = Inr w \<Longrightarrow> accounted v w"
proof -
  assume "create_document E actor new_id title dtype area folder klass ps v = Inr w"
  from create_Inr [OF this] obtain d ident cs where
    w: "w = fold (link_process actor new_id ident) ps
      (emit ''DOCUMENT_CREATED'' (Some (user_id actor)) ''document'' new_id (Some ident) None
        (v\<lparr>counters := cs, docs := docs v @ [d]\<rparr>))" by blast
  from fold_link_audits obtain new where "audits w = audits
      (emit ''DOCUMENT_CREATED'' (Some (user_id actor)) ''document'' new_id (Some ident) None
        (v\<lparr>counters := cs, docs := docs v @ [d]\<rparr>)) @ new" unfolding w by blast
  then show ?thesis by (intro accounted_logged evolves_frame) (simp_all add: w log_simps)
qed

lemma checkout_accounted: "checkout E actor i now token v = Inr w \<Longrightarrow> accounted v w"
  unfolding checkout_def
  by (erule with_docE) (auto simp: log_simps intro!: accounted_logged evolves_frame split: option.splits prod.splits)

lemma break_accounted: "break_lock actor i v = Inr w \<Longrightarrow> accounted v w"
  unfolding break_lock_def by (erule with_docE) (auto simp: log_simps intro!: accounted_logged evolves_frame)

lemma heartbeat_accounted: "doc_heartbeat actor i now v = Inr (w, n) \<Longrightarrow> accounted v w"
  by (auto simp: doc_heartbeat_def accounted_def intro!: evolves_frame split: option.splits if_splits prod.splits bool.splits)

lemma checkin_accounted:
  assumes "checkin E actor i now new_id sha why sg v = Inr (w, b)"
  shows "accounted v w"
proof -
  obtain d where d: "get_doc v i = Some d" using assms by (auto simp: checkin_def with_doc_def split: option.splits)
  have g: "reject_objective_byte_path E d = Inr ()" "require_editable_state d = Inr ()"
    using assms d by (auto simp: checkin_def with_doc_def)
  obtain wd where wd: "drafts v i = Some wd"
    using assms d g by (cases "drafts v i") (simp_all add: checkin_def with_doc_def)
  show ?thesis
    using assms d g wd
    by (auto simp: checkin_def with_doc_def Let_def log_simps split: if_splits
        intro!: accounted_logged evolves_extend)
qed

lemma latest_in: "vault_inv v \<Longrightarrow> latest_version v i = Some r \<Longrightarrow> r \<in> set (versions v)"
  using last_version(1) by (auto simp: latest_version_last split: if_splits)

lemma content_state [simp]:
  "version_content (r\<lparr>ver_state := s\<rparr>) = version_content r"
  "version_content (r\<lparr>ver_state := s, ver_effective_from := e\<rparr>) = version_content r"
  "version_content (demote r i now) = version_content r" "ver_state (demote r i now) = V_Superseded"
  by (simp_all add: version_content_def demote_def)

lemma advance_accounted:
  assumes "advance_active_version actor d a ev why v = Inr (w, t)" "vault_inv v" "a \<in> {Submit_review, Request_changes}"
  shows "accounted v (audit_transition t u w)"
  using assms(1)
proof (rule advance_Inr)
  fix tt r s
  assume t: "apply_transition (doc_current d) a = Inr tt" "latest_version v (doc_id d) = Some r"
    "to_version_state tt = Some s" "Some (ver_state r) = from_version_state tt"
    and w: "w = put_doc (d\<lparr>doc_current := to_doc_state tt, doc_updated_by := Some (user_id actor)\<rparr>)
       (put_version (r\<lparr>ver_state := s\<rparr>) v)"
  have m: "version_move (ver_state r) s" "\<not> was_released s"
    using t(1,3,4) assms(3) by (auto simp: apply_transition_cases tr_def was_released_def)
  show ?thesis
    using m by (intro accounted_logged evolves_put [OF vault_invD(2) [OF assms(2)] latest_in [OF assms(2) t(2)],
        of "r\<lparr>ver_state := s\<rparr>"]) (auto simp: w log_simps)
qed

lemma submit_accounted: "submit_review E actor i v = Inr (w, t) \<Longrightarrow> vault_inv v \<Longrightarrow> accounted v (audit_transition t u w)"
  unfolding submit_review_def
  by (erule with_docE) (auto simp: Let_def split: if_splits intro: advance_accounted)

lemma request_changes_accounted:
  "request_changes actor i c v = Inr (w, t) \<Longrightarrow> vault_inv v \<Longrightarrow> accounted v (audit_transition t u w)"
  unfolding request_changes_def
  by (erule with_docE) (auto split: if_splits intro: advance_accounted)

lemma approve_accounted:
  assumes "approve actor i eff v = Inr (w, t)" "vault_inv v"
  shows "accounted v (audit_transition t u w)"
proof -
  obtain d where d: "get_doc v i = Some d" using assms(1) by (auto simp: approve_def with_doc_def split: option.splits)
  obtain r where r: "latest_version v i = Some r" "ver_state r = V_InReview"
    "w = put_doc (d\<lparr>doc_current := D_Approved, doc_updated_by := Some (user_id actor)\<rparr>)
       (put_version (r\<lparr>ver_state := V_Approved, ver_effective_from := eff\<rparr>) v)"
    using assms(1) d by (auto simp: approve_def with_doc_def apply_transition_cases tr_def Let_def split: option.splits if_splits)
  show ?thesis
    using r by (intro accounted_logged evolves_put [OF vault_invD(2) [OF assms(2)] latest_in [OF assms(2) r(1)],
        of "r\<lparr>ver_state := V_Approved, ver_effective_from := eff\<rparr>"]) (auto simp: log_simps was_released_def)
qed

lemma start_revision_accounted:
  assumes "start_revision actor i now token v = Inr w"
  shows "accounted v w"
proof -
  obtain d where d: "get_doc v i = Some d" using assms by (auto simp: start_revision_def with_doc_def split: option.splits)
  obtain t where t: "apply_transition (doc_current d) Start_revision = Inr t"
    using assms d by (auto simp: start_revision_def with_doc_def)
  obtain e where e: "doc_effective d = Some e"
    using assms d t by (cases "doc_effective d") (simp_all add: start_revision_def with_doc_def lift_fsm_def)
  show ?thesis
    using assms d t e
    by (auto simp: start_revision_def with_doc_def lift_fsm_def log_simps split: option.splits prod.splits
        intro!: accounted_logged evolves_frame)
qed

lemma archive_accounted:
  assumes "vault_inv v" "r \<in> set (versions v)" "ver_state r = V_Superseded"
  shows "accounted v (archive_superseded actor d r why v)"
  using assms(3)
  by (intro accounted_logged evolves_put [OF vault_invD(2) [OF assms(1)] assms(2), of "r\<lparr>ver_state := V_Obsolete\<rparr>"])
    (auto simp: archive_superseded_def log_simps was_released_def)

lemma retire_accounted:
  assumes "retire_document E actor d why fr j v = Inr w" "vault_inv v" "d \<in> set (docs v)"
  shows "accounted v w"
proof -
  obtain t where t: "apply_transition (doc_current d) Make_obsolete = Inr t"
    using assms(1) by (auto simp: retire_document_def)
  obtain e where e: "doc_effective d = Some e"
    using assms(1) t by (cases "doc_effective d") (simp_all add: retire_document_def lift_fsm_def)
  obtain r where r: "get_version v e = Some r"
    using assms(1) t e by (cases "get_version v e") (simp_all add: retire_document_def lift_fsm_def)
  have rv: "r \<in> set (versions v)" "ver_id r = e" using r by (simp_all add: get_version_Some [OF assms(2)])
  have "e \<in> set (effective_ids (doc_versions v (doc_id d)))"
    using vault_invD(5) [OF assms(2,3)] e by (simp add: doc_ok_def)
  then obtain x where x: "x \<in> set (versions v)" "ver_id x = e" "ver_state x = V_Effective"
    by (auto simp: effective_ids_def in_doc_versions)
  then have "x = r" using rv same_version [OF assms(2)] by simp
  then show ?thesis
    using assms(1) t e r x
    by (intro accounted_logged evolves_put [OF vault_invD(2) [OF assms(2)] rv(1), of "r\<lparr>ver_state := V_Obsolete\<rparr>"])
      (auto simp: retire_document_def lift_fsm_def Let_def log_simps was_released_def)
qed

lemma obsolete_accounted:
  assumes "obsolete E actor i reason vid fr j v = Inr w" "vault_inv v"
  shows "accounted v w"
proof -
  obtain d where d: "get_doc v i = Some d" using assms(1) by (auto simp: obsolete_def with_doc_def split: option.splits)
  then have dv: "d \<in> set (docs v)" using get_doc_Some by blast
  show ?thesis
    using assms(1) d retire_accounted [OF _ assms(2) dv] archive_accounted [OF assms(2)]
    by (auto simp: obsolete_def with_doc_def Let_def get_version_Some [OF assms(2)] split: if_splits option.splits)
qed

lemma eff_in: "effective_versions v i = [p] \<Longrightarrow> p \<in> set (versions v) \<and> ver_state p = V_Effective \<and> ver_doc p = i"
proof -
  assume "effective_versions v i = [p]"
  then have "p \<in> set (effective_versions v i)" by simp
  then show ?thesis by (simp add: effective_versions_def in_doc_versions)
qed

lemma cutover_accounted:
  assumes "cutover E i vid actor now v = Inr w" "vault_inv v"
  shows "accounted v w"
  using assms
proof (rule cutover_Inr)
  fix d :: document and r :: version and eff due who
  let ?r = "r\<lparr>ver_state := V_Effective, ver_effective_from := Some eff\<rparr>"
  assume xs: "doc_versions v i \<noteq> []" "r = last (doc_versions v i)" and st: "ver_state r = V_Approved"
    and log: "release_logged actor r v w"
    and vs: "(effective_versions v i = [] \<and> versions w = versions (put_version ?r v))
     \<or> (\<exists>p. effective_versions v i = [p] \<and> ver_id p \<noteq> ver_id r
          \<and> versions w = versions (put_version ?r (put_version (demote p (ver_id r) now) v)))"
  have rv: "r \<in> set (versions v)" by (rule last_version(1) [OF assms(2) xs])
  note dist = vault_invD(2) [OF assms(2)]
  have pre: "prefix (audits v) (audits w)" "prefix (signatures v) (signatures w)" "length (audits v) < length (audits w)"
    using log by (simp_all add: release_logged_def)
  have signed: "release_signed w ?r" using log by (simp add: release_logged_def release_signed_def)
  have move: "version_move\<^sup>*\<^sup>* V_Approved V_Effective" "version_move\<^sup>*\<^sup>* V_Effective V_Superseded" by auto
  have "evolves v w"
    using vs
  proof (elim disjE exE conjE)
    assume "versions w = versions (put_version ?r v)"
    then show ?thesis using st signed move by (intro evolves_put [OF dist rv, of ?r] pre) simp_all
  next
    fix p assume p: "effective_versions v i = [p]" "ver_id p \<noteq> ver_id r"
      and w: "versions w = versions (put_version ?r (put_version (demote p (ver_id r) now) v))"
    let ?u = "put_version (demote p (ver_id r) now) v"
    have pv: "p \<in> set (versions v)" "ver_state p = V_Effective"
      using eff_in [OF p(1)] by simp_all
    have "evolves v ?u"
      using pv(2) move by (intro evolves_put [OF dist pv(1), of "demote p (ver_id r) now"]) (simp_all add: log_simps was_released_def)
    moreover have "r \<in> set (versions ?u)"
      using rv p(2) by (force simp: put_version_def demote_def)
    then have "evolves ?u w"
      using dist st signed move pre w by (intro evolves_put [of ?u r ?r]) (simp_all add: log_simps)
    ultimately show ?thesis by (rule evolves_trans)
  qed
  then show ?thesis using pre(3) by (rule accounted_logged)
qed

lemma accounted_enqueue [simp]: "accounted v (enqueue q a w) \<longleftrightarrow> accounted v w"
proof -
  have "row_follows (enqueue q a w) = row_follows w"
    by (simp add: row_follows_def release_signed_def log_simps fun_eq_iff)
  then show ?thesis by (simp add: accounted_def evolves_def release_signed_def log_simps)
qed

lemma accounted_fold_enqueue [simp]: "accounted v (fold (\<lambda>_. enqueue q a) ds w) \<longleftrightarrow> accounted v w"
  by (induction ds arbitrary: w) auto

lemma release_accounted: "release E actor i vid now v = Inr w \<Longrightarrow> vault_inv v \<Longrightarrow> accounted v w"
  by (auto simp: release_def split: sum.splits vault_error.splits intro: cutover_accounted)

lemma sweep_accounted: "sweep E now rows v = (w, rs, ds, e) \<Longrightarrow> vault_inv v \<Longrightarrow> accounted v w"
proof (induction E now rows v arbitrary: w rs ds e rule: sweep.induct)
  case (2 E now vid i rows v)
  show ?case
  proof (cases "cutover E i (Some vid) None now v")
    case (Inl e')
    then show ?thesis using 2 by (auto split: if_splits)
  next
    case (Inr u)
    then obtain rs' ds' where "sweep E now rows u = (w, rs', ds', e)" using 2(3) by (auto split: prod.splits)
    then have "accounted u w" using 2(1,2) cutover_inv [OF Inr 2(4)] Inr by blast
    with cutover_accounted [OF Inr 2(4)] show ?thesis by (rule accounted_trans)
  qed
qed simp

lemma release_due_accounted: "release_due E now v = (w, r) \<Longrightarrow> vault_inv v \<Longrightarrow> accounted v w"
  by (auto simp: release_due_def split: prod.splits option.splits if_splits dest: sweep_accounted)

lemma set_schema_accounted: "set_working_schema E actor i s v = Inr w \<Longrightarrow> accounted v w"
  unfolding set_working_schema_def
  by (erule with_docE) (auto simp: log_simps intro!: accounted_logged evolves_frame)

lemma form_accounted:
  assumes "checkin_form_schema E actor i new_id why sg v = Inr (w, r)"
  shows "accounted v w"
proof -
  from form_checkin_Inr [OF assms] obtain d s where "freeze E actor d new_id ''field_schema'' s why sg v = Inr (w, r)" by blast
  from freeze_Inr [OF this] obtain sha where "r = frozen_version E actor d new_id ''field_schema'' s sha why sg v"
    "w = emit ''CHECKIN'' (Some (user_id actor)) ''document_version'' new_id (Some (doc_identifier d)) (Some (strip why))
        (v\<lparr>versions := versions v @ [r]\<rparr>)" by blast
  note w = this
  have "ver_state r = V_Draft" by (simp add: w(1) frozen_version_def Let_def)
  then show ?thesis
    by (intro accounted_logged evolves_append [where r = r]) (simp_all add: log_simps w(2))
qed

lemma verify_accounted: "accounted v (emit_signature r m who intent v)"
  by (auto simp: accounted_def log_simps intro!: evolves_frame)

lemmas op_accounted = create_accounted checkout_accounted checkin_accounted break_accounted heartbeat_accounted
  start_revision_accounted set_schema_accounted form_accounted

lemmas op_accounted_inv = submit_accounted approve_accounted request_changes_accounted obsolete_accounted
  release_accounted release_due_accounted

lemma vault_step_accounted: "vault_step E v w \<Longrightarrow> vault_inv v \<Longrightarrow> accounted v w"
  by (induction rule: vault_step.induct) (erule op_accounted | erule (1) op_accounted_inv | rule verify_accounted)+

lemma vault_run_accounted: "(vault_step E)\<^sup>*\<^sup>* v w \<Longrightarrow> vault_inv v \<Longrightarrow> accounted v w \<and> vault_inv w"
proof (induction rule: rtranclp_induct)
  case (step u w)
  then show ?case using accounted_trans vault_step_accounted vault_step_inv by blast
qed simp

subsection \<open>Scripted runs\<close>

datatype vault_op =
    Op_create app_user uuid uuid
  | Op_checkout app_user uuid instant string
  | Op_checkin app_user uuid instant uuid string
  | Op_break app_user uuid
  | Op_schema app_user uuid json
  | Op_form app_user uuid uuid
  | Op_submit app_user uuid
  | Op_approve app_user uuid
  | Op_release app_user uuid instant
  | Op_revise app_user uuid instant string
  | Op_obsolete app_user uuid

fun exec_op :: "vault_env \<Rightarrow> vault_op \<Rightarrow> vault \<Rightarrow> vault outcome" where
  "exec_op E (Op_create u i t) v = create_document E u i ''Title'' t None None ''Internal'' [] v"
| "exec_op E (Op_checkout u i now tok) v = checkout E u i now tok v"
| "exec_op E (Op_checkin u i now vid sha) v = map_sum id fst (checkin E u i now vid sha ''why'' ''MAJOR'' v)"
| "exec_op E (Op_break u i) v = break_lock u i v"
| "exec_op E (Op_schema u i s) v = set_working_schema E u i s v"
| "exec_op E (Op_form u i vid) v = map_sum id fst (checkin_form_schema E u i vid ''why'' ''MAJOR'' v)"
| "exec_op E (Op_submit u i) v = map_sum id (\<lambda>(w, t). audit_transition t u w) (submit_review E u i v)"
| "exec_op E (Op_approve u i) v = map_sum id (\<lambda>(w, t). audit_transition t u w) (approve u i None v)"
| "exec_op E (Op_release u i now) v = release E u i None now v"
| "exec_op E (Op_revise u i now tok) v = start_revision u i now tok v"
| "exec_op E (Op_obsolete u i) v = obsolete E u i ''why'' None False None v"

fun exec :: "vault_env \<Rightarrow> vault_op list \<Rightarrow> vault \<Rightarrow> vault outcome" where
  "exec E [] v = Inr v"
| "exec E (x # xs) v = bind_res (exec_op E x v) (exec E xs)"

lemma map_sum_Inr: "map_sum id f x = Inr y \<longleftrightarrow> (\<exists>z. x = Inr z \<and> y = f z)"
  by (cases x) auto

lemma exec_op_step: "exec_op E x v = Inr w \<Longrightarrow> vault_step E v w"
  by (cases x) (auto simp: map_sum_Inr intro: vault_step.intros)

lemma exec_run: "exec E xs v = Inr w \<Longrightarrow> (vault_step E)\<^sup>*\<^sup>* v w"
proof (induction xs arbitrary: v)
  case (Cons x xs)
  then show ?case
    by (cases "exec_op E x v") (auto intro: converse_rtranclp_into_rtranclp dest: exec_op_step)
qed simp

text \<open>A small site: types with code \<open>PRO\<close> (type 51 a singleton) and type 52, a form, two users, every blob stored.\<close>

definition site :: vault_env where
  "site = \<lparr>doc_types = (\<lambda>t. Some \<lparr>dt_org = 9, dt_code = (if t = 52 then ''FRM'' else ''PRO''), dt_singleton = (t = 51)\<rparr>),
     framework_of = (\<lambda>_. Some 7), distribution_of = (\<lambda>_. []), objective_row = (\<lambda>_. False), review_row = (\<lambda>_. False),
     clause_count = (\<lambda>_. 1), leadership_flag = (\<lambda>_. False), blob_known = (\<lambda>_. True), blob_refusal = (\<lambda>_. None),
     blob_worm = (\<lambda>_. True), content_digest = (\<lambda>_. Inr ''d''), governing = (\<lambda>_. []), referencing = (\<lambda>_. []), sole_star = (\<lambda>_. []),
     org_date = (\<lambda>_ _. Date 2024 1 31)\<rparr>"

definition ann :: app_user where "ann = \<lparr>user_id = 1, user_org = 9\<rparr>"
definition bob :: app_user where "bob = \<lparr>user_id = 2, user_org = 9\<rparr>"

text \<open>A document written, approved and released, from creation on.\<close>

definition issue :: "uuid \<Rightarrow> uuid \<Rightarrow> string \<Rightarrow> vault_op list" where
  "issue i vid sha = [Op_checkout ann i 0 ''t'', Op_checkin ann i 5 vid sha, Op_submit ann i, Op_approve bob i,
     Op_release bob i 7]"

definition issue_one :: "vault_op list" where
  "issue_one = Op_create ann 1 50 # issue 1 11 ''a''"

definition reissue_one :: "vault_op list" where
  "reissue_one = [Op_revise ann 1 20 ''t'', Op_checkin ann 1 25 12 ''b'', Op_submit ann 1, Op_approve bob 1,
     Op_release bob 1 30]"

definition after_run :: "vault_op list \<Rightarrow> vault" where
  "after_run ops = (case exec site ops empty_vault of Inr w \<Rightarrow> w | Inl _ \<Rightarrow> empty_vault)"

text \<open>The snapshots play no part in the runs below and are left unevaluated there.\<close>

declare snapshot_def [code del] distribution_snapshot_def [code del]

lemma issued_run:
  "case exec site issue_one empty_vault of
     Inr w \<Rightarrow> map ver_state (versions w) = [V_Effective] \<and> map doc_effective (docs w) = [Some 11]
       \<and> map doc_current (docs w) = [D_Effective]
   | Inl _ \<Rightarrow> False"
  "case exec site (issue_one @ [Op_revise ann 1 20 ''t'', Op_checkin ann 1 25 12 ''b'', Op_submit ann 1,
       Op_approve bob 1]) empty_vault of
     Inr w \<Rightarrow> isl (cutover site 1 None (Some bob) 30 w) = False
   | Inl _ \<Rightarrow> False"
  "case exec site (issue_one @ reissue_one) empty_vault of
     Inr w \<Rightarrow> map ver_state (versions w) = [V_Superseded, V_Effective] \<and> map doc_effective (docs w) = [Some 12]
   | Inl _ \<Rightarrow> False"
  by code_simp+

lemma form_run:
  "case exec site [Op_create ann 1 52, Op_schema ann 1 demo_schema] empty_vault of
     Inr w \<Rightarrow> isl (checkin_form_schema site ann 1 11 ''why'' ''MAJOR'' w) = False
   | Inl _ \<Rightarrow> False"
  by code_simp

lemma exec_append: "exec E (xs @ ys) v = bind_res (exec E xs v) (exec E ys)"
  by (induction xs arbitrary: v) (auto simp: bind_res_def split: sum.split)

lemma after_run_reachable:
  assumes "case exec site ops empty_vault of Inr w \<Rightarrow> P w | Inl _ \<Rightarrow> False"
  shows "exec site ops empty_vault = Inr (after_run ops)" "vault_reachable site (after_run ops)" "P (after_run ops)"
  using assms exec_run [of site ops empty_vault] by (auto simp: after_run_def split: sum.splits)

lemmas issued = after_run_reachable [OF issued_run(1)]
lemmas reissued = after_run_reachable [OF issued_run(3)]

lemma reissue_run: "(vault_step site)\<^sup>*\<^sup>* (after_run issue_one) (after_run (issue_one @ reissue_one))"
  using reissued(1) by (intro exec_run) (simp add: exec_append issued(1))

subsection \<open>The promises\<close>

lemma doc_ok_effective: "doc_ok d (doc_versions v i) \<Longrightarrow>
   map ver_id (effective_versions v i) = (case doc_effective d of None \<Rightarrow> [] | Some e \<Rightarrow> [e])"
  by (simp add: doc_ok_def effective_ids_def effective_versions_def)

text \<open>C1: in every reachable vault a document has at most one Effective version, its effective pointer
names exactly that version, its version numbers grow strictly, and its state and the state of its latest
version agree as the lifecycle says (an Effective document ends in an Effective version, one under
revision in a draft or in the version being revised, and so on).\<close>

theorem single_governing_version:
  assumes "vault_reachable E v" "d \<in> set (docs v)"
  shows "map ver_id (effective_versions v (doc_id d)) = (case doc_effective d of None \<Rightarrow> [] | Some e \<Rightarrow> [e])
    \<and> sorted_wrt (<) (map ver_seq (doc_versions v (doc_id d)))
    \<and> head_state_ok (doc_current d) (map_option ver_state (latest_version v (doc_id d)))"
proof (intro conjI)
  note inv = vault_reachable_inv [OF assms(1)]
  note ok = vault_invD(5) [OF inv assms(2)]
  show "map ver_id (effective_versions v (doc_id d)) = (case doc_effective d of None \<Rightarrow> [] | Some e \<Rightarrow> [e])"
    by (rule doc_ok_effective [OF ok])
  show "sorted_wrt (<) (map ver_seq (doc_versions v (doc_id d)))" by (rule vault_invD(4) [OF inv])
  show "head_state_ok (doc_current d) (map_option ver_state (latest_version v (doc_id d)))"
    using ok by (auto simp: latest_version_last [OF inv] doc_ok_def last_state_def split: if_splits)
qed

lemma single_governing_version_witness:
  "\<exists>d \<in> set (docs (after_run (issue_one @ reissue_one))). doc_effective d = Some 12
     \<and> map ver_id (effective_versions (after_run (issue_one @ reissue_one)) (doc_id d)) = [12]"
proof -
  obtain d where d: "d \<in> set (docs (after_run (issue_one @ reissue_one)))" "doc_effective d = Some 12"
    using reissued(3) by auto
  from single_governing_version [OF reissued(2) d(1)] d show ?thesis by (intro bexI [of _ d]) simp_all
qed

text \<open>C2: the operations refine the abstract lifecycle and never rewrite history. Whatever operations
run, a version row keeps its identity, number, label, reason, author and content digest, its state only
moves along Draft, InReview (back to Draft on changes), Approved, Effective, Superseded, Obsolete, and the
audit and signature logs only grow at the end.\<close>

theorem history_append_only:
  assumes "vault_reachable E u" "(vault_step E)\<^sup>*\<^sup>* u v" "x \<in> set (versions u)"
  shows "(\<exists>y \<in> set (versions v). version_content y = version_content x
      \<and> version_move\<^sup>*\<^sup>* (ver_state x) (ver_state y))
    \<and> prefix (audits u) (audits v) \<and> prefix (signatures u) (signatures v)"
proof -
  have ev: "evolves u v"
    using vault_run_accounted [OF assms(2) vault_reachable_inv [OF assms(1)]] by (simp add: accounted_def)
  then obtain old new where o: "versions v = old @ new" "list_all2 (row_follows v) (versions u) old"
    unfolding evolves_def by blast
  from list_all2_in_set [OF o(2) assms(3)] show ?thesis
    using ev o(1) unfolding row_follows_def evolves_def by auto
qed

lemma history_append_only_witness:
  "\<exists>x \<in> set (versions (after_run issue_one)). ver_state x = V_Effective
     \<and> (\<exists>y \<in> set (versions (after_run (issue_one @ reissue_one))). version_content y = version_content x)"
proof -
  obtain x where x: "x \<in> set (versions (after_run issue_one))" "ver_state x = V_Effective"
    using issued(3) by auto
  from history_append_only [OF issued(2) reissue_run x(1)] x show ?thesis by blast
qed





subsection \<open>The cutover\<close>



subsection \<open>Pinned form schemas\<close>

lemma snapshot_content: "dget (snapshot d (Some (''field_schema'', c)) xs) ''field_schema'' = c"
  by (simp add: snapshot_def dget_def)

text \<open>C31: a form schema is pinned for good. The schema a check-in froze is exactly what the version
yields as its schema in every later state, whatever the working schema has become and whatever the vault
has done since.\<close>

theorem form_schema_pinned:
  assumes "vault_reachable E v" "checkin_form_schema E actor i new_id why sg v = Inr (w, r)"
    and "(vault_step E)\<^sup>*\<^sup>* w u"
  shows "\<exists>schema y. templates v i = Some schema \<and> y \<in> set (versions u) \<and> ver_id y = new_id
    \<and> schema_from_version y = Inr (Some schema)"
proof -
  from form_checkin_Inr [OF assms(2)] obtain d schema where s: "templates v i = Some schema" "validate_schema schema = Inr []"
    and f: "freeze E actor d new_id ''field_schema'' schema why sg v = Inr (w, r)" by blast
  from freeze_Inr [OF f] obtain sha where r: "r = frozen_version E actor d new_id ''field_schema'' schema sha why sg v"
    "w = emit ''CHECKIN'' (Some (user_id actor)) ''document_version'' new_id (Some (doc_identifier d)) (Some (strip why))
        (v\<lparr>versions := versions v @ [r]\<rparr>)" by blast
  have rw: "r \<in> set (versions w)" by (simp add: r(2) log_simps)
  have inv: "vault_inv w" by (rule form_checkin_inv [OF assms(2) vault_reachable_inv [OF assms(1)]])
  have "evolves w u" using vault_run_accounted [OF assms(3) inv] by (simp add: accounted_def)
  then obtain old new where o: "versions u = old @ new" "list_all2 (row_follows u) (versions w) old"
    unfolding evolves_def by blast
  from list_all2_in_set [OF o(2) rw] obtain y where y: "y \<in> set old" "row_follows u r y" by blast
  then have yr: "ver_id y = ver_id r" "ver_snapshot y = ver_snapshot r"
    by (simp_all add: row_follows_def version_content_def)
  obtain m where m: "schema = JObj m" using s(2) by (cases schema) (auto simp: validate_schema_def)
  have "dget (ver_snapshot y) ''field_schema'' = schema"
    by (simp add: yr(2) r(1) frozen_version_def Let_def snapshot_content)
  then have "schema_from_version y = Inr (Some schema)"
    using s(2) by (simp add: schema_from_version_def m)
  moreover have "ver_id y = new_id" by (simp add: yr(1) r(1) frozen_version_def Let_def)
  ultimately show ?thesis using s(1) y(1) o(1) by (intro exI [of _ schema] exI [of _ y]) simp
qed

lemma form_schema_pinned_witness:
  "\<exists>u y schema. vault_reachable site u \<and> y \<in> set (versions u) \<and> schema_from_version y = Inr (Some schema)"
proof -
  note run = after_run_reachable [OF form_run]
  then obtain w r where w: "checkin_form_schema site ann 1 11 ''why'' ''MAJOR''
      (after_run [Op_create ann 1 52, Op_schema ann 1 demo_schema]) = Inr (w, r)"
    by (auto simp: isl_def split: sum.splits) (metis sum.exhaust surj_pair)
  have "vault_reachable site w" using run(2) step_form [OF w] by (rule rtranclp.rtrancl_into_rtrancl)
  with form_schema_pinned [OF run(2) w rtranclp.rtrancl_refl] show ?thesis by blast
qed

subsection \<open>Two gaps\<close>

text \<open>The singleton index looks at documents whose state is Effective. A singleton document under revision
still governs through its Effective version, so a second document of the same type can be released
beside it.\<close>

theorem singleton_gap:
  "case exec site (Op_create ann 1 51 # issue 1 11 ''a'' @ Op_revise ann 1 20 ''t''
       # Op_create ann 2 51 # issue 2 21 ''c'') empty_vault of
     Inr w \<Rightarrow> map (\<lambda>d. (doc_singleton d, doc_type d, doc_org d, doc_effective d)) (docs w)
       = [(True, Some 51, 9, Some 11), (True, Some 51, 9, Some 21)]
   | Inl _ \<Rightarrow> False"
  by code_simp

text \<open>Check-in consults the working draft only: once the lock of an editor has been broken (here by
another user) the displaced editor can still check in, although no lock is held.\<close>

theorem broken_lock_checkin:
  "case exec site [Op_create ann 1 50, Op_checkout ann 1 0 ''t'', Op_break bob 1] empty_vault of
     Inr w \<Rightarrow> lock_holder (locks w) 1 5 = None \<and> \<not> isl (checkin site ann 1 5 11 ''a'' ''why'' ''MAJOR'' w)
   | Inl _ \<Rightarrow> False"
  by code_simp

declare snapshot_def [code] distribution_snapshot_def [code]

end
