(* ===== verification/WorkflowRules.thy ===== *)
theory WorkflowRules
  imports Bytes
begin

text \<open>
  The pure part of the declarative workflow engine (\<open>domain/workflow/\<close>): predicates over the context
  of an instance, conditional specifications and the three-valued quorum. \<open>ast.parse\<close> is the argument
  \<open>parse\<close>, from text to an expression tree or nothing for a syntax error; a constant is a JSON value.
  The quotient by 100 of a percentage is exact, as the floating division is for counts below 2 to the 46.
\<close>

subsection \<open>Conditions\<close>

datatype cmp_op = Eq | NotEq | In | NotIn | OtherCmp

datatype expr =
    BoolOp bool "expr list"
  | NotOp expr
  | Compare expr "cmp_op list" "expr list"
  | Name string
  | Constant json
  | ListExpr "expr list"
  | TupleExpr "expr list"
  | OtherExpr "expr list"

datatype cond_error = ConditionError | CondRaised py_error

type_synonym parser = "string \<Rightarrow> expr option"

fun literal :: "expr \<Rightarrow> (cond_error, json) result"
  and literals :: "expr list \<Rightarrow> (cond_error, json list) result" where
  "literal (Constant v) = Inr v"
| "literal (ListExpr es) = bind_res (literals es) (\<lambda>vs. Inr (JList vs))"
| "literal (TupleExpr es) = bind_res (literals es) (\<lambda>vs. Inr (JList vs))"
| "literal e = Inl ConditionError"
| "literals [] = Inr []"
| "literals (e # es) = bind_res (literal e) (\<lambda>v. bind_res (literals es) (\<lambda>vs. Inr (v # vs)))"

text \<open>The value of an operand; \<open>None\<close> is the sentinel of a missing key.\<close>

definition operand_value :: "dict \<Rightarrow> expr \<Rightarrow> (cond_error, json option) result" where
  "operand_value ctx e = (case e of Name x \<Rightarrow> Inr (map_of ctx x) | _ \<Rightarrow> bind_res (literal e) (\<lambda>v. Inr (Some v)))"

text \<open>\<open>x in y\<close> with the errors Python raises.\<close>

definition py_in :: "json \<Rightarrow> json \<Rightarrow> (cond_error, bool) result" where
  "py_in x y =
     (case y of
        JStr s \<Rightarrow> (case x of JStr t \<Rightarrow> Inr (contains s t) | _ \<Rightarrow> Inl (CondRaised TypeError))
      | JList ys \<Rightarrow> Inr (py_in_list x ys)
      | JObj d \<Rightarrow> (case x of JStr k \<Rightarrow> Inr (has_key d k) | JList _ \<Rightarrow> Inl (CondRaised TypeError)
                    | JObj _ \<Rightarrow> Inl (CondRaised TypeError) | _ \<Rightarrow> Inr False)
      | _ \<Rightarrow> Inl (CondRaised TypeError))"

definition compare_values :: "cmp_op \<Rightarrow> json \<Rightarrow> json \<Rightarrow> (cond_error, bool) result" where
  "compare_values op l r =
     (case op of
        Eq \<Rightarrow> Inr (py_eq l r)
      | NotEq \<Rightarrow> Inr (\<not> py_eq l r)
      | In \<Rightarrow> if truthy r then py_in l r else Inr False
      | NotIn \<Rightarrow> if truthy r then bind_res (py_in l r) (\<lambda>b. Inr (\<not> b)) else Inr True
      | OtherCmp \<Rightarrow> Inl ConditionError)"

fun eval_expr :: "dict \<Rightarrow> expr \<Rightarrow> (cond_error, bool) result"
  and eval_exprs :: "dict \<Rightarrow> expr list \<Rightarrow> (cond_error, bool list) result" where
  "eval_expr ctx (BoolOp is_and es) =
     bind_res (eval_exprs ctx es) (\<lambda>bs. Inr (if is_and then list_all (\<lambda>b. b) bs else list_ex (\<lambda>b. b) bs))"
| "eval_expr ctx (NotOp e) = bind_res (eval_expr ctx e) (\<lambda>b. Inr (\<not> b))"
| "eval_expr ctx (Compare l ops rs) =
     (case (ops, rs) of
        ([op], [r]) \<Rightarrow>
          bind_res (operand_value ctx l) (\<lambda>x. bind_res (operand_value ctx r) (\<lambda>y.
          case (x, y) of (Some a, Some b) \<Rightarrow> compare_values op a b | _ \<Rightarrow> Inr False))
      | _ \<Rightarrow> Inl ConditionError)"
| "eval_expr ctx e = Inl ConditionError"
| "eval_exprs ctx [] = Inr []"
| "eval_exprs ctx (e # es) = bind_res (eval_expr ctx e) (\<lambda>b. bind_res (eval_exprs ctx es) (\<lambda>bs. Inr (b # bs)))"

definition ctx_of :: "dict option \<Rightarrow> dict" where
  "ctx_of c = (case c of None \<Rightarrow> [] | Some d \<Rightarrow> d)"

definition evaluate_condition :: "parser \<Rightarrow> string \<Rightarrow> dict option \<Rightarrow> (py_error, bool) result" where
  "evaluate_condition parse cond context =
     (case parse cond of
        None \<Rightarrow> Inr False
      | Some e \<Rightarrow>
        (case eval_expr (ctx_of context) e of
           Inr b \<Rightarrow> Inr b
         | Inl ConditionError \<Rightarrow> Inr False
         | Inl (CondRaised x) \<Rightarrow> Inl x))"

fun names :: "expr \<Rightarrow> string list"
  and names_list :: "expr list \<Rightarrow> string list" where
  "names (BoolOp a es) = names_list es"
| "names (NotOp e) = names e"
| "names (Compare l ops rs) = names l @ names_list rs"
| "names (Name x) = [x]"
| "names (Constant v) = []"
| "names (ListExpr es) = names_list es"
| "names (TupleExpr es) = names_list es"
| "names (OtherExpr es) = names_list es"
| "names_list [] = []"
| "names_list (e # es) = names e @ names_list es"

definition referenced_keys :: "parser \<Rightarrow> string \<Rightarrow> string list" where
  "referenced_keys parse cond = (case parse cond of None \<Rightarrow> [] | Some e \<Rightarrow> names e)"

definition keys_present :: "string list \<Rightarrow> dict option \<Rightarrow> bool" where
  "keys_present refs context \<longleftrightarrow> set refs \<subseteq> fst ` set (ctx_of context)"

text \<open>The walk over the rule of a conditional specification: the default so far, the keys referenced.\<close>

fun walk_rule :: "parser \<Rightarrow> dict option \<Rightarrow> json list \<Rightarrow> dict option \<Rightarrow> string list \<Rightarrow> (py_error, dict option) result" where
  "walk_rule parse ctx [] dflt refs = Inr (if keys_present refs ctx then dflt else None)"
| "walk_rule parse ctx (JObj e # es) dflt refs =
     (if has_key e ''default'' then
        walk_rule parse ctx es (case dget e ''default'' of JObj d \<Rightarrow> Some d | _ \<Rightarrow> None) refs
      else
        (case (dget e ''when'', dget e ''quorum'') of
           (JStr w, JObj q) \<Rightarrow>
             bind_res (evaluate_condition parse w ctx) (\<lambda>b.
             if b then Inr (Some q) else walk_rule parse ctx es dflt (refs @ referenced_keys parse w))
         | _ \<Rightarrow> walk_rule parse ctx es dflt refs))"
| "walk_rule parse ctx (_ # es) dflt refs = walk_rule parse ctx es dflt refs"

definition resolve_conditional :: "parser \<Rightarrow> json \<Rightarrow> dict option \<Rightarrow> (py_error, dict option) result" where
  "resolve_conditional parse spec ctx =
     (case spec of
        JObj d \<Rightarrow>
          if dget d ''type'' \<noteq> JStr ''conditional'' then Inr (Some d)
          else (case dget d ''rule'' of JList rule \<Rightarrow> walk_rule parse ctx rule None [] | _ \<Rightarrow> Inr None)
      | _ \<Rightarrow> Inr None)"

subsection \<open>Quorum\<close>

datatype quorum = PENDING | MET | FAILED

text \<open>\<open>int(x)\<close> of a JSON value; a decimal string may carry a sign, blanks around it and single underscores.\<close>

definition int_text :: "string \<Rightarrow> (py_error, int) result" where
  "int_text s =
     (let t = strip s; neg = (take 1 t = ''-''); u = (if take 1 t \<in> {''-'', ''+''} then drop 1 t else t);
          parts = split_on (CHR ''_'') u in
      if list_all (\<lambda>p. p \<noteq> [] \<and> list_all is_digit p) parts
      then Inr ((if neg then - 1 else 1) * int (parse_nat (concat parts))) else Inl ValueError)"

definition trunc_rat :: "rat \<Rightarrow> int" where
  "trunc_rat q = (if q < 0 then - \<lfloor>- q\<rfloor> else \<lfloor>q\<rfloor>)"

definition int_of_json :: "json \<Rightarrow> (py_error, int) result" where
  "int_of_json v =
     (case v of JInt i \<Rightarrow> Inr i | JBool b \<Rightarrow> Inr (if b then 1 else 0) | JFloat _ q \<Rightarrow> Inr (trunc_rat q)
      | JStr s \<Rightarrow> int_text s | _ \<Rightarrow> Inl TypeError)"

definition dget_or :: "dict \<Rightarrow> string \<Rightarrow> json \<Rightarrow> json" where
  "dget_or d k v = (case map_of d k of None \<Rightarrow> v | Some x \<Rightarrow> x)"

definition quorum_type :: "dict \<Rightarrow> string" where
  "quorum_type spec = upper (py_str (dget_or spec ''type'' (JStr ''ANY'')))"

definition ceil_div :: "int \<Rightarrow> int \<Rightarrow> int" where
  "ceil_div a b = - ((- a) div b)"

definition required_approvals :: "dict \<Rightarrow> int \<Rightarrow> (py_error, int) result" where
  "required_approvals spec m =
     (let t = quorum_type spec in
      if t = ''ALL'' then Inr (max m 1)
      else if t = ''N_OF_M'' then int_of_json (dget_or spec ''n'' (JInt 1))
      else if t = ''PERCENT'' then bind_res (int_of_json (dget_or spec ''p'' (JInt 100))) (\<lambda>p. Inr (ceil_div (p * m) 100))
      else Inr 1)"

definition quorum_state :: "dict \<Rightarrow> int \<Rightarrow> int \<Rightarrow> int \<Rightarrow> (py_error, quorum) result" where
  "quorum_state spec approvals rejects m =
     (let remaining = max (m - approvals - rejects) 0; t = quorum_type spec in
      if t = ''ALL'' then
        Inr (if rejects > 0 then FAILED else if m > 0 \<and> approvals \<ge> m then MET else PENDING)
      else if t = ''N_OF_M'' then
        bind_res (int_of_json (dget_or spec ''n'' (JInt 1))) (\<lambda>n.
        Inr (if approvals \<ge> n then MET else if approvals + remaining < n then FAILED else PENDING))
      else if t = ''PERCENT'' then
        bind_res (int_of_json (dget_or spec ''p'' (JInt 100))) (\<lambda>p.
        Inr (if approvals * 100 \<ge> p * m \<and> m > 0 then MET
             else if (approvals + remaining) * 100 < p * m then FAILED else PENDING))
      else Inr (if approvals \<ge> 1 then MET else if remaining = 0 then FAILED else PENDING))"

subsection \<open>The quorum decides as early as it can\<close>

lemma ceil_div_le: "ceil_div a 100 \<le> c \<longleftrightarrow> a \<le> c * 100"
  by (simp add: ceil_div_def) arith

definition completion :: "int \<Rightarrow> int \<Rightarrow> int \<Rightarrow> int \<Rightarrow> int \<Rightarrow> bool" where
  "completion a r m a' r' \<longleftrightarrow> a \<le> a' \<and> r \<le> r' \<and> a' + r' \<le> m"

lemma quorum_cases:
  assumes "quorum_state spec a r m = Inr q"
  obtains (is_all) "quorum_type spec = ''ALL''"
      "\<And>a' r' m'. quorum_state spec a' r' m' = Inr (if r' > 0 then FAILED else if m' > 0 \<and> a' \<ge> m' then MET else PENDING)"
      "\<And>m'. required_approvals spec m' = Inr (max m' 1)"
  | (is_n) n where "\<And>a' r' m'. 0 \<le> a' \<Longrightarrow> quorum_state spec a' r' m' = Inr (if a' \<ge> n then MET
      else if a' + max (m' - a' - r') 0 < n then FAILED else PENDING)"
      "\<And>m'. required_approvals spec m' = Inr n"
  | (is_p) p where "\<And>a' r' m'. quorum_state spec a' r' m' = Inr (if a' * 100 \<ge> p * m' \<and> m' > 0 then MET
      else if (a' + max (m' - a' - r') 0) * 100 < p * m' then FAILED else PENDING)"
      "\<And>m'. required_approvals spec m' = Inr (ceil_div (p * m') 100)"
proof -
  let ?t = "quorum_type spec"
  consider "?t = ''ALL''" | "?t = ''N_OF_M''" | "?t = ''PERCENT''" | "?t \<notin> {''ALL'', ''N_OF_M'', ''PERCENT''}" by blast
  then show thesis
  proof cases
    case 1
    then show ?thesis by (intro is_all) (simp_all add: quorum_state_def required_approvals_def)
  next
    case 2
    with assms obtain n where "int_of_json (dget_or spec ''n'' (JInt 1)) = Inr n" by (auto simp: quorum_state_def)
    with 2 show ?thesis by (intro is_n [of n]) (simp_all add: quorum_state_def required_approvals_def)
  next
    case 3
    with assms obtain p where "int_of_json (dget_or spec ''p'' (JInt 100)) = Inr p" by (auto simp: quorum_state_def)
    with 3 show ?thesis by (intro is_p [of p]) (simp_all add: quorum_state_def required_approvals_def)
  next
    case 4
    then show ?thesis by (intro is_n [of 1]) (auto simp: quorum_state_def required_approvals_def Let_def)
  qed
qed

text \<open>C29: the quorum decides exactly as early as it may. While decisions are outstanding (\<open>a\<close>
approvals and \<open>r\<close> rejections of \<open>m\<close> tasks), it reports failure exactly when no way of deciding the
remaining tasks could meet it, it is met only with the approvals the specification requires, a met
quorum stays met under further approvals, and it is never undecided once every task is decided.\<close>

theorem quorum_decides_early:
  assumes "quorum_state spec a r m = Inr q" "required_approvals spec m = Inr k"
    and "0 \<le> a" "0 \<le> r" "a + r \<le> m" "0 < m"
  shows "(q = FAILED \<longleftrightarrow> (\<forall>a' r'. completion a r m a' r' \<longrightarrow> quorum_state spec a' r' m \<noteq> Inr MET))
    \<and> (q = MET \<longrightarrow> k \<le> a)
    \<and> (q = MET \<longrightarrow> (\<forall>a'. completion a r m a' r \<longrightarrow> quorum_state spec a' r m = Inr MET))
    \<and> (a + r = m \<longrightarrow> q \<noteq> PENDING)"
  using assms(1)
proof (cases rule: quorum_cases)
  case is_all
  show ?thesis
  proof (intro conjI impI allI)
    show "q = FAILED \<longleftrightarrow> (\<forall>a' r'. completion a r m a' r' \<longrightarrow> quorum_state spec a' r' m \<noteq> Inr MET)"
    proof (cases "r = 0")
      case True
      then have "completion a r m m 0" "quorum_state spec m 0 m = Inr MET"
        using assms(3-6) is_all(2) by (simp_all add: completion_def)
      moreover have "q \<noteq> FAILED" using assms(1) is_all(2) True by (auto split: if_splits)
      ultimately show ?thesis by blast
    next
      case False
      then show ?thesis using assms(1,4) is_all(2) by (auto simp: completion_def split: if_splits)
    qed
  qed (use assms is_all in \<open>auto simp: completion_def split: if_splits\<close>)
next
  case (is_n n)
  have rem: "max (m - a - r) 0 = m - a - r" using assms(5) by simp
  show ?thesis
  proof (intro conjI impI allI)
    have c: "completion a r m (m - r) r" using assms(5) by (simp add: completion_def)
    show "q = FAILED \<longleftrightarrow> (\<forall>a' r'. completion a r m a' r' \<longrightarrow> quorum_state spec a' r' m \<noteq> Inr MET)"
    proof
      assume "q = FAILED"
      then show "\<forall>a' r'. completion a r m a' r' \<longrightarrow> quorum_state spec a' r' m \<noteq> Inr MET"
        using assms(1,3,3) is_n(1) rem by (auto simp: completion_def split: if_splits)
    next
      assume "\<forall>a' r'. completion a r m a' r' \<longrightarrow> quorum_state spec a' r' m \<noteq> Inr MET"
      then have "quorum_state spec (m - r) r m \<noteq> Inr MET" using c by blast
      then show "q = FAILED" using assms(1,3,5,6) is_n(1) rem by (auto split: if_splits)
    qed
  qed (use assms is_n rem in \<open>auto simp: completion_def split: if_splits\<close>)
next
  case (is_p p)
  have rem: "max (m - a - r) 0 = m - a - r" using assms(5) by simp
  show ?thesis
  proof (intro conjI impI allI)
    have c: "completion a r m (m - r) r" using assms(5) by (simp add: completion_def)
    show "q = FAILED \<longleftrightarrow> (\<forall>a' r'. completion a r m a' r' \<longrightarrow> quorum_state spec a' r' m \<noteq> Inr MET)"
    proof
      assume "q = FAILED"
      then show "\<forall>a' r'. completion a r m a' r' \<longrightarrow> quorum_state spec a' r' m \<noteq> Inr MET"
        using assms(1,6,3) is_p(1) rem by (auto simp: completion_def split: if_splits)
    next
      assume "\<forall>a' r'. completion a r m a' r' \<longrightarrow> quorum_state spec a' r' m \<noteq> Inr MET"
      then have "quorum_state spec (m - r) r m \<noteq> Inr MET" using c by blast
      then show "q = FAILED" using assms(1,3,5,6) is_p(1) rem by (auto split: if_splits)
    qed
  qed (use assms is_p rem in \<open>auto simp: completion_def ceil_div_le split: if_splits\<close>)
qed

lemma quorum_decides_early_witness:
  "quorum_state [(''type'', JStr ''n_of_m''), (''n'', JInt 2)] 1 2 3 = Inr FAILED
   \<and> (\<nexists>a' r'. completion 1 2 3 a' r' \<and> quorum_state [(''type'', JStr ''n_of_m''), (''n'', JInt 2)] a' r' 3 = Inr MET)"
proof -
  have q: "quorum_state [(''type'', JStr ''n_of_m''), (''n'', JInt 2)] 1 2 3 = Inr FAILED"
    "required_approvals [(''type'', JStr ''n_of_m''), (''n'', JInt 2)] 3 = Inr 2"
    by code_simp+
  from quorum_decides_early [OF q] q(1) show ?thesis by simp
qed

text \<open>A predicate on a number raises: \<open>in\<close> needs a container on its right.\<close>

lemma condition_raises:
  "evaluate_condition (\<lambda>_. Some (Compare (Constant (JInt 1)) [In] [Name ''n''])) ''1 in n'' (Some [(''n'', JInt 5)])
   = Inl TypeError"
  by code_simp

end
