(* ===== verification/Workflow.thy ===== *)
theory Workflow
  imports WorkflowRules
begin

text \<open>
  The multi-stage workflow engine (\<open>services/workflow/engine.py\<close>): one instance with its tasks and
  outcomes, the materialisation of a stage for its pool of candidates, the traversal of router stages,
  and the decision of a task with its quorum, siblings and next stage. A decision runs under the lock of
  the instance, so it is one step of the state. Task ids are the positions at which the tasks are
  inserted; the clock, the stages, the role assignments and the calendar that moves a due instant to a
  working day are the record \<open>wf_env\<close>. Of an audit row the event and its \<open>after\<close> data are kept.
\<close>

subsection \<open>Rows\<close>

datatype stage_mode = SEQUENTIAL | PARALLEL | ROUTER

record stage =
  st_key :: string
  st_mode :: stage_mode
  st_assignees :: "dict option"
  st_quorum :: json
  st_transitions :: json
  st_sla :: "dict option"
  st_signature :: json

datatype task_state = T_PENDING | T_CLAIMED | T_DONE | T_SKIPPED | T_ESCALATED | T_EXPIRED

datatype outcome_kind = O_approve | O_reject | O_acknowledge | O_complete | O_verify | O_changes_requested

fun outcome_value :: "outcome_kind \<Rightarrow> string" where
  "outcome_value O_approve = ''approve''"
| "outcome_value O_reject = ''reject''"
| "outcome_value O_acknowledge = ''acknowledge''"
| "outcome_value O_complete = ''complete''"
| "outcome_value O_verify = ''verify''"
| "outcome_value O_changes_requested = ''changes_requested''"

definition outcome_kinds :: "outcome_kind list" where
  "outcome_kinds = [O_approve, O_reject, O_acknowledge, O_complete, O_verify, O_changes_requested]"

definition parse_outcome :: "string \<Rightarrow> outcome_kind option" where
  "parse_outcome s = find (\<lambda>k. outcome_value k = s) outcome_kinds"

record wf_task =
  tk_id :: nat
  tk_stage :: string
  tk_assignee :: "uuid option"
  tk_pool :: "string list"
  tk_type :: string
  tk_action :: json
  tk_state :: task_state
  tk_due :: "instant option"
  tk_token :: "string option"

record wf_outcome =
  oc_task :: nat
  oc_kind :: outcome_kind
  oc_comment :: "string option"
  oc_at :: instant
  oc_by :: uuid

record wf_event =
  ev_type :: string
  ev_actor :: "uuid option"
  ev_after :: dict

record wf =
  wf_subject_type :: string
  wf_context :: "dict option"
  wf_state :: string
  wf_tasks :: "wf_task list"
  wf_outcomes :: "wf_outcome list"
  wf_events :: "wf_event list"
  wf_notified :: "nat list"

record wf_env =
  we_parse :: parser
  we_stages :: "(string \<times> stage) list"
  we_default_sla :: "dict option"
  we_assignments :: "(uuid \<times> string \<times> dict option) list"
  we_snap :: "instant \<Rightarrow> instant"
  we_now :: instant

text \<open>A problem response, an exception, or a query that expected one row and found none.\<close>

datatype wf_error = WfProblem nat string | WfRaised py_error | NoResultFound

definition lift_wf :: "(py_error, 'a) result \<Rightarrow> (wf_error, 'a) result" where
  "lift_wf r = (case r of Inl e \<Rightarrow> Inl (WfRaised e) | Inr a \<Rightarrow> Inr a)"

definition needs_attention :: string where "needs_attention = ''NEEDS_ATTENTION''"
definition completed :: string where "completed = ''COMPLETED''"
definition rejected :: string where "rejected = ''REJECTED''"
definition quorum_skip :: string where "quorum_skip = ''quorum_skip''"
definition failed_stage_skip :: string where "failed_stage_skip = ''failed_stage_skip''"

definition positive :: "outcome_kind \<Rightarrow> bool" where
  "positive k \<longleftrightarrow> k \<in> {O_approve, O_complete, O_verify, O_acknowledge}"

definition negative :: "outcome_kind \<Rightarrow> bool" where
  "negative k \<longleftrightarrow> k \<in> {O_reject, O_changes_requested}"

definition success_on :: "string list" where "success_on = [''satisfied'', ''stage_satisfied'', ''approve'']"
definition reject_on :: "string list" where "reject_on = [''reject'', ''fail'']"

definition sig_meanings :: "string list" where
  "sig_meanings = [''review'', ''approval'', ''release'', ''obsolete'', ''verify'', ''disposition'', ''import_baseline'',
     ''review_confirmed'', ''authored'', ''responsibility'']"

text \<open>\<open>x in S\<close> for a set of strings: an unhashable \<open>x\<close> raises.\<close>

definition on_in :: "json \<Rightarrow> string list \<Rightarrow> (py_error, bool) result" where
  "on_in v ns = (case v of JList _ \<Rightarrow> Inl TypeError | JObj _ \<Rightarrow> Inl TypeError | JStr s \<Rightarrow> Inr (s \<in> set ns) | _ \<Rightarrow> Inr False)"

definition valid_signature_spec :: "json \<Rightarrow> (py_error, bool) result" where
  "valid_signature_spec s =
     (case s of JNull \<Rightarrow> Inr True | JObj d \<Rightarrow> on_in (dget d ''meaning'') sig_meanings | _ \<Rightarrow> Inr False)"

fun any_invalid :: "(string \<times> stage) list \<Rightarrow> (py_error, bool) result" where
  "any_invalid [] = Inr False"
| "any_invalid ((k, s) # xs) = bind_res (valid_signature_spec (st_signature s)) (\<lambda>ok. if ok then any_invalid xs else Inr True)"

definition wf_emit :: "string \<Rightarrow> uuid option \<Rightarrow> dict \<Rightarrow> wf \<Rightarrow> wf" where
  "wf_emit ev actor after w = w\<lparr>wf_events := wf_events w @ [\<lparr>ev_type = ev, ev_actor = actor, ev_after = after\<rparr>]\<rparr>"

subsection \<open>Candidates and due dates\<close>

definition stage_spec :: "stage \<Rightarrow> dict" where
  "stage_spec s = ctx_of (st_assignees s)"

text \<open>\<open>timedelta(hours=h)\<close>: rounded to the microsecond, ties to even, at most 999999999 days.\<close>

definition round_even :: "rat \<Rightarrow> int" where
  "round_even q =
     (let f = \<lfloor>q\<rfloor>; r = q - of_int f in
      if r < 1 / 2 then f else if r > 1 / 2 then f + 1 else if even f then f else f + 1)"

definition in_range_instant :: "instant \<Rightarrow> bool" where
  "in_range_instant t \<longleftrightarrow> 1 \<le> 719163 + t div 86400000000 \<and> 719163 + t div 86400000000 \<le> max_ordinal"

definition due_at :: "stage \<Rightarrow> dict option \<Rightarrow> instant \<Rightarrow> (py_error, instant option) result" where
  "due_at s default_sla now =
     (let sla = (if ctx_of (st_sla s) \<noteq> [] then ctx_of (st_sla s) else ctx_of default_sla) in
      case num_of (dget sla ''hours'') of
        None \<Rightarrow> Inr None
      | Some h \<Rightarrow>
        let t = now + round_even (h * 3600000000) in
        if in_range_instant t then Inr (Some t) else Inl OverflowError)"

text \<open>\<open>uuid.UUID(text)\<close>: prefixes, braces and dashes are dropped and 32 hexadecimal digits remain. (The
underscores \<open>int\<close> would allow between digits are not modelled.)\<close>

definition hex_val :: "char \<Rightarrow> nat option" where
  "hex_val c =
     (if is_digit c then Some (digit_val c)
      else if CHR ''a'' \<le> c \<and> c \<le> CHR ''f'' then Some (of_char c - 87)
      else if CHR ''A'' \<le> c \<and> c \<le> CHR ''F'' then Some (of_char c - 55) else None)"

function remove_all :: "string \<Rightarrow> string \<Rightarrow> string" where
  "remove_all p s =
     (if p = [] \<or> s = [] then s
      else if starts_with s p then remove_all p (drop (length p) s) else hd s # remove_all p (tl s))"
  by pat_completeness auto
termination by (relation "measure (\<lambda>(p, s). length s)") auto

declare remove_all.simps [simp del]

definition parse_uuid :: "string \<Rightarrow> uuid option" where
  "parse_uuid s =
     (let h = filter (\<lambda>c. c \<noteq> CHR ''-'')
        (strip_with (\<lambda>c. c = CHR ''{'' \<or> c = CHR ''}'') (remove_all ''uuid:'' (remove_all ''urn:'' s))) in
      if length h = 32 \<and> list_all (\<lambda>c. hex_val c \<noteq> None) h
      then Some (of_nat (foldl (\<lambda>n c. 16 * n + the (hex_val c)) 0 h)) else None)"

definition context_user_ids :: "dict option \<Rightarrow> string \<Rightarrow> uuid list" where
  "context_user_ids ctx ref =
     (let raw = dget (ctx_of ctx) ref; vs = (case raw of JList xs \<Rightarrow> xs | _ \<Rightarrow> [raw]) in
      List.map_filter (\<lambda>v. parse_uuid (py_str v)) vs)"

fun dedup :: "'a list \<Rightarrow> 'a list" where
  "dedup [] = []"
| "dedup (x # xs) = x # filter (\<lambda>y. y \<noteq> x) (dedup xs)"

definition users_with_roles :: "wf_env \<Rightarrow> json list \<Rightarrow> uuid list" where
  "users_with_roles E role_names =
     dedup (map fst (filter (\<lambda>(u, r, b). JStr r \<in> set role_names \<and> \<not> truthy (dget (ctx_of b) ''managed_by''))
       (we_assignments E)))"

text \<open>\<open>list(x)\<close> of a JSON value.\<close>

definition json_list :: "json \<Rightarrow> (py_error, json list) result" where
  "json_list v =
     (case v of JList xs \<Rightarrow> Inr xs | JStr s \<Rightarrow> Inr (map (\<lambda>c. JStr [c]) s) | JObj d \<Rightarrow> Inr (map (JStr \<circ> fst) d)
      | _ \<Rightarrow> Inl TypeError)"

definition add_users :: "uuid list \<Rightarrow> uuid list \<Rightarrow> uuid list" where
  "add_users pool us = foldl (\<lambda>p u. if u \<in> set p then p else p @ [u]) pool us"

definition resolve_pool :: "wf_env \<Rightarrow> wf \<Rightarrow> stage \<Rightarrow> (py_error, uuid list) result" where
  "resolve_pool E w s =
     (let spec = stage_spec s in
      bind_res (json_list (dget_or spec ''roles'' (JList []))) (\<lambda>roles.
      let pool = users_with_roles E roles in
      Inr (case dget spec ''context_users'' of JStr ref \<Rightarrow> add_users pool (context_user_ids (wf_context w) ref) | _ \<Rightarrow> pool)))"

subsection \<open>Entering stages\<close>

definition task_types :: "string list" where
  "task_types = [''APPROVE'', ''REVIEW'', ''PERIODIC_REVIEW'', ''AUDIT_TASK'', ''FINDING_ACK'', ''CAPA_STAGE'',
     ''CAPA_ACTION'', ''VERIFY'', ''MR_INPUT'', ''MR_ACTION'', ''DCR_TRIAGE'', ''DOC_ACK'']"

definition new_tasks :: "nat \<Rightarrow> stage \<Rightarrow> instant option \<Rightarrow> uuid list \<Rightarrow> wf_task list" where
  "new_tasks n s due pool =
     (let spec = stage_spec s;
          tt = (case dget_or spec ''task_type'' (JStr ''APPROVE'') of JStr t \<Rightarrow> if t \<in> set task_types then t else ''APPROVE''
                | _ \<Rightarrow> ''APPROVE'') in
      map (\<lambda>(k, u). \<lparr>tk_id = n + k, tk_stage = st_key s, tk_assignee = Some u, tk_pool = [uuid_str u], tk_type = tt,
         tk_action = dget spec ''action_expected'', tk_state = T_PENDING, tk_due = due, tk_token = None\<rparr>)
        (enumerate 0 pool))"

definition materialize_stage :: "wf_env \<Rightarrow> stage \<Rightarrow> dict option \<Rightarrow> wf \<Rightarrow> (py_error, wf \<times> bool) result" where
  "materialize_stage E s default_sla w =
     bind_res (resolve_conditional (we_parse E) (st_quorum s) (wf_context w)) (\<lambda>q.
     case q of
       None \<Rightarrow> Inr (w, False)
     | Some quorum \<Rightarrow>
       bind_res (resolve_pool E w s) (\<lambda>pool.
       if pool = [] then Inr (w, False)
       else bind_res (required_approvals quorum (int (length pool))) (\<lambda>need.
         if int (length pool) < need then Inr (w, False)
         else bind_res (due_at s default_sla (we_now E)) (\<lambda>due.
           let ts = new_tasks (length (wf_tasks w)) s (map_option (we_snap E) due) pool;
               w' = w\<lparr>wf_tasks := wf_tasks w @ ts\<rparr> in
           Inr (if wf_subject_type w \<in> {''DOC_ACK'', ''PERIODIC_REVIEW''} then w'
                else w'\<lparr>wf_notified := wf_notified w' @ map tk_id ts\<rparr>, True)))))"

fun walk_routes :: "parser \<Rightarrow> dict option \<Rightarrow> json list \<Rightarrow> string option \<Rightarrow> string list \<Rightarrow> (py_error, string option) result" where
  "walk_routes parse ctx [] dflt refs = Inr (if keys_present refs ctx then dflt else None)"
| "walk_routes parse ctx (JObj t # ts) dflt refs =
     (if has_key t ''default'' then
        walk_routes parse ctx ts (case dget t ''default'' of JStr s \<Rightarrow> Some s | _ \<Rightarrow> None) refs
      else
        (case (dget t ''when'', dget t ''to'') of
           (JStr w, JStr to) \<Rightarrow>
             bind_res (evaluate_condition parse w ctx) (\<lambda>b.
             if b then Inr (Some to) else walk_routes parse ctx ts dflt (refs @ referenced_keys parse w))
         | _ \<Rightarrow> walk_routes parse ctx ts dflt refs))"
| "walk_routes parse ctx (_ # ts) dflt refs = walk_routes parse ctx ts dflt refs"

definition route :: "parser \<Rightarrow> stage \<Rightarrow> dict option \<Rightarrow> (py_error, string option) result" where
  "route parse s ctx = walk_routes parse ctx (case st_transitions s of JList ts \<Rightarrow> ts | _ \<Rightarrow> []) None []"

fun find_target :: "json list \<Rightarrow> string list \<Rightarrow> (py_error, string option) result" where
  "find_target [] on = Inr None"
| "find_target (JObj t # ts) on =
     bind_res (on_in (dget t ''on'') on) (\<lambda>b.
     if b then (case dget t ''to'' of JStr to \<Rightarrow> Inr (Some to) | _ \<Rightarrow> find_target ts on) else find_target ts on)"
| "find_target (_ # ts) on = find_target ts on"

definition transition_target :: "stage \<Rightarrow> string list \<Rightarrow> (py_error, string option) result" where
  "transition_target s on = find_target (case st_transitions s of JList ts \<Rightarrow> ts | _ \<Rightarrow> []) on"

lemma unvisited_decreases:
  assumes "map_of xs k = Some s" "k \<notin> set visited"
  shows "length (filter (\<lambda>x. fst x \<noteq> k \<and> fst x \<notin> set visited) xs) < length (filter (\<lambda>x. fst x \<notin> set visited) xs)"
proof -
  have "(k, s) \<in> set (filter (\<lambda>x. fst x \<notin> set visited) xs)" using assms by (auto dest: map_of_SomeD)
  then have "length (filter (\<lambda>x. fst x \<noteq> k) (filter (\<lambda>x. fst x \<notin> set visited) xs))
      < length (filter (\<lambda>x. fst x \<notin> set visited) xs)"
    by (intro length_filter_less [of "(k, s)"]) auto
  then show ?thesis by (simp add: conj_commute)
qed

function enter_stage ::
    "wf_env \<Rightarrow> string \<Rightarrow> dict option \<Rightarrow> string list \<Rightarrow> wf \<Rightarrow> (py_error, wf \<times> string) result" where
  "enter_stage E key default_sla visited w =
     (case map_of (we_stages E) key of
        None \<Rightarrow> Inr (w, key)
      | Some s \<Rightarrow>
        if key \<in> set visited then Inr (w, needs_attention)
        else if st_mode s = ROUTER then
          (case route (we_parse E) s (wf_context w) of
             Inl e \<Rightarrow> Inl e
           | Inr None \<Rightarrow> Inr (w, needs_attention)
           | Inr (Some nxt) \<Rightarrow> enter_stage E nxt default_sla (key # visited) w)
        else
          (case materialize_stage E s default_sla w of
             Inl e \<Rightarrow> Inl e
           | Inr (w', ok) \<Rightarrow> Inr (w', if ok then key else needs_attention)))"
  by pat_completeness auto

termination
  by (relation "measure (\<lambda>(E, key, sla, visited, w). length (filter (\<lambda>x. fst x \<notin> set visited) (we_stages E)))")
    (auto intro: unvisited_decreases)

declare enter_stage.simps [simp del]

definition entry_key :: "json \<Rightarrow> (string \<times> stage) list \<Rightarrow> string option" where
  "entry_key definition_stages stages =
     (case (case definition_stages of JObj d \<Rightarrow> dget d ''entry'' | _ \<Rightarrow> JNull) of
        JStr e \<Rightarrow> Some e
      | _ \<Rightarrow> (case sort (map fst stages) of [] \<Rightarrow> None | k # _ \<Rightarrow> Some k))"

definition instantiate ::
    "wf_env \<Rightarrow> json \<Rightarrow> string \<Rightarrow> dict option \<Rightarrow> uuid option \<Rightarrow> (wf_error, wf) result" where
  "instantiate E definition_stages subject_type context actor =
     (case entry_key definition_stages (we_stages E) of
        None \<Rightarrow> Inl (WfProblem 500 ''internal_error'')
      | Some entry \<Rightarrow>
        let w = \<lparr>wf_subject_type = subject_type, wf_context = context, wf_state = entry, wf_tasks = [], wf_outcomes = [],
                 wf_events = [], wf_notified = []\<rparr> in
        bind_res (lift_wf (any_invalid (we_stages E))) (\<lambda>bad.
        bind_res (if bad then Inr (w, needs_attention)
                  else lift_wf (enter_stage E entry (we_default_sla E) [] w)) (\<lambda>(w', st).
        Inr (wf_emit ''STAGE_ADVANCED'' actor [(''event'', JStr ''instantiated''), (''current_state'', JStr st)]
          (w'\<lparr>wf_state := st\<rparr>)))))"

subsection \<open>Deciding a task\<close>

record response =
  rs_task :: nat
  rs_stage :: string
  rs_outcome :: "string option"
  rs_at :: "instant option"
  rs_by :: "uuid option"
  rs_stage_state :: string
  rs_current :: string
  rs_signature :: json
  rs_comment :: "string option"
  rs_replayed :: bool

definition decided_response :: "wf_task \<Rightarrow> wf_outcome \<Rightarrow> string \<Rightarrow> string \<Rightarrow> json \<Rightarrow> bool \<Rightarrow> response" where
  "decided_response t oc state current sig replayed =
     \<lparr>rs_task = tk_id t, rs_stage = tk_stage t, rs_outcome = Some (outcome_value (oc_kind oc)), rs_at = Some (oc_at oc),
      rs_by = Some (oc_by oc), rs_stage_state = state, rs_current = current, rs_signature = sig,
      rs_comment = oc_comment oc, rs_replayed = replayed\<rparr>"

definition skipped_response :: "wf_task \<Rightarrow> string \<Rightarrow> string \<Rightarrow> response" where
  "skipped_response t state current =
     \<lparr>rs_task = tk_id t, rs_stage = tk_stage t, rs_outcome = None, rs_at = None, rs_by = None,
      rs_stage_state = state, rs_current = current, rs_signature = JNull, rs_comment = None, rs_replayed = True\<rparr>"

definition get_task :: "wf \<Rightarrow> nat \<Rightarrow> wf_task option" where
  "get_task w i = find (\<lambda>t. tk_id t = i) (wf_tasks w)"

definition get_outcome :: "wf \<Rightarrow> nat \<Rightarrow> wf_outcome option" where
  "get_outcome w i = find (\<lambda>oc. oc_task oc = i) (wf_outcomes w)"

definition stage_tasks :: "wf \<Rightarrow> string \<Rightarrow> wf_task list" where
  "stage_tasks w k = filter (\<lambda>t. tk_stage t = k) (wf_tasks w)"

definition stage_outcomes :: "wf \<Rightarrow> string \<Rightarrow> wf_outcome list" where
  "stage_outcomes w k = filter (\<lambda>oc. \<exists>t \<in> set (stage_tasks w k). tk_id t = oc_task oc) (wf_outcomes w)"

definition put_task :: "wf_task \<Rightarrow> wf \<Rightarrow> wf" where
  "put_task t w = w\<lparr>wf_tasks := map (\<lambda>x. if tk_id x = tk_id t then t else x) (wf_tasks w)\<rparr>"

definition skip_siblings :: "string \<Rightarrow> string \<Rightarrow> wf \<Rightarrow> wf" where
  "skip_siblings k marker w = w\<lparr>wf_tasks := map (\<lambda>t. if tk_stage t = k \<and> tk_state t = T_PENDING
     then t\<lparr>tk_state := T_SKIPPED, tk_token := Some marker\<rparr> else t) (wf_tasks w)\<rparr>"

definition approvers :: "wf \<Rightarrow> string \<Rightarrow> uuid set" where
  "approvers w k = oc_by ` set (filter (\<lambda>oc. positive (oc_kind oc)) (stage_outcomes w k))"

definition reject_count :: "wf \<Rightarrow> string \<Rightarrow> nat" where
  "reject_count w k = length (filter (\<lambda>oc. negative (oc_kind oc)) (stage_outcomes w k))"

definition replay_or_refuse :: "wf_task \<Rightarrow> string option \<Rightarrow> wf \<Rightarrow> (wf_error, wf \<times> response) result" where
  "replay_or_refuse t key w =
     (case tk_state t of
        T_DONE \<Rightarrow>
          (case get_outcome w (tk_id t) of
             Some oc \<Rightarrow> if key \<noteq> None \<and> tk_token t = key
               then Inr (w, decided_response t oc ''REPLAY'' (wf_state w) JNull True) else Inl (WfProblem 409 ''conflict'')
           | None \<Rightarrow> Inl (WfProblem 409 ''conflict''))
      | T_SKIPPED \<Rightarrow>
          if tk_token t = Some quorum_skip then Inr (w, skipped_response t ''ALREADY_SATISFIED'' (wf_state w))
          else if tk_token t = Some failed_stage_skip then Inr (w, skipped_response t ''FAILED'' (wf_state w))
          else Inl (WfProblem 409 ''conflict'')
      | _ \<Rightarrow> Inl (WfProblem 409 ''conflict''))"

definition record_decision :: "wf_env \<Rightarrow> uuid \<Rightarrow> wf_task \<Rightarrow> outcome_kind \<Rightarrow> string option \<Rightarrow> string option \<Rightarrow> wf \<Rightarrow> wf" where
  "record_decision E actor t kind comment key w =
     wf_emit ''TASK_DECIDED'' (Some actor) [(''stage_key'', JStr (tk_stage t)), (''outcome'', JStr (outcome_value kind))]
       (put_task (t\<lparr>tk_state := T_DONE, tk_assignee := Some actor, tk_token := key\<rparr>)
         (w\<lparr>wf_outcomes := wf_outcomes w @ [\<lparr>oc_task = tk_id t, oc_kind = kind, oc_comment = comment,
            oc_at = we_now E, oc_by = actor\<rparr>]\<rparr>))"

fun quorum_value :: "quorum \<Rightarrow> string" where
  "quorum_value PENDING = ''PENDING''"
| "quorum_value MET = ''MET''"
| "quorum_value FAILED = ''FAILED''"

definition stage_moved :: "string \<Rightarrow> uuid \<Rightarrow> string \<Rightarrow> string \<Rightarrow> dict \<Rightarrow> wf \<Rightarrow> wf" where
  "stage_moved ev actor k st extra w =
     wf_emit ev (Some actor) ([(''from'', JStr k), (''current_state'', JStr st)] @ extra) (w\<lparr>wf_state := st\<rparr>)"

definition settle_stage :: "wf_env \<Rightarrow> uuid \<Rightarrow> string \<Rightarrow> wf \<Rightarrow> (py_error, wf \<times> quorum \<times> json) result" where
  "settle_stage E actor k w =
     (let stage = map_of (we_stages E) k in
      bind_res (case stage of None \<Rightarrow> Inr None | Some s \<Rightarrow> resolve_conditional (we_parse E) (st_quorum s) (wf_context w)) (\<lambda>spec.
      case spec of
        None \<Rightarrow> Inr (stage_moved ''STAGE_FAILED'' actor k needs_attention [(''reason'', JStr ''unresolvable_quorum'')]
                  (skip_siblings k failed_stage_skip w), FAILED, JNull)
      | Some q \<Rightarrow>
        bind_res (quorum_state q (int (card (approvers w k))) (int (reject_count w k)) (int (length (stage_tasks w k)))) (\<lambda>st.
        case (st, stage) of
          (MET, Some s) \<Rightarrow>
            bind_res (transition_target s success_on) (\<lambda>to.
            let target = (case to of None \<Rightarrow> completed | Some x \<Rightarrow> if x = [] then completed else x) in
            bind_res (enter_stage E target (we_default_sla E) [] (skip_siblings k quorum_skip w)) (\<lambda>(w', cur).
            Inr (stage_moved ''STAGE_ADVANCED'' actor k cur [] w', MET, st_signature s)))
        | (FAILED, Some s) \<Rightarrow>
            bind_res (transition_target s reject_on) (\<lambda>to.
            let cur = (case to of None \<Rightarrow> rejected | Some x \<Rightarrow> if x = [] then rejected else x) in
            Inr (stage_moved ''STAGE_FAILED'' actor k cur [] (skip_siblings k failed_stage_skip w), FAILED, JNull))
        | _ \<Rightarrow> Inr (w, st, JNull))))"

definition wf_decide ::
    "wf_env \<Rightarrow> uuid \<Rightarrow> nat \<Rightarrow> string \<Rightarrow> string option \<Rightarrow> string option \<Rightarrow> wf \<Rightarrow> (wf_error, wf \<times> response) result" where
  "wf_decide E actor i outcome comment key w =
     (case get_task w i of
        None \<Rightarrow> Inl NoResultFound
      | Some t \<Rightarrow>
        if tk_state t \<noteq> T_PENDING then replay_or_refuse t key w
        else (case parse_outcome outcome of
          None \<Rightarrow> Inl (WfProblem 422 ''validation_error'')
        | Some kind \<Rightarrow>
          if positive kind \<and> list_ex (\<lambda>oc. positive (oc_kind oc) \<and> oc_by oc = actor) (stage_outcomes w (tk_stage t))
          then Inl (WfProblem 409 ''conflict'')
          else
            let w1 = record_decision E actor t kind comment key w in
            bind_res (lift_wf (settle_stage E actor (tk_stage t) w1)) (\<lambda>(w2, st, sig).
            Inr (w2, decided_response t \<lparr>oc_task = i, oc_kind = kind, oc_comment = comment, oc_at = we_now E, oc_by = actor\<rparr>
                  (quorum_value st) (wf_state w2) sig False))))"

end
