(* ===== verification/WorkflowInv.thy ===== *)
theory WorkflowInv
  imports Workflow
begin

text \<open>
  What the workflow engine keeps over a run: open tasks belong to the current stage, a task is decided
  once, no actor approves twice in a stage, a stage advances only on the approvals its quorum requires,
  and a repeated decision is replayed.
\<close>

subsection \<open>The shape of the task table\<close>

definition shape :: "wf \<Rightarrow> (nat \<times> string) set" where
  "shape w = (\<lambda>t. (tk_id t, tk_stage t)) ` set (wf_tasks w)"

lemma stage_outcomes_shape: "stage_outcomes w k = filter (\<lambda>oc. (oc_task oc, k) \<in> shape w) (wf_outcomes w)"
  unfolding stage_outcomes_def stage_tasks_def shape_def by (rule filter_cong) (auto simp: image_iff, metis)

definition wf_inv :: "wf \<Rightarrow> bool" where
  "wf_inv w \<longleftrightarrow> map tk_id (wf_tasks w) = [0..<length (wf_tasks w)]
     \<and> (\<forall>t \<in> set (wf_tasks w). tk_state t \<in> {T_PENDING, T_DONE, T_SKIPPED})
     \<and> (\<forall>t \<in> set (wf_tasks w). tk_state t = T_PENDING \<longrightarrow> tk_stage t = wf_state w)
     \<and> distinct (map oc_task (wf_outcomes w))
     \<and> oc_task ` set (wf_outcomes w) = tk_id ` {t \<in> set (wf_tasks w). tk_state t = T_DONE}
     \<and> (\<forall>k. distinct (map oc_by (filter (\<lambda>oc. positive (oc_kind oc)) (stage_outcomes w k))))"

lemma wf_invD:
  assumes "wf_inv w"
  shows "map tk_id (wf_tasks w) = [0..<length (wf_tasks w)]"
    and "t \<in> set (wf_tasks w) \<Longrightarrow> tk_state t \<in> {T_PENDING, T_DONE, T_SKIPPED}"
    and "t \<in> set (wf_tasks w) \<Longrightarrow> tk_state t = T_PENDING \<Longrightarrow> tk_stage t = wf_state w"
    and "distinct (map oc_task (wf_outcomes w))"
    and "oc_task ` set (wf_outcomes w) = tk_id ` {t \<in> set (wf_tasks w). tk_state t = T_DONE}"
    and "distinct (map oc_by (filter (\<lambda>oc. positive (oc_kind oc)) (stage_outcomes w k)))"
  using assms by (auto simp: wf_inv_def)

lemma wf_inv_ids: "wf_inv w \<Longrightarrow> distinct (map tk_id (wf_tasks w))"
  using wf_invD(1) by (metis distinct_upt)

lemma same_task: "wf_inv w \<Longrightarrow> t \<in> set (wf_tasks w) \<Longrightarrow> u \<in> set (wf_tasks w) \<Longrightarrow> tk_id t = tk_id u \<Longrightarrow> t = u"
  using wf_inv_ids by (auto simp: distinct_map dest: inj_onD)

lemma task_id_bound: "wf_inv w \<Longrightarrow> t \<in> set (wf_tasks w) \<Longrightarrow> tk_id t < length (wf_tasks w)"
  using wf_invD(1) [of w] by (metis atLeastLessThan_iff image_eqI list.set_map set_upt)

lemma outcome_task:
  assumes "wf_inv w" "oc \<in> set (wf_outcomes w)"
  shows "\<exists>t \<in> set (wf_tasks w). tk_id t = oc_task oc \<and> tk_state t = T_DONE"
proof -
  have "oc_task oc \<in> oc_task ` set (wf_outcomes w)" using assms(2) by (rule imageI)
  then have "oc_task oc \<in> tk_id ` {t \<in> set (wf_tasks w). tk_state t = T_DONE}" unfolding wf_invD(5) [OF assms(1)] .
  then show ?thesis by force
qed

lemma outcome_bound: "wf_inv w \<Longrightarrow> oc \<in> set (wf_outcomes w) \<Longrightarrow> oc_task oc < length (wf_tasks w)"
  using outcome_task task_id_bound by metis

lemma get_task_Some: "wf_inv w \<Longrightarrow> get_task w i = Some t \<longleftrightarrow> t \<in> set (wf_tasks w) \<and> tk_id t = i"
proof
  assume "get_task w i = Some t"
  then show "t \<in> set (wf_tasks w) \<and> tk_id t = i" by (auto simp: get_task_def find_Some_iff)
next
  assume inv: "wf_inv w" and t: "t \<in> set (wf_tasks w) \<and> tk_id t = i"
  then obtain u where "get_task w i = Some u" by (cases "get_task w i") (auto simp: get_task_def find_None_iff)
  moreover from this have "u \<in> set (wf_tasks w) \<and> tk_id u = i" by (auto simp: get_task_def find_Some_iff)
  ultimately show "get_task w i = Some t" using same_task [OF inv] t by auto
qed

lemma wf_frames [simp]:
  "wf_tasks (wf_emit e a d w) = wf_tasks w" "wf_outcomes (wf_emit e a d w) = wf_outcomes w"
  "wf_state (wf_emit e a d w) = wf_state w" "wf_context (wf_emit e a d w) = wf_context w"
  by (simp_all add: wf_emit_def)

lemma moved_frames [simp]:
  "wf_tasks (stage_moved e a k st x w) = wf_tasks w" "wf_outcomes (stage_moved e a k st x w) = wf_outcomes w"
  "wf_state (stage_moved e a k st x w) = st"
  by (simp_all add: stage_moved_def)

lemma wf_inv_cong:
  "wf_tasks v = wf_tasks w \<Longrightarrow> wf_outcomes v = wf_outcomes w \<Longrightarrow> wf_state v = wf_state w \<Longrightarrow> wf_inv v \<longleftrightarrow> wf_inv w"
  by (simp add: wf_inv_def stage_outcomes_shape shape_def)

subsection \<open>Entering a stage\<close>

lemma new_tasks_facts:
  "length (new_tasks n s due pool) = length pool"
  "map tk_id (new_tasks n s due pool) = [n..<n + length pool]"
  "t \<in> set (new_tasks n s due pool) \<Longrightarrow> tk_state t = T_PENDING \<and> tk_stage t = st_key s \<and> n \<le> tk_id t"
proof -
  show "length (new_tasks n s due pool) = length pool" by (simp add: new_tasks_def Let_def)
  have "map tk_id (new_tasks n s due pool) = map (\<lambda>x. n + fst x) (enumerate 0 pool)"
    by (simp add: new_tasks_def Let_def comp_def split_def)
  also have "\<dots> = map ((+) n) (map fst (enumerate 0 pool))" by (simp only: map_map comp_def)
  also have "\<dots> = [n..<n + length pool]" by (simp only: map_fst_enumerate) (rule nth_equalityI, auto)
  finally show "map tk_id (new_tasks n s due pool) = [n..<n + length pool]" .
  show "t \<in> set (new_tasks n s due pool) \<Longrightarrow> tk_state t = T_PENDING \<and> tk_stage t = st_key s \<and> n \<le> tk_id t"
    by (auto simp: new_tasks_def Let_def)
qed

definition keyed :: "wf_env \<Rightarrow> bool" where
  "keyed E \<longleftrightarrow> (\<forall>(k, s) \<in> set (we_stages E). st_key s = k)"

text \<open>Entering either leaves the tasks alone or opens the tasks of the stage it names, enough of them for
its quorum.\<close>

definition opened :: "wf_env \<Rightarrow> wf \<Rightarrow> wf \<Rightarrow> string \<Rightarrow> bool" where
  "opened E w w' k \<longleftrightarrow> (\<exists>s q pool due need. map_of (we_stages E) k = Some s
     \<and> resolve_conditional (we_parse E) (st_quorum s) (wf_context w) = Inr (Some q)
     \<and> required_approvals q (int (length pool)) = Inr need \<and> need \<le> int (length pool) \<and> pool \<noteq> []
     \<and> wf_tasks w' = wf_tasks w @ new_tasks (length (wf_tasks w)) s due pool)"

lemma materialize_cases:
  assumes "materialize_stage E s sla w = Inr (w', ok)" "map_of (we_stages E) k = Some s"
  shows "wf_outcomes w' = wf_outcomes w \<and> wf_context w' = wf_context w \<and>
    (if ok then opened E w w' k else w' = w)"
proof -
  obtain q where q: "resolve_conditional (we_parse E) (st_quorum s) (wf_context w) = Inr q"
    using assms(1) by (auto simp: materialize_stage_def)
  show ?thesis
  proof (cases q)
    case None
    then show ?thesis using assms(1) q by (simp add: materialize_stage_def)
  next
    case (Some quorum)
    then obtain pool where pool: "resolve_pool E w s = Inr pool"
      using assms(1) q by (auto simp: materialize_stage_def)
    show ?thesis
    proof (cases "pool = []")
      case False
      then obtain need where need: "required_approvals quorum (int (length pool)) = Inr need"
        using assms(1) q Some pool by (auto simp: materialize_stage_def)
      show ?thesis
      proof (cases "int (length pool) < need")
        case False
        with need \<open>pool \<noteq> []\<close> obtain due where due: "due_at s sla (we_now E) = Inr due"
          using assms(1) q Some pool by (auto simp: materialize_stage_def)
        define ts where "ts = new_tasks (length (wf_tasks w)) s (map_option (we_snap E) due) pool"
        have w': "ok" "wf_tasks w' = wf_tasks w @ ts" "wf_outcomes w' = wf_outcomes w" "wf_context w' = wf_context w"
          using assms(1) q Some pool need False \<open>pool \<noteq> []\<close> due
          by (auto simp: materialize_stage_def Let_def ts_def split: if_splits)
        have "opened E w w' k"
          unfolding opened_def using assms(2) q Some need False \<open>pool \<noteq> []\<close> w'(2) unfolding ts_def by fastforce
        then show ?thesis using w' by simp
      qed (use assms(1) q Some pool need False in \<open>simp add: materialize_stage_def\<close>)
    qed (use assms(1) q Some pool in \<open>simp add: materialize_stage_def\<close>)
  qed
qed

lemma enter_stage_steps:
  "map_of (we_stages E) k = None \<Longrightarrow> enter_stage E k sla visited w = Inr (w, k)"
  "map_of (we_stages E) k = Some s \<Longrightarrow> k \<in> set visited \<Longrightarrow> enter_stage E k sla visited w = Inr (w, needs_attention)"
  "map_of (we_stages E) k = Some s \<Longrightarrow> k \<notin> set visited \<Longrightarrow> st_mode s = ROUTER \<Longrightarrow>
     enter_stage E k sla visited w = (case route (we_parse E) s (wf_context w) of Inl e \<Rightarrow> Inl e
       | Inr None \<Rightarrow> Inr (w, needs_attention) | Inr (Some nxt) \<Rightarrow> enter_stage E nxt sla (k # visited) w)"
  "map_of (we_stages E) k = Some s \<Longrightarrow> k \<notin> set visited \<Longrightarrow> st_mode s \<noteq> ROUTER \<Longrightarrow>
     enter_stage E k sla visited w = (case materialize_stage E s sla w of Inl e \<Rightarrow> Inl e
       | Inr (w', ok) \<Rightarrow> Inr (w', if ok then k else needs_attention))"
  by (subst enter_stage.simps, simp)+

lemma enter_stage_cases:
  "enter_stage E k sla visited w = Inr (w', st) \<Longrightarrow>
     wf_outcomes w' = wf_outcomes w \<and> wf_context w' = wf_context w \<and> (w' = w \<or> opened E w w' st)"
proof (induction E k sla visited w rule: enter_stage.induct)
  case (1 E k sla visited w)
  show ?case
  proof (cases "map_of (we_stages E) k")
    case None
    then show ?thesis using "1.prems" by (simp add: enter_stage_steps(1))
  next
    case (Some s)
    consider "k \<in> set visited" | "k \<notin> set visited" "st_mode s = ROUTER" | "k \<notin> set visited" "st_mode s \<noteq> ROUTER" by blast
    then show ?thesis
    proof cases
      case 1
      then show ?thesis using "1.prems" Some by (simp add: enter_stage_steps(2))
    next
      case 2
      note e = "1.prems" [unfolded enter_stage_steps(3) [OF Some 2]]
      obtain r where r: "route (we_parse E) s (wf_context w) = Inr r" using e by (cases "route (we_parse E) s (wf_context w)") auto
      show ?thesis
      proof (cases r)
        case None
        then show ?thesis using e r by simp
      next
        case (Some nxt)
        then show ?thesis using "1.IH" [OF \<open>map_of (we_stages E) k = Some s\<close> 2 r [unfolded Some]] e r by simp
      qed
    next
      case 3
      note e = "1.prems" [unfolded enter_stage_steps(4) [OF Some 3]]
      then obtain ok where m: "materialize_stage E s sla w = Inr (w', ok)" "st = (if ok then k else needs_attention)"
        by (cases "materialize_stage E s sla w") auto
      from materialize_cases [OF m(1) Some] m(2) show ?thesis by (cases ok) simp_all
    qed
  qed
qed

lemma inv_opened:
  assumes "wf_inv w" "\<forall>t \<in> set (wf_tasks w). tk_state t \<noteq> T_PENDING" "keyed E"
    and "wf_outcomes v = wf_outcomes w" "wf_tasks v = wf_tasks w \<or> opened E w v (wf_state v)"
  shows "wf_inv v"
  using assms(5)
proof
  assume "wf_tasks v = wf_tasks w"
  then show ?thesis using assms by (auto simp: wf_inv_def stage_outcomes_shape shape_def)
next
  assume "opened E w v (wf_state v)"
  then obtain s pool due where s: "map_of (we_stages E) (wf_state v) = Some s"
    and t: "wf_tasks v = wf_tasks w @ new_tasks (length (wf_tasks w)) s due pool"
    unfolding opened_def by blast
  let ?ts = "new_tasks (length (wf_tasks w)) s due pool"
  have key: "st_key s = wf_state v" using assms(3) map_of_SomeD [OF s] by (auto simp: keyed_def)
  have "map tk_id (wf_tasks v) = [0..<length (wf_tasks w)] @ [length (wf_tasks w)..<length (wf_tasks w) + length pool]"
    by (simp only: t map_append wf_invD(1) [OF assms(1)] new_tasks_facts(2))
  also have "\<dots> = [0..<length (wf_tasks w) + length pool]" by (simp only: upt_add_eq_append [OF le0])
  finally have ids: "map tk_id (wf_tasks v) = [0..<length (wf_tasks v)]" by (simp add: t new_tasks_facts(1))
  have out: "oc_task oc < length (wf_tasks w)" if "oc \<in> set (wf_outcomes w)" for oc
    by (rule outcome_bound [OF assms(1) that])
  have "(oc_task oc, k) \<in> shape v \<longleftrightarrow> (oc_task oc, k) \<in> shape w" if "oc \<in> set (wf_outcomes w)" for oc k
  proof -
    have "(oc_task oc, k) \<notin> (\<lambda>t. (tk_id t, tk_stage t)) ` set ?ts"
      using new_tasks_facts(3) [of _ "length (wf_tasks w)" s due pool] out [OF that] by force
    then show ?thesis by (simp add: shape_def t image_Un)
  qed
  then have so: "stage_outcomes v k = stage_outcomes w k" for k
    unfolding stage_outcomes_shape assms(4) by (intro filter_cong) auto
  have dn: "{t \<in> set (wf_tasks v). tk_state t = T_DONE} = {t \<in> set (wf_tasks w). tk_state t = T_DONE}"
    using new_tasks_facts(3) by (auto simp: t)
  show ?thesis
    unfolding wf_inv_def
  proof (intro conjI)
    show "map tk_id (wf_tasks v) = [0..<length (wf_tasks v)]" by (rule ids)
    show "\<forall>t \<in> set (wf_tasks v). tk_state t \<in> {T_PENDING, T_DONE, T_SKIPPED}"
      using wf_invD(2) [OF assms(1)] new_tasks_facts(3) by (auto simp: t)
    show "\<forall>t \<in> set (wf_tasks v). tk_state t = T_PENDING \<longrightarrow> tk_stage t = wf_state v"
      using assms(2) new_tasks_facts(3) key by (auto simp: t)
    show "distinct (map oc_task (wf_outcomes v))" using wf_invD(4) [OF assms(1)] assms(4) by simp
    show "oc_task ` set (wf_outcomes v) = tk_id ` {t \<in> set (wf_tasks v). tk_state t = T_DONE}"
      using wf_invD(5) [OF assms(1)] by (simp add: assms(4) dn)
    show "\<forall>k. distinct (map oc_by (filter (\<lambda>oc. positive (oc_kind oc)) (stage_outcomes v k)))"
      using wf_invD(6) [OF assms(1)] so by simp
  qed
qed

subsection \<open>Deciding\<close>

lemma map_tasks_shape:
  assumes "wf_tasks v = map f (wf_tasks w)"
    and f: "\<And>x. x \<in> set (wf_tasks w) \<Longrightarrow> tk_id (f x) = tk_id x \<and> tk_stage (f x) = tk_stage x"
  shows "shape v = shape w \<and> map tk_id (wf_tasks v) = map tk_id (wf_tasks w)"
proof
  have "(\<lambda>t. (tk_id t, tk_stage t)) ` f ` set (wf_tasks w) = (\<lambda>t. (tk_id t, tk_stage t)) ` set (wf_tasks w)"
    unfolding image_image by (rule image_cong) (simp_all add: f)
  then show "shape v = shape w" by (simp add: shape_def assms(1))
  show "map tk_id (wf_tasks v) = map tk_id (wf_tasks w)" by (simp add: assms(1) f)
qed

lemma skip_siblings_facts:
  "shape (skip_siblings k m w) = shape w" "map tk_id (wf_tasks (skip_siblings k m w)) = map tk_id (wf_tasks w)"
  "wf_outcomes (skip_siblings k m w) = wf_outcomes w" "wf_context (skip_siblings k m w) = wf_context w"
  "length (wf_tasks (skip_siblings k m w)) = length (wf_tasks w)"
  "{t \<in> set (wf_tasks (skip_siblings k m w)). tk_state t = T_DONE} = {t \<in> set (wf_tasks w). tk_state t = T_DONE}"
proof -
  let ?f = "\<lambda>t. if tk_stage t = k \<and> tk_state t = T_PENDING then t\<lparr>tk_state := T_SKIPPED, tk_token := Some m\<rparr> else t"
  have w: "wf_tasks (skip_siblings k m w) = map ?f (wf_tasks w)" by (simp add: skip_siblings_def)
  show "shape (skip_siblings k m w) = shape w" "map tk_id (wf_tasks (skip_siblings k m w)) = map tk_id (wf_tasks w)"
    using map_tasks_shape [OF w] by auto
  have "tk_state (?f t) = T_DONE \<longleftrightarrow> tk_state t = T_DONE" "tk_state t = T_DONE \<Longrightarrow> ?f t = t" for t by auto
  then show "{t \<in> set (wf_tasks (skip_siblings k m w)). tk_state t = T_DONE} = {t \<in> set (wf_tasks w). tk_state t = T_DONE}"
    unfolding w set_map by force
qed (simp_all add: skip_siblings_def)

lemma inv_skip:
  assumes "wf_inv w" "wf_state w = k"
  shows "wf_inv (skip_siblings k m w)" "\<forall>t \<in> set (wf_tasks (skip_siblings k m w)). tk_state t \<noteq> T_PENDING"
proof -
  show pend: "\<forall>t \<in> set (wf_tasks (skip_siblings k m w)). tk_state t \<noteq> T_PENDING"
    using wf_invD(3) [OF assms(1)] assms(2) by (auto simp: skip_siblings_def)
  show "wf_inv (skip_siblings k m w)"
    unfolding wf_inv_def skip_siblings_facts stage_outcomes_shape
  proof (intro conjI)
    show "\<forall>t \<in> set (wf_tasks (skip_siblings k m w)). tk_state t \<in> {T_PENDING, T_DONE, T_SKIPPED}"
      using wf_invD(2) [OF assms(1)] by (auto simp: skip_siblings_def)
    show "\<forall>t \<in> set (wf_tasks (skip_siblings k m w)). tk_state t = T_PENDING \<longrightarrow> tk_stage t = wf_state (skip_siblings k m w)"
      using pend by blast
  qed (use wf_invD(1,4,5) [OF assms(1)] wf_invD(6) [OF assms(1), unfolded stage_outcomes_shape] in auto)
qed

lemma record_shape:
  assumes "wf_inv w" "t \<in> set (wf_tasks w)"
  shows "shape (record_decision E a t kind c key w) = shape w"
    "map tk_id (wf_tasks (record_decision E a t kind c key w)) = map tk_id (wf_tasks w)"
proof -
  let ?t = "t\<lparr>tk_state := T_DONE, tk_assignee := Some a, tk_token := key\<rparr>"
  have "tk_stage x = tk_stage ?t" if "x \<in> set (wf_tasks w)" "tk_id x = tk_id ?t" for x
    using same_task [OF assms(1) that(1) assms(2)] that(2) by simp
  then show "shape (record_decision E a t kind c key w) = shape w"
    "map tk_id (wf_tasks (record_decision E a t kind c key w)) = map tk_id (wf_tasks w)"
    using map_tasks_shape [of "record_decision E a t kind c key w" "\<lambda>x. if tk_id x = tk_id ?t then ?t else x" w]
    by (auto simp: record_decision_def put_task_def)
qed

lemma inv_record:
  assumes inv: "wf_inv w" and t: "t \<in> set (wf_tasks w)" "tk_state t = T_PENDING"
    and guard: "positive kind \<longrightarrow> \<not> list_ex (\<lambda>oc. positive (oc_kind oc) \<and> oc_by oc = a) (stage_outcomes w (tk_stage t))"
  shows "wf_inv (record_decision E a t kind c key w)"
proof -
  let ?w = "record_decision E a t kind c key w"
  let ?oc = "\<lparr>oc_task = tk_id t, oc_kind = kind, oc_comment = c, oc_at = we_now E, oc_by = a\<rparr>"
  let ?t = "t\<lparr>tk_state := T_DONE, tk_assignee := Some a, tk_token := key\<rparr>"
  have tasks: "wf_tasks ?w = map (\<lambda>x. if tk_id x = tk_id t then ?t else x) (wf_tasks w)"
    by (simp add: record_decision_def put_task_def)
  have outs: "wf_outcomes ?w = wf_outcomes w @ [?oc]" and state: "wf_state ?w = wf_state w"
    by (simp_all add: record_decision_def put_task_def)
  have new: "tk_id t \<notin> oc_task ` set (wf_outcomes w)"
  proof
    assume "tk_id t \<in> oc_task ` set (wf_outcomes w)"
    then obtain u where u: "u \<in> set (wf_tasks w)" "tk_id u = tk_id t" "tk_state u = T_DONE" using outcome_task [OF inv] by force
    then have "u = t" using same_task [OF inv _ t(1)] by blast
    then show False using u(3) t(2) by simp
  qed
  have dset: "tk_id ` {x \<in> set (wf_tasks ?w). tk_state x = T_DONE}
      = insert (tk_id t) (tk_id ` {x \<in> set (wf_tasks w). tk_state x = T_DONE})"
  proof -
    have ts: "set (wf_tasks ?w) = insert ?t {x \<in> set (wf_tasks w). tk_id x \<noteq> tk_id t}" unfolding tasks using t(1) by auto
    have "{x \<in> set (wf_tasks ?w). tk_state x = T_DONE}
        = insert ?t {x \<in> set (wf_tasks w). tk_id x \<noteq> tk_id t \<and> tk_state x = T_DONE}" unfolding ts by auto
    then show ?thesis by (simp only: image_insert) auto
  qed
  have so: "stage_outcomes ?w k = stage_outcomes w k @ (if (tk_id t, k) \<in> shape w then [?oc] else [])" for k
    by (simp add: stage_outcomes_shape record_shape [OF inv t(1)] outs)
  have in_shape: "(tk_id t, k) \<in> shape w \<longleftrightarrow> k = tk_stage t" for k
  proof
    assume "(tk_id t, k) \<in> shape w"
    then obtain u where u: "u \<in> set (wf_tasks w)" "tk_id u = tk_id t" "k = tk_stage u" unfolding shape_def by force
    then have "u = t" using same_task [OF inv _ t(1)] by blast
    then show "k = tk_stage t" using u(3) by simp
  qed (use t(1) in \<open>simp add: shape_def\<close>)
  show ?thesis
    unfolding wf_inv_def
  proof (intro conjI)
    show "map tk_id (wf_tasks ?w) = [0..<length (wf_tasks ?w)]"
      using wf_invD(1) [OF inv] by (simp only: record_shape(2) [OF inv t(1)]) (simp add: tasks)
    show "\<forall>x \<in> set (wf_tasks ?w). tk_state x \<in> {T_PENDING, T_DONE, T_SKIPPED}"
      using wf_invD(2) [OF inv] by (auto simp: tasks)
    show "\<forall>x \<in> set (wf_tasks ?w). tk_state x = T_PENDING \<longrightarrow> tk_stage x = wf_state ?w"
      using wf_invD(3) [OF inv] by (auto simp: tasks state)
    show "distinct (map oc_task (wf_outcomes ?w))" using wf_invD(4) [OF inv] new by (simp add: outs)
    show "oc_task ` set (wf_outcomes ?w) = tk_id ` {x \<in> set (wf_tasks ?w). tk_state x = T_DONE}"
      unfolding dset outs using wf_invD(5) [OF inv] by simp
    show "\<forall>k. distinct (map oc_by (filter (\<lambda>oc. positive (oc_kind oc)) (stage_outcomes ?w k)))"
      using wf_invD(6) [OF inv] guard by (auto simp: so in_shape list_ex_iff)
  qed
qed

text \<open>The cases of settling a stage.\<close>

lemma settle_cases:
  assumes "settle_stage E a k w = Inr (w', st, sig)"
  obtains (wait) "w' = w" "st = PENDING"
  | (lost) cur extra where "st = FAILED" "w' = stage_moved ''STAGE_FAILED'' a k cur extra (skip_siblings k failed_stage_skip w)"
  | (advance) s q cur u target where "st = MET" "map_of (we_stages E) k = Some s"
      "resolve_conditional (we_parse E) (st_quorum s) (wf_context w) = Inr (Some q)"
      "quorum_state q (int (card (approvers w k))) (int (reject_count w k)) (int (length (stage_tasks w k))) = Inr MET"
      "enter_stage E target (we_default_sla E) [] (skip_siblings k quorum_skip w) = Inr (u, cur)"
      "w' = stage_moved ''STAGE_ADVANCED'' a k cur [] u"
proof (cases "map_of (we_stages E) k")
  case None
  then show ?thesis using assms by (intro lost) (auto simp: settle_stage_def)
next
  case (Some s)
  obtain spec where spec: "resolve_conditional (we_parse E) (st_quorum s) (wf_context w) = Inr spec"
    using assms Some by (auto simp: settle_stage_def Let_def)
  show ?thesis
  proof (cases spec)
    case None
    then show ?thesis using assms Some spec by (intro lost) (auto simp: settle_stage_def Let_def)
  next
    case q: (Some q)
    obtain qs where qs: "quorum_state q (int (card (approvers w k))) (int (reject_count w k))
        (int (length (stage_tasks w k))) = Inr qs"
      using assms Some spec q by (auto simp: settle_stage_def Let_def)
    show ?thesis
    proof (cases qs)
      case PENDING
      then show ?thesis using assms Some spec q qs by (intro wait) (auto simp: settle_stage_def Let_def)
    next
      case MET
      then obtain to where to: "transition_target s success_on = Inr to"
        using assms Some spec q qs by (auto simp: settle_stage_def Let_def)
      let ?target = "case to of None \<Rightarrow> completed | Some x \<Rightarrow> if x = [] then completed else x"
      obtain u cur where u: "enter_stage E ?target (we_default_sla E) [] (skip_siblings k quorum_skip w) = Inr (u, cur)"
        "st = MET" "w' = stage_moved ''STAGE_ADVANCED'' a k cur [] u"
        using assms Some spec q qs MET to by (auto simp: settle_stage_def Let_def)
      show ?thesis by (rule advance [OF u(2) Some spec [unfolded q] qs [unfolded MET] u(1,3)])
    next
      case FAILED
      then obtain to where to: "transition_target s reject_on = Inr to"
        using assms Some spec q qs by (auto simp: settle_stage_def Let_def)
      then show ?thesis using assms Some spec q qs FAILED by (intro lost) (auto simp: settle_stage_def Let_def)
    qed
  qed
qed

lemma inv_settle:
  assumes "settle_stage E a k w = Inr (w', st, sig)" "wf_inv w" "wf_state w = k" "keyed E"
  shows "wf_inv w'"
  using assms(1)
proof (cases rule: settle_cases)
  case wait
  then show ?thesis using assms(2) by simp
next
  case (lost cur extra)
  note sk = inv_skip [OF assms(2,3), of failed_stage_skip]
  show ?thesis
    by (rule inv_opened [OF sk assms(4)]) (simp_all add: lost)
next
  case (advance s q cur u target)
  note sk = inv_skip [OF assms(2,3), of quorum_skip]
  from enter_stage_cases [OF advance(5)]
  have u: "wf_outcomes u = wf_outcomes (skip_siblings k quorum_skip w)"
    "u = skip_siblings k quorum_skip w \<or> opened E (skip_siblings k quorum_skip w) u cur" by blast+
  have "wf_tasks w' = wf_tasks (skip_siblings k quorum_skip w) \<or> opened E (skip_siblings k quorum_skip w) w' (wf_state w')"
    using u(2) by (auto simp: advance(6) opened_def)
  then show ?thesis
    by (intro inv_opened [OF sk assms(4)]) (simp_all add: advance(6) u(1))
qed

lemma replay_same: "replay_or_refuse t key w = Inr (w', r) \<Longrightarrow> w' = w \<and> rs_replayed r"
  by (auto simp: replay_or_refuse_def decided_response_def skipped_response_def split: task_state.splits option.splits if_splits)

lemma decide_cases:
  assumes "wf_decide E a i outcome c key w = Inr (w', r)" "wf_inv w"
  obtains (replayed) "w' = w" "rs_replayed r"
  | (fresh) t kind st sig where "t \<in> set (wf_tasks w)" "tk_id t = i" "tk_state t = T_PENDING" "parse_outcome outcome = Some kind"
      "positive kind \<longrightarrow> \<not> list_ex (\<lambda>oc. positive (oc_kind oc) \<and> oc_by oc = a) (stage_outcomes w (tk_stage t))"
      "settle_stage E a (tk_stage t) (record_decision E a t kind c key w) = Inr (w', st, sig)"
      "r = decided_response t \<lparr>oc_task = i, oc_kind = kind, oc_comment = c, oc_at = we_now E, oc_by = a\<rparr>
         (quorum_value st) (wf_state w') sig False"
proof -
  obtain t where g: "get_task w i = Some t" using assms(1) by (cases "get_task w i") (simp_all add: wf_decide_def)
  then have t: "t \<in> set (wf_tasks w)" "tk_id t = i" using get_task_Some [OF assms(2)] by blast+
  show thesis
  proof (cases "tk_state t = T_PENDING")
    case False
    then have "replay_or_refuse t key w = Inr (w', r)" using assms(1) g by (simp add: wf_decide_def)
    then show ?thesis using replay_same replayed by blast
  next
    case True
    obtain kind where k: "parse_outcome outcome = Some kind"
      using assms(1) g True by (cases "parse_outcome outcome") (simp_all add: wf_decide_def)
    have guard: "\<not> (positive kind \<and> list_ex (\<lambda>oc. positive (oc_kind oc) \<and> oc_by oc = a) (stage_outcomes w (tk_stage t)))"
      using assms(1) g True k by (auto simp: wf_decide_def split: if_splits)
    obtain st sig where "settle_stage E a (tk_stage t) (record_decision E a t kind c key w) = Inr (w', st, sig)"
      "r = decided_response t \<lparr>oc_task = i, oc_kind = kind, oc_comment = c, oc_at = we_now E, oc_by = a\<rparr>
         (quorum_value st) (wf_state w') sig False"
      using assms(1) g True k guard
      by (cases "settle_stage E a (tk_stage t) (record_decision E a t kind c key w)")
        (auto simp: wf_decide_def lift_wf_def Let_def)
    then show ?thesis using fresh t True k guard by blast
  qed
qed

lemma inv_decide:
  assumes "wf_decide E a i outcome c key w = Inr (w', r)" "wf_inv w" "keyed E"
  shows "wf_inv w'"
  using assms(1,2)
proof (cases rule: decide_cases)
  case (fresh t kind st sig)
  have "wf_state (record_decision E a t kind c key w) = tk_stage t"
    using wf_invD(3) [OF assms(2) fresh(1,3)] by (simp add: record_decision_def put_task_def)
  then show ?thesis
    by (rule inv_settle [OF fresh(6) inv_record [OF assms(2) fresh(1,3,5)] _ assms(3)])
qed (use assms(2) in simp)

end
