(* ===== verification/WorkflowProps.thy ===== *)
theory WorkflowProps
  imports WorkflowInv
begin

text \<open>The promises of the workflow engine over every run of an instance, with a two-stage example.\<close>

subsection \<open>Runs\<close>

text \<open>The stages of an instance are fixed; the clock, the roles and the rest of the environment may
change from one decision to the next.\<close>

inductive wf_reach :: "wf_env \<Rightarrow> wf \<Rightarrow> bool" for E where
  wf_start: "we_stages E' = we_stages E \<Longrightarrow> instantiate E' ds st ctx actor = Inr w \<Longrightarrow> wf_reach E w"
| wf_step: "wf_reach E w \<Longrightarrow> we_stages E' = we_stages E \<Longrightarrow> wf_decide E' a i oc c key w = Inr (w', r) \<Longrightarrow> wf_reach E w'"

inductive_cases wf_reachE [step_elims]: "wf_reach E w"

lemma instantiate_inv:
  assumes "instantiate E ds st ctx actor = Inr w" "keyed E"
  shows "wf_inv w"
proof -
  obtain entry where e: "entry_key ds (we_stages E) = Some entry"
    using assms(1) by (cases "entry_key ds (we_stages E)") (simp_all add: instantiate_def)
  define w0 where "w0 = \<lparr>wf_subject_type = st, wf_context = ctx, wf_state = entry, wf_tasks = [], wf_outcomes = [],
    wf_events = [], wf_notified = []\<rparr>"
  have inv0: "wf_inv w0" "\<forall>t \<in> set (wf_tasks w0). tk_state t \<noteq> T_PENDING"
    by (simp_all add: w0_def wf_inv_def stage_outcomes_def)
  obtain bad where bad: "any_invalid (we_stages E) = Inr bad"
    using assms(1) e by (cases "any_invalid (we_stages E)") (simp_all add: instantiate_def lift_wf_def)
  obtain u cur where u: "(if bad then Inr (w0, needs_attention) else enter_stage E entry (we_default_sla E) [] w0) = Inr (u, cur)"
    "wf_tasks w = wf_tasks u" "wf_outcomes w = wf_outcomes u" "wf_state w = cur"
    using assms(1) e bad
    by (cases bad; cases "enter_stage E entry (we_default_sla E) [] w0")
      (auto simp: instantiate_def lift_wf_def Let_def w0_def)
  have "wf_outcomes u = wf_outcomes w0 \<and> (u = w0 \<or> opened E w0 u cur)"
    using u(1) enter_stage_cases by (cases bad) auto
  then show ?thesis
    using u by (intro inv_opened [OF inv0 assms(2)]) (auto simp: opened_def)
qed

lemma wf_reach_inv: "wf_reach E w \<Longrightarrow> keyed E \<Longrightarrow> wf_inv w"
proof (induction rule: wf_reach.induct)
  case (wf_start E' ds st ctx actor w)
  then show ?case by (intro instantiate_inv [of E']) (simp_all add: keyed_def)
next
  case (wf_step w E' a i oc c key w' r)
  then show ?case by (intro inv_decide [OF wf_step.hyps(3)]) (simp_all add: keyed_def)
qed

lemma once: "distinct (map f xs) \<Longrightarrow> length (filter (\<lambda>x. f x = y) xs) = (if y \<in> set (map f xs) then 1 else 0)"
  by (induction xs) (auto simp: filter_empty_conv)

text \<open>C9: in every state an instance can reach, its open tasks belong to the stage it is in, each decided
task has exactly one recorded outcome and each other task none, and no actor has approved two tasks of
one stage, so that counting approvers counts approvals.\<close>

theorem workflow_invariant:
  assumes "keyed E" "wf_reach E w"
  shows "(\<forall>t \<in> set (wf_tasks w). tk_state t = T_PENDING \<longrightarrow> tk_stage t = wf_state w)
    \<and> (\<forall>t \<in> set (wf_tasks w). length (filter (\<lambda>oc. oc_task oc = tk_id t) (wf_outcomes w)) = (if tk_state t = T_DONE then 1 else 0))
    \<and> (\<forall>k. card (approvers w k) = length (filter (\<lambda>oc. positive (oc_kind oc)) (stage_outcomes w k)))"
proof (intro conjI)
  note inv = wf_reach_inv [OF assms(2,1)]
  show "\<forall>t \<in> set (wf_tasks w). tk_state t = T_PENDING \<longrightarrow> tk_stage t = wf_state w" using wf_invD(3) [OF inv] by blast
  show "\<forall>t \<in> set (wf_tasks w). length (filter (\<lambda>oc. oc_task oc = tk_id t) (wf_outcomes w)) = (if tk_state t = T_DONE then 1 else 0)"
  proof
    fix t assume t: "t \<in> set (wf_tasks w)"
    have "tk_id t \<in> set (map oc_task (wf_outcomes w)) \<longleftrightarrow> tk_state t = T_DONE"
    proof
      assume "tk_id t \<in> set (map oc_task (wf_outcomes w))"
      then obtain u where u: "u \<in> set (wf_tasks w)" "tk_id u = tk_id t" "tk_state u = T_DONE" using outcome_task [OF inv] by force
      then have "u = t" using same_task [OF inv _ t] by blast
      then show "tk_state t = T_DONE" using u(3) by simp
    next
      assume "tk_state t = T_DONE"
      then have "tk_id t \<in> tk_id ` {t \<in> set (wf_tasks w). tk_state t = T_DONE}" using t by blast
      then show "tk_id t \<in> set (map oc_task (wf_outcomes w))" using wf_invD(5) [OF inv] by simp
    qed
    then show "length (filter (\<lambda>oc. oc_task oc = tk_id t) (wf_outcomes w)) = (if tk_state t = T_DONE then 1 else 0)"
      using once [OF wf_invD(4) [OF inv]] by simp
  qed
  show "\<forall>k. card (approvers w k) = length (filter (\<lambda>oc. positive (oc_kind oc)) (stage_outcomes w k))"
  proof
    fix k
    have "card (set (map oc_by (filter (\<lambda>oc. positive (oc_kind oc)) (stage_outcomes w k))))
        = length (map oc_by (filter (\<lambda>oc. positive (oc_kind oc)) (stage_outcomes w k)))"
      by (rule distinct_card [OF wf_invD(6) [OF inv]])
    then show "card (approvers w k) = length (filter (\<lambda>oc. positive (oc_kind oc)) (stage_outcomes w k))"
      by (simp add: approvers_def)
  qed
qed

subsection \<open>A two-stage example\<close>

text \<open>Two quality managers must both approve, then one of top management.\<close>

definition role_stage :: "string \<Rightarrow> string \<Rightarrow> string \<Rightarrow> json \<Rightarrow> stage" where
  "role_stage k role q ts = \<lparr>st_key = k, st_mode = PARALLEL, st_assignees = Some [(''roles'', JList [JStr role])],
     st_quorum = JObj [(''type'', JStr q)], st_transitions = ts, st_sla = None, st_signature = JNull\<rparr>"

definition capa_env :: wf_env where
  "capa_env = \<lparr>we_parse = (\<lambda>_. None),
     we_stages = [(''qm'', role_stage ''qm'' ''QM'' ''ALL'' (JList [JObj [(''on'', JStr ''satisfied''), (''to'', JStr ''top'')]])),
                  (''top'', role_stage ''top'' ''TOP'' ''ANY'' JNull)],
     we_default_sla = None, we_assignments = [(1, ''QM'', None), (2, ''QM'', None), (3, ''TOP'', None)],
     we_snap = (\<lambda>t. t), we_now = 0\<rparr>"

definition opened_wf :: wf where
  "opened_wf = (case instantiate capa_env (JObj [(''entry'', JStr ''qm'')]) ''CAPA'' None None of Inr w \<Rightarrow> w
     | Inl _ \<Rightarrow> \<lparr>wf_subject_type = [], wf_context = None, wf_state = [], wf_tasks = [], wf_outcomes = [], wf_events = [], wf_notified = []\<rparr>)"

definition decide_demo :: "uuid \<Rightarrow> nat \<Rightarrow> wf \<Rightarrow> wf" where
  "decide_demo a i w = (case wf_decide capa_env a i ''approve'' None (Some ''k'') w of Inr (w', _) \<Rightarrow> w' | Inl _ \<Rightarrow> w)"

declare uuid_str_def [code del]

lemma demo_runs:
  "isl (instantiate capa_env (JObj [(''entry'', JStr ''qm'')]) ''CAPA'' None None) = False"
  "map tk_state (wf_tasks opened_wf) = [T_PENDING, T_PENDING] \<and> wf_state opened_wf = ''qm''"
  "isl (wf_decide capa_env 1 0 ''approve'' None (Some ''k'') opened_wf) = False"
  "case wf_decide capa_env 2 1 ''approve'' None (Some ''k'') (decide_demo 1 0 opened_wf) of
     Inr (w, r) \<Rightarrow> rs_stage_state r = ''MET'' \<and> wf_state w = ''top'' \<and> \<not> rs_replayed r | Inl _ \<Rightarrow> False"
  by code_simp+

declare uuid_str_def [code]

lemma keyed_demo: "keyed capa_env"
  by (simp add: keyed_def capa_env_def role_stage_def)

lemma demo_reach: "wf_reach capa_env opened_wf" "wf_reach capa_env (decide_demo 1 0 opened_wf)"
proof -
  obtain w where w: "instantiate capa_env (JObj [(''entry'', JStr ''qm'')]) ''CAPA'' None None = Inr w"
    using demo_runs(1) by (cases "instantiate capa_env (JObj [(''entry'', JStr ''qm'')]) ''CAPA'' None None") auto
  then have "opened_wf = w" by (simp add: opened_wf_def)
  with wf_start [OF refl w] show o: "wf_reach capa_env opened_wf" by simp
  obtain v r where v: "wf_decide capa_env 1 0 ''approve'' None (Some ''k'') opened_wf = Inr (v, r)"
    using demo_runs(3) by (cases "wf_decide capa_env 1 0 ''approve'' None (Some ''k'') opened_wf") auto
  then have "decide_demo 1 0 opened_wf = v" by (simp add: decide_demo_def)
  with wf_step [OF o refl v] show "wf_reach capa_env (decide_demo 1 0 opened_wf)" by simp
qed

lemma workflow_invariant_witness:
  "wf_reach capa_env opened_wf
   \<and> filter (\<lambda>t. tk_state t = T_PENDING \<and> tk_stage t \<noteq> ''qm'') (wf_tasks opened_wf) = []"
  using workflow_invariant [OF keyed_demo demo_reach(1)] demo_reach(1) demo_runs(2)
  by (simp add: filter_empty_conv)

subsection \<open>Advancing and replaying\<close>

lemma quorum_met_needs:
  assumes "quorum_state spec a r m = Inr MET" "0 \<le> a" "0 < m"
  shows "\<exists>need. required_approvals spec m = Inr need \<and> need \<le> a"
  using assms(1)
proof (cases rule: quorum_cases)
  case is_all
  then show ?thesis using assms by (auto split: if_splits)
next
  case (is_n n)
  then show ?thesis using assms by (auto split: if_splits)
next
  case (is_p p)
  then show ?thesis using assms by (auto simp: ceil_div_le split: if_splits)
qed

lemma quorum_value_MET [simp]: "quorum_value st = ''MET'' \<longleftrightarrow> st = MET"
  by (cases st) auto

text \<open>C20: a stage is passed only on the approvals it demands. When a decision reports its stage as met, the
stage's quorum resolves to a specification for whose number of tasks at least the required number of
distinct people have approved, this decision included, and no task of the stage is left open.\<close>

theorem advance_meets_quorum:
  assumes "keyed E" "wf_reach E w" "wf_decide E a i outcome c key w = Inr (w', r)"
    and "rs_stage_state r = ''MET''" "\<not> rs_replayed r"
  shows "\<exists>t s q kind need. t \<in> set (wf_tasks w) \<and> tk_id t = i \<and> map_of (we_stages E) (tk_stage t) = Some s
    \<and> resolve_conditional (we_parse E) (st_quorum s) (wf_context w) = Inr (Some q)
    \<and> parse_outcome outcome = Some kind
    \<and> required_approvals q (int (length (stage_tasks w (tk_stage t)))) = Inr need
    \<and> need \<le> int (card (approvers (record_decision E a t kind c key w) (tk_stage t)))
    \<and> (\<forall>u \<in> set (wf_tasks w). tk_stage u = tk_stage t \<longrightarrow>
         (\<forall>v \<in> set (wf_tasks w'). tk_id v = tk_id u \<longrightarrow> tk_state v \<noteq> T_PENDING))"
proof -
  note inv = wf_reach_inv [OF assms(2,1)]
  from assms(3) inv show ?thesis
  proof (cases rule: decide_cases)
    case replayed
    then show ?thesis using assms(5) by simp
  next
    case (fresh t kind st sig)
    let ?w = "record_decision E a t kind c key w" and ?k = "tk_stage t"
    have st: "st = MET" using fresh(7) assms(4) by (simp add: decided_response_def)
    have state: "wf_state ?w = ?k"
      using wf_invD(3) [OF inv fresh(1,3)] by (simp add: record_decision_def put_task_def)
    note inv1 = inv_record [OF inv fresh(1,3,5)]
    have ids: "length (stage_tasks ?w ?k) = length (stage_tasks w ?k)"
    proof -
      have "map tk_stage (wf_tasks ?w) = map tk_stage (wf_tasks w)"
        using same_task [OF inv _ fresh(1)] by (auto simp: record_decision_def put_task_def)
      then have "length (filter (\<lambda>x. x = ?k) (map tk_stage (wf_tasks ?w))) = length (filter (\<lambda>x. x = ?k) (map tk_stage (wf_tasks w)))"
        by simp
      then show ?thesis by (simp add: stage_tasks_def filter_map comp_def)
    qed
    have ctx: "wf_context ?w = wf_context w" by (simp add: record_decision_def put_task_def)
    from fresh(6) show ?thesis
    proof (cases rule: settle_cases)
      case (advance s q cur u target)
      have pos: "0 < length (stage_tasks w ?k)" using fresh(1) by (auto simp: stage_tasks_def filter_empty_conv)
      from quorum_met_needs [OF advance(4)] pos obtain need where need:
        "required_approvals q (int (length (stage_tasks ?w ?k))) = Inr need" "need \<le> int (card (approvers ?w ?k))"
        by (auto simp: ids)
      note sk = inv_skip [OF inv1 state, of quorum_skip]
      have len: "length (wf_tasks (skip_siblings ?k quorum_skip ?w)) = length (wf_tasks w)"
        using record_shape(2) [OF inv fresh(1), THEN arg_cong [of _ _ length]] by (simp add: skip_siblings_facts)
      have open_new: "v \<in> set (wf_tasks (skip_siblings ?k quorum_skip ?w)) \<or> length (wf_tasks w) \<le> tk_id v"
        if "v \<in> set (wf_tasks w')" for v
        using that enter_stage_cases [OF advance(5)] new_tasks_facts(3) len by (auto simp: advance(6) opened_def)
      have "tk_state v \<noteq> T_PENDING" if "x \<in> set (wf_tasks w)" "v \<in> set (wf_tasks w')" "tk_id v = tk_id x" for x v
        using open_new [OF that(2)] sk(2) task_id_bound [OF inv that(1)] that(3) by auto
      then show ?thesis using fresh(1,2,4) advance(2,3) need unfolding ids ctx by blast
    qed (use st in simp_all)
  qed
qed

lemma advance_meets_quorum_witness:
  "\<exists>w' r t s. wf_decide capa_env 2 1 ''approve'' None (Some ''k'') (decide_demo 1 0 opened_wf) = Inr (w', r)
     \<and> rs_stage_state r = ''MET'' \<and> t \<in> set (wf_tasks (decide_demo 1 0 opened_wf)) \<and> tk_id t = 1
     \<and> map_of (we_stages capa_env) (tk_stage t) = Some s"
proof -
  obtain w' r where d: "wf_decide capa_env 2 1 ''approve'' None (Some ''k'') (decide_demo 1 0 opened_wf) = Inr (w', r)"
    "rs_stage_state r = ''MET''" "\<not> rs_replayed r"
    using demo_runs(4) by (auto split: sum.splits prod.splits)
  from advance_meets_quorum [OF keyed_demo demo_reach(2) d] d(1,2) show ?thesis by blast
qed

lemma find_unique: "distinct (map f xs) \<Longrightarrow> x \<in> set xs \<Longrightarrow> find (\<lambda>y. f y = f x) xs = Some x"
  by (induction xs) auto

text \<open>What settling leaves of the decided tasks and of the outcomes.\<close>

lemma settle_keeps:
  assumes "settle_stage E a k w = Inr (w', st, sig)"
  shows "wf_outcomes w' = wf_outcomes w \<and> {t \<in> set (wf_tasks w). tk_state t = T_DONE} \<subseteq> set (wf_tasks w')"
  using assms
proof (cases rule: settle_cases)
  case (lost cur extra)
  then show ?thesis using skip_siblings_facts(6) [of k failed_stage_skip w] by (auto simp: skip_siblings_facts(3))
next
  case (advance s q cur u target)
  have "set (wf_tasks (skip_siblings k quorum_skip w)) \<subseteq> set (wf_tasks u)" "wf_outcomes u = wf_outcomes w"
    using enter_stage_cases [OF advance(5)] by (auto simp: opened_def skip_siblings_facts(3))
  then show ?thesis using skip_siblings_facts(6) [of k quorum_skip w] by (auto simp: advance(6))
qed simp

text \<open>C27: deciding is idempotent under its key. After a decision under a key, deciding the task again with
that key, by anyone and with any outcome, changes nothing and reports the recorded decision; deciding it
with another key or with none is refused as a conflict.\<close>

theorem decision_replays:
  assumes "keyed E" "wf_reach E w" "wf_decide E a i outcome c (Some key) w = Inr (w', r)" "\<not> rs_replayed r"
  shows "(\<exists>r'. wf_decide E' b i oc' c' (Some key) w' = Inr (w', r') \<and> rs_replayed r'
      \<and> rs_outcome r' = rs_outcome r \<and> rs_by r' = Some a \<and> rs_at r' = rs_at r \<and> rs_comment r' = c)
    \<and> (key' \<noteq> Some key \<longrightarrow> wf_decide E' b i oc' c' key' w' = Inl (WfProblem 409 ''conflict''))"
proof (rule conjI)
  note inv = wf_reach_inv [OF assms(2,1)]
  have core: "\<exists>t oc. get_task w' i = Some t \<and> tk_state t = T_DONE \<and> tk_token t = Some key \<and> get_outcome w' (tk_id t) = Some oc
      \<and> oc_by oc = a \<and> oc_comment oc = c \<and> rs_outcome r = Some (outcome_value (oc_kind oc)) \<and> rs_at r = Some (oc_at oc)"
    using assms(3) inv
  proof (cases rule: decide_cases)
    case replayed
    then show ?thesis using assms(4) by simp
  next
    case (fresh t kind st sig)
    let ?w = "record_decision E a t kind c (Some key) w"
    let ?t = "t\<lparr>tk_state := T_DONE, tk_assignee := Some a, tk_token := Some key\<rparr>"
    let ?oc = "\<lparr>oc_task = i, oc_kind = kind, oc_comment = c, oc_at = we_now E, oc_by = a\<rparr>"
    have inv': "wf_inv w'" by (rule inv_decide [OF assms(3) inv assms(1)])
    have "?t \<in> set (wf_tasks ?w)" using fresh(1) by (auto simp: record_decision_def put_task_def)
    then have tw: "?t \<in> set (wf_tasks w')" using settle_keeps [OF fresh(6)] by auto
    have "?oc \<in> set (wf_outcomes w')"
      using settle_keeps [OF fresh(6)] fresh(2) by (simp add: record_decision_def put_task_def)
    from find_unique [OF wf_invD(4) [OF inv'] this] have oc: "get_outcome w' i = Some ?oc" by (simp add: get_outcome_def)
    have "get_task w' i = Some ?t" using get_task_Some [OF inv'] tw fresh(2) by simp
    then show ?thesis using oc fresh(2,7)
      by (intro exI [of _ ?t] exI [of _ ?oc]) (simp add: decided_response_def)
  qed
  then obtain t oc where t: "get_task w' i = Some t" "tk_state t = T_DONE" "tk_token t = Some key"
    "get_outcome w' (tk_id t) = Some oc" "oc_by oc = a" "oc_comment oc = c" "rs_outcome r = Some (outcome_value (oc_kind oc))"
    "rs_at r = Some (oc_at oc)" by blast
  show "\<exists>r'. wf_decide E' b i oc' c' (Some key) w' = Inr (w', r') \<and> rs_replayed r'
      \<and> rs_outcome r' = rs_outcome r \<and> rs_by r' = Some a \<and> rs_at r' = rs_at r \<and> rs_comment r' = c"
    using t by (simp add: wf_decide_def replay_or_refuse_def decided_response_def)
  show "key' \<noteq> Some key \<longrightarrow> wf_decide E' b i oc' c' key' w' = Inl (WfProblem 409 ''conflict'')"
    using t by (cases key') (auto simp: wf_decide_def replay_or_refuse_def)
qed

lemma decision_replays_witness:
  "\<exists>w' r'. wf_decide capa_env 7 0 ''reject'' None (Some ''k'') w' = Inr (w', r') \<and> rs_by r' = Some 1
     \<and> rs_outcome r' = Some ''approve''"
proof -
  obtain w' r where d: "wf_decide capa_env 1 0 ''approve'' None (Some ''k'') opened_wf = Inr (w', r)"
    using demo_runs(3) by (cases "wf_decide capa_env 1 0 ''approve'' None (Some ''k'') opened_wf") auto
  have inv: "wf_inv opened_wf" by (rule wf_reach_inv [OF demo_reach(1) keyed_demo])
  have p: "map tk_state (wf_tasks opened_wf) = [T_PENDING, T_PENDING]" using demo_runs(2) by simp
  from d inv have "\<not> rs_replayed r \<and> rs_outcome r = Some ''approve''"
  proof (cases rule: decide_cases)
    case replayed
    have ids: "map tk_id (wf_tasks opened_wf) = [0, 1]" using wf_invD(1) [OF inv] p [THEN arg_cong [of _ _ length]] by simp
    obtain t where t: "get_task opened_wf 0 = Some t" using d by (cases "get_task opened_wf 0") (simp_all add: wf_decide_def)
    then have "t \<in> set (wf_tasks opened_wf)" using get_task_Some [OF inv] by blast
    then have "tk_state t = T_PENDING" using p by (metis insertE list.set_map image_eqI list.simps(15) empty_iff empty_set)
    then have "\<not> rs_replayed r" using d t by (auto simp: wf_decide_def decided_response_def Let_def split: option.splits if_splits)
    with replayed show ?thesis by simp
  next
    case (fresh t kind st sig)
    have "parse_outcome ''approve'' = Some O_approve" by code_simp
    then show ?thesis using fresh(4,7) by (simp add: decided_response_def)
  qed
  with decision_replays [OF keyed_demo demo_reach(1) d] show ?thesis by metis
qed


definition router_stage :: "string \<Rightarrow> string \<Rightarrow> stage" where
  "router_stage k nxt = \<lparr>st_key = k, st_mode = ROUTER, st_assignees = None, st_quorum = JNull,
     st_transitions = JList [JObj [(''default'', JStr nxt)]], st_sla = None, st_signature = JNull\<rparr>"


end
