(* ===== verification/Retention.thy ===== *)
theory Retention
  imports Dates
begin

text \<open>
  Retention durations and the resolution of the policy a captured record is pinned to
  (\<open>domain/records/retention.py\<close>): the ISO-8601 date durations with the errors Python raises on them,
  the end of retention, the object-lock horizon, and the two comparisons behind the extend-forward rule.
\<close>

datatype retention_basis = CAPTURED_AT | EMPLOYMENT_END | PRODUCT_EOL | CONTRACT_END | CAPA_CLOSED

datatype disposition_action = DESTROY | ARCHIVE_COLD | TRANSFER | RETAIN_PERMANENT

subsection \<open>Resolution by precedence\<close>

record policy_candidate =
  pc_policy :: uuid
  pc_basis :: retention_basis

record retention_input =
  ri_captured_at :: instant
  ri_system_default :: policy_candidate
  ri_record_type_default :: "policy_candidate option"
  ri_clause_default :: "policy_candidate option"
  ri_process_default :: "policy_candidate option"
  ri_override :: "policy_candidate option"

record retention_resolution =
  rr_policy :: uuid
  rr_tier :: string
  rr_basis :: retention_basis
  rr_basis_date :: "date option"

definition utc_date :: "instant \<Rightarrow> date" where
  "utc_date t = fromordinal (719163 + t div 86400000000)"

definition basis_date :: "retention_basis \<Rightarrow> instant \<Rightarrow> date option" where
  "basis_date b captured_at = (if b = CAPTURED_AT then Some (utc_date captured_at) else None)"

definition resolution :: "string \<Rightarrow> policy_candidate \<Rightarrow> instant \<Rightarrow> retention_resolution" where
  "resolution tier c captured_at =
     \<lparr>rr_policy = pc_policy c, rr_tier = tier, rr_basis = pc_basis c, rr_basis_date = basis_date (pc_basis c) captured_at\<rparr>"

fun first_tier :: "(string \<times> policy_candidate option) list \<Rightarrow> (string \<times> policy_candidate) option" where
  "first_tier [] = None"
| "first_tier ((tier, Some c) # ts) = Some (tier, c)"
| "first_tier ((tier, None) # ts) = first_tier ts"

definition resolve_retention :: "retention_input \<Rightarrow> retention_resolution" where
  "resolve_retention inp =
     (case first_tier [(''override'', ri_override inp), (''process'', ri_process_default inp),
                       (''clause'', ri_clause_default inp), (''record_type'', ri_record_type_default inp)] of
        Some (tier, c) \<Rightarrow> resolution tier c (ri_captured_at inp)
      | None \<Rightarrow> resolution ''system_default'' (ri_system_default inp) (ri_captured_at inp))"

subsection \<open>Durations\<close>

text \<open>One optional group \<open>(\d+)U\<close> of the duration pattern: the digits and the rest, or no group.\<close>

definition unit_group :: "char \<Rightarrow> string \<Rightarrow> string option \<times> string" where
  "unit_group u s =
     (let ds = takeWhile is_digit s; rest = dropWhile is_digit s in
      if ds \<noteq> [] \<and> rest \<noteq> [] \<and> hd rest = u then (Some ds, tl rest) else (None, s))"

type_synonym duration_groups = "string option \<times> string option \<times> string option \<times> string option"

definition match_duration :: "string \<Rightarrow> duration_groups option" where
  "match_duration s =
     (if take 1 s \<noteq> ''P'' then None
      else
        let (y, r1) = unit_group (CHR ''Y'') (drop 1 s);
            (m, r2) = unit_group (CHR ''M'') r1;
            (w, r3) = unit_group (CHR ''W'') r2;
            (d, r4) = unit_group (CHR ''D'') r3 in
        if r4 = [] then Some (y, m, w, d) else None)"

text \<open>\<open>int(v) if v else 0\<close>: Python refuses to convert more than 4300 digits.\<close>

definition group_int :: "string option \<Rightarrow> (py_error, int) result" where
  "group_int g =
     (case g of None \<Rightarrow> Inr 0
      | Some ds \<Rightarrow>
        if int (length ds) > 4300 then Inl ValueError
        else Inr (foldl (\<lambda>n c. 10 * n + int (digit_val c)) 0 ds))"

text \<open>\<open>date(y, m, d)\<close> and \<open>timedelta(days=n)\<close> overflow their C fields before their ranges are checked.\<close>

definition c_int_max :: int where "c_int_max = 2147483647"

definition retention_add_months :: "date \<Rightarrow> int \<Rightarrow> (py_error, date) result" where
  "retention_add_months d months =
     (let total = year d * 12 + (month d - 1) + months; y = total div 12; m = total mod 12 + 1;
          last_day = days_in_month y m in
      if y > c_int_max then Inl OverflowError else mk_date y m (min (day d) last_day))"

definition add_timedelta :: "date \<Rightarrow> int \<Rightarrow> (py_error, date) result" where
  "add_timedelta d n = (if abs n > 999999999 then Inl OverflowError else add_days d n)"

definition permanent :: string where "permanent = ''PERMANENT''"

definition norm_duration :: "string \<Rightarrow> string" where
  "norm_duration s = upper (strip s)"

definition elapse :: "date \<Rightarrow> int \<times> int \<times> int \<times> int \<Rightarrow> (py_error, date) result" where
  "elapse b q =
     (case q of (y, m, w, d) \<Rightarrow> bind_res (retention_add_months b (y * 12 + m)) (\<lambda>out. add_timedelta out (w * 7 + d)))"

definition duration_parts :: "string \<Rightarrow> (py_error, int \<times> int \<times> int \<times> int) result" where
  "duration_parts nrm =
     (case match_duration nrm of
        None \<Rightarrow> Inl ValueError
      | Some (y, m, w, d) \<Rightarrow>
        if y = None \<and> m = None \<and> w = None \<and> d = None then Inl ValueError
        else bind_res (group_int y) (\<lambda>yi. bind_res (group_int m) (\<lambda>mi. bind_res (group_int w) (\<lambda>wi.
             bind_res (group_int d) (\<lambda>di. Inr (yi, mi, wi, di))))))"

definition retention_until :: "date option \<Rightarrow> string \<Rightarrow> (py_error, date option) result" where
  "retention_until basis duration =
     (case basis of
        None \<Rightarrow> Inr None
      | Some b \<Rightarrow>
        let nrm = norm_duration duration in
        if nrm = permanent then Inr None
        else bind_res (duration_parts nrm) (\<lambda>q. bind_res (elapse b q) (\<lambda>e. Inr (Some e))))"

definition end_of_day :: "date \<Rightarrow> instant" where
  "end_of_day d = (toordinal d - 719163) * 86400000000 + 86399000000"

definition worm_lock_until :: "date option \<Rightarrow> string option \<Rightarrow> instant \<Rightarrow> (py_error, instant option) result" where
  "worm_lock_until basis period captured_at =
     (case period of
        None \<Rightarrow> Inr None
      | Some p \<Rightarrow>
        if norm_duration p = permanent then Inr None
        else
          let b = (case basis of None \<Rightarrow> utc_date captured_at | Some d \<Rightarrow> d) in
          bind_res (retention_until (Some b) p) (\<lambda>until. Inr (map_option end_of_day until)))"

definition reference_date :: date where "reference_date = Date 2000 1 1"

definition duration_ge :: "string \<Rightarrow> string \<Rightarrow> (py_error, bool) result" where
  "duration_ge a b =
     (let ua = norm_duration a; ub = norm_duration b in
      if ua = permanent then Inr True
      else if ub = permanent then Inr False
      else
        bind_res (retention_until (Some reference_date) ua) (\<lambda>ra.
        bind_res (retention_until (Some reference_date) ub) (\<lambda>rb.
        case (ra, rb) of (Some da, Some db) \<Rightarrow> Inr (db \<le> da) | _ \<Rightarrow> Inl AssertionError)))"

definition action_preservation_rank :: "disposition_action \<Rightarrow> nat" where
  "action_preservation_rank a = (case a of DESTROY \<Rightarrow> 0 | ARCHIVE_COLD \<Rightarrow> 1 | TRANSFER \<Rightarrow> 1 | RETAIN_PERMANENT \<Rightarrow> 2)"

subsection \<open>Normalised text\<close>

lemma upper_char_idem [simp]: "upper_char (upper_char c) = upper_char c"
proof (cases "CHR ''a'' \<le> c \<and> c \<le> CHR ''z''")
  case True
  then have n: "97 \<le> (of_char c :: nat)" "(of_char c :: nat) \<le> 122" by (simp_all add: less_eq_char_def)
  then have "(of_char (upper_char c) :: nat) = of_char c - 32"
    using True by (simp add: upper_char_def of_char_of)
  then have "\<not> CHR ''a'' \<le> upper_char c" using n by (simp add: less_eq_char_def)
  then show ?thesis by (simp add: upper_char_def [of "upper_char c"])
qed (auto simp: upper_char_def)

lemma is_space_upper [simp]: "is_space (upper_char c) = is_space c"
proof (cases "CHR ''a'' \<le> c \<and> c \<le> CHR ''z''")
  case True
  then have n: "97 \<le> (of_char c :: nat)" "(of_char c :: nat) \<le> 122" by (simp_all add: less_eq_char_def)
  then have "(of_char (upper_char c) :: nat) = of_char c - 32"
    using True by (simp add: upper_char_def of_char_of)
  then have "\<not> is_space (upper_char c)" "\<not> is_space c"
    using n by (auto simp: is_space_def)
  then show ?thesis by simp
qed (auto simp: upper_char_def)

lemma dropWhile_upper: "dropWhile is_space (map upper_char s) = map upper_char (dropWhile is_space s)"
  by (simp add: dropWhile_map comp_def)

lemma strip_upper: "strip (upper s) = upper (strip s)"
  by (simp add: strip_def strip_with_def upper_def dropWhile_upper rev_map)

lemma dropWhile_idem: "dropWhile p (dropWhile p s) = dropWhile p s"
  by (induction s) auto

lemma hd_prefix: "t = u @ w \<Longrightarrow> u \<noteq> [] \<Longrightarrow> hd t = hd u \<and> t \<noteq> []"
  by (cases u) auto

lemma strip_idem [simp]: "strip (strip s) = strip s"
proof -
  let ?t = "dropWhile is_space s"
  define u where "u = rev (dropWhile is_space (rev ?t))"
  have "dropWhile is_space u = u"
  proof (cases "u = []")
    case False
    have "rev ?t = takeWhile is_space (rev ?t) @ rev u" by (simp add: u_def)
    then have "?t = u @ rev (takeWhile is_space (rev ?t))" by (metis rev_append rev_rev_ident)
    from hd_prefix [OF this False] have "\<not> is_space (hd u)" using hd_dropWhile [of is_space s] by metis
    then show ?thesis using False by (cases u) auto
  qed simp
  then show ?thesis by (simp add: strip_def strip_with_def u_def dropWhile_idem)
qed

lemma norm_duration_idem [simp]: "norm_duration (norm_duration s) = norm_duration s"
  by (simp add: norm_duration_def strip_upper) (simp add: upper_def comp_def)

subsection \<open>Longer durations end later\<close>

lemma mk_date_Inr: "mk_date y m d = Inr e \<longleftrightarrow> e = Date y m d \<and> valid_date e"
  by (auto simp: mk_date_def)

lemma add_months_Inr:
  "retention_add_months b n = Inr e \<Longrightarrow>
     valid_date e \<and> year e = (year b * 12 + (month b - 1) + n) div 12 \<and>
     month e = (year b * 12 + (month b - 1) + n) mod 12 + 1 \<and>
     day e = min (day b) (days_in_month (year e) (month e))"
  by (auto simp: retention_add_months_def Let_def mk_date_Inr split: if_splits)

lemma month_number: "(t::int) div 12 < t' div 12 \<or> (t div 12 = t' div 12 \<and> t mod 12 < t' mod 12)" if "t < t'"
proof -
  have "t = 12 * (t div 12) + t mod 12" "t' = 12 * (t' div 12) + t' mod 12" by simp_all
  moreover have "0 \<le> t mod 12" "t mod 12 < 12" "0 \<le> t' mod 12" "t' mod 12 < 12" by simp_all
  ultimately show ?thesis using that by linarith
qed

lemma add_months_mono:
  assumes "retention_add_months b n = Inr e" "retention_add_months b n' = Inr e'" "n \<le> n'"
  shows "e \<le> e'"
proof (cases "n = n'")
  case False
  let ?t = "year b * 12 + (month b - 1) + n" and ?t' = "year b * 12 + (month b - 1) + n'"
  have "?t < ?t'" using False assms(3) by simp
  from month_number [OF this] show ?thesis
    using add_months_Inr [OF assms(1)] add_months_Inr [OF assms(2)] by (auto simp: less_eq_date_def)
qed (use assms in auto)

lemma add_months_0: "valid_date b \<Longrightarrow> retention_add_months b 0 = Inr b"
proof -
  assume v: "valid_date b"
  then have m: "1 \<le> month b" "month b \<le> 12" "day b \<le> days_in_month (year b) (month b)" "year b \<le> 9999"
    by (simp_all add: valid_date_def valid_ymd_def)
  then have "(year b * 12 + (month b - 1)) div 12 = year b" "(year b * 12 + (month b - 1)) mod 12 + 1 = month b"
    by simp_all
  with m v show ?thesis by (simp add: retention_add_months_def Let_def mk_date_def c_int_max_def)
qed

lemma add_timedelta_Inr: "add_timedelta d n = Inr e \<Longrightarrow> valid_date e \<and> toordinal e = toordinal d + n"
  by (simp add: add_timedelta_def add_days_Inr split: if_splits)

lemma valid_date_ymd: "valid_date d \<Longrightarrow> valid_ymd d"
  by (simp add: valid_date_def)

lemma add_timedelta_mono:
  assumes "add_timedelta d n = Inr e" "add_timedelta d' n' = Inr e'" "valid_date d" "valid_date d'" "d \<le> d'" "n \<le> n'"
  shows "e \<le> e'"
proof -
  have "toordinal d \<le> toordinal d'" using assms(3-5) toordinal_le_iff valid_date_ymd by blast
  then have "toordinal e \<le> toordinal e'"
    using add_timedelta_Inr [OF assms(1)] add_timedelta_Inr [OF assms(2)] assms(6) by linarith
  then show ?thesis
    using add_timedelta_Inr [OF assms(1)] add_timedelta_Inr [OF assms(2)] toordinal_le_iff valid_date_ymd by blast
qed

fun parts_le :: "int \<times> int \<times> int \<times> int \<Rightarrow> int \<times> int \<times> int \<times> int \<Rightarrow> bool" where
  "parts_le (y, m, w, d) (y', m', w', d') \<longleftrightarrow> y \<le> y' \<and> m \<le> m' \<and> w \<le> w' \<and> d \<le> d'"

lemma elapse_mono:
  assumes "elapse b p = Inr e" "elapse b q = Inr e'" "parts_le p q"
  shows "e \<le> e'"
proof -
  obtain y m w d y' m' w' d' where pq: "p = (y, m, w, d)" "q = (y', m', w', d')" by (metis prod_cases4)
  obtain x where x: "retention_add_months b (y * 12 + m) = Inr x" "add_timedelta x (w * 7 + d) = Inr e"
    using assms(1) pq by (auto simp: elapse_def)
  obtain x' where x': "retention_add_months b (y' * 12 + m') = Inr x'" "add_timedelta x' (w' * 7 + d') = Inr e'"
    using assms(2) pq by (auto simp: elapse_def)
  have "x \<le> x'" using add_months_mono [OF x(1) x'(1)] assms(3) pq by simp
  then show ?thesis
    using add_timedelta_mono [OF x(2) x'(2)] add_months_Inr [OF x(1)] add_months_Inr [OF x'(1)] assms(3) pq by simp
qed

lemma group_int_nonneg: "group_int g = Inr i \<Longrightarrow> 0 \<le> i"
proof (cases g)
  case (Some ds)
  have "0 \<le> n \<Longrightarrow> 0 \<le> foldl (\<lambda>n c. 10 * n + int (digit_val c)) n ds" for n by (induction ds arbitrary: n) auto
  then show "group_int g = Inr i \<Longrightarrow> 0 \<le> i" using Some by (auto simp: group_int_def split: if_splits)
qed (simp add: group_int_def)

lemma duration_parts_nonneg: "duration_parts s = Inr p \<Longrightarrow> parts_le (0, 0, 0, 0) p"
  by (auto simp: duration_parts_def group_int_nonneg split: option.splits if_splits)

lemma elapse_0: "valid_date b \<Longrightarrow> elapse b (0, 0, 0, 0) = Inr b"
  using valid_date_ordinal [of b] fromordinal_toordinal [of b]
  by (simp add: elapse_def add_months_0 add_timedelta_def add_days_def valid_date_ymd)

lemma retention_until_Some:
  "retention_until (Some b) s = Inr (Some e) \<longleftrightarrow>
     norm_duration s \<noteq> permanent \<and> (\<exists>p. duration_parts (norm_duration s) = Inr p \<and> elapse b p = Inr e)"
  by (simp add: retention_until_def Let_def)

lemma not_permanent: "duration_parts (norm_duration s) = Inr p \<Longrightarrow> norm_duration s \<noteq> permanent"
proof
  assume p: "duration_parts (norm_duration s) = Inr p" and n: "norm_duration s = permanent"
  have "duration_parts permanent = Inl ValueError" by code_simp
  with p n show False by simp
qed

text \<open>C35: The retention clock is monotone. A duration that is at least another one in every unit never
  ends earlier, whatever the basis date, the record is retained at least from its basis date, and
  the comparison behind the extend-forward rule agrees.\<close>

theorem longer_duration_ends_later:
  assumes "duration_parts (norm_duration a) = Inr p" and "duration_parts (norm_duration b) = Inr q"
    and "parts_le q p" and "valid_date basis"
    and "retention_until (Some basis) a = Inr (Some ea)" and "retention_until (Some basis) b = Inr (Some eb)"
    and "retention_until (Some reference_date) a = Inr (Some ra)" and "retention_until (Some reference_date) b = Inr (Some rb)"
  shows "basis \<le> eb \<and> eb \<le> ea \<and> duration_ge a b = Inr True"
proof -
  have a: "elapse basis p = Inr ea" and b: "elapse basis q = Inr eb"
    using assms(1,2,5,6) by (simp_all add: retention_until_Some)
  have "elapse reference_date p = Inr ra" "elapse reference_date q = Inr rb"
    using assms(1,2,7,8) by (simp_all add: retention_until_Some)
  from elapse_mono [OF this(2,1) assms(3)] have r: "rb \<le> ra" .
  have "duration_ge a b = Inr True"
    using r assms(1,2,7,8) not_permanent [OF assms(1)] not_permanent [OF assms(2)]
    by (simp add: duration_ge_def retention_until_def Let_def)
  moreover have "basis \<le> eb"
    using elapse_mono [OF elapse_0 [OF assms(4)] b] duration_parts_nonneg [OF assms(2)] by simp
  moreover have "eb \<le> ea" using elapse_mono [OF b a assms(3)] .
  ultimately show ?thesis by simp
qed

theorem longer_duration_ends_later_witness:
  "Date 2024 1 31 \<le> Date 2024 2 29 \<and> Date 2024 2 29 \<le> Date 2027 3 10 \<and> duration_ge '' p3y1m1w3d '' ''P1M'' = Inr True"
  by (rule longer_duration_ends_later [where p = "(3, 1, 1, 3)" and q = "(0, 1, 0, 0)" and ra = "Date 2003 2 11" and rb = "Date 2000 2 1"])
    code_simp+

text \<open>The comparison looks from 2000-01-01 only: a month counts as 31 days, so a policy of 31 days may be
replaced by one of a month, which from a day in February ends three days earlier.\<close>

lemma month_for_31_days:
  "duration_ge ''P1M'' ''P31D'' = Inr True"
  "retention_until (Some (Date 2026 2 1)) ''P1M'' = Inr (Some (Date 2026 3 1))"
  "retention_until (Some (Date 2026 2 1)) ''P31D'' = Inr (Some (Date 2026 3 4))"
  by code_simp+

text \<open>A duration that ends within the calendar from 2000-01-01 can overflow from a later basis date, with an
error that is not a \<open>ValueError\<close>.\<close>

lemma late_basis_overflows:
  "duration_ge ''P2921938D'' ''P10Y'' = Inr True"
  "retention_until (Some (Date 2026 2 1)) ''P2921938D'' = Inl OverflowError"
  by code_simp+

end
