(* ===== verification/RecordHash.thy ===== *)
theory RecordHash
  imports Bytes
begin

text \<open>
  The seal of a captured record (\<open>domain/records/content_hash.py\<close>): a digest over the canonical
  serialisation of the record's type, source version, form values and evidence manifest. The JSON
  canonicaliser \<open>rfc8785.dumps\<close> and \<open>hashlib.sha256\<close> are the arguments \<open>jcs\<close> and \<open>H\<close>.
\<close>

definition content_hash_version_v1 :: int where "content_hash_version_v1 = 1"
definition content_hash_version :: int where "content_hash_version = 2"
definition preamble_v1 :: bytes where "preamble_v1 = utf8 ''easysynq.record.v1'' @ [10]"
definition preamble_v2 :: bytes where "preamble_v2 = utf8 ''easysynq.record.v2'' @ [10]"

definition hexdigest :: "bytes \<Rightarrow> string" where
  "hexdigest bs = concat (map (\<lambda>b. hex_fixed 2 (unat b)) bs)"

definition values_json :: "dict option \<Rightarrow> json" where
  "values_json v = (case v of None \<Rightarrow> JNull | Some d \<Rightarrow> JObj d)"

definition canonical_form_values :: "int \<Rightarrow> dict option \<Rightarrow> json" where
  "canonical_form_values version v =
     (if version = content_hash_version_v1 then values_json (if v = Some [] then None else v) else values_json v)"

definition evidence_manifest :: "string list \<Rightarrow> string list" where
  "evidence_manifest shas = sort (remdups (map lower shas))"

definition hash_object :: "string \<Rightarrow> uuid option \<Rightarrow> dict option \<Rightarrow> string list \<Rightarrow> int \<Rightarrow> dict" where
  "hash_object rtype src vals shas version =
     [(''v'', JInt version), (''record_type'', JStr rtype),
      (''source_version_id'', opt_json (map_option (\<lambda>u. lower (uuid_str u)) src)),
      (''form_field_values'', canonical_form_values version vals),
      (''evidence_manifest'', JList (map JStr (evidence_manifest shas)))]"

definition preimage :: "int \<Rightarrow> bytes \<Rightarrow> bytes" where
  "preimage version b = (if version = content_hash_version_v1 then preamble_v1 else preamble_v2) @ b"

definition record_content_hash ::
    "(bytes \<Rightarrow> bytes) \<Rightarrow> (dict \<Rightarrow> (py_error, bytes) result) \<Rightarrow> string \<Rightarrow> uuid option \<Rightarrow> dict option \<Rightarrow> string list
       \<Rightarrow> int \<Rightarrow> (py_error, string) result" where
  "record_content_hash H jcs rtype src vals shas version =
     (if version = content_hash_version_v1 \<or> version = content_hash_version then
        bind_res (jcs (hash_object rtype src vals shas version)) (\<lambda>b.
        Inr (''sha256:'' @ hexdigest (H (preimage version b))))
      else Inl ValueError)"

subsection \<open>The seal determines what it seals\<close>

lemma hexdigest_Cons: "hexdigest (b # bs) = hex_fixed 2 (unat b) @ hexdigest bs"
  by (simp add: hexdigest_def)

lemma hexdigest_inj: "hexdigest xs = hexdigest ys \<Longrightarrow> xs = ys"
proof (induction xs arbitrary: ys)
  case Nil
  then show ?case by (cases ys) (auto simp: hexdigest_def numeral_2_eq_2)
next
  case (Cons x xs)
  then obtain y zs where ys: "ys = y # zs" by (cases ys) (auto simp: hexdigest_def numeral_2_eq_2)
  with Cons.prems have "hex_fixed 2 (unat x) @ hexdigest xs = hex_fixed 2 (unat y) @ hexdigest zs"
    by (simp add: hexdigest_Cons)
  then have h: "hex_fixed 2 (unat x) = hex_fixed 2 (unat y)" and t: "hexdigest xs = hexdigest zs"
    by (simp_all add: append_eq_append_conv)
  have "unat x < 16 ^ 2" "unat y < 16 ^ 2" using unsigned_less [of x] unsigned_less [of y] by simp_all
  with h have "x = y" using hex_fixed_inj by (metis unsigned_word_eqI)
  with Cons.IH [OF t] ys show ?case by simp
qed

lemma py_eq_strs: "py_eq_list (map JStr xs) (map JStr ys) \<longleftrightarrow> xs = ys"
proof (induction xs arbitrary: ys)
  case (Cons x xs)
  then show ?case by (cases ys) auto
qed auto

lemma set_evidence_manifest: "set (evidence_manifest shas) = lower ` set shas"
  by (simp add: evidence_manifest_def)

lemma py_eq_opt_json: "py_eq (opt_json a) (opt_json b) \<longleftrightarrow> a = b"
  by (auto simp: opt_json_def split: option.splits)

lemma hash_object_eq:
  "py_eq (JObj (hash_object t s v es n)) (JObj (hash_object t' s' v' es' n')) \<longleftrightarrow>
     n = n' \<and> t = t' \<and> map_option uuid_str s = map_option uuid_str s' \<and>
     py_eq (canonical_form_values n v) (canonical_form_values n' v') \<and> evidence_manifest es = evidence_manifest es'"
  by (auto simp: hash_object_def py_eq_strs py_eq_opt_json option.map_comp comp_def)

lemma preambles: "preamble_v1 @ b = preamble_v1 @ c \<longleftrightarrow> b = c" "preamble_v2 @ b = preamble_v2 @ c \<longleftrightarrow> b = c"
    "preamble_v1 @ b \<noteq> preamble_v2 @ c"
proof -
  have "length preamble_v1 = length preamble_v2" "preamble_v1 \<noteq> preamble_v2" by code_simp+
  then show "preamble_v1 @ b \<noteq> preamble_v2 @ c" by (metis append_eq_append_conv)
qed simp_all

lemma record_content_hash_Inr:
  assumes "record_content_hash H jcs t s v es n = Inr h"
  shows "\<exists>b. jcs (hash_object t s v es n) = Inr b \<and> n \<in> {1, 2} \<and>
    h = ''sha256:'' @ hexdigest (H (preimage n b))"
  using assms
  by (auto simp: record_content_hash_def content_hash_version_v1_def content_hash_version_def split: if_splits)

text \<open>C34: The seal of a record determines what it seals. If two records, of either version of the
  seal, have the same hash, and neither the digest collides on their preimages nor the canonicaliser on
  their objects, then they were sealed with the same version, type and source version, equal form values
  and the same set of evidence; under version 2 an empty submission is told from a missing one.\<close>

theorem content_hash_binds:
  assumes "record_content_hash H jcs t s v es n = Inr h" and "record_content_hash H jcs t' s' v' es' n' = Inr h"
    and "\<And>b c. jcs (hash_object t s v es n) = Inr b \<Longrightarrow> jcs (hash_object t' s' v' es' n') = Inr c \<Longrightarrow>
      H (preimage n b) = H (preimage n' c) \<Longrightarrow> preimage n b = preimage n' c"
    and "\<And>b. jcs (hash_object t s v es n) = Inr b \<Longrightarrow> jcs (hash_object t' s' v' es' n') = Inr b \<Longrightarrow>
      py_eq (JObj (hash_object t s v es n)) (JObj (hash_object t' s' v' es' n'))"
  shows "n = n' \<and> t = t' \<and> s = s' \<and> lower ` set es = lower ` set es' \<and>
    py_eq (canonical_form_values n v) (canonical_form_values n v') \<and> (n = 2 \<longrightarrow> (v = None \<longleftrightarrow> v' = None))"
proof -
  obtain b where b: "jcs (hash_object t s v es n) = Inr b" "n \<in> {1, 2}"
    "h = ''sha256:'' @ hexdigest (H (preimage n b))"
    using record_content_hash_Inr [OF assms(1)] by blast
  obtain c where c: "jcs (hash_object t' s' v' es' n') = Inr c" "n' \<in> {1, 2}"
    "h = ''sha256:'' @ hexdigest (H (preimage n' c))"
    using record_content_hash_Inr [OF assms(2)] by blast
  have "H (preimage n b) = H (preimage n' c)"
    using b(3) c(3) hexdigest_inj by (metis same_append_eq)
  then have "preimage n b = preimage n' c" using assms(3) b(1) c(1) by blast
  then have "b = c" using preambles by (auto simp: preimage_def split: if_splits dest: sym)
  with assms(4) b(1) c(1) have "py_eq (JObj (hash_object t s v es n)) (JObj (hash_object t' s' v' es' n'))" by blast
  from iffD1 [OF hash_object_eq this] have e: "n = n'" "t = t'" "map_option uuid_str s = map_option uuid_str s'"
    "py_eq (canonical_form_values n v) (canonical_form_values n v')" "evidence_manifest es = evidence_manifest es'"
    by (elim conjE; clarify)+
  have "s = s'" using e(3) uuid_str_inj by (cases s; cases s') auto
  moreover have "lower ` set es = lower ` set es'" using e(5) set_evidence_manifest by metis
  moreover have "n = 2 \<longrightarrow> (v = None \<longleftrightarrow> v' = None)"
    using e(4) by (auto simp: canonical_form_values_def values_json_def content_hash_version_v1_def split: option.splits)
  ultimately show ?thesis using e by blast
qed

lemma content_hash_binds_witness:
  "record_content_hash (\<lambda>x. x) (\<lambda>d. Inr (utf8 (py_repr (JObj d)))) ''EVIDENCE'' None None [''ab'', ''CD'', ''AB''] 2
     = record_content_hash (\<lambda>x. x) (\<lambda>d. Inr (utf8 (py_repr (JObj d)))) ''EVIDENCE'' None None [''cd'', ''Ab''] 2
   \<and> lower ` set [''ab'', ''CD'', ''AB''] = lower ` set [''cd'', ''Ab'']"
proof -
  let ?j = "\<lambda>d. Inr (utf8 (py_repr (JObj d))) :: (py_error, bytes) result"
  have m: "evidence_manifest [''ab'', ''CD'', ''AB''] = evidence_manifest [''cd'', ''Ab'']" by code_simp
  obtain h where h: "record_content_hash (\<lambda>x. x) ?j ''EVIDENCE'' None None [''ab'', ''CD'', ''AB''] 2 = Inr h"
    by (simp add: record_content_hash_def content_hash_version_def)
  have h': "record_content_hash (\<lambda>x. x) ?j ''EVIDENCE'' None None [''cd'', ''Ab''] 2 = Inr h"
    using h by (simp add: record_content_hash_def content_hash_version_def hash_object_def m)
  have j: "py_eq (JObj (hash_object ''EVIDENCE'' None None [''ab'', ''CD'', ''AB''] 2))
      (JObj (hash_object ''EVIDENCE'' None None [''cd'', ''Ab''] 2))"
    by (subst hash_object_eq) (simp add: m canonical_form_values_def values_json_def content_hash_version_v1_def)
  have "lower ` set [''ab'', ''CD'', ''AB''] = lower ` set [''cd'', ''Ab'']"
    using content_hash_binds [OF h h' _ j] by blast
  with h h' show ?thesis by simp
qed

text \<open>Version 1 sealed a missing and an empty submission alike.\<close>

lemma v1_collapses_empty: "hash_object t s (Some []) es 1 = hash_object t s None es 1"
  by (simp add: hash_object_def canonical_form_values_def content_hash_version_v1_def values_json_def)

end
