(* ===== verification/QmsStore.thy ===== *)
theory QmsStore
  imports Retention Lifecycles RecordHash VaultFreeze Workflow
begin

text \<open>
  The tables of the retained-evidence side of the system: records, retention policies, blobs and
  evidence, evidence links, disposition events, destroy requests and purge markers, sealed packs and
  their shares, CAPAs and their stages, complaints, nonconformities, audit findings. The document vault
  is the part \<open>q_vault\<close>. The tables are those of one organisation: a row of another one is answered as
  a row that does not exist, as the code does. Rows created here have the number of their creation as id,
  for the fresh UUID they are given. \<open>stored\<close> are the objects of the WORM object store.
\<close>

type_synonym rid = nat

definition id_str :: "rid \<Rightarrow> string" where
  "id_str i = uuid_str (of_nat i)"

subsection \<open>Rows\<close>

record rec =
  rc_id :: rid
  rc_identifier :: string
  rc_title :: string
  rc_class :: string
  rc_area :: string
  rc_framework :: uuid
  rc_type :: string
  rc_captured_at :: instant
  rc_captured_by :: uuid
  rc_hash :: string
  rc_hash_version :: int
  rc_source_doc :: "uuid option"
  rc_source_version :: "uuid option"
  rc_values :: "dict option"
  rc_correction_of :: "rid option"
  rc_superseded_by :: "rid option"
  rc_policy :: uuid
  rc_basis_date :: "date option"
  rc_disposition :: disposition_state
  rc_hold :: bool
  rc_rendition :: "string option"

record rpolicy =
  rp_id :: uuid
  rp_name :: string
  rp_applies :: "dict option"
  rp_basis :: retention_basis
  rp_duration :: string
  rp_action :: disposition_action
  rp_review :: bool
  rp_worm :: "string option"
  rp_active :: bool
  rp_archived_at :: "instant option"
  rp_archived_by :: "uuid option"

record blob =
  bl_sha :: string
  bl_bucket :: string
  bl_key :: string
  bl_locked :: bool
  bl_retain :: "instant option"

record evidence_row =
  eb_record :: rid
  eb_sha :: string

datatype link_target =
    TFinding rid | TCapaStage rid | TClause uuid | TProcess uuid | TDocument uuid

record evidence_link =
  el_id :: rid
  el_record :: rid
  el_target :: link_target
  el_reason :: "string option"
  el_by :: uuid

record disposition_event =
  de_id :: rid
  de_record :: rid
  de_action :: disposition_action
  de_policy :: "uuid option"
  de_approved_by :: "uuid option"
  de_requested_by :: "uuid option"
  de_worm :: bool
  de_legal_basis :: "string option"
  de_derived :: "rid option"

record destroy_request =
  wr_id :: rid
  wr_record :: rid
  wr_legal_basis :: string
  wr_requested_by :: uuid
  wr_approved_by :: "uuid option"
  wr_executed_at :: "instant option"
  wr_cancelled_by :: "uuid option"
  wr_cancelled_at :: "instant option"

record purge_marker =
  pm_id :: rid
  pm_sha :: string
  pm_bucket :: string
  pm_key :: string
  pm_bypass :: bool
  pm_record :: "rid option"
  pm_event :: "rid option"
  pm_request :: "rid option"
  pm_bound :: bool

datatype pack_status = P_DRAFT | P_BUILDING | P_SEALED | P_FAILED | P_UNAVAILABLE

record pack =
  pk_id :: rid
  pk_status :: pack_status
  pk_record :: "rid option"
  pk_zip :: "string option"
  pk_portfolio :: "string option"
  pk_invalidated_at :: "instant option"
  pk_invalidated_by :: "rid option"

record pack_share =
  ps_id :: rid
  ps_pack :: rid
  ps_revoked_at :: "instant option"
  ps_revoked_by :: "uuid option"
  ps_reason :: "string option"

record capa_stage =
  sg_id :: rid
  sg_capa :: rid
  sg_stage :: capa_state
  sg_block :: dict
  sg_signature :: "rid option"
  sg_cycle :: int
  sg_by :: uuid

datatype capa_source = S_audit | S_process | S_complaint | S_review_output | S_risk

record capa =
  ca_id :: rid
  ca_origin :: "rid option"
  ca_source :: capa_source
  ca_severity :: nc_severity
  ca_process :: "uuid option"
  ca_state :: capa_state
  ca_cycle :: int
  ca_target :: "date option"
  ca_overdue_at :: "instant option"

record complaint =
  co_id :: rid
  co_customer :: "string option"
  co_received_at :: "instant option"
  co_channel :: "string option"
  co_description :: string
  co_severity :: "nc_severity option"
  co_capa :: "rid option"

datatype ncr_source = N_audit | N_process | N_complaint | N_internal

datatype ncr_disposition = Use_as_is | Rework | Scrap | Return | Concession | Regrade

record ncr =
  nr_id :: rid
  nr_identifier :: string
  nr_source :: ncr_source
  nr_description :: string
  nr_severity :: nc_severity
  nr_process :: "uuid option"
  nr_disposition :: "ncr_disposition option"
  nr_authorized_by :: "uuid option"
  nr_notes :: "string option"
  nr_disposed_at :: "instant option"
  nr_created_by :: uuid

record finding =
  fi_id :: rid
  fi_type :: finding_type
  fi_capa :: "rid option"

record q_signature =
  qs_id :: rid
  qs_object :: rid
  qs_meaning :: string
  qs_signer :: uuid
  qs_digest :: string

record q_event =
  qv_type :: string
  qv_actor :: "uuid option"
  qv_object_type :: string
  qv_object :: string
  qv_before :: "dict option"
  qv_after :: "dict option"

record qms =
  q_vault :: vault
  q_next :: rid
  q_records :: "rec list"
  q_policies :: "rpolicy list"
  q_blobs :: "blob list"
  q_evidence :: "evidence_row list"
  q_links :: "evidence_link list"
  q_dispositions :: "disposition_event list"
  q_requests :: "destroy_request list"
  q_markers :: "purge_marker list"
  q_packs :: "pack list"
  q_shares :: "pack_share list"
  q_capas :: "capa list"
  q_stages :: "capa_stage list"
  q_flows :: "(rid \<times> rid \<times> wf) list"
  q_complaints :: "complaint list"
  q_ncrs :: "ncr list"
  q_findings :: "finding list"
  q_signatures :: "q_signature list"
  q_events :: "q_event list"
  q_queue :: "(string \<times> string) list"
  q_stored :: "(string \<times> string) set"

fun action_value :: "disposition_action \<Rightarrow> string" where
  "action_value DESTROY = ''DESTROY''"
| "action_value ARCHIVE_COLD = ''ARCHIVE_COLD''"
| "action_value TRANSFER = ''TRANSFER''"
| "action_value RETAIN_PERMANENT = ''RETAIN_PERMANENT''"

definition date_json :: "date option \<Rightarrow> json" where
  "date_json d =
     (case d of None \<Rightarrow> JNull
      | Some x \<Rightarrow> JStr (pad 4 (nat (year x)) @ ''-'' @ pad 2 (nat (month x)) @ ''-'' @ pad 2 (nat (day x))))"

subsection \<open>Errors and what lies outside\<close>

text \<open>A problem response (status and code), a validation problem with its field and code, the errors
of form values, a violated constraint, an error of the vault or of the workflow engine, an exception.\<close>

datatype qms_error =
    Refuse nat string | Invalid string string | FieldErrors "field_error list" | IntegrityError
  | VaultFails vault_error | FlowFails wf_error | Raises py_error

definition lift_exn :: "(py_error, 'a) result \<Rightarrow> (qms_error, 'a) result" where
  "lift_exn r = (case r of Inl e \<Rightarrow> Inl (Raises e) | Inr a \<Rightarrow> Inr a)"

definition lift_vault :: "(vault_error, 'a) result \<Rightarrow> (qms_error, 'a) result" where
  "lift_vault r = (case r of Inl e \<Rightarrow> Inl (VaultFails e) | Inr a \<Rightarrow> Inr a)"

definition lift_flow :: "(wf_error, 'a) result \<Rightarrow> (qms_error, 'a) result" where
  "lift_flow r = (case r of Inl e \<Rightarrow> Inl (FlowFails e) | Inr a \<Rightarrow> Inr a)"

lemma lift_Inr [simp]:
  "lift_exn r = Inr a \<longleftrightarrow> r = Inr a" "lift_vault v = Inr b \<longleftrightarrow> v = Inr b" "lift_flow w = Inr c \<longleftrightarrow> w = Inr c"
  by (simp_all add: lift_exn_def lift_vault_def lift_flow_def split: sum.splits)

definition require :: "bool \<Rightarrow> qms_error \<Rightarrow> (qms_error, unit) result" where
  "require b e = (if b then Inr () else Inl e)"

lemma require_Inr [simp]: "require b e = Inr u \<longleftrightarrow> b"
  by (simp add: require_def)

record qms_env =
  qe_vault :: vault_env
  qe_hash :: "bytes \<Rightarrow> bytes"
  qe_jcs :: "dict \<Rightarrow> (py_error, bytes) result"
  qe_records_bucket :: string
  qe_renditions_bucket :: string
  qe_promote :: "string \<Rightarrow> string \<Rightarrow> instant option \<Rightarrow> (qms_error, string \<times> instant option) result"
  qe_extend :: "string \<Rightarrow> string \<Rightarrow> instant \<Rightarrow> (qms_error, instant) result"
  qe_clause :: "uuid \<Rightarrow> uuid option"
  qe_process :: "uuid \<Rightarrow> bool"
  qe_rendition :: "version \<Rightarrow> string option"
  qe_dependencies :: "pack \<Rightarrow> rid list"
  qe_pre_release :: bool
  qe_self_disposition :: bool
  qe_self_verify :: bool
  qe_lock_mode :: string
  qe_local_date :: "instant \<Rightarrow> date"
  qe_flow :: wf_env
  qe_flow_definition :: json

subsection \<open>Audit events and fresh ids\<close>

definition log_event ::
    "string \<Rightarrow> uuid option \<Rightarrow> string \<Rightarrow> string \<Rightarrow> dict option \<Rightarrow> dict option \<Rightarrow> qms \<Rightarrow> qms" where
  "log_event ev actor otype oid before after s =
     s\<lparr>q_events := q_events s @ [\<lparr>qv_type = ev, qv_actor = actor, qv_object_type = otype, qv_object = oid,
        qv_before = before, qv_after = after\<rparr>]\<rparr>"

definition emit_record_event :: "uuid \<Rightarrow> string \<Rightarrow> rid \<Rightarrow> dict option \<Rightarrow> dict option \<Rightarrow> qms \<Rightarrow> qms" where
  "emit_record_event actor ev i before after = log_event ev (Some actor) ''record'' (id_str i) before after"

definition emit_record_event_system :: "string \<Rightarrow> rid \<Rightarrow> dict option \<Rightarrow> dict option \<Rightarrow> qms \<Rightarrow> qms" where
  "emit_record_event_system ev i before after = log_event ev None ''record'' (id_str i) before after"

definition take_id :: "qms \<Rightarrow> qms \<times> rid" where
  "take_id s = (s\<lparr>q_next := q_next s + 1\<rparr>, q_next s)"

subsection \<open>Lookups\<close>

definition get_record :: "qms \<Rightarrow> rid \<Rightarrow> rec option" where
  "get_record s i = find (\<lambda>r. rc_id r = i) (q_records s)"

definition put_record :: "rec \<Rightarrow> qms \<Rightarrow> qms" where
  "put_record r s = s\<lparr>q_records := map (\<lambda>x. if rc_id x = rc_id r then r else x) (q_records s)\<rparr>"

definition load_record :: "qms \<Rightarrow> rid \<Rightarrow> (qms_error, rec) result" where
  "load_record s i = (case get_record s i of None \<Rightarrow> Inl (Refuse 404 ''not_found'') | Some r \<Rightarrow> Inr r)"

definition get_policy :: "qms \<Rightarrow> uuid \<Rightarrow> rpolicy option" where
  "get_policy s i = find (\<lambda>p. rp_id p = i) (q_policies s)"

definition policy_by_name :: "qms \<Rightarrow> string \<Rightarrow> rpolicy option" where
  "policy_by_name s name = find (\<lambda>p. rp_name p = name) (q_policies s)"

definition get_blob :: "qms \<Rightarrow> string \<Rightarrow> blob option" where
  "get_blob s sha = find (\<lambda>b. bl_sha b = sha) (q_blobs s)"

definition list_evidence_blobs :: "qms \<Rightarrow> rid \<Rightarrow> blob list" where
  "list_evidence_blobs s i =
     concat (map (\<lambda>e. filter (\<lambda>b. bl_sha b = eb_sha e) (q_blobs s)) (filter (\<lambda>e. eb_record e = i) (q_evidence s)))"

definition get_capa :: "qms \<Rightarrow> rid \<Rightarrow> capa option" where
  "get_capa s i = find (\<lambda>c. ca_id c = i) (q_capas s)"

definition put_capa :: "capa \<Rightarrow> qms \<Rightarrow> qms" where
  "put_capa c s = s\<lparr>q_capas := map (\<lambda>x. if ca_id x = ca_id c then c else x) (q_capas s)\<rparr>"

definition get_stage :: "qms \<Rightarrow> rid \<Rightarrow> capa_stage option" where
  "get_stage s i = find (\<lambda>x. sg_id x = i) (q_stages s)"

definition capa_stages :: "qms \<Rightarrow> rid \<Rightarrow> capa_stage list" where
  "capa_stages s i = filter (\<lambda>x. sg_capa x = i) (q_stages s)"

lemmas qms_upd_defs = log_event_def emit_record_event_def emit_record_event_system_def take_id_def
  put_record_def put_capa_def

subsection \<open>The state of a new installation\<close>

definition empty_qms :: qms where
  "empty_qms = \<lparr>q_vault = empty_vault, q_next = 0, q_records = [], q_policies = [], q_blobs = [], q_evidence = [],
     q_links = [], q_dispositions = [], q_requests = [], q_markers = [], q_packs = [], q_shares = [], q_capas = [],
     q_stages = [], q_flows = [], q_complaints = [], q_ncrs = [], q_findings = [], q_signatures = [], q_events = [],
     q_queue = [], q_stored = {}\<rparr>"

end
