(* ===== verification/Records.thy ===== *)
theory Records
  imports QmsStore
begin

text \<open>
  Capture of records, corrections and evidence links (\<open>services/records/service.py\<close> and the queries of
  \<open>services/records/repository.py\<close> it uses). An operation is a function of the state that fails, leaving
  the tables as they were, or returns the new state. Promotion of staged bytes into the WORM bucket and
  extension of an object's lock are the arguments \<open>qe_promote\<close> and \<open>qe_extend\<close>.
\<close>

definition record_types :: "string list" where
  "record_types = [''AUDIT'', ''AUDIT_FINDING'', ''CAPA'', ''COMPETENCE'', ''CALIBRATION'', ''MGMT_REVIEW'', ''SUPPLIER_EVAL'',
     ''RELEASE'', ''KPI_READING'', ''SATISFACTION'', ''TRACEABILITY'', ''PROPERTY_EVENT'', ''CHANGE'', ''EVIDENCE'',
     ''FILLED_FORM'', ''COMPLAINT'']"

definition classifications :: "string list" where
  "classifications = [''Public'', ''Internal'', ''Confidential'', ''Restricted'']"

subsection \<open>The retention policy of a capture\<close>

definition system_default_name :: string where "system_default_name = ''System Default Retention''"

definition ensure_default_policy :: "uuid \<Rightarrow> qms \<Rightarrow> qms" where
  "ensure_default_policy fresh s =
     (if policy_by_name s system_default_name \<noteq> None then s
      else s\<lparr>q_policies := q_policies s @ [\<lparr>rp_id = fresh, rp_name = system_default_name, rp_applies = None,
        rp_basis = CAPTURED_AT, rp_duration = ''P10Y'', rp_action = RETAIN_PERMANENT, rp_review = False,
        rp_worm = None, rp_active = True, rp_archived_at = None, rp_archived_by = None\<rparr>]\<rparr>)"

definition tier_policy :: "qms \<Rightarrow> string \<Rightarrow> string list \<Rightarrow> rpolicy option" where
  "tier_policy s key vals =
     (case sort_key rp_id (filter (\<lambda>p. rp_active p
         \<and> (case rp_applies p of None \<Rightarrow> False | Some d \<Rightarrow> (case map_of d key of Some (JStr x) \<Rightarrow> x \<in> set vals | _ \<Rightarrow> False)))
         (q_policies s)) of [] \<Rightarrow> None | p # _ \<Rightarrow> Some p)"

definition record_type_default_policy :: "qms \<Rightarrow> string \<Rightarrow> rpolicy option" where
  "record_type_default_policy s t = tier_policy s ''record_type'' [t]"

definition clause_default_policy :: "qms \<Rightarrow> string list \<Rightarrow> rpolicy option" where
  "clause_default_policy s ids = (if ids = [] then None else tier_policy s ''clause_id'' ids)"

definition process_default_policy :: "qms \<Rightarrow> string list \<Rightarrow> rpolicy option" where
  "process_default_policy s ids = (if ids = [] then None else tier_policy s ''process_id'' ids)"

definition candidate :: "rpolicy \<Rightarrow> policy_candidate" where
  "candidate p = \<lparr>pc_policy = rp_id p, pc_basis = rp_basis p\<rparr>"

definition override_candidate :: "qms \<Rightarrow> uuid option \<Rightarrow> (qms_error, policy_candidate option) result" where
  "override_candidate s ov =
     (case ov of
        None \<Rightarrow> Inr None
      | Some i \<Rightarrow>
        (case get_policy s i of
           None \<Rightarrow> Inl (Invalid ''retention_policy_id'' ''not_found'')
         | Some p \<Rightarrow>
           if \<not> rp_active p then Inl (Invalid ''retention_policy_id'' ''retention_policy_archived'')
           else Inr (Some (candidate p))))"

definition resolve_capture_retention ::
    "uuid \<Rightarrow> string \<Rightarrow> uuid option \<Rightarrow> string list \<Rightarrow> string list \<Rightarrow> instant \<Rightarrow> qms
       \<Rightarrow> (qms_error, qms \<times> retention_resolution) result" where
  "resolve_capture_retention fresh rtype ov clause_ids process_ids captured_at s0 =
     (let s = ensure_default_policy fresh s0 in
      case policy_by_name s system_default_name of
        None \<Rightarrow> Inl (Raises AssertionError)
      | Some sys \<Rightarrow>
        bind_res (override_candidate s ov) (\<lambda>override.
        Inr (s, resolve_retention \<lparr>ri_captured_at = captured_at, ri_system_default = candidate sys,
          ri_record_type_default = map_option candidate (record_type_default_policy s rtype),
          ri_clause_default = map_option candidate (clause_default_policy s clause_ids),
          ri_process_default = map_option candidate (process_default_policy s process_ids),
          ri_override = override\<rparr>)))"

subsection \<open>The source version\<close>

definition values_of :: "dict option \<Rightarrow> dict" where
  "values_of v = (case v of None \<Rightarrow> [] | Some d \<Rightarrow> d)"

definition template_version ::
    "qms_env \<Rightarrow> qms \<Rightarrow> uuid \<Rightarrow> uuid option \<Rightarrow> uuid option \<Rightarrow> (qms_error, version) result" where
  "template_version E s src src_version pin =
     (case pin of
        Some p \<Rightarrow>
          (case get_version (q_vault s) p of
             None \<Rightarrow> Inl (Invalid ''source_version_id'' ''not_found'')
           | Some r \<Rightarrow> if ver_doc r \<noteq> src then Inl (Invalid ''source_version_id'' ''not_found'') else Inr r)
      | None \<Rightarrow>
          bind_res (lift_vault (resolve_template_version (qe_pre_release E) (q_vault s) src)) (\<lambda>r.
          if src_version \<noteq> None \<and> src_version \<noteq> Some (ver_id r)
          then Inl (Invalid ''source_version_id'' ''stale_template_version'') else Inr r))"

definition resolve_source_version ::
    "qms_env \<Rightarrow> app_user \<Rightarrow> uuid \<Rightarrow> uuid option \<Rightarrow> uuid option \<Rightarrow> dict option \<Rightarrow> uuid option \<Rightarrow> qms
       \<Rightarrow> (qms_error, uuid option \<times> bool) result" where
  "resolve_source_version E actor fw src_doc src_version vals pin s =
     (case src_doc of
        None \<Rightarrow>
          if src_version \<noteq> None then Inl (Invalid ''source_version_id'' ''invalid'') else Inr (None, False)
      | Some src \<Rightarrow>
        (case get_doc (q_vault s) src of
           None \<Rightarrow> Inl (Invalid ''source_document_id'' ''not_found'')
         | Some d \<Rightarrow>
           if doc_org d \<noteq> user_org actor then Inl (Invalid ''source_document_id'' ''not_found'')
           else if doc_framework d \<noteq> fw then Inl (Invalid ''source_document_id'' ''framework_mismatch'')
           else if (case doc_type d of None \<Rightarrow> None | Some t \<Rightarrow> type_codes (qe_vault E) t) = Some ''FRM'' then
             bind_res (template_version E s src src_version pin) (\<lambda>r.
             bind_res (lift_exn (schema_from_version r)) (\<lambda>sch.
             case sch of
               None \<Rightarrow> Inl (Invalid ''source_document_id'' ''template_has_no_schema'')
             | Some schema \<Rightarrow>
                 bind_res (lift_exn (validate_values schema (JObj (values_of vals)))) (\<lambda>errs.
                 if errs \<noteq> [] then Inl (FieldErrors errs) else Inr (Some (ver_id r), True))))
           else
             (case src_version of
                None \<Rightarrow> Inl (Invalid ''source_version_id'' ''source_version_required'')
              | Some sv \<Rightarrow>
                (case get_version (q_vault s) sv of
                   None \<Rightarrow> Inl (Invalid ''source_version_id'' ''not_found'')
                 | Some r \<Rightarrow>
                   if ver_doc r \<noteq> src then Inl (Invalid ''source_version_id'' ''not_found'')
                   else Inr (Some sv, False)))))"

subsection \<open>Evidence\<close>

record evidence_input =
  ei_sha :: string
  ei_source :: "string option"

fun normalize_evidence ::
    "(string \<times> string option) list \<Rightarrow> evidence_input list \<Rightarrow> (qms_error, evidence_input list) result" where
  "normalize_evidence seen [] = Inr []"
| "normalize_evidence seen (x # xs) =
     (case map_of seen (ei_sha x) of
        Some prev \<Rightarrow>
          if prev \<noteq> ei_source x then Inl (Invalid ''evidence'' ''ambiguous_staging_version'')
          else normalize_evidence seen xs
      | None \<Rightarrow>
          bind_res (normalize_evidence ((ei_sha x, ei_source x) # seen) xs) (\<lambda>ys. Inr (x # ys)))"

definition ensure_blob :: "qms_env \<Rightarrow> instant option \<Rightarrow> evidence_input \<Rightarrow> qms \<Rightarrow> (qms_error, qms) result" where
  "ensure_blob E min_retain x s =
     (case get_blob s (ei_sha x) of
        Some b \<Rightarrow> Inr s
      | None \<Rightarrow>
        (case ei_source x of
           None \<Rightarrow> Inl (Refuse 422 ''staging_version_required'')
         | Some loc \<Rightarrow>
           bind_res (qe_promote E (ei_sha x) loc min_retain) (\<lambda>(key, retain).
           Inr (s\<lparr>q_blobs := q_blobs s @ [\<lparr>bl_sha = ei_sha x, bl_bucket = qe_records_bucket E, bl_key = key,
                    bl_locked = True, bl_retain = retain\<rparr>],
                  q_stored := insert (qe_records_bucket E, key) (q_stored s)\<rparr>))))"

definition needs_extension :: "instant option \<Rightarrow> blob \<Rightarrow> bool" where
  "needs_extension min_retain b \<longleftrightarrow>
     (case min_retain of None \<Rightarrow> False | Some t \<Rightarrow> (case bl_retain b of None \<Rightarrow> True | Some u \<Rightarrow> u < t))"

definition add_evidence :: "rid \<Rightarrow> string \<Rightarrow> qms \<Rightarrow> qms" where
  "add_evidence i sha s =
     (if list_ex (\<lambda>e. eb_record e = i \<and> eb_sha e = sha) (q_evidence s) then s
      else s\<lparr>q_evidence := q_evidence s @ [\<lparr>eb_record = i, eb_sha = sha\<rparr>]\<rparr>)"

fun attach_items ::
    "qms_env \<Rightarrow> rid \<Rightarrow> instant option \<Rightarrow> evidence_input list \<Rightarrow> qms \<Rightarrow> (qms_error, qms \<times> blob list) result" where
  "attach_items E i min_retain [] s = Inr (s, [])"
| "attach_items E i min_retain (x # xs) s =
     bind_res (ensure_blob E min_retain x s) (\<lambda>s1.
     case get_blob s1 (ei_sha x) of
       None \<Rightarrow> Inl (Refuse 423 ''worm_required'')
     | Some b \<Rightarrow>
       if \<not> (bl_locked b \<and> bl_bucket b = qe_records_bucket E) then Inl (Refuse 423 ''worm_required'')
       else bind_res (attach_items E i min_retain xs (add_evidence i (ei_sha x) s1)) (\<lambda>(s2, pending).
         Inr (s2, if needs_extension min_retain b then b # pending else pending)))"

definition set_retain :: "string \<Rightarrow> instant \<Rightarrow> qms \<Rightarrow> qms" where
  "set_retain sha t s = s\<lparr>q_blobs := map (\<lambda>b. if bl_sha b = sha then b\<lparr>bl_retain := Some t\<rparr> else b) (q_blobs s)\<rparr>"

fun extend_locks :: "qms_env \<Rightarrow> instant option \<Rightarrow> blob list \<Rightarrow> qms \<Rightarrow> (qms_error, qms) result" where
  "extend_locks E min_retain [] s = Inr s"
| "extend_locks E min_retain (b # bs) s =
     (case min_retain of
        None \<Rightarrow> Inl (Raises AssertionError)
      | Some t \<Rightarrow>
        bind_res (qe_extend E (bl_bucket b) (bl_key b) t) (\<lambda>u.
        extend_locks E min_retain bs (set_retain (bl_sha b) u s)))"

definition attach_evidence ::
    "qms_env \<Rightarrow> rid \<Rightarrow> evidence_input list \<Rightarrow> instant option \<Rightarrow> qms \<Rightarrow> (qms_error, qms \<times> string list) result" where
  "attach_evidence E i evidence min_retain s =
     bind_res (normalize_evidence [] evidence) (\<lambda>items.
     bind_res (attach_items E i min_retain items s) (\<lambda>(s1, pending).
     bind_res (extend_locks E min_retain pending s1) (\<lambda>s2. Inr (s2, map ei_sha items))))"

subsection \<open>Capture\<close>

record capture =
  cp_type :: string
  cp_title :: string
  cp_class :: string
  cp_area :: "string option"
  cp_source_doc :: "uuid option"
  cp_source_version :: "uuid option"
  cp_evidence :: "evidence_input list"
  cp_values :: "dict option"
  cp_policy :: "uuid option"

definition sealed_record ::
    "capture \<Rightarrow> rid \<Rightarrow> string \<Rightarrow> uuid \<Rightarrow> app_user \<Rightarrow> instant \<Rightarrow> uuid option \<Rightarrow> dict option \<Rightarrow> rid option
       \<Rightarrow> retention_resolution \<Rightarrow> string \<Rightarrow> rec" where
  "sealed_record c i ident fw actor now src_version vals correction_of res h =
     \<lparr>rc_id = i, rc_identifier = ident, rc_title = cp_title c, rc_class = cp_class c,
      rc_area = (if some_text (cp_area c) then the (cp_area c) else ''GEN''), rc_framework = fw, rc_type = cp_type c,
      rc_captured_at = now, rc_captured_by = user_id actor, rc_hash = h, rc_hash_version = content_hash_version,
      rc_source_doc = cp_source_doc c, rc_source_version = src_version, rc_values = vals,
      rc_correction_of = correction_of, rc_superseded_by = None, rc_policy = rr_policy res,
      rc_basis_date = rr_basis_date res, rc_disposition = ACTIVE, rc_hold = False, rc_rendition = None\<rparr>"

definition identifier_taken :: "qms \<Rightarrow> app_user \<Rightarrow> string \<Rightarrow> bool" where
  "identifier_taken s actor ident \<longleftrightarrow>
     list_ex (\<lambda>r. rc_identifier r = ident) (q_records s)
     \<or> list_ex (\<lambda>d. doc_org d = user_org actor \<and> doc_identifier d = ident) (docs (q_vault s))"

definition capture_payload ::
    "string \<Rightarrow> capture \<Rightarrow> uuid option \<Rightarrow> string \<Rightarrow> nat \<Rightarrow> retention_resolution \<Rightarrow> rid option \<Rightarrow> dict" where
  "capture_payload ident c src_version h n res correction_of =
     [(''identifier'', JStr ident), (''record_type'', JStr (cp_type c)),
      (''source_version_id'', opt_json (map_option uuid_str src_version)), (''content_hash'', JStr h),
      (''content_hash_version'', JInt content_hash_version), (''evidence_count'', JInt (int n)),
      (''retention_policy_id'', JStr (uuid_str (rr_policy res))), (''retention_tier'', JStr (rr_tier res)),
      (''correction_of'', opt_json (map_option id_str correction_of))]"

definition policy_worm :: "qms \<Rightarrow> uuid \<Rightarrow> string option" where
  "policy_worm s i = (case get_policy s i of None \<Rightarrow> None | Some p \<Rightarrow> rp_worm p)"

text \<open>The part of a capture after its source version and its policy are resolved.\<close>

definition store_capture ::
    "qms_env \<Rightarrow> app_user \<Rightarrow> instant \<Rightarrow> capture \<Rightarrow> rid option \<Rightarrow> uuid \<Rightarrow> uuid option \<Rightarrow> dict option \<Rightarrow> retention_resolution
       \<Rightarrow> qms \<Rightarrow> (qms_error, qms \<times> rec) result" where
  "store_capture E actor now c correction_of fw src_version vals res s1 =
     (let area = (if some_text (cp_area c) then the (cp_area c) else ''GEN'');
          (v, n) = allocate_seq (user_org actor) ''REC'' area (q_vault s1);
          ident = format_identifier ''REC'' (nat n) (Some area) 3;
          (s2, i) = take_id (s1\<lparr>q_vault := v\<rparr>) in
      bind_res (require (\<not> identifier_taken s1 actor ident) IntegrityError) (\<lambda>_.
      bind_res (lift_exn (worm_lock_until (rr_basis_date res) (policy_worm s2 (rr_policy res)) now)) (\<lambda>min_retain.
      bind_res (attach_evidence E i (cp_evidence c) min_retain s2) (\<lambda>(s3, shas).
      bind_res (lift_exn (record_content_hash (qe_hash E) (qe_jcs E) (cp_type c) src_version vals shas
          content_hash_version)) (\<lambda>h.
      let r = sealed_record c i ident fw actor now src_version vals correction_of res h in
      Inr (emit_record_event (user_id actor) ''RECORD_CAPTURED'' i None
             (Some (capture_payload ident c src_version h (length shas) res correction_of))
             (s3\<lparr>q_records := q_records s3 @ [r]\<rparr>), r))))))"

definition capture_values :: "capture \<Rightarrow> bool \<Rightarrow> dict option" where
  "capture_values c structured = (if structured \<and> cp_values c = None then Some [] else cp_values c)"

definition enqueue_pdf :: "bool \<Rightarrow> rid \<Rightarrow> qms \<Rightarrow> qms" where
  "enqueue_pdf b i s = (if b then s\<lparr>q_queue := q_queue s @ [(''structured_pdf'', id_str i)]\<rparr> else s)"

definition capture_record ::
    "qms_env \<Rightarrow> app_user \<Rightarrow> instant \<Rightarrow> uuid \<Rightarrow> capture \<Rightarrow> rid option \<Rightarrow> uuid option \<Rightarrow> bool \<Rightarrow> qms
       \<Rightarrow> (qms_error, qms \<times> rec) result" where
  "capture_record E actor now fresh c correction_of pin commit s =
     bind_res (require (cp_type c \<in> set record_types) (Invalid ''record_type'' ''invalid'')) (\<lambda>_.
     bind_res (require (cp_class c \<in> set classifications) (Invalid ''classification'' ''invalid'')) (\<lambda>_.
     bind_res (require (\<not> (cp_values c \<noteq> None \<and> values_too_large (JObj (the (cp_values c)))))
       (Invalid ''form_field_values'' ''too_large'')) (\<lambda>_.
     case framework_of (qe_vault E) (user_org actor) of
       None \<Rightarrow> Inl (Refuse 422 ''validation_error'')
     | Some fw \<Rightarrow>
       bind_res (resolve_source_version E actor fw (cp_source_doc c) (cp_source_version c) (cp_values c) pin s)
         (\<lambda>(src_version, structured).
       bind_res (resolve_capture_retention fresh (cp_type c) (cp_policy c) [] [] now s) (\<lambda>(s1, res).
       bind_res (store_capture E actor now c correction_of fw src_version (capture_values c structured) res s1) (\<lambda>(s2, r).
       Inr (enqueue_pdf (commit \<and> structured) (rc_id r) s2, r)))))))"

definition capture_correction ::
    "qms_env \<Rightarrow> app_user \<Rightarrow> instant \<Rightarrow> uuid \<Rightarrow> rid \<Rightarrow> capture \<Rightarrow> qms \<Rightarrow> (qms_error, qms \<times> rec) result" where
  "capture_correction E actor now fresh i c s =
     bind_res (load_record s i) (\<lambda>old.
     bind_res (require (rc_superseded_by old = None) (Refuse 409 ''conflict'')) (\<lambda>_.
     let inherit = (rc_source_doc old \<noteq> None);
         c' = (if inherit then c\<lparr>cp_source_doc := rc_source_doc old, cp_source_version := rc_source_version old\<rparr> else c) in
     bind_res (capture_record E actor now fresh c' (Some i) (if inherit then rc_source_version old else None) False s)
       (\<lambda>(s1, r).
     let s2 = emit_record_event (user_id actor) ''RECORD_CORRECTED'' i (Some [(''superseded_by_correction'', JNull)])
           (Some [(''superseded_by_correction'', JStr (id_str (rc_id r)))])
           (put_record (old\<lparr>rc_superseded_by := Some (rc_id r)\<rparr>) s1) in
     bind_res (case rc_source_version r of
                 None \<Rightarrow> Inr False
               | Some sv \<Rightarrow> (case get_version (q_vault s2) sv of
                   None \<Rightarrow> Inr False
                 | Some ver \<Rightarrow> bind_res (lift_exn (schema_from_version ver)) (\<lambda>x. Inr (x \<noteq> None)))) (\<lambda>structured.
     Inr (enqueue_pdf structured (rc_id r) s2, r)))))"

subsection \<open>Evidence links\<close>

definition target_json :: "link_target \<Rightarrow> dict" where
  "target_json t =
     (case t of
        TFinding i \<Rightarrow> [(''target_type'', JStr ''finding''), (''target_id'', JStr (id_str i))]
      | TCapaStage i \<Rightarrow> [(''target_type'', JStr ''capa_stage''), (''target_id'', JStr (id_str i))]
      | TClause u \<Rightarrow> [(''target_type'', JStr ''clause''), (''target_id'', JStr (uuid_str u))]
      | TProcess u \<Rightarrow> [(''target_type'', JStr ''process''), (''target_id'', JStr (uuid_str u))]
      | TDocument u \<Rightarrow> [(''target_type'', JStr ''document''), (''target_id'', JStr (uuid_str u))])"

definition check_target :: "qms_env \<Rightarrow> app_user \<Rightarrow> rec \<Rightarrow> link_target \<Rightarrow> qms \<Rightarrow> (qms_error, unit) result" where
  "check_target E actor base t s =
     (case t of
        TClause u \<Rightarrow>
          (case qe_clause E u of
             None \<Rightarrow> Inl (Invalid ''target_id'' ''not_found'')
           | Some fw \<Rightarrow> require (fw = rc_framework base) (Invalid ''target_id'' ''framework_mismatch''))
      | TProcess u \<Rightarrow> require (qe_process E u) (Invalid ''target_id'' ''not_found'')
      | TDocument u \<Rightarrow>
          (case get_doc (q_vault s) u of
             None \<Rightarrow> Inl (Invalid ''target_id'' ''not_found'')
           | Some d \<Rightarrow>
             if doc_org d \<noteq> user_org actor then Inl (Invalid ''target_id'' ''not_found'')
             else require (doc_framework d = rc_framework base) (Invalid ''target_id'' ''framework_mismatch''))
      | TFinding i \<Rightarrow> require (list_ex (\<lambda>f. fi_id f = i) (q_findings s)) (Invalid ''target_id'' ''not_found'')
      | TCapaStage i \<Rightarrow> require (get_stage s i \<noteq> None) (Invalid ''target_id'' ''not_found''))"

text \<open>A target type outside the enumeration is the argument \<open>None\<close>.\<close>

definition link_evidence ::
    "qms_env \<Rightarrow> app_user \<Rightarrow> rid \<Rightarrow> link_target option \<Rightarrow> string option \<Rightarrow> qms \<Rightarrow> (qms_error, qms \<times> evidence_link) result" where
  "link_evidence E actor i target reason s =
     bind_res (load_record s i) (\<lambda>base.
     case target of
       None \<Rightarrow> Inl (Invalid ''target_type'' ''invalid'')
     | Some t \<Rightarrow>
       bind_res (check_target E actor base t s) (\<lambda>_.
       bind_res (require (\<not> list_ex (\<lambda>l. el_record l = i \<and> el_target l = t) (q_links s)) (Refuse 409 ''conflict'')) (\<lambda>_.
       let (s1, k) = take_id s;
           l = \<lparr>el_id = k, el_record = i, el_target = t, el_reason = reason, el_by = user_id actor\<rparr> in
       Inr (emit_record_event (user_id actor) ''RECORD_EVIDENCE_LINKED'' i None (Some (target_json t))
              (s1\<lparr>q_links := q_links s1 @ [l]\<rparr>), l))))"

definition evidence_frozen :: "qms \<Rightarrow> link_target \<Rightarrow> bool" where
  "evidence_frozen s t =
     (case t of
        TCapaStage i \<Rightarrow>
          (case get_stage s i of
             None \<Rightarrow> False
           | Some x \<Rightarrow>
             sg_stage x = C_Verify
             \<or> (case get_capa s (sg_capa x) of None \<Rightarrow> False | Some c \<Rightarrow> ca_state c = C_Closed))
      | _ \<Rightarrow> False)"

definition unlink_evidence :: "app_user \<Rightarrow> rid \<Rightarrow> rid \<Rightarrow> qms \<Rightarrow> (qms_error, qms) result" where
  "unlink_evidence actor i link_id s =
     bind_res (load_record s i) (\<lambda>r.
     case find (\<lambda>l. el_id l = link_id) (q_links s) of
       None \<Rightarrow> Inl (Refuse 404 ''not_found'')
     | Some l \<Rightarrow>
       if el_record l \<noteq> rc_id r then Inl (Refuse 404 ''not_found'')
       else if evidence_frozen s (el_target l) then Inl (Refuse 409 ''evidence_frozen'')
       else Inr (emit_record_event (user_id actor) ''RECORD_EVIDENCE_UNLINKED'' i (Some (target_json (el_target l))) None
              (s\<lparr>q_links := filter (\<lambda>x. el_id x \<noteq> link_id) (q_links s)\<rparr>)))"

end
