(* ===== verification/Capa.thy ===== *)
theory Capa
  imports Records
begin

text \<open>
  Complaints, corrective actions and nonconformities (\<open>services/capa/service.py\<close>). A CAPA and a complaint
  are records with a satellite row; each step of a CAPA appends a sealed stage and moves its state; the
  action plan is approved by an instance of the workflow engine, kept in \<open>q_flows\<close> with its id and the
  CAPA it is about. A signature refers to the stage it signs by an id taken before either is stored.
\<close>

fun capa_value :: "capa_state \<Rightarrow> string" where
  "capa_value C_Raised = ''Raised''"
| "capa_value C_Containment = ''Containment''"
| "capa_value C_RootCause = ''RootCause''"
| "capa_value C_ActionPlan = ''ActionPlan''"
| "capa_value C_Implement = ''Implement''"
| "capa_value C_Verify = ''Verify''"
| "capa_value C_Closed = ''Closed''"
| "capa_value C_Rejected = ''Rejected''"

fun severity_value :: "nc_severity \<Rightarrow> string" where
  "severity_value Critical = ''Critical''"
| "severity_value Major = ''Major''"
| "severity_value Minor = ''Minor''"

fun source_value :: "capa_source \<Rightarrow> string" where
  "source_value S_audit = ''audit''"
| "source_value S_process = ''process''"
| "source_value S_complaint = ''complaint''"
| "source_value S_review_output = ''review_output''"
| "source_value S_risk = ''risk''"

fun ncr_source_value :: "ncr_source \<Rightarrow> string" where
  "ncr_source_value N_audit = ''audit''"
| "ncr_source_value N_process = ''process''"
| "ncr_source_value N_complaint = ''complaint''"
| "ncr_source_value N_internal = ''internal''"

fun ncr_disposition_value :: "ncr_disposition \<Rightarrow> string" where
  "ncr_disposition_value Use_as_is = ''use_as_is''"
| "ncr_disposition_value Rework = ''rework''"
| "ncr_disposition_value Scrap = ''scrap''"
| "ncr_disposition_value Return = ''return''"
| "ncr_disposition_value Concession = ''concession''"
| "ncr_disposition_value Regrade = ''regrade''"

subsection \<open>The digest a stage is signed over\<close>

text \<open>\<open>json.dumps(block, sort_keys=True, separators=(",", ":"))\<close> with ASCII output.\<close>

fun sorted_json :: "json \<Rightarrow> json" where
  "sorted_json (JList xs) = JList (map sorted_json xs)"
| "sorted_json (JObj d) = JObj (sort_key fst (map (\<lambda>(k, v). (k, sorted_json v)) d))"
| "sorted_json v = v"

definition ascii_esc :: "char \<Rightarrow> string" where
  "ascii_esc c =
     (if c < CHR 0x7F then [c]
      else [CHR 0x5C, CHR ''u'', CHR ''0'', CHR ''0'', hex_digit (of_char c div 16), hex_digit (of_char c mod 16)])"

definition content_digest :: "(bytes \<Rightarrow> bytes) \<Rightarrow> dict \<Rightarrow> string" where
  "content_digest H block =
     ''sha256:'' @ hexdigest (H (utf8 (concat (map ascii_esc (json_text (sorted_json (JObj block)))))))"

subsection \<open>Shared steps\<close>

definition load_capa :: "qms \<Rightarrow> rid \<Rightarrow> (qms_error, capa) result" where
  "load_capa s i = (case get_capa s i of None \<Rightarrow> Inl (Refuse 404 ''not_found'') | Some c \<Rightarrow> Inr c)"

definition check_process :: "qms_env \<Rightarrow> uuid option \<Rightarrow> (qms_error, unit) result" where
  "check_process E p = (case p of None \<Rightarrow> Inr () | Some u \<Rightarrow> require (qe_process E u) (Refuse 404 ''not_found''))"

definition plain_capture :: "string \<Rightarrow> string \<Rightarrow> capture" where
  "plain_capture rtype title =
     \<lparr>cp_type = rtype, cp_title = title, cp_class = ''Internal'', cp_area = None, cp_source_doc = None,
      cp_source_version = None, cp_evidence = [], cp_values = None, cp_policy = None\<rparr>"

definition add_stage :: "rid \<Rightarrow> rid \<Rightarrow> capa_state \<Rightarrow> dict \<Rightarrow> rid option \<Rightarrow> int \<Rightarrow> app_user \<Rightarrow> qms \<Rightarrow> qms" where
  "add_stage k i st block sig cycle actor s =
     s\<lparr>q_stages := q_stages s @ [\<lparr>sg_id = k, sg_capa = i, sg_stage = st, sg_block = block, sg_signature = sig,
        sg_cycle = cycle, sg_by = user_id actor\<rparr>]\<rparr>"

definition new_stage :: "rid \<Rightarrow> capa_state \<Rightarrow> dict \<Rightarrow> int \<Rightarrow> app_user \<Rightarrow> qms \<Rightarrow> qms" where
  "new_stage i st block cycle actor s =
     (case take_id s of (s1, k) \<Rightarrow> add_stage k i st block None cycle actor s1)"

definition signed_stage ::
    "qms_env \<Rightarrow> capa \<Rightarrow> capa_state \<Rightarrow> string \<Rightarrow> dict \<Rightarrow> app_user \<Rightarrow> qms \<Rightarrow> qms \<times> rid" where
  "signed_stage E c st meaning block actor s =
     (case take_id s of (s1, stage_id) \<Rightarrow> (case take_id s1 of (s2, sig) \<Rightarrow>
        (add_stage stage_id (ca_id c) st block (Some sig) (ca_cycle c) actor
           (s2\<lparr>q_signatures := q_signatures s2 @ [\<lparr>qs_id = sig, qs_object = stage_id, qs_meaning = meaning,
              qs_signer = user_id actor, qs_digest = content_digest (qe_hash E) block\<rparr>]\<rparr>), sig)))"

definition close_item :: "capa_state \<Rightarrow> string \<times> json" where
  "close_item st = (''close_state'', JStr (capa_value st))"

definition cycle_item :: "capa \<Rightarrow> string \<times> json" where
  "cycle_item c = (''cycle_marker'', JInt (ca_cycle c))"

definition move_capa :: "app_user \<Rightarrow> capa \<Rightarrow> capa_state \<Rightarrow> dict \<Rightarrow> dict \<Rightarrow> qms \<Rightarrow> qms \<times> capa" where
  "move_capa actor c target before after s =
     (let c' = c\<lparr>ca_state := target\<rparr> in
      (emit_record_event (user_id actor) ''CAPA_TRANSITIONED'' (ca_id c) (Some before) (Some after) (put_capa c' s), c'))"

definition check_move :: "capa \<Rightarrow> capa_state \<Rightarrow> (qms_error, unit) result" where
  "check_move c target = require (capa_allowed (ca_state c) target) (Refuse 409 ''invalid_capa_transition'')"

definition non_empty :: "dict \<Rightarrow> (qms_error, unit) result" where
  "non_empty block = require (block \<noteq> []) (Invalid ''content_block'' ''required'')"

definition update_dict :: "dict \<Rightarrow> dict \<Rightarrow> dict" where
  "update_dict d e = fold (\<lambda>(k, v). put_assoc k v) e d"

subsection \<open>Complaints\<close>

definition put_complaint :: "complaint \<Rightarrow> qms \<Rightarrow> qms" where
  "put_complaint c s = s\<lparr>q_complaints := map (\<lambda>x. if co_id x = co_id c then c else x) (q_complaints s)\<rparr>"

text \<open>The title has an em dash, which lies outside Latin-1; the substitute character stands for it.\<close>

definition em_dash :: string where "em_dash = [CHR 0x1A]"

definition capture_complaint ::
    "qms_env \<Rightarrow> app_user \<Rightarrow> instant \<Rightarrow> uuid \<Rightarrow> string \<Rightarrow> string option \<Rightarrow> instant option \<Rightarrow> string option \<Rightarrow> nc_severity option
       \<Rightarrow> qms \<Rightarrow> (qms_error, qms \<times> complaint) result" where
  "capture_complaint E actor now fresh description customer received_at channel severity s =
     (let title = (if some_text customer then ''Complaint '' @ em_dash @ '' '' @ the customer else ''Customer complaint'') in
      bind_res (capture_record E actor now fresh (plain_capture ''COMPLAINT'' title) None None False s) (\<lambda>(s1, r).
      let c = \<lparr>co_id = rc_id r, co_customer = customer, co_received_at = received_at, co_channel = channel,
               co_description = description, co_severity = severity, co_capa = None\<rparr> in
      Inr (emit_record_event (user_id actor) ''COMPLAINT_CAPTURED'' (rc_id r) None
             (Some [(''customer'', opt_json customer), (''channel'', opt_json channel),
                    (''severity'', opt_json (map_option severity_value severity))])
             (s1\<lparr>q_complaints := q_complaints s1 @ [c]\<rparr>), c)))"

subsection \<open>Raising a CAPA\<close>

definition new_capa :: "rec \<Rightarrow> rid option \<Rightarrow> capa_source \<Rightarrow> nc_severity \<Rightarrow> uuid option \<Rightarrow> date \<Rightarrow> capa" where
  "new_capa r origin source severity process target =
     \<lparr>ca_id = rc_id r, ca_origin = origin, ca_source = source, ca_severity = severity, ca_process = process,
      ca_state = C_Raised, ca_cycle = 0, ca_target = Some target, ca_overdue_at = None\<rparr>"

definition raised_event :: "app_user \<Rightarrow> rid \<Rightarrow> capa_source \<Rightarrow> nc_severity \<Rightarrow> qms \<Rightarrow> qms" where
  "raised_event actor i source severity s =
     emit_record_event (user_id actor) ''CAPA_RAISED'' i None
       (Some [(''source'', JStr (source_value source)), (''severity'', JStr (severity_value severity))]) s"

definition build_capa ::
    "qms_env \<Rightarrow> app_user \<Rightarrow> instant \<Rightarrow> uuid \<Rightarrow> string \<Rightarrow> nc_severity \<Rightarrow> capa_source \<Rightarrow> uuid option \<Rightarrow> rid option \<Rightarrow> dict
       \<Rightarrow> qms \<Rightarrow> (qms_error, qms \<times> capa) result" where
  "build_capa E actor now fresh title severity source process origin block s =
     bind_res (capture_record E actor now fresh (plain_capture ''CAPA'' title) None None False s) (\<lambda>(s1, r).
     bind_res (lift_exn (default_target_date severity (qe_local_date E now))) (\<lambda>target.
     let c = new_capa r origin source severity process target in
     Inr (raised_event actor (ca_id c) source severity
            (new_stage (ca_id c) C_Raised block 0 actor (s1\<lparr>q_capas := q_capas s1 @ [c]\<rparr>)), c)))"

definition raise_capa ::
    "qms_env \<Rightarrow> app_user \<Rightarrow> instant \<Rightarrow> uuid \<Rightarrow> string \<Rightarrow> nc_severity \<Rightarrow> capa_source \<Rightarrow> uuid option \<Rightarrow> string option
       \<Rightarrow> qms \<Rightarrow> (qms_error, qms \<times> capa) result" where
  "raise_capa E actor now fresh title severity source process problem s =
     bind_res (require (source \<noteq> S_review_output) (Invalid ''source'' ''reserved'')) (\<lambda>_.
     bind_res (require (source \<noteq> S_risk) (Invalid ''source'' ''reserved'')) (\<lambda>_.
     bind_res (check_process E process) (\<lambda>_.
     build_capa E actor now fresh title severity source process None
       [(''problem'', opt_json problem), (''source'', JStr (source_value source)),
        (''severity'', JStr (severity_value severity))] s)))"

definition first_severity :: "nc_severity option \<Rightarrow> nc_severity option \<Rightarrow> nc_severity option" where
  "first_severity a b = (case a of None \<Rightarrow> b | Some x \<Rightarrow> Some x)"

definition spawn_capa_from_complaint ::
    "qms_env \<Rightarrow> app_user \<Rightarrow> instant \<Rightarrow> uuid \<Rightarrow> rid \<Rightarrow> nc_severity option \<Rightarrow> uuid option
       \<Rightarrow> qms \<Rightarrow> (qms_error, qms \<times> capa \<times> bool) result" where
  "spawn_capa_from_complaint E actor now fresh i severity process s =
     (case find (\<lambda>c. co_id c = i) (q_complaints s) of
        None \<Rightarrow> Inl (Refuse 404 ''not_found'')
      | Some co \<Rightarrow>
        (case co_capa co of
           Some k \<Rightarrow> bind_res (load_capa s k) (\<lambda>c. Inr (s, c, False))
         | None \<Rightarrow>
           (case first_severity severity (co_severity co) of
              None \<Rightarrow> Inl (Invalid ''severity'' ''required'')
            | Some sev \<Rightarrow>
              bind_res (check_process E process) (\<lambda>_.
              bind_res (capture_record E actor now fresh (plain_capture ''CAPA'' ''CAPA (from complaint)'') None None False s)
                (\<lambda>(s1, r).
              bind_res (lift_exn (default_target_date sev (qe_local_date E now))) (\<lambda>target.
              let c = new_capa r None S_complaint sev process target;
                  s2 = new_stage (ca_id c) C_Raised
                    [(''source'', JStr (source_value S_complaint)), (''complaint_id'', JStr (id_str i)),
                     (''description'', JStr (co_description co)), (''severity'', JStr (severity_value sev))] 0 actor
                    (s1\<lparr>q_capas := q_capas s1 @ [c]\<rparr>);
                  s3 = put_complaint (co\<lparr>co_capa := Some (ca_id c)\<rparr>) s2 in
              Inr (emit_record_event (user_id actor) ''COMPLAINT_SPAWNED_CAPA'' i None
                     (Some [(''spawned_capa_id'', JStr (id_str (ca_id c)))])
                     (raised_event actor (ca_id c) S_complaint sev s3), c, True)))))))"

subsection \<open>The unsigned stages\<close>

definition advance_stage ::
    "capa_state \<Rightarrow> (capa \<Rightarrow> dict) \<Rightarrow> app_user \<Rightarrow> rid \<Rightarrow> dict \<Rightarrow> qms \<Rightarrow> (qms_error, qms \<times> capa) result" where
  "advance_stage target extra actor i block s =
     bind_res (non_empty block) (\<lambda>_.
     bind_res (load_capa s i) (\<lambda>c.
     bind_res (check_move c target) (\<lambda>_.
     Inr (move_capa actor c target [close_item (ca_state c)] (close_item target # extra c)
            (new_stage (ca_id c) target block (ca_cycle c) actor s)))))"

definition advance_capa_to_containment :: "app_user \<Rightarrow> rid \<Rightarrow> dict \<Rightarrow> qms \<Rightarrow> (qms_error, qms \<times> capa) result" where
  "advance_capa_to_containment = advance_stage C_Containment (\<lambda>_. [])"

definition advance_capa_to_root_cause :: "app_user \<Rightarrow> rid \<Rightarrow> dict \<Rightarrow> qms \<Rightarrow> (qms_error, qms \<times> capa) result" where
  "advance_capa_to_root_cause = advance_stage C_RootCause (\<lambda>_. [])"

definition advance_capa_to_implement :: "app_user \<Rightarrow> rid \<Rightarrow> dict \<Rightarrow> qms \<Rightarrow> (qms_error, qms \<times> capa) result" where
  "advance_capa_to_implement = advance_stage C_Implement (\<lambda>c. [cycle_item c])"

subsection \<open>The action plan\<close>

definition flow_running :: "wf \<Rightarrow> bool" where
  "flow_running w \<longleftrightarrow> wf_state w \<notin> {completed, rejected, needs_attention}"

definition propose_action_plan ::
    "qms_env \<Rightarrow> app_user \<Rightarrow> rid \<Rightarrow> dict \<Rightarrow> qms \<Rightarrow> (qms_error, qms \<times> rid) result" where
  "propose_action_plan E actor i block s =
     bind_res (non_empty block) (\<lambda>_.
     bind_res (load_capa s i) (\<lambda>c.
     bind_res (check_move c C_ActionPlan) (\<lambda>_.
     bind_res (require (\<not> list_ex (\<lambda>(k, j, w). j = ca_id c \<and> flow_running w) (q_flows s))
       (Refuse 409 ''capa_approval_in_progress'')) (\<lambda>_.
     bind_res (lift_flow (instantiate (qe_flow E) (qe_flow_definition E) ''CAPA''
         (Some [(''severity'', JStr (severity_value (ca_severity c))), (''action_plan'', JObj block),
                (''proposed_by'', JStr (uuid_str (user_id actor)))]) (Some (user_id actor)))) (\<lambda>w.
     case take_id s of (s1, k) \<Rightarrow> Inr (s1\<lparr>q_flows := q_flows s1 @ [(k, ca_id c, w)]\<rparr>, k))))))"

definition get_flow :: "qms \<Rightarrow> rid \<Rightarrow> (rid \<times> wf) option" where
  "get_flow s k = map_of (q_flows s) k"

definition put_flow :: "rid \<Rightarrow> wf \<Rightarrow> qms \<Rightarrow> qms" where
  "put_flow k w s = s\<lparr>q_flows := map (\<lambda>(k', i, w'). if k' = k then (k', i, w) else (k', i, w')) (q_flows s)\<rparr>"

definition actor_decided_elsewhere :: "wf \<Rightarrow> uuid \<Rightarrow> nat \<Rightarrow> bool" where
  "actor_decided_elsewhere w actor i \<longleftrightarrow> list_ex (\<lambda>oc. oc_by oc = actor \<and> oc_task oc \<noteq> i) (wf_outcomes w)"

definition assert_capa_approver :: "qms_env \<Rightarrow> app_user \<Rightarrow> wf_task \<Rightarrow> wf \<Rightarrow> (qms_error, unit) result" where
  "assert_capa_approver E actor t w =
     bind_res (require (tk_assignee t = Some (user_id actor) \<or> uuid_str (user_id actor) \<in> set (tk_pool t))
       (Refuse 404 ''not_found'')) (\<lambda>_.
     case map_of (we_stages (qe_flow E)) (tk_stage t) of
       None \<Rightarrow> Inl (Refuse 404 ''not_found'')
     | Some st \<Rightarrow>
       bind_res (lift_exn (json_list (dget_or (ctx_of (st_assignees st)) ''roles'' (JList [])))) (\<lambda>roles.
       bind_res (require (user_id actor \<in> set (users_with_roles (qe_flow E) roles)) (Refuse 404 ''not_found'')) (\<lambda>_.
       require (\<not> actor_decided_elsewhere w (user_id actor) (tk_id t)) (Refuse 409 ''conflict''))))"

definition allowed_capa_outcomes :: "string list" where
  "allowed_capa_outcomes = [''approve'', ''reject'', ''changes_requested'']"

definition plan_of :: "wf \<Rightarrow> (qms_error, dict) result" where
  "plan_of w =
     (let p = dget (ctx_of (wf_context w)) ''action_plan'' in
      if \<not> truthy p then Inr [] else (case p of JObj d \<Rightarrow> Inr d | _ \<Rightarrow> Inl (Raises TypeError)))"

definition sealed_plan :: "app_user \<Rightarrow> rid \<Rightarrow> wf \<Rightarrow> dict \<Rightarrow> dict" where
  "sealed_plan actor k w plan =
     update_dict plan [(''proposed_by'', dget (ctx_of (wf_context w)) ''proposed_by''),
       (''approved_by'', JStr (uuid_str (user_id actor))), (''workflow_instance_id'', JStr (id_str k))]"

definition completed_replay :: "qms \<Rightarrow> rid \<Rightarrow> rid \<Rightarrow> (capa_state \<times> rid option) option" where
  "completed_replay s i k =
     (case get_capa s i of
        None \<Rightarrow> None
      | Some c \<Rightarrow>
        let signed = filter (\<lambda>x. sg_stage x = C_ActionPlan \<and> sg_signature x \<noteq> None
              \<and> dget (sg_block x) ''workflow_instance_id'' = JStr (id_str k)) (capa_stages s i) in
        Some (ca_state c, if signed = [] then None else sg_signature (last signed)))"

definition seal_action_plan ::
    "qms_env \<Rightarrow> app_user \<Rightarrow> rid \<Rightarrow> rid \<Rightarrow> wf \<Rightarrow> qms \<Rightarrow> (qms_error, qms \<times> rid) result" where
  "seal_action_plan E actor k i w s =
     bind_res (load_capa s i) (\<lambda>c.
     bind_res (check_move c C_ActionPlan) (\<lambda>_.
     bind_res (plan_of w) (\<lambda>plan.
     case signed_stage E c C_ActionPlan ''approval'' (sealed_plan actor k w plan) actor s of (s1, sig) \<Rightarrow>
       Inr (fst (move_capa actor c C_ActionPlan [close_item (ca_state c)]
              [close_item C_ActionPlan, (''signed_event_id'', JStr (id_str sig))] s1), sig))))"

definition decide_capa_action_plan ::
    "qms_env \<Rightarrow> app_user \<Rightarrow> rid \<Rightarrow> nat \<Rightarrow> string \<Rightarrow> string option \<Rightarrow> string option \<Rightarrow> qms
       \<Rightarrow> (qms_error, qms \<times> response \<times> (capa_state \<times> rid option) option) result" where
  "decide_capa_action_plan E actor k i outcome comment key s =
     (case get_flow s k of
        None \<Rightarrow> Inl (Refuse 404 ''not_found'')
      | Some (subject, w) \<Rightarrow>
        (case get_task w i of
           None \<Rightarrow> Inl (Refuse 404 ''not_found'')
         | Some t \<Rightarrow>
           bind_res (assert_capa_approver E actor t w) (\<lambda>_.
           bind_res (require (outcome \<in> set allowed_capa_outcomes) (Invalid ''outcome'' ''unsupported_outcome'')) (\<lambda>_.
           bind_res (lift_flow (wf_decide (qe_flow E) (user_id actor) i outcome comment key w)) (\<lambda>(w', r).
           let s1 = put_flow k w' s in
           if rs_replayed r then Inr (s1, r, if rs_current r = completed then completed_replay s1 subject k else None)
           else if rs_current r = completed then
             bind_res (seal_action_plan E actor k subject w s1) (\<lambda>(s2, sig).
             Inr (s2, r, Some (C_ActionPlan, Some sig)))
           else Inr (s1, r, None))))))"

subsection \<open>Verification\<close>

definition item_owner :: "json \<Rightarrow> uuid option" where
  "item_owner x =
     (case x of JObj d \<Rightarrow> (case dget d ''owner'' of JStr o' \<Rightarrow> parse_uuid o' | _ \<Rightarrow> None) | _ \<Rightarrow> None)"

definition plan_owners :: "dict \<Rightarrow> (py_error, uuid list) result" where
  "plan_owners block =
     (let v = dget block ''action_items'' in
      if \<not> truthy v then Inr [] else bind_res (json_list v) (\<lambda>xs. Inr (List.map_filter item_owner xs)))"

fun derive_implementer_ids :: "capa_stage list \<Rightarrow> (py_error, uuid list) result" where
  "derive_implementer_ids [] = Inr []"
| "derive_implementer_ids (x # xs) =
     bind_res (if sg_stage x = C_ActionPlan then plan_owners (sg_block x) else Inr []) (\<lambda>us.
     bind_res (derive_implementer_ids xs) (\<lambda>vs.
     Inr ((if sg_stage x = C_Implement then [sg_by x] else []) @ us @ vs)))"

definition verify_capa ::
    "qms_env \<Rightarrow> app_user \<Rightarrow> rid \<Rightarrow> string \<Rightarrow> dict \<Rightarrow> qms \<Rightarrow> (qms_error, qms \<times> capa) result" where
  "verify_capa E actor i decided block s =
     bind_res (require (decided \<in> verifier_decisions) (Invalid ''decision'' ''invalid'')) (\<lambda>_.
     bind_res (non_empty block) (\<lambda>_.
     bind_res (load_capa s i) (\<lambda>c.
     bind_res (check_move c C_Verify) (\<lambda>_.
     bind_res (lift_exn (derive_implementer_ids (capa_stages s i))) (\<lambda>implementers.
     bind_res (require (\<not> capa_self_verify_blocked (user_id actor) (set implementers) (ca_severity c) (qe_self_verify E))
       (Refuse 409 ''sod_self_verify'')) (\<lambda>_.
     let sealed = update_dict block [(''decision'', JStr decided), (''verified_by'', JStr (uuid_str (user_id actor)))] in
     case signed_stage E c C_Verify ''verify'' sealed actor s of (s1, sig) \<Rightarrow>
       Inr (move_capa actor c C_Verify [close_item (ca_state c)]
              [close_item C_Verify, (''decision'', JStr decided), (''signed_event_id'', JStr (id_str sig)), cycle_item c] s1)))))))"

subsection \<open>Closure\<close>

definition stage_has_evidence :: "qms \<Rightarrow> rid \<Rightarrow> bool" where
  "stage_has_evidence s k \<longleftrightarrow> list_ex (\<lambda>l. el_target l = TCapaStage k) (q_links s)"

definition cycle_stages :: "qms \<Rightarrow> capa \<Rightarrow> capa_state \<Rightarrow> capa_stage list" where
  "cycle_stages s c st = filter (\<lambda>x. sg_stage x = st \<and> sg_cycle x = ca_cycle c) (capa_stages s (ca_id c))"

definition recorded_decision :: "capa_stage list \<Rightarrow> (qms_error, string) result" where
  "recorded_decision verifies =
     (if verifies = [] then Inl (Refuse 409 ''capa_not_verified'')
      else (case dget (sg_block (last verifies)) ''decision'' of
              JStr d \<Rightarrow> if d \<in> verifier_decisions then Inr d else Inl (Refuse 409 ''capa_not_verified'')
            | JList _ \<Rightarrow> Inl (Raises TypeError)
            | JObj _ \<Rightarrow> Inl (Raises TypeError)
            | _ \<Rightarrow> Inl (Refuse 409 ''capa_not_verified'')))"

fun closure_value :: "closure_outcome \<Rightarrow> string" where
  "closure_value CLOSE = ''close''"
| "closure_value LOOP = ''loop''"
| "closure_value INCOMPLETE = ''incomplete''"

definition close_capa :: "app_user \<Rightarrow> rid \<Rightarrow> qms \<Rightarrow> (qms_error, qms \<times> capa) result" where
  "close_capa actor i s =
     bind_res (load_capa s i) (\<lambda>c.
     bind_res (require (ca_state c = C_Verify) (Refuse 409 ''invalid_capa_transition'')) (\<lambda>_.
     let verifies = cycle_stages s c C_Verify; implements = cycle_stages s c C_Implement in
     bind_res (recorded_decision verifies) (\<lambda>d.
     let out = fst (adjudicate_capa_closure d (list_ex (\<lambda>x. sg_stage x = C_RootCause) (capa_stages s (ca_id c)))
           (list_ex (\<lambda>x. stage_has_evidence s (sg_id x)) implements)
           (list_ex (\<lambda>x. stage_has_evidence s (sg_id x)) verifies)) in
     bind_res (require (out \<noteq> INCOMPLETE) (Refuse 409 ''capa_close_incomplete'')) (\<lambda>_.
     let target = (if out = CLOSE then C_Closed else C_RootCause) in
     bind_res (check_move c target) (\<lambda>_.
     let c1 = (if out = LOOP then c\<lparr>ca_cycle := ca_cycle c + 1\<rparr> else c) in
     Inr (move_capa actor c1 target [close_item (ca_state c), cycle_item c]
            [close_item target, (''outcome'', JStr (closure_value out)), (''decision'', JStr d), cycle_item c1] s))))))"

subsection \<open>Target dates\<close>

definition set_capa_target_date :: "app_user \<Rightarrow> rid \<Rightarrow> date option \<Rightarrow> qms \<Rightarrow> (qms_error, qms \<times> capa) result" where
  "set_capa_target_date actor i target s =
     bind_res (load_capa s i) (\<lambda>c.
     bind_res (require (ca_state c \<notin> {C_Closed, C_Rejected}) (Refuse 409 ''capa_terminal'')) (\<lambda>_.
     let c' = c\<lparr>ca_target := target, ca_overdue_at := None\<rparr> in
     Inr (emit_record_event (user_id actor) ''CAPA_TARGET_DATE_SET'' (ca_id c)
            (Some [(''target_completion_date'', date_json (ca_target c))])
            (Some [(''target_completion_date'', date_json target)]) (put_capa c' s), c')))"

subsection \<open>Nonconformities\<close>

definition emit_ncr :: "app_user \<Rightarrow> string \<Rightarrow> rid \<Rightarrow> dict option \<Rightarrow> dict option \<Rightarrow> qms \<Rightarrow> qms" where
  "emit_ncr actor ev i before after = log_event ev (Some (user_id actor)) ''ncr'' (id_str i) before after"

definition create_ncr ::
    "qms_env \<Rightarrow> app_user \<Rightarrow> ncr_source \<Rightarrow> string \<Rightarrow> nc_severity \<Rightarrow> uuid option \<Rightarrow> qms \<Rightarrow> (qms_error, qms \<times> ncr) result" where
  "create_ncr E actor source description severity process s =
     bind_res (check_process E process) (\<lambda>_.
     case allocate_seq (user_org actor) ''NCR'' [] (q_vault s) of (v, n) \<Rightarrow>
     (case take_id (s\<lparr>q_vault := v\<rparr>) of (s1, k) \<Rightarrow>
       let ident = format_identifier ''NCR'' (nat n) None 3;
           r = \<lparr>nr_id = k, nr_identifier = ident, nr_source = source, nr_description = description, nr_severity = severity,
                nr_process = process, nr_disposition = None, nr_authorized_by = None, nr_notes = None,
                nr_disposed_at = None, nr_created_by = user_id actor\<rparr> in
       bind_res (require (\<not> list_ex (\<lambda>x. nr_identifier x = ident) (q_ncrs s)) IntegrityError) (\<lambda>_.
       Inr (emit_ncr actor ''NCR_CREATED'' k None
              (Some [(''identifier'', JStr ident), (''source'', JStr (ncr_source_value source)),
                     (''severity'', JStr (severity_value severity))])
              (s1\<lparr>q_ncrs := q_ncrs s1 @ [r]\<rparr>), r))))"

definition put_ncr :: "ncr \<Rightarrow> qms \<Rightarrow> qms" where
  "put_ncr r s = s\<lparr>q_ncrs := map (\<lambda>x. if nr_id x = nr_id r then r else x) (q_ncrs s)\<rparr>"

definition record_ncr_disposition ::
    "app_user \<Rightarrow> rid \<Rightarrow> ncr_disposition \<Rightarrow> string option \<Rightarrow> instant \<Rightarrow> qms \<Rightarrow> (qms_error, qms \<times> ncr) result" where
  "record_ncr_disposition actor i d notes now s =
     (case find (\<lambda>x. nr_id x = i) (q_ncrs s) of
        None \<Rightarrow> Inl (Refuse 404 ''not_found'')
      | Some r \<Rightarrow>
        bind_res (require (nr_disposition r = None) (Refuse 409 ''ncr_already_dispositioned'')) (\<lambda>_.
        let r' = r\<lparr>nr_disposition := Some d, nr_authorized_by := Some (user_id actor), nr_notes := notes,
                   nr_disposed_at := Some now\<rparr> in
        Inr (emit_ncr actor ''NCR_DISPOSITIONED'' i (Some [(''disposition'', JNull)])
               (Some [(''disposition'', JStr (ncr_disposition_value d)),
                      (''authorized_by'', JStr (uuid_str (user_id actor)))]) (put_ncr r' s), r')))"

end
