(* ===== verification/Dcr.thy ===== *)
theory Dcr
  imports Capa
begin

text \<open>
  Change requests for controlled documents (\<open>services/dcr/service.py\<close>): the request with its mutable state, the
  append-only trail of its stage events, the impact assessment, the approval by an instance of the workflow engine
  and the vault action it is carried out by. The tables are those of one organisation. What is read from tables
  outside the state (links, processes, clauses, records, origins of a document) are arguments of the environment.
\<close>

subsection \<open>Tables\<close>

datatype change_type = CH_REVISE | CH_CREATE | CH_RETIRE

datatype change_significance = SIG_MAJOR | SIG_MINOR

datatype reason_class =
    RC_regulatory | RC_audit_finding | RC_capa | RC_process_improvement | RC_error_correction | RC_periodic_review
  | RC_customer_requirement | RC_mgmt_review | RC_other

datatype source_link = SL_capa | SL_finding | SL_mgmt_review | SL_risk

fun change_value :: "change_type \<Rightarrow> string" where
  "change_value CH_REVISE = ''REVISE''"
| "change_value CH_CREATE = ''CREATE''"
| "change_value CH_RETIRE = ''RETIRE''"

fun significance_value :: "change_significance \<Rightarrow> string" where
  "significance_value SIG_MAJOR = ''MAJOR''"
| "significance_value SIG_MINOR = ''MINOR''"

fun reason_value :: "reason_class \<Rightarrow> string" where
  "reason_value RC_regulatory = ''regulatory''"
| "reason_value RC_audit_finding = ''audit_finding''"
| "reason_value RC_capa = ''capa''"
| "reason_value RC_process_improvement = ''process_improvement''"
| "reason_value RC_error_correction = ''error_correction''"
| "reason_value RC_periodic_review = ''periodic_review''"
| "reason_value RC_customer_requirement = ''customer_requirement''"
| "reason_value RC_mgmt_review = ''mgmt_review''"
| "reason_value RC_other = ''other''"

fun dcr_value :: "dcr_state \<Rightarrow> string" where
  "dcr_value DCR_Open = ''Open''"
| "dcr_value DCR_Assessed = ''Assessed''"
| "dcr_value DCR_Routed = ''Routed''"
| "dcr_value DCR_InApproval = ''InApproval''"
| "dcr_value DCR_Approved = ''Approved''"
| "dcr_value DCR_Implemented = ''Implemented''"
| "dcr_value DCR_Closed = ''Closed''"
| "dcr_value DCR_Cancelled = ''Cancelled''"
| "dcr_value DCR_Rejected = ''Rejected''"

definition impact_dimensions :: "string list" where
  "impact_dimensions = [''affected_processes'', ''dependent_documents'', ''records_produced_under'', ''training_awareness'',
     ''clause_coverage'', ''effectivity_transition'', ''risk'']"

record dcr =
  dc_id :: rid
  dc_identifier :: string
  dc_target :: "uuid option"
  dc_type :: change_type
  dc_significance :: change_significance
  dc_reason_class :: reason_class
  dc_reason :: string
  dc_source_type :: "source_link option"
  dc_source :: "rid option"
  dc_effective_from :: "instant option"
  dc_result :: "uuid option"
  dc_key :: "string option"
  dc_state :: dcr_state
  dc_decision :: "string option"
  dc_decided_by :: "uuid option"
  dc_decided_at :: "instant option"
  dc_by :: uuid

record stage_event =
  se_dcr :: rid
  se_from :: "dcr_state option"
  se_to :: dcr_state
  se_by :: uuid
  se_comment :: "string option"
  se_signed :: "rid option"
  se_payload :: "dict option"

record impact =
  im_dcr :: rid
  im_dimension :: string
  im_auto :: dict
  im_note :: "string option"

text \<open>\<open>cs_claims\<close> is the column \<open>dcr_id\<close> of the document versions.\<close>

record change_store =
  cs_vault :: vault
  cs_next :: rid
  cs_dcrs :: "dcr list"
  cs_trail :: "stage_event list"
  cs_impacts :: "impact list"
  cs_flows :: "(rid \<times> rid \<times> wf) list"
  cs_signatures :: "q_signature list"
  cs_claims :: "(uuid \<times> rid) list"
  cs_events :: "q_event list"

text \<open>A row of \<open>document_link\<close> seen from one of its documents.\<close>

record doc_link =
  dl_type :: string
  dl_outbound :: bool
  dl_level :: "string option"
  dl_json :: json

record change_env =
  ce_vault :: vault_env
  ce_flow :: wf_env
  ce_flow_definition :: json
  ce_hash :: "bytes \<Rightarrow> bytes"
  ce_is_record :: "uuid \<Rightarrow> bool"
  ce_processes :: "uuid \<Rightarrow> json list"
  ce_links :: "uuid \<Rightarrow> doc_link list"
  ce_records :: "uuid \<Rightarrow> int \<times> json list"
  ce_clauses :: "uuid \<Rightarrow> (json \<times> bool) list"

subsection \<open>Shared steps\<close>

definition get_dcr :: "change_store \<Rightarrow> rid \<Rightarrow> dcr option" where
  "get_dcr s i = find (\<lambda>d. dc_id d = i) (cs_dcrs s)"

definition load_dcr :: "change_store \<Rightarrow> rid \<Rightarrow> (qms_error, dcr) result" where
  "load_dcr s i = (case get_dcr s i of None \<Rightarrow> Inl (Refuse 404 ''not_found'') | Some d \<Rightarrow> Inr d)"

definition put_dcr :: "dcr \<Rightarrow> change_store \<Rightarrow> change_store" where
  "put_dcr d s = s\<lparr>cs_dcrs := map (\<lambda>x. if dc_id x = dc_id d then d else x) (cs_dcrs s)\<rparr>"

definition emit_dcr :: "app_user \<Rightarrow> string \<Rightarrow> rid \<Rightarrow> dict option \<Rightarrow> dict option \<Rightarrow> change_store \<Rightarrow> change_store" where
  "emit_dcr actor ev i old new s =
     s\<lparr>cs_events := cs_events s @ [\<lparr>qv_type = ev, qv_actor = Some (user_id actor), qv_object_type = ''dcr'',
        qv_object = id_str i, qv_before = old, qv_after = new\<rparr>]\<rparr>"

definition log_stage :: "stage_event \<Rightarrow> change_store \<Rightarrow> change_store" where
  "log_stage e s = s\<lparr>cs_trail := cs_trail s @ [e]\<rparr>"

definition dcr_item :: "dcr_state \<Rightarrow> string \<times> json" where
  "dcr_item st = (''state'', JStr (dcr_value st))"

text \<open>A move of the request: its stage event, its new state and the audit event.\<close>

definition move_dcr ::
    "app_user \<Rightarrow> dcr \<Rightarrow> dcr_state \<Rightarrow> string option \<Rightarrow> rid option \<Rightarrow> dict option \<Rightarrow> dict \<Rightarrow> change_store \<Rightarrow> change_store" where
  "move_dcr actor d target comment sig payload extra s =
     emit_dcr actor ''DCR_TRANSITIONED'' (dc_id d) (Some [dcr_item (dc_state d)]) (Some (dcr_item target # extra))
       (put_dcr (d\<lparr>dc_state := target\<rparr>)
         (log_stage \<lparr>se_dcr = dc_id d, se_from = Some (dc_state d), se_to = target, se_by = user_id actor,
            se_comment = comment, se_signed = sig, se_payload = payload\<rparr> s))"

subsection \<open>Raising, editing, cancelling\<close>

definition resolve_target ::
    "change_env \<Rightarrow> change_store \<Rightarrow> app_user \<Rightarrow> change_type \<Rightarrow> uuid option \<Rightarrow> (qms_error, unit) result" where
  "resolve_target E s actor t target =
     (if t = CH_CREATE then require (target = None) (Invalid ''target_document_id'' ''create_has_target'')
      else (case target of
        None \<Rightarrow> Inl (Invalid ''target_document_id'' ''target_required'')
      | Some i \<Rightarrow>
        if ce_is_record E i then Inl (Invalid ''target_document_id'' ''not_a_document'')
        else (case get_doc (cs_vault s) i of
          None \<Rightarrow> Inl (Refuse 404 ''not_found'')
        | Some d \<Rightarrow>
          if doc_org d \<noteq> user_org actor then Inl (Refuse 404 ''not_found'')
          else lift_vault (reject_managed_register_mutation (ce_vault E) d))))"

record dcr_input =
  di_type :: change_type
  di_significance :: change_significance
  di_class :: reason_class
  di_reason :: string
  di_target :: "uuid option"
  di_source :: "(source_link \<times> rid) option"
  di_from :: "instant option"
  di_key :: "string option"

definition year_str :: "instant \<Rightarrow> string" where
  "year_str now = nat_str (nat (year (utc_date now)))"

definition raise_dcr ::
    "change_env \<Rightarrow> app_user \<Rightarrow> instant \<Rightarrow> dcr_input \<Rightarrow> change_store \<Rightarrow> (qms_error, change_store \<times> dcr) result" where
  "raise_dcr E actor now c s =
     bind_res (resolve_target E s actor (di_type c) (di_target c)) (\<lambda>_.
     case allocate_seq (user_org actor) ''DCR'' (year_str now) (cs_vault s) of (v, n) \<Rightarrow>
       let i = cs_next s;
           ident = format_identifier ''DCR'' (nat n) (Some (year_str now)) 4;
           d = \<lparr>dc_id = i, dc_identifier = ident, dc_target = di_target c, dc_type = di_type c,
                dc_significance = di_significance c, dc_reason_class = di_class c, dc_reason = di_reason c,
                dc_source_type = map_option fst (di_source c), dc_source = map_option snd (di_source c),
                dc_effective_from = di_from c, dc_result = None, dc_key = di_key c, dc_state = DCR_Open,
                dc_decision = None, dc_decided_by = None, dc_decided_at = None, dc_by = user_id actor\<rparr> in
       bind_res (require (\<not> list_ex (\<lambda>x. dc_identifier x = ident
           \<or> dc_key x \<noteq> None \<and> dc_key x = dc_key d \<and> dc_source x \<noteq> None \<and> dc_source x = dc_source d) (cs_dcrs s)) IntegrityError) (\<lambda>_.
       Inr (emit_dcr actor ''DCR_RAISED'' i None
              (Some [(''identifier'', JStr ident), (''change_type'', JStr (change_value (di_type c))),
                     (''change_significance'', JStr (significance_value (di_significance c))), dcr_item DCR_Open])
              (log_stage \<lparr>se_dcr = i, se_from = None, se_to = DCR_Open, se_by = user_id actor, se_comment = None,
                 se_signed = None, se_payload = Some [(''change_type'', JStr (change_value (di_type c))),
                   (''change_significance'', JStr (significance_value (di_significance c))),
                   (''reason_class'', JStr (reason_value (di_class c)))]\<rparr>
                (s\<lparr>cs_vault := v, cs_next := i + 1, cs_dcrs := cs_dcrs s @ [d]\<rparr>)), d)))"

definition find_spawned_dcr :: "change_store \<Rightarrow> rid \<Rightarrow> string option \<Rightarrow> dcr option" where
  "find_spawned_dcr s k key =
     (if key = None then None
      else find (\<lambda>d. dc_source_type d = Some SL_capa \<and> dc_source d = Some k \<and> dc_key d = key) (cs_dcrs s))"

text \<open>A change request spawned by a corrective action, whose row the caller has read from the other tables.\<close>

definition raise_dcr_from_capa ::
    "change_env \<Rightarrow> app_user \<Rightarrow> instant \<Rightarrow> capa option \<Rightarrow> dcr_input \<Rightarrow> change_store
       \<Rightarrow> (qms_error, change_store \<times> dcr \<times> bool) result" where
  "raise_dcr_from_capa E actor now row c s =
     (case row of
        None \<Rightarrow> Inl (Refuse 404 ''not_found'')
      | Some k \<Rightarrow>
        (case find_spawned_dcr s (ca_id k) (di_key c) of
           Some d \<Rightarrow> Inr (s, d, False)
         | None \<Rightarrow>
           bind_res (require (ca_state k \<notin> {C_Closed, C_Rejected}) (Refuse 409 ''capa_terminal'')) (\<lambda>_.
           bind_res (raise_dcr E actor now (c\<lparr>di_source := Some (SL_capa, ca_id k)\<rparr>) s) (\<lambda>(s', d). Inr (s', d, True)))))"

record dcr_patch =
  dp_reason :: "string option"
  dp_class :: "reason_class option"
  dp_significance :: "change_significance option"
  dp_from :: "instant option"

definition iso_instant :: "instant \<Rightarrow> string" where
  "iso_instant t =
     (let x = utc_date t; day_us = t mod 86400000000; sec = day_us div 1000000; us = day_us mod 1000000 in
      pad 4 (nat (year x)) @ ''-'' @ pad 2 (nat (month x)) @ ''-'' @ pad 2 (nat (day x)) @ ''T''
        @ pad 2 (nat (sec div 3600)) @ '':'' @ pad 2 (nat (sec div 60 mod 60)) @ '':'' @ pad 2 (nat (sec mod 60))
        @ (if us = 0 then [] else ''.'' @ pad 6 (nat us)) @ ''+00:00'')"

text \<open>The fields a patch changes, with their old and new values; an absent field is left alone.\<close>

definition changed :: "'a option \<Rightarrow> 'a \<Rightarrow> bool" where
  "changed new old \<longleftrightarrow> new \<noteq> None \<and> new \<noteq> Some old"

definition patch_fields :: "dcr_patch \<Rightarrow> dcr \<Rightarrow> (string \<times> json \<times> json) list" where
  "patch_fields p d =
     (if changed (dp_reason p) (dc_reason d) then [(''reason_text'', JStr (dc_reason d), JStr (the (dp_reason p)))] else [])
   @ (if changed (dp_class p) (dc_reason_class d)
      then [(''reason_class'', JStr (reason_value (dc_reason_class d)), JStr (reason_value (the (dp_class p))))] else [])
   @ (if changed (dp_significance p) (dc_significance d)
      then [(''change_significance'', JStr (significance_value (dc_significance d)),
             JStr (significance_value (the (dp_significance p))))] else [])
   @ (if dp_from p \<noteq> None \<and> dp_from p \<noteq> dc_effective_from d
      then [(''proposed_effective_from'', opt_json (map_option iso_instant (dc_effective_from d)),
             JStr (iso_instant (the (dp_from p))))] else [])"

definition patched :: "dcr_patch \<Rightarrow> dcr \<Rightarrow> dcr" where
  "patched p d = d\<lparr>dc_reason := (case dp_reason p of None \<Rightarrow> dc_reason d | Some x \<Rightarrow> x),
     dc_reason_class := (case dp_class p of None \<Rightarrow> dc_reason_class d | Some x \<Rightarrow> x),
     dc_significance := (case dp_significance p of None \<Rightarrow> dc_significance d | Some x \<Rightarrow> x),
     dc_effective_from := (case dp_from p of None \<Rightarrow> dc_effective_from d | Some x \<Rightarrow> Some x)\<rparr>"

definition patch_dcr :: "app_user \<Rightarrow> rid \<Rightarrow> dcr_patch \<Rightarrow> change_store \<Rightarrow> (qms_error, change_store \<times> dcr) result" where
  "patch_dcr actor i p s =
     bind_res (load_dcr s i) (\<lambda>d.
     bind_res (require (dc_state d = DCR_Open) (Refuse 409 ''dcr_not_editable'')) (\<lambda>_.
     let fs = patch_fields p d; d' = patched p d; s' = put_dcr d' s in
     Inr (if fs = [] then s'
          else emit_dcr actor ''DCR_UPDATED'' i (Some (map (\<lambda>(k, a, b). (k, a)) fs)) (Some (map (\<lambda>(k, a, b). (k, b)) fs)) s', d')))"

definition cancel_dcr :: "app_user \<Rightarrow> rid \<Rightarrow> string option \<Rightarrow> change_store \<Rightarrow> (qms_error, change_store) result" where
  "cancel_dcr actor i comment s =
     bind_res (load_dcr s i) (\<lambda>d.
     bind_res (require (dcr_allowed (dc_state d) DCR_Cancelled) (Refuse 409 ''dcr_not_cancellable'')) (\<lambda>_.
     Inr (move_dcr actor d DCR_Cancelled comment None None [] s)))"


subsection \<open>Impact assessment\<close>

definition bucket_of :: "doc_link \<Rightarrow> string option" where
  "bucket_of l =
     (if dl_type l = ''parent_of'' then Some (if dl_outbound l then ''child_documents'' else ''parent_documents'')
      else if dl_type l = ''child_of'' then Some (if dl_outbound l then ''parent_documents'' else ''child_documents'')
      else if dl_type l = ''references'' then
        Some (if \<not> dl_outbound l then ''referenced_by''
              else if dl_level l = Some ''L4_FORM'' then ''forms_templates'' else ''references_out'')
      else if dl_type l = ''supersedes'' then Some (if dl_outbound l then ''supersedes'' else ''superseded_by'')
      else None)"

definition bucket_links :: "doc_link list \<Rightarrow> string \<Rightarrow> json" where
  "bucket_links ls name = JList (map dl_json (filter (\<lambda>l. bucket_of l = Some name) ls))"

record where_used =
  wu_processes :: "json list"
  wu_links :: "doc_link list"
  wu_records :: "int \<times> json list"
  wu_clauses :: "(json \<times> bool) list"
  wu_safety :: obsoletion_safety

definition build_where_used :: "change_env \<Rightarrow> document \<Rightarrow> where_used" where
  "build_where_used E d =
     \<lparr>wu_processes = ce_processes E (doc_id d), wu_links = ce_links E (doc_id d), wu_records = ce_records E (doc_id d),
      wu_clauses = ce_clauses E (doc_id d),
      wu_safety = evaluate_obsoletion (governing (ce_vault E) d) (referencing (ce_vault E) d) (sole_star (ce_vault E) d)\<rparr>"

definition safety_json :: "obsoletion_safety \<Rightarrow> json" where
  "safety_json o' = JObj [(''blocked'', JBool (os_blocked o')),
     (''reasons'', JList (map (\<lambda>(c, t). JObj [(''code'', JStr c), (''detail'', JStr t)]) (os_reasons o')))]"

definition applicable :: "dict \<Rightarrow> dict" where
  "applicable d = (''applicable'', JBool True) # d"

definition build_impact_rows :: "where_used option \<Rightarrow> dcr \<Rightarrow> (string \<times> dict) list" where
  "build_impact_rows wu d =
     (case wu of
        None \<Rightarrow> map (\<lambda>k. (k, [(''applicable'', JBool False), (''reason'', JStr ''a CREATE DCR has no target document'')])) impact_dimensions
      | Some w \<Rightarrow>
        let b = (\<lambda>n. (n, bucket_links (wu_links w) n)) in
        [(''affected_processes'', applicable [(''processes'', JList (wu_processes w))]),
         (''dependent_documents'', applicable [b ''child_documents'', b ''parent_documents'', b ''referenced_by'', b ''forms_templates'']),
         (''records_produced_under'', applicable [(''count'', JInt (fst (wu_records w))), (''sample'', JList (snd (wu_records w))),
            (''note'', JStr ''historical records stay pinned to their version (no retroactive edit)'')]),
         (''training_awareness'', applicable [(''reacknowledge_required'', JBool (dc_significance d = SIG_MAJOR)),
            (''note'', JStr ''MAJOR revisions trigger read-acknowledge re-prompts (engine deferred)'')]),
         (''clause_coverage'', applicable [(''clauses'', JList (map fst (wu_clauses w))),
            (''mandatory_star_clauses'', JList (map fst (filter snd (wu_clauses w)))),
            (''obsoletion_star_gap'', safety_json (wu_safety w))]),
         (''effectivity_transition'', applicable [(''proposed_effective_from'', opt_json (map_option iso_instant (dc_effective_from d))),
            (''scheduled'', JBool (dc_effective_from d \<noteq> None))]),
         (''risk'', [(''applicable'', JBool False), (''reason'', JStr ''the Clause 6 risk register is not built in v1'')])])"

text \<open>An assessed dimension keeps the note of the requester when it is computed again.\<close>

definition upsert_one :: "rid \<Rightarrow> string \<times> dict \<Rightarrow> impact list \<Rightarrow> impact list" where
  "upsert_one i kv xs =
     (case kv of (k, auto_facts) \<Rightarrow>
        if list_ex (\<lambda>x. im_dcr x = i \<and> im_dimension x = k) xs
        then map (\<lambda>x. if im_dcr x = i \<and> im_dimension x = k then x\<lparr>im_auto := auto_facts\<rparr> else x) xs
        else xs @ [\<lparr>im_dcr = i, im_dimension = k, im_auto = auto_facts, im_note = None\<rparr>])"

definition upsert_impact :: "rid \<Rightarrow> (string \<times> dict) list \<Rightarrow> change_store \<Rightarrow> change_store" where
  "upsert_impact i rows s = s\<lparr>cs_impacts := fold (upsert_one i) rows (cs_impacts s)\<rparr>"

definition assess_dcr :: "change_env \<Rightarrow> app_user \<Rightarrow> rid \<Rightarrow> change_store \<Rightarrow> (qms_error, change_store) result" where
  "assess_dcr E actor i s =
     bind_res (load_dcr s i) (\<lambda>d.
     bind_res (require (dcr_allowed (dc_state d) DCR_Assessed) (Refuse 409 ''dcr_not_assessable'')) (\<lambda>_.
     let wu = (case dc_target d of None \<Rightarrow> None | Some t \<Rightarrow> map_option (build_where_used E) (get_doc (cs_vault s) t)) in
     Inr (move_dcr actor d DCR_Assessed None None None [] (upsert_impact i (build_impact_rows wu d) s))))"

definition dcr_impacts :: "change_store \<Rightarrow> rid \<Rightarrow> impact list" where
  "dcr_impacts s i = filter (\<lambda>x. im_dcr x = i) (cs_impacts s)"

fun annotate_all :: "rid \<Rightarrow> (string \<times> string) list \<Rightarrow> impact list \<Rightarrow> (qms_error, impact list) result" where
  "annotate_all i [] xs = Inr xs"
| "annotate_all i ((k, t) # as) xs =
     (if list_ex (\<lambda>x. im_dcr x = i \<and> im_dimension x = k) xs
      then annotate_all i as (map (\<lambda>x. if im_dcr x = i \<and> im_dimension x = k then x\<lparr>im_note := Some t\<rparr> else x) xs)
      else Inl (Refuse 409 ''impact_not_assessed''))"

definition annotate_impact ::
    "app_user \<Rightarrow> rid \<Rightarrow> (string \<times> string) list \<Rightarrow> change_store \<Rightarrow> (qms_error, change_store) result" where
  "annotate_impact actor i notes s =
     bind_res (load_dcr s i) (\<lambda>d.
     bind_res (require (\<not> dcr_terminal (dc_state d)) (Refuse 409 ''dcr_impact_not_editable'')) (\<lambda>_.
     bind_res (require (list_all (\<lambda>kv. fst kv \<in> set impact_dimensions) notes) (Invalid ''annotations'' ''unknown_dimension'')) (\<lambda>_.
     bind_res (annotate_all i notes (cs_impacts s)) (\<lambda>xs.
     let s' = s\<lparr>cs_impacts := xs\<rparr> in
     Inr (if notes = [] then s'
          else emit_dcr actor ''DCR_UPDATED'' i None
                 (Some [(''impact_annotated'', JList (map JStr (sort (map fst notes))))]) s')))))"

subsection \<open>Routing and approval\<close>

definition route_dcr :: "change_env \<Rightarrow> app_user \<Rightarrow> rid \<Rightarrow> change_store \<Rightarrow> (qms_error, change_store \<times> rid) result" where
  "route_dcr E actor i s =
     bind_res (load_dcr s i) (\<lambda>d.
     bind_res (require (dcr_allowed (dc_state d) DCR_Routed) (Refuse 409 ''dcr_not_routable'')) (\<lambda>_.
     bind_res (require (\<not> list_ex (\<lambda>(k, j, w). j = i \<and> flow_running w) (cs_flows s)) (Refuse 409 ''dcr_approval_in_progress'')) (\<lambda>_.
     bind_res (lift_flow (instantiate (ce_flow E) (ce_flow_definition E) ''DCR''
         (Some [(''change_significance'', JStr (significance_value (dc_significance d)))]) (Some (user_id actor)))) (\<lambda>w.
     bind_res (require (wf_state w \<noteq> needs_attention) (Refuse 409 ''dcr_no_approvers'')) (\<lambda>_.
     let k = cs_next s;
         flow = (''workflow_instance_id'', JStr (id_str k));
         s1 = log_stage \<lparr>se_dcr = i, se_from = Some (dc_state d), se_to = DCR_Routed, se_by = user_id actor, se_comment = None,
                se_signed = None, se_payload = None\<rparr> (s\<lparr>cs_next := k + 1, cs_flows := cs_flows s @ [(k, i, w)]\<rparr>);
         s2 = log_stage \<lparr>se_dcr = i, se_from = Some DCR_Routed, se_to = DCR_InApproval, se_by = user_id actor, se_comment = None,
                se_signed = None, se_payload = Some [flow]\<rparr> s1 in
     Inr (emit_dcr actor ''DCR_TRANSITIONED'' i (Some [dcr_item (dc_state d)]) (Some [dcr_item DCR_InApproval, flow])
            (put_dcr (d\<lparr>dc_state := DCR_InApproval\<rparr>) s2), k))))))"

definition get_dcr_flow :: "change_store \<Rightarrow> rid \<Rightarrow> (rid \<times> wf) option" where
  "get_dcr_flow s k = map_of (cs_flows s) k"

definition put_dcr_flow :: "rid \<Rightarrow> wf \<Rightarrow> change_store \<Rightarrow> change_store" where
  "put_dcr_flow k w s = s\<lparr>cs_flows := map (\<lambda>(k', i, w'). if k' = k then (k', i, w) else (k', i, w')) (cs_flows s)\<rparr>"

definition assert_dcr_approver :: "change_env \<Rightarrow> app_user \<Rightarrow> wf_task \<Rightarrow> wf \<Rightarrow> (qms_error, unit) result" where
  "assert_dcr_approver E actor t w =
     bind_res (require (tk_assignee t = Some (user_id actor) \<or> uuid_str (user_id actor) \<in> set (tk_pool t))
       (Refuse 404 ''not_found'')) (\<lambda>_.
     case map_of (we_stages (ce_flow E)) (tk_stage t) of
       None \<Rightarrow> Inl (Refuse 404 ''not_found'')
     | Some st \<Rightarrow>
       bind_res (lift_exn (json_list (dget_or (ctx_of (st_assignees st)) ''roles'' (JList [])))) (\<lambda>roles.
       bind_res (require (user_id actor \<in> set (users_with_roles (ce_flow E) roles)) (Refuse 404 ''not_found'')) (\<lambda>_.
       require (\<not> actor_decided_elsewhere w (user_id actor) (tk_id t)) (Refuse 409 ''dcr_approver_conflict''))))"

definition allowed_dcr_outcomes :: "string list" where
  "allowed_dcr_outcomes = [''approve'', ''reject'', ''changes_requested'']"

definition dcr_replay :: "change_store \<Rightarrow> rid \<Rightarrow> app_user \<Rightarrow> (dcr_state \<times> rid option) option" where
  "dcr_replay s i actor =
     (case get_dcr s i of
        None \<Rightarrow> None
      | Some d \<Rightarrow>
        let gs = filter (\<lambda>g. qs_object g = i \<and> qs_signer g = user_id actor \<and> qs_meaning g = ''approval'') (cs_signatures s) in
        Some (dc_state d, if gs = [] then None else Some (qs_id (last gs))))"

definition approval_block :: "app_user \<Rightarrow> dcr \<Rightarrow> wf_task \<Rightarrow> rid \<Rightarrow> dict" where
  "approval_block actor d t k =
     [(''dcr_id'', JStr (id_str (dc_id d))), (''change_significance'', JStr (significance_value (dc_significance d))),
      (''stage_key'', JStr (tk_stage t)), (''approved_by'', JStr (uuid_str (user_id actor))),
      (''workflow_instance_id'', JStr (id_str k))]"

definition sign_approval :: "change_env \<Rightarrow> app_user \<Rightarrow> dcr \<Rightarrow> wf_task \<Rightarrow> rid \<Rightarrow> change_store \<Rightarrow> change_store \<times> rid" where
  "sign_approval E actor d t k s =
     (s\<lparr>cs_next := cs_next s + 1, cs_signatures := cs_signatures s @ [\<lparr>qs_id = cs_next s, qs_object = dc_id d,
        qs_meaning = ''approval'', qs_signer = user_id actor,
        qs_digest = Capa.content_digest (ce_hash E) (approval_block actor d t k)\<rparr>]\<rparr>, cs_next s)"

definition decided :: "app_user \<Rightarrow> instant \<Rightarrow> string \<Rightarrow> dcr \<Rightarrow> dcr" where
  "decided actor now word d = d\<lparr>dc_decision := Some word, dc_decided_by := Some (user_id actor), dc_decided_at := Some now\<rparr>"

definition stop_flow :: "wf \<Rightarrow> wf" where
  "stop_flow w = w\<lparr>wf_tasks := map (\<lambda>t. if tk_state t = T_PENDING then t\<lparr>tk_state := T_SKIPPED\<rparr> else t) (wf_tasks w),
     wf_state := rejected\<rparr>"

definition approve_step ::
    "change_env \<Rightarrow> app_user \<Rightarrow> instant \<Rightarrow> dcr \<Rightarrow> wf_task \<Rightarrow> rid \<Rightarrow> bool \<Rightarrow> change_store \<Rightarrow> change_store \<times> rid" where
  "approve_step E actor now d t k final s =
     (case sign_approval E actor d t k s of (s1, sig) \<Rightarrow>
        (if final
         then move_dcr actor (decided actor now ''approved'' d) DCR_Approved None (Some sig)
                (Some [(''workflow_instance_id'', JStr (id_str k))]) [(''signed_event_id'', JStr (id_str sig))] s1
         else s1, sig))"

definition refuse_step ::
    "app_user \<Rightarrow> instant \<Rightarrow> dcr \<Rightarrow> string \<Rightarrow> string option \<Rightarrow> rid \<Rightarrow> wf \<Rightarrow> change_store \<Rightarrow> change_store" where
  "refuse_step actor now d outcome comment k w s =
     move_dcr actor (decided actor now outcome d) (if outcome = ''reject'' then DCR_Rejected else DCR_Open) comment None None []
       (put_dcr_flow k (stop_flow w) s)"

definition decide_dcr_approval ::
    "change_env \<Rightarrow> app_user \<Rightarrow> instant \<Rightarrow> rid \<Rightarrow> nat \<Rightarrow> string \<Rightarrow> string option \<Rightarrow> string option \<Rightarrow> change_store
       \<Rightarrow> (qms_error, change_store \<times> response \<times> (dcr_state \<times> rid option) option) result" where
  "decide_dcr_approval E actor now k n outcome comment key s =
     (case get_dcr_flow s k of
        None \<Rightarrow> Inl (Refuse 404 ''not_found'')
      | Some (i, w) \<Rightarrow>
        (case get_task w n of
           None \<Rightarrow> Inl (Refuse 404 ''not_found'')
         | Some t \<Rightarrow>
           bind_res (assert_dcr_approver E actor t w) (\<lambda>_.
           bind_res (require (outcome \<in> set allowed_dcr_outcomes) (Invalid ''outcome'' ''unsupported_outcome'')) (\<lambda>_.
           bind_res (lift_flow (wf_decide (ce_flow E) (user_id actor) n outcome comment key w)) (\<lambda>(w', r).
           let s1 = put_dcr_flow k w' s in
           if rs_replayed r then Inr (s1, r, dcr_replay s1 i actor)
           else
             bind_res (require (\<not> (outcome = ''approve'' \<and> rs_current r = needs_attention)) (Refuse 409 ''dcr_no_approvers'')) (\<lambda>_.
             bind_res (load_dcr s1 i) (\<lambda>d.
             bind_res (require (dc_state d = DCR_InApproval) (Refuse 409 ''dcr_not_in_approval'')) (\<lambda>_.
             if outcome = ''approve'' then
               (case approve_step E actor now d t k (rs_current r = completed) s1 of (s2, sig) \<Rightarrow>
                 Inr (s2, r, Some (if rs_current r = completed then DCR_Approved else DCR_InApproval, Some sig)))
             else
               Inr (refuse_step actor now d outcome comment k w' s1, r,
                    Some (if outcome = ''reject'' then DCR_Rejected else DCR_Open, None))))))))))"

subsection \<open>Implementing and closing\<close>

definition claimed :: "change_store \<Rightarrow> uuid \<Rightarrow> bool" where
  "claimed s v \<longleftrightarrow> v \<in> fst ` set (cs_claims s)"

definition resolve_implement_version ::
    "change_env \<Rightarrow> app_user \<Rightarrow> dcr \<Rightarrow> uuid option \<Rightarrow> change_store \<Rightarrow> (qms_error, version) result" where
  "resolve_implement_version E actor d chosen s =
     (if dc_type d = CH_REVISE then
        (case dc_target d of
           None \<Rightarrow> Inl (Refuse 404 ''not_found'')
         | Some i \<Rightarrow>
           (case approved_version (cs_vault s) i of
              None \<Rightarrow> Inl (Refuse 409 ''no_approved_draft'')
            | Some r \<Rightarrow> if claimed s (ver_id r) then Inl (Refuse 409 ''version_already_linked'') else Inr r))
      else (case chosen of
        None \<Rightarrow> Inl (Invalid ''resulting_version_id'' ''required'')
      | Some vid \<Rightarrow>
        (case get_version (cs_vault s) vid of
           None \<Rightarrow> Inl (Refuse 404 ''not_found'')
         | Some r \<Rightarrow>
           (case get_doc (cs_vault s) (ver_doc r) of
              None \<Rightarrow> Inl (Refuse 404 ''not_found'')
            | Some x \<Rightarrow>
              if doc_org x \<noteq> user_org actor then Inl (Refuse 404 ''not_found'')
              else if doc_effective x \<noteq> None then Inl (Refuse 409 ''create_target_not_new'')
              else if objective_row (ce_vault E) (doc_id x) \<or> review_row (ce_vault E) (doc_id x) \<or> managed_register (ce_vault E) x
              then Inl (Refuse 409 ''create_target_managed_subtype'')
              else if ver_state r \<noteq> V_Approved then Inl (Refuse 409 ''version_not_approved'')
              else if claimed s (ver_id r) then Inl (Refuse 409 ''version_already_linked'') else Inr r))))"

definition append_implemented :: "app_user \<Rightarrow> dcr \<Rightarrow> uuid option \<Rightarrow> change_store \<Rightarrow> change_store" where
  "append_implemented actor d result s =
     (let rv = (''resulting_version_id'', opt_json (map_option uuid_str result)) in
      move_dcr actor d DCR_Implemented None None (Some [(''change_type'', JStr (change_value (dc_type d))), rv]) [rv] s)"

definition schedule_version :: "version \<Rightarrow> instant \<Rightarrow> rid \<Rightarrow> change_store \<Rightarrow> change_store" where
  "schedule_version r start i s =
     s\<lparr>cs_vault := put_version (r\<lparr>ver_effective_from := Some start\<rparr>) (cs_vault s), cs_claims := cs_claims s @ [(ver_id r, i)]\<rparr>"

definition implement_dcr ::
    "change_env \<Rightarrow> app_user \<Rightarrow> instant \<Rightarrow> rid \<Rightarrow> uuid option \<Rightarrow> bool \<Rightarrow> string option \<Rightarrow> change_store
       \<Rightarrow> (qms_error, change_store) result" where
  "implement_dcr E actor now i chosen force_retire justification s =
     bind_res (load_dcr s i) (\<lambda>d.
     bind_res (require (dcr_allowed (dc_state d) DCR_Implemented) (Refuse 409 ''dcr_not_implementable'')) (\<lambda>_.
     if dc_type d = CH_RETIRE then
       (case dc_target d of
          None \<Rightarrow> Inl (Refuse 404 ''not_found'')
        | Some t \<Rightarrow>
          (case get_doc (cs_vault s) t of
             None \<Rightarrow> Inl (Refuse 404 ''not_found'')
           | Some x \<Rightarrow>
             if doc_org x \<noteq> user_org actor then Inl (Refuse 404 ''not_found'')
             else bind_res (lift_vault (obsolete (ce_vault E) actor t (dc_reason d) None force_retire justification (cs_vault s)))
               (\<lambda>v. Inr ((append_implemented actor d None s)\<lparr>cs_vault := v\<rparr>))))
     else
       bind_res (resolve_implement_version E actor d chosen s) (\<lambda>r.
       bind_res (case get_doc (cs_vault s) (ver_doc r) of
                   None \<Rightarrow> Inr ()
                 | Some x \<Rightarrow> lift_vault (assert_release_authorized (ce_vault E) (cs_vault s) x r)) (\<lambda>_.
       let start = (case dc_effective_from d of None \<Rightarrow> now | Some f \<Rightarrow> f) in
       Inr (append_implemented actor (d\<lparr>dc_result := Some (ver_id r)\<rparr>) (Some (ver_id r)) (schedule_version r start i s))))))"

definition assert_change_effective :: "dcr \<Rightarrow> change_store \<Rightarrow> (qms_error, unit) result" where
  "assert_change_effective d s =
     (if dc_type d = CH_RETIRE then
        require (case dc_target d of
                   None \<Rightarrow> False
                 | Some t \<Rightarrow> (case get_doc (cs_vault s) t of None \<Rightarrow> False | Some x \<Rightarrow> doc_current x = D_Obsolete))
          (Refuse 409 ''dcr_effectivity_pending'')
      else
        require (case dc_result d of
                   None \<Rightarrow> False
                 | Some v \<Rightarrow> (case get_version (cs_vault s) v of None \<Rightarrow> False | Some r \<Rightarrow> ver_state r \<noteq> V_Approved))
          (Refuse 409 ''dcr_effectivity_pending''))"

definition close_dcr :: "app_user \<Rightarrow> rid \<Rightarrow> change_store \<Rightarrow> (qms_error, change_store) result" where
  "close_dcr actor i s =
     bind_res (load_dcr s i) (\<lambda>d.
     bind_res (require (dcr_allowed (dc_state d) DCR_Closed) (Refuse 409 ''dcr_not_closable'')) (\<lambda>_.
     bind_res (assert_change_effective d s) (\<lambda>_.
     Inr (move_dcr actor d DCR_Closed None None None [] s))))"

end
