(* ===== verification/Trails.thy ===== *)
theory Trails
  imports Fsm
begin

text \<open>
  The append-only trail of stage events the workflow objects keep beside their current state: a first event without
  predecessor that enters the start state, then moves of the lifecycle table, each from the state before it.
\<close>

fun legal_trail :: "('s \<Rightarrow> 's \<Rightarrow> bool) \<Rightarrow> 's \<Rightarrow> ('e \<Rightarrow> 's option) \<Rightarrow> ('e \<Rightarrow> 's) \<Rightarrow> 's option \<Rightarrow> 'e list \<Rightarrow> bool" where
  "legal_trail ok start ev_from ev_to p [] = True"
| "legal_trail ok start ev_from ev_to p (e # es) =
     (ev_from e = p \<and> (case p of None \<Rightarrow> ev_to e = start | Some a \<Rightarrow> ok a (ev_to e))
      \<and> legal_trail ok start ev_from ev_to (Some (ev_to e)) es)"

lemma legal_trail_append: "legal_trail ok start ev_from ev_to p (es @ [e]) \<longleftrightarrow> legal_trail ok start ev_from ev_to p es \<and>
    (let q = (if es = [] then p else Some (ev_to (last es))) in
     ev_from e = q \<and> (case q of None \<Rightarrow> ev_to e = start | Some a \<Rightarrow> ok a (ev_to e)))"
  by (induction es arbitrary: p) auto

text \<open>A trail is a run of the lifecycle table.\<close>

lemma legal_trail_from: "legal_trail ok start ev_from ev_to (Some a) es \<Longrightarrow> fsm_run ok a (map ev_to es)"
  by (induction es arbitrary: a) auto

lemma legal_trail_run:
  assumes "legal_trail ok start ev_from ev_to None es" "es \<noteq> []"
  shows "ev_to (hd es) = start \<and> fsm_run ok start (map ev_to (tl es))"
  using assms legal_trail_from by (cases es) fastforce+

end
