(* ===== verification/Evolve.thy ===== *)
theory Evolve
  imports Main
begin

text \<open>
  The interface between a step relation and the theorems about its runs: an invariant every step keeps and an order
  along which every step moves.
\<close>

locale evolving =
  fixes step :: "'s \<Rightarrow> 's \<Rightarrow> bool" and inv :: "'s \<Rightarrow> bool" and evolves :: "'s \<Rightarrow> 's \<Rightarrow> bool"
  assumes keeps: "step s t \<Longrightarrow> inv s \<Longrightarrow> inv t"
    and moves: "step s t \<Longrightarrow> inv s \<Longrightarrow> evolves s t"
    and rests: "evolves s s"
    and chains: "evolves s t \<Longrightarrow> evolves t u \<Longrightarrow> evolves s u"
begin

lemma run_both: "step\<^sup>*\<^sup>* s t \<Longrightarrow> inv s \<Longrightarrow> inv t \<and> evolves s t"
proof (induction rule: rtranclp_induct)
  case base
  then show ?case using rests by blast
next
  case (step t u)
  then show ?case using keeps moves chains by blast
qed

lemma run_keeps: "step\<^sup>*\<^sup>* s t \<Longrightarrow> inv s \<Longrightarrow> inv t"
  using run_both by blast

lemma run_moves: "step\<^sup>*\<^sup>* s t \<Longrightarrow> inv s \<Longrightarrow> evolves s t"
  using run_both by blast

end

end
