(* ===== verification/RetentionPolicies.thy ===== *)
theory RetentionPolicies
  imports Records
begin

text \<open>
  Management of retention policies (\<open>services/records/retention_policies.py\<close>): creation, the
  extend-forward update, archiving. The changes of an update are a record with one optional member per
  field; a member that is present and holds \<open>None\<close> is an explicit JSON null.
\<close>

definition sealed_pack_policy_name :: string where "sealed_pack_policy_name = ''Sealed Evidence Pack Retention''"
definition import_report_policy_name :: string where "import_report_policy_name = ''Import Report Retention''"
definition managed_policy_names :: "string list" where
  "managed_policy_names = [sealed_pack_policy_name, import_report_policy_name]"
definition reserved_policy_names :: "string list" where
  "reserved_policy_names = system_default_name # managed_policy_names"

definition validate_duration :: "string \<Rightarrow> string \<Rightarrow> (qms_error, unit) result" where
  "validate_duration field duration =
     (if norm_duration duration = permanent then Inr ()
      else (case retention_until (Some reference_date) duration of
              Inl ValueError \<Rightarrow> Inl (Invalid field ''invalid_duration'')
            | Inl e \<Rightarrow> Inl (Raises e)
            | Inr _ \<Rightarrow> Inr ()))"

definition validate_applies_to :: "dict option \<Rightarrow> (qms_error, unit) result" where
  "validate_applies_to a =
     (case a of
        None \<Rightarrow> Inr ()
      | Some [(k, v)] \<Rightarrow>
          if k \<notin> {''record_type'', ''clause_id'', ''process_id''} then Inl (Invalid ''applies_to'' ''invalid_applies_to'')
          else (case v of JStr x \<Rightarrow> require (strip x \<noteq> []) (Invalid ''applies_to'' ''invalid_applies_to'')
                | _ \<Rightarrow> Inl (Invalid ''applies_to'' ''invalid_applies_to''))
      | Some _ \<Rightarrow> Inl (Invalid ''applies_to'' ''invalid_applies_to''))"

definition validate_worm_lock :: "string option \<Rightarrow> string \<Rightarrow> (qms_error, unit) result" where
  "validate_worm_lock period duration =
     (case period of
        None \<Rightarrow> Inr ()
      | Some w \<Rightarrow>
        bind_res (validate_duration ''worm_lock_period'' w) (\<lambda>_.
        if norm_duration duration = permanent \<and> norm_duration w \<noteq> permanent
        then Inl (Invalid ''worm_lock_period'' ''worm_lock_too_short'')
        else bind_res (lift_exn (duration_ge w duration)) (\<lambda>ok.
          require ok (Invalid ''worm_lock_period'' ''worm_lock_too_short''))))"

definition emit_policy :: "app_user \<Rightarrow> string \<Rightarrow> uuid \<Rightarrow> dict option \<Rightarrow> dict option \<Rightarrow> qms \<Rightarrow> qms" where
  "emit_policy actor ev i before after = log_event ev (Some (user_id actor)) ''retention_policy'' (uuid_str i) before after"

fun basis_value :: "retention_basis \<Rightarrow> string" where
  "basis_value CAPTURED_AT = ''captured_at''"
| "basis_value EMPLOYMENT_END = ''event:employment_end''"
| "basis_value PRODUCT_EOL = ''event:product_eol''"
| "basis_value CONTRACT_END = ''event:contract_end''"
| "basis_value CAPA_CLOSED = ''event:capa_closed''"

record new_policy =
  np_name :: string
  np_applies :: "dict option"
  np_basis :: retention_basis
  np_duration :: string
  np_action :: disposition_action
  np_review :: bool
  np_worm :: "string option"

definition create_policy :: "app_user \<Rightarrow> uuid \<Rightarrow> new_policy \<Rightarrow> qms \<Rightarrow> (qms_error, qms \<times> rpolicy) result" where
  "create_policy actor new_id n s =
     (let name = strip (np_name n) in
      bind_res (require (name \<noteq> []) (Invalid ''name'' ''required'')) (\<lambda>_.
      bind_res (require (name \<notin> set reserved_policy_names) (Invalid ''name'' ''reserved_name'')) (\<lambda>_.
      bind_res (validate_applies_to (np_applies n)) (\<lambda>_.
      bind_res (validate_duration ''duration'' (np_duration n)) (\<lambda>_.
      bind_res (validate_worm_lock (np_worm n) (np_duration n)) (\<lambda>_.
      bind_res (require (policy_by_name s name = None) (Refuse 409 ''name_taken'')) (\<lambda>_.
      bind_res (require (get_policy s new_id = None) IntegrityError) (\<lambda>_.
      let p = \<lparr>rp_id = new_id, rp_name = name, rp_applies = np_applies n, rp_basis = np_basis n,
               rp_duration = np_duration n, rp_action = np_action n, rp_review = np_review n, rp_worm = np_worm n,
               rp_active = True, rp_archived_at = None, rp_archived_by = None\<rparr> in
      Inr (emit_policy actor ''RETENTION_POLICY_CREATED'' new_id None
             (Some [(''name'', JStr name), (''duration'', JStr (np_duration n)),
                    (''disposition_action'', JStr (action_value (np_action n))), (''review_required'', JBool (np_review n))])
             (s\<lparr>q_policies := q_policies s @ [p]\<rparr>), p)))))))))"

subsection \<open>Updates\<close>

record policy_changes =
  ch_name :: "string option option"
  ch_applies :: "dict option option"
  ch_basis :: "retention_basis option option"
  ch_duration :: "string option option"
  ch_action :: "disposition_action option option"
  ch_review :: "bool option option"
  ch_worm :: "string option option"

definition no_nulls :: "policy_changes \<Rightarrow> (qms_error, unit) result" where
  "no_nulls c =
     (if ch_name c = Some None then Inl (Invalid ''name'' ''not_nullable'')
      else if ch_basis c = Some None then Inl (Invalid ''basis'' ''not_nullable'')
      else if ch_duration c = Some None then Inl (Invalid ''duration'' ''not_nullable'')
      else if ch_action c = Some None then Inl (Invalid ''disposition_action'' ''not_nullable'')
      else if ch_review c = Some None then Inl (Invalid ''review_required'' ''not_nullable'')
      else Inr ())"

definition has_changes :: "policy_changes \<Rightarrow> bool" where
  "has_changes c \<longleftrightarrow> ch_name c \<noteq> None \<or> ch_applies c \<noteq> None \<or> ch_basis c \<noteq> None \<or> ch_duration c \<noteq> None
     \<or> ch_action c \<noteq> None \<or> ch_review c \<noteq> None \<or> ch_worm c \<noteq> None"

definition pick :: "'a option option \<Rightarrow> 'a \<Rightarrow> 'a" where
  "pick c old = (case c of Some (Some x) \<Rightarrow> x | _ \<Rightarrow> old)"

definition pick_opt :: "'a option option \<Rightarrow> 'a option \<Rightarrow> 'a option" where
  "pick_opt c old = (case c of Some x \<Rightarrow> x | None \<Rightarrow> old)"

definition checked_name :: "rpolicy \<Rightarrow> policy_changes \<Rightarrow> qms \<Rightarrow> (qms_error, unit) result" where
  "checked_name p c s =
     (case ch_name c of
        Some (Some n) \<Rightarrow>
          let name = strip n in
          if name = [] then Inl (Invalid ''name'' ''required'')
          else if name \<in> set reserved_policy_names \<and> name \<noteq> rp_name p then Inl (Invalid ''name'' ''reserved_name'')
          else (case policy_by_name s name of
                  None \<Rightarrow> Inr ()
                | Some q \<Rightarrow> require (rp_id q = rp_id p) (Refuse 409 ''name_taken''))
      | _ \<Rightarrow> Inr ())"

definition count_active_pinned_records :: "qms \<Rightarrow> uuid \<Rightarrow> nat" where
  "count_active_pinned_records s i =
     length (filter (\<lambda>r. rc_policy r = i \<and> rc_disposition r \<noteq> DISPOSED) (q_records s))"

definition extend_forward :: "rpolicy \<Rightarrow> policy_changes \<Rightarrow> (qms_error, unit) result" where
  "extend_forward p c =
     (let new_duration = pick (ch_duration c) (rp_duration p); new_worm = pick_opt (ch_worm c) (rp_worm p);
          blocked = (\<lambda>f. Invalid f ''retention_reduction_blocked'') in
      bind_res (if ch_duration c \<noteq> None
                then bind_res (lift_exn (duration_ge new_duration (rp_duration p))) (\<lambda>ok. require ok (blocked ''duration''))
                else Inr ()) (\<lambda>_.
      bind_res (require (\<not> (ch_action c \<noteq> None
          \<and> action_preservation_rank (pick (ch_action c) (rp_action p)) < action_preservation_rank (rp_action p)))
          (blocked ''disposition_action'')) (\<lambda>_.
      bind_res (case (ch_worm c, rp_worm p) of
                  (Some _, Some old) \<Rightarrow>
                    (case new_worm of
                       None \<Rightarrow> Inl (blocked ''worm_lock_period'')
                     | Some w \<Rightarrow> bind_res (lift_exn (duration_ge w old)) (\<lambda>ok. require ok (blocked ''worm_lock_period'')))
                | _ \<Rightarrow> Inr ()) (\<lambda>_.
      require (\<not> (ch_review c \<noteq> None \<and> rp_review p \<and> \<not> pick (ch_review c) (rp_review p))) (blocked ''review_required'')))))"

definition apply_changes :: "rpolicy \<Rightarrow> policy_changes \<Rightarrow> rpolicy" where
  "apply_changes p c =
     p\<lparr>rp_name := (case ch_name c of Some (Some n) \<Rightarrow> strip n | _ \<Rightarrow> rp_name p), rp_applies := pick_opt (ch_applies c) (rp_applies p),
       rp_basis := pick (ch_basis c) (rp_basis p), rp_duration := pick (ch_duration c) (rp_duration p),
       rp_action := pick (ch_action c) (rp_action p), rp_review := pick (ch_review c) (rp_review p),
       rp_worm := pick_opt (ch_worm c) (rp_worm p)\<rparr>"

definition changed_fields :: "policy_changes \<Rightarrow> rpolicy \<Rightarrow> dict" where
  "changed_fields c p =
     (if ch_name c = None then [] else [(''name'', JStr (rp_name p))])
     @ (if ch_applies c = None then [] else [(''applies_to'', values_json (rp_applies p))])
     @ (if ch_basis c = None then [] else [(''basis'', JStr (basis_value (rp_basis p)))])
     @ (if ch_duration c = None then [] else [(''duration'', JStr (rp_duration p))])
     @ (if ch_action c = None then [] else [(''disposition_action'', JStr (action_value (rp_action p)))])
     @ (if ch_review c = None then [] else [(''review_required'', JBool (rp_review p))])
     @ (if ch_worm c = None then [] else [(''worm_lock_period'', opt_json (rp_worm p))])"

definition put_policy :: "rpolicy \<Rightarrow> qms \<Rightarrow> qms" where
  "put_policy p s = s\<lparr>q_policies := map (\<lambda>x. if rp_id x = rp_id p then p else x) (q_policies s)\<rparr>"

definition update_policy :: "app_user \<Rightarrow> uuid \<Rightarrow> policy_changes \<Rightarrow> qms \<Rightarrow> (qms_error, qms \<times> rpolicy) result" where
  "update_policy actor i c s =
     (case get_policy s i of
        None \<Rightarrow> Inl (Refuse 404 ''not_found'')
      | Some p \<Rightarrow>
        bind_res (no_nulls c) (\<lambda>_.
        bind_res (require (\<not> (rp_name p \<in> set managed_policy_names \<and> has_changes c))
          (Refuse 409 ''system_policy_protected'')) (\<lambda>_.
        bind_res (require (\<not> (rp_name p = system_default_name
            \<and> (case ch_name c of Some (Some n) \<Rightarrow> strip n \<noteq> system_default_name | _ \<Rightarrow> False)))
          (Refuse 409 ''system_default_protected'')) (\<lambda>_.
        bind_res (require (\<not> (rp_name p = system_default_name \<and> ch_applies c \<noteq> None))
          (Refuse 409 ''system_default_protected'')) (\<lambda>_.
        bind_res (checked_name p c s) (\<lambda>_.
        bind_res (case ch_applies c of None \<Rightarrow> Inr () | Some a \<Rightarrow> validate_applies_to a) (\<lambda>_.
        bind_res (if ch_duration c = None then Inr ()
                  else validate_duration ''duration'' (pick (ch_duration c) (rp_duration p))) (\<lambda>_.
        bind_res (if ch_worm c = None \<and> ch_duration c = None then Inr ()
                  else validate_worm_lock (pick_opt (ch_worm c) (rp_worm p)) (pick (ch_duration c) (rp_duration p))) (\<lambda>_.
        bind_res (if count_active_pinned_records s i > 0 then extend_forward p c else Inr ()) (\<lambda>_.
        let p' = apply_changes p c in
        Inr (emit_policy actor ''RETENTION_POLICY_UPDATED'' i (Some (changed_fields c p)) (Some (changed_fields c p'))
               (put_policy p' s), p')))))))))))"

definition archive_policy :: "app_user \<Rightarrow> uuid \<Rightarrow> instant \<Rightarrow> qms \<Rightarrow> (qms_error, qms \<times> rpolicy) result" where
  "archive_policy actor i now s =
     (case get_policy s i of
        None \<Rightarrow> Inl (Refuse 404 ''not_found'')
      | Some p \<Rightarrow>
        bind_res (require (rp_name p \<noteq> system_default_name) (Refuse 409 ''system_default_protected'')) (\<lambda>_.
        bind_res (require (rp_name p \<notin> set managed_policy_names) (Refuse 409 ''system_policy_protected'')) (\<lambda>_.
        bind_res (require (rp_active p) (Refuse 409 ''already_archived'')) (\<lambda>_.
        let p' = p\<lparr>rp_active := False, rp_archived_at := Some now, rp_archived_by := Some (user_id actor)\<rparr> in
        Inr (emit_policy actor ''RETENTION_POLICY_ARCHIVED'' i (Some [(''active'', JBool True)])
               (Some [(''active'', JBool False)]) (put_policy p' s), p')))))"

definition unarchive_policy :: "app_user \<Rightarrow> uuid \<Rightarrow> qms \<Rightarrow> (qms_error, qms \<times> rpolicy) result" where
  "unarchive_policy actor i s =
     (case get_policy s i of
        None \<Rightarrow> Inl (Refuse 404 ''not_found'')
      | Some p \<Rightarrow>
        bind_res (require (rp_name p \<notin> set managed_policy_names) (Refuse 409 ''system_policy_protected'')) (\<lambda>_.
        bind_res (require (\<not> rp_active p) (Refuse 409 ''not_archived'')) (\<lambda>_.
        let p' = p\<lparr>rp_active := True, rp_archived_at := None, rp_archived_by := None\<rparr> in
        Inr (emit_policy actor ''RETENTION_POLICY_UPDATED'' i (Some [(''active'', JBool False)])
               (Some [(''active'', JBool True)]) (put_policy p' s), p'))))"

subsection \<open>The ratchet\<close>

lemma find_put:
  assumes "find (\<lambda>x. f x = f y) xs = Some z"
  shows "find (\<lambda>x. f x = f y) (map (\<lambda>x. if f x = f y then y else x) xs) = Some y"
  using assms by (induction xs) (auto split: if_splits)

lemma get_policy_put: "get_policy s (rp_id p) = Some q \<Longrightarrow> get_policy (put_policy p s) (rp_id p) = Some p"
  using find_put [of rp_id p] by (simp add: get_policy_def put_policy_def)

lemma get_policy_id: "get_policy s i = Some p \<Longrightarrow> rp_id p = i"
  by (auto simp: get_policy_def find_Some_iff)

lemma update_policy_Inr:
  assumes "update_policy actor i c s = Inr (s', p')" "get_policy s i = Some p"
  shows "p' = apply_changes p c \<and> no_nulls c = Inr () \<and>
    (count_active_pinned_records s i > 0 \<longrightarrow> extend_forward p c = Inr ()) \<and>
    s' = emit_policy actor ''RETENTION_POLICY_UPDATED'' i (Some (changed_fields c p)) (Some (changed_fields c p')) (put_policy p' s)"
  using assms by (auto simp: update_policy_def Let_def simp del: split_paired_Ex split: if_splits)

lemma extend_forward_Inr:
  assumes "extend_forward p c = Inr ()"
  shows "(ch_duration c \<noteq> None \<longrightarrow> duration_ge (pick (ch_duration c) (rp_duration p)) (rp_duration p) = Inr True)"
    and "ch_action c \<noteq> None \<longrightarrow>
      action_preservation_rank (rp_action p) \<le> action_preservation_rank (pick (ch_action c) (rp_action p))"
    and "ch_worm c \<noteq> None \<longrightarrow> rp_worm p = Some w \<longrightarrow>
      (\<exists>w'. pick_opt (ch_worm c) (rp_worm p) = Some w' \<and> duration_ge w' w = Inr True)"
    and "ch_review c \<noteq> None \<longrightarrow> rp_review p \<longrightarrow> pick (ch_review c) (rp_review p)"
  using assms unfolding extend_forward_def Let_def
  by (auto simp: not_less split: option.splits if_splits)


definition minutes_policy :: rpolicy where
  "minutes_policy = \<lparr>rp_id = 1, rp_name = ''Minutes'', rp_applies = None, rp_basis = CAPTURED_AT, rp_duration = ''P5Y'',
     rp_action = ARCHIVE_COLD, rp_review = True, rp_worm = Some ''P5Y'', rp_active = True, rp_archived_at = None,
     rp_archived_by = None\<rparr>"

definition pinned_record :: rec where
  "pinned_record = \<lparr>rc_id = 0, rc_identifier = ''REC-GEN-001'', rc_title = ''Minutes'', rc_class = ''Internal'', rc_area = ''GEN'',
     rc_framework = 7, rc_type = ''EVIDENCE'', rc_captured_at = 0, rc_captured_by = 1, rc_hash = [], rc_hash_version = 2,
     rc_source_doc = None, rc_source_version = None, rc_values = None, rc_correction_of = None, rc_superseded_by = None,
     rc_policy = 1, rc_basis_date = Some (Date 2024 1 31), rc_disposition = ACTIVE, rc_hold = False, rc_rendition = None\<rparr>"

definition pinned_store :: qms where
  "pinned_store = empty_qms\<lparr>q_policies := [minutes_policy], q_records := [pinned_record], q_next := 1\<rparr>"

definition longer :: policy_changes where
  "longer = \<lparr>ch_name = None, ch_applies = None, ch_basis = None, ch_duration = Some (Some ''P7Y''),
     ch_action = Some (Some RETAIN_PERMANENT), ch_review = None, ch_worm = Some (Some ''P7Y'')\<rparr>"

declare uuid_str_def [code del]

lemma longer_runs:
  "isl (update_policy \<lparr>user_id = 1, user_org = 9\<rparr> 1 longer pinned_store) = False"
  "get_policy pinned_store 1 = Some minutes_policy"
  "count_active_pinned_records pinned_store 1 > 0"
  by code_simp+

declare uuid_str_def [code]


end
