(* ===== verification/Disposition.thy ===== *)
theory Disposition
  imports Records
begin

text \<open>
  Disposition of records (\<open>services/records/disposition.py\<close>): the state machine, legal holds, the
  dual-control destroy order with its cascade over sealed packs, the retention sweep, the marking of
  evidence for purge inside the transaction, the physical purge after the commit and the reaper that
  completes it. A refusal that commits its audit row returns the changed state beside the error.
  What the object store and the database do to a purge is the argument \<open>purge_fate\<close>.
\<close>

type_synonym 'a reply = "qms \<times> (qms_error, 'a) result"

fun state_str :: "disposition_state \<Rightarrow> string" where
  "state_str ACTIVE = ''ACTIVE''"
| "state_str DUE_FOR_REVIEW = ''DUE_FOR_REVIEW''"
| "state_str ON_HOLD = ''ON_HOLD''"
| "state_str DISPOSED = ''DISPOSED''"

abbreviation state_item :: "disposition_state \<Rightarrow> string \<times> json" where
  "state_item d \<equiv> (''disposition_state'', JStr (state_str d))"

definition max_worm_retain_until :: "qms \<Rightarrow> rid \<Rightarrow> instant option" where
  "max_worm_retain_until s i =
     fold (\<lambda>b latest. case bl_retain b of
         None \<Rightarrow> latest
       | Some t \<Rightarrow> (case latest of None \<Rightarrow> Some t | Some l \<Rightarrow> if t > l then Some t else latest))
       (list_evidence_blobs s i) None"

subsection \<open>Owners of a blob\<close>

definition content_preserved :: "qms \<Rightarrow> rid \<Rightarrow> bool" where
  "content_preserved s i \<longleftrightarrow> \<not> list_ex (\<lambda>e. de_record e = i \<and> (de_worm e \<or> de_action e = DESTROY)) (q_dispositions s)"

definition evidence_owner :: "qms \<Rightarrow> (rid \<Rightarrow> bool) \<Rightarrow> string \<Rightarrow> bool" where
  "evidence_owner s other sha \<longleftrightarrow>
     list_ex (\<lambda>e. eb_sha e = sha \<and> other (eb_record e) \<and> get_record s (eb_record e) \<noteq> None \<and> content_preserved s (eb_record e))
       (q_evidence s)"

definition version_owner :: "qms_env \<Rightarrow> qms \<Rightarrow> string \<Rightarrow> bool" where
  "version_owner E s sha \<longleftrightarrow> list_ex (\<lambda>r. ver_sha r = sha \<or> qe_rendition E r = Some sha) (versions (q_vault s))"

definition rendition_owner :: "qms \<Rightarrow> (rid \<Rightarrow> bool) \<Rightarrow> string \<Rightarrow> bool" where
  "rendition_owner s other sha \<longleftrightarrow>
     list_ex (\<lambda>r. other (rc_id r) \<and> rc_rendition r = Some sha \<and> content_preserved s (rc_id r)) (q_records s)"

definition pack_owner :: "qms \<Rightarrow> string \<Rightarrow> bool" where
  "pack_owner s sha \<longleftrightarrow>
     list_ex (\<lambda>p. pk_status p \<noteq> P_UNAVAILABLE \<and> (pk_zip p = Some sha \<or> pk_portfolio p = Some sha)) (q_packs s)"

definition blob_needed_by_other_live_record :: "qms_env \<Rightarrow> qms \<Rightarrow> string \<Rightarrow> rid \<Rightarrow> bool" where
  "blob_needed_by_other_live_record E s sha i \<longleftrightarrow>
     evidence_owner s (\<lambda>x. x \<noteq> i) sha \<or> version_owner E s sha \<or> rendition_owner s (\<lambda>x. x \<noteq> i) sha \<or> pack_owner s sha"

definition blob_needed_by_any_live_owner :: "qms_env \<Rightarrow> qms \<Rightarrow> string \<Rightarrow> bool" where
  "blob_needed_by_any_live_owner E s sha \<longleftrightarrow>
     evidence_owner s (\<lambda>x. True) sha \<or> version_owner E s sha \<or> rendition_owner s (\<lambda>x. True) sha \<or> pack_owner s sha"

definition delete_blob_and_links :: "string \<Rightarrow> qms \<Rightarrow> qms" where
  "delete_blob_and_links sha s =
     s\<lparr>q_evidence := filter (\<lambda>e. eb_sha e \<noteq> sha) (q_evidence s), q_blobs := filter (\<lambda>b. bl_sha b \<noteq> sha) (q_blobs s)\<rparr>"

definition detach_record_evidence_blob :: "rid \<Rightarrow> string \<Rightarrow> qms \<Rightarrow> qms" where
  "detach_record_evidence_blob i sha s =
     s\<lparr>q_evidence := filter (\<lambda>e. \<not> (eb_record e = i \<and> eb_sha e = sha)) (q_evidence s)\<rparr>"

definition insert_pending_purge :: "blob \<Rightarrow> bool \<Rightarrow> rid \<Rightarrow> rid \<Rightarrow> rid option \<Rightarrow> qms \<Rightarrow> qms \<times> purge_marker" where
  "insert_pending_purge b bypass i event_id request_id s =
     (let (s1, k) = take_id s;
          m = \<lparr>pm_id = k, pm_sha = bl_sha b, pm_bucket = bl_bucket b, pm_key = bl_key b, pm_bypass = bypass,
               pm_record = Some i, pm_event = Some event_id, pm_request = request_id, pm_bound = True\<rparr> in
      (s1\<lparr>q_markers := q_markers s1 @ [m]\<rparr>, m))"

definition object_is_owned :: "qms \<Rightarrow> string \<Rightarrow> string \<Rightarrow> bool" where
  "object_is_owned s bucket key \<longleftrightarrow> list_ex (\<lambda>b. bl_bucket b = bucket \<and> bl_key b = key) (q_blobs s)"

subsection \<open>Authority\<close>

definition r27_authority_matches ::
    "rec \<Rightarrow> disposition_event \<Rightarrow> destroy_request \<Rightarrow> disposition_event option \<Rightarrow> bool" where
  "r27_authority_matches r ev req src =
     (if de_record ev \<noteq> rc_id r \<or> de_action ev \<noteq> DESTROY \<or> \<not> de_worm ev \<or> de_policy ev \<noteq> None
         \<or> de_requested_by ev = None \<or> de_approved_by ev = None \<or> de_requested_by ev = de_approved_by ev
         \<or> wr_executed_at req = None \<or> wr_cancelled_at req \<noteq> None \<or> wr_approved_by req = None
         \<or> Some (wr_requested_by req) = wr_approved_by req then False
      else
        (let ok = (\<lambda>root. wr_record req = de_record root \<and> de_requested_by root = Some (wr_requested_by req)
              \<and> de_approved_by root = wr_approved_by req \<and> de_legal_basis root = Some (wr_legal_basis req)) in
         case de_derived ev of
           None \<Rightarrow> src = None \<and> ok ev
         | Some d \<Rightarrow>
           (case src of
              None \<Rightarrow> False
            | Some x \<Rightarrow>
              d = de_id x \<and> de_derived x = None \<and> de_worm x \<and> de_action x = DESTROY \<and> de_policy x = None
              \<and> de_requested_by ev = de_requested_by x \<and> de_approved_by ev = de_approved_by x
              \<and> de_legal_basis ev = de_legal_basis x \<and> ok x)))"

definition marking_authority ::
    "rec \<Rightarrow> disposition_event \<Rightarrow> destroy_request option \<Rightarrow> disposition_event option \<Rightarrow> bool" where
  "marking_authority r ev req src \<longleftrightarrow>
     de_record ev = rc_id r \<and> de_action ev = DESTROY
     \<and> (if de_worm ev then (case req of None \<Rightarrow> False | Some q \<Rightarrow> r27_authority_matches r ev q src)
        else req = None \<and> src = None \<and> de_derived ev = None \<and> de_policy ev = Some (rc_policy r)
          \<and> de_requested_by ev = None \<and> de_legal_basis ev = None)"

subsection \<open>Marking the evidence of a destroyed record\<close>

definition mark_evidence_blob ::
    "qms_env \<Rightarrow> rid \<Rightarrow> rid \<Rightarrow> rid option \<Rightarrow> bool \<Rightarrow> blob \<Rightarrow> qms \<times> purge_marker list \<Rightarrow> qms \<times> purge_marker list" where
  "mark_evidence_blob E i event_id request_id bypass b acc =
     (case acc of (s, specs) \<Rightarrow>
        if blob_needed_by_other_live_record E s (bl_sha b) i then (detach_record_evidence_blob i (bl_sha b) s, specs)
        else (case insert_pending_purge b bypass i event_id request_id s of
          (s1, m) \<Rightarrow> (delete_blob_and_links (bl_sha b) s1, specs @ [m])))"

definition mark_rendition ::
    "qms_env \<Rightarrow> rec \<Rightarrow> rid \<Rightarrow> rid option \<Rightarrow> bool \<Rightarrow> qms \<times> purge_marker list \<Rightarrow> qms \<times> purge_marker list" where
  "mark_rendition E r event_id request_id bypass acc =
     (case rc_rendition r of
        None \<Rightarrow> acc
      | Some sha \<Rightarrow>
        (case acc of (s0, specs) \<Rightarrow>
          let s = put_record (case get_record s0 (rc_id r) of None \<Rightarrow> r\<lparr>rc_rendition := None\<rparr>
                | Some x \<Rightarrow> x\<lparr>rc_rendition := None\<rparr>) s0 in
          (case get_blob s sha of
             None \<Rightarrow> (s, specs)
           | Some b \<Rightarrow>
             if blob_needed_by_any_live_owner E s sha then (s, specs)
             else (case insert_pending_purge b (bypass \<and> bl_locked b) (rc_id r) event_id request_id s of
               (s1, m) \<Rightarrow> (delete_blob_and_links sha s1, specs @ [m])))))"

definition sorted_blobs :: "blob list \<Rightarrow> blob list" where
  "sorted_blobs bs = sort_key bl_sha (remdups bs)"

definition mark_record_evidence ::
    "qms_env \<Rightarrow> rec \<Rightarrow> disposition_event \<Rightarrow> destroy_request option \<Rightarrow> disposition_event option \<Rightarrow> qms
       \<Rightarrow> (qms_error, qms \<times> purge_marker list) result" where
  "mark_record_evidence E r ev req src s =
     (if \<not> marking_authority r ev req src then Inl (Raises ValueError)
      else
        let rq = map_option wr_id req in
        Inr (mark_rendition E r (de_id ev) rq (de_worm ev)
          (fold (mark_evidence_blob E (rc_id r) (de_id ev) rq (de_worm ev))
             (sorted_blobs (list_evidence_blobs s (rc_id r))) (s, []))))"

definition write_tombstone ::
    "rec \<Rightarrow> disposition_action \<Rightarrow> uuid option \<Rightarrow> uuid option \<Rightarrow> uuid option \<Rightarrow> bool \<Rightarrow> string option \<Rightarrow> rid option \<Rightarrow> qms
       \<Rightarrow> qms \<times> rec \<times> disposition_event" where
  "write_tombstone r action policy approved_by requested_by worm legal_basis derived s =
     (let r' = r\<lparr>rc_disposition := DISPOSED, rc_values := (if action = DESTROY then None else rc_values r)\<rparr>;
          (s1, k) = take_id s;
          ev = \<lparr>de_id = k, de_record = rc_id r, de_action = action, de_policy = policy, de_approved_by = approved_by,
                de_requested_by = requested_by, de_worm = worm, de_legal_basis = legal_basis, de_derived = derived\<rparr> in
      (put_record r' (s1\<lparr>q_dispositions := q_dispositions s1 @ [ev]\<rparr>), r', ev))"

subsection \<open>The purge after the commit\<close>

datatype purge_fate = Purged | StoreFails | DbFailsBefore | DbFailsAfter

definition drop_marker :: "rid \<Rightarrow> qms \<Rightarrow> qms" where
  "drop_marker k s = s\<lparr>q_markers := filter (\<lambda>m. pm_id m \<noteq> k) (q_markers s)\<rparr>"

definition remove_object :: "string \<Rightarrow> string \<Rightarrow> qms \<Rightarrow> qms" where
  "remove_object bucket key s = s\<lparr>q_stored := q_stored s - {(bucket, key)}\<rparr>"

definition purge_one :: "(rid \<Rightarrow> purge_fate) \<Rightarrow> purge_marker \<Rightarrow> qms \<Rightarrow> qms" where
  "purge_one fate m s =
     (if \<not> list_ex (\<lambda>x. pm_id x = pm_id m) (q_markers s) then s
      else if object_is_owned s (pm_bucket m) (pm_key m) then
        (if fate (pm_id m) \<in> {DbFailsBefore, DbFailsAfter} then s else drop_marker (pm_id m) s)
      else (case fate (pm_id m) of
              StoreFails \<Rightarrow> s
            | DbFailsBefore \<Rightarrow> s
            | DbFailsAfter \<Rightarrow> remove_object (pm_bucket m) (pm_key m) s
            | Purged \<Rightarrow> drop_marker (pm_id m) (remove_object (pm_bucket m) (pm_key m) s)))"

definition purge_marked :: "(rid \<Rightarrow> purge_fate) \<Rightarrow> purge_marker list \<Rightarrow> qms \<Rightarrow> qms" where
  "purge_marked fate specs s = fold (purge_one fate) specs s"

subsection \<open>Human disposition\<close>

definition destroy_refusal :: "qms_env \<Rightarrow> rec \<Rightarrow> bool \<Rightarrow> instant \<Rightarrow> qms \<Rightarrow> (string \<times> string) option" where
  "destroy_refusal E r bypass now s =
     (let first = (if rc_hold r then Some (''legal_hold_active'', ''legal_hold'')
           else if \<not> bypass \<and> (case max_worm_retain_until s (rc_id r) of None \<Rightarrow> False | Some t \<Rightarrow> t > now)
             then Some (''worm_lock_unexpired'', ''worm_lock_unexpired'')
           else None) in
      if first = None \<and> bypass \<and> qe_lock_mode E = ''COMPLIANCE''
      then Some (''compliance_mode_denies_destroy'', ''compliance_mode'') else first)"

definition refuse_destroy :: "app_user \<Rightarrow> rec \<Rightarrow> string \<Rightarrow> qms \<Rightarrow> qms" where
  "refuse_destroy actor r why s =
     emit_record_event (user_id actor) ''RECORD_ERASURE_REFUSED'' (rc_id r) None
       (Some [(''reason'', JStr why), state_item (rc_disposition r)]) s"

definition refuse_self_disposition :: "app_user \<Rightarrow> rec \<Rightarrow> qms \<Rightarrow> qms" where
  "refuse_self_disposition actor r s =
     emit_record_event (user_id actor) ''DISPOSITION_REFUSED_SOD'' (rc_id r) None
       (Some [(''reason'', JStr ''sod_self_disposition''), (''constraint'', JStr ''SoD-6''),
              (''captured_by'', JStr (uuid_str (rc_captured_by r))), state_item (rc_disposition r)]) s"

definition disposed_event :: "disposition_action \<Rightarrow> uuid \<Rightarrow> string \<times> json \<Rightarrow> dict" where
  "disposed_event a p extra = [state_item DISPOSED, (''action'', JStr (action_value a)), (''policy_id'', JStr (uuid_str p)), extra]"

definition dispose_now ::
    "qms_env \<Rightarrow> app_user \<Rightarrow> rec \<Rightarrow> string option \<Rightarrow> instant \<Rightarrow> qms \<Rightarrow> (qms \<times> purge_marker list) reply" where
  "dispose_now E actor r reason now s =
     (case get_policy s (rc_policy r) of
        None \<Rightarrow> (s, Inl (Refuse 422 ''validation_error''))
      | Some p \<Rightarrow>
        if rp_action p = RETAIN_PERMANENT then (s, Inl (Refuse 409 ''retain_permanent''))
        else
          (case (if rp_action p = DESTROY then destroy_refusal E r False now s else None) of
             Some (code, why) \<Rightarrow> (refuse_destroy actor r why s, Inl (Refuse 409 code))
           | None \<Rightarrow>
             (case write_tombstone r (rp_action p) (Some (rp_id p)) (Some (user_id actor)) None False None None s of
                (s1, r', ev) \<Rightarrow>
                (case (if rp_action p = DESTROY then mark_record_evidence E r' ev None None s1 else Inr (s1, [])) of
                   Inl e \<Rightarrow> (s, Inl e)
                 | Inr (s2, specs) \<Rightarrow>
                   (s, Inr (emit_record_event (user_id actor) ''RECORD_DISPOSED'' (rc_id r) (Some [state_item DUE_FOR_REVIEW])
                        (Some (disposed_event (rp_action p) (rp_id p) (''reason'', opt_json reason))) s2, specs))))))"

definition set_disposition :: "rec \<Rightarrow> disposition_state \<Rightarrow> qms \<Rightarrow> qms" where
  "set_disposition r d s = put_record (r\<lparr>rc_disposition := d\<rparr>) s"

definition advance_disposition ::
    "qms_env \<Rightarrow> app_user \<Rightarrow> rid \<Rightarrow> disposition_state \<Rightarrow> string option \<Rightarrow> instant \<Rightarrow> (rid \<Rightarrow> purge_fate) \<Rightarrow> qms \<Rightarrow> unit reply" where
  "advance_disposition E actor i to_state reason now fate s =
     (case load_record s i of
        Inl e \<Rightarrow> (s, Inl e)
      | Inr r \<Rightarrow>
        let frm = rc_disposition r in
        if to_state = ON_HOLD then (s, Inl (Refuse 409 ''use_legal_hold_endpoint''))
        else if frm = ON_HOLD then (s, Inl (Refuse 409 ''on_legal_hold''))
        else if \<not> legal_disposition_transition frm to_state then (s, Inl (Refuse 409 ''invalid_transition''))
        else if to_state = DUE_FOR_REVIEW then
          (emit_record_event (user_id actor) ''RECORD_DISPOSITION_DUE'' i (Some [state_item frm])
             (Some [state_item to_state, (''reason'', opt_json reason), (''trigger'', JStr ''manual'')])
             (set_disposition r to_state s), Inr ())
        else if to_state = ACTIVE then
          (emit_record_event (user_id actor) ''RECORD_RETENTION_EXTENDED'' i (Some [state_item frm])
             (Some [state_item to_state, (''reason'', opt_json reason)]) (set_disposition r to_state s), Inr ())
        else if self_disposition_blocked (user_id actor) (rc_captured_by r) (qe_self_disposition E) then
          (refuse_self_disposition actor r s, Inl (Refuse 409 ''sod_self_disposition''))
        else
          (case dispose_now E actor r reason now s of
             (s1, Inl e) \<Rightarrow> (s1, Inl e)
           | (s1, Inr (s2, specs)) \<Rightarrow> (purge_marked fate specs s2, Inr ())))"

subsection \<open>Legal hold\<close>

definition hold_item :: "bool \<Rightarrow> string \<times> json" where
  "hold_item b = (''legal_hold'', JBool b)"

definition place_legal_hold :: "app_user \<Rightarrow> rid \<Rightarrow> string \<Rightarrow> qms \<Rightarrow> (qms_error, qms) result" where
  "place_legal_hold actor i reason s =
     bind_res (load_record s i) (\<lambda>r.
     bind_res (require (rc_disposition r \<noteq> DISPOSED) (Refuse 409 ''already_disposed'')) (\<lambda>_.
     bind_res (require (\<not> rc_hold r) (Refuse 409 ''already_on_hold'')) (\<lambda>_.
     Inr (emit_record_event (user_id actor) ''RECORD_LEGAL_HOLD_PLACED'' i
           (Some [hold_item False, state_item (rc_disposition r)])
           (Some [hold_item True, state_item ON_HOLD, (''reason'', JStr reason)])
           (put_record (r\<lparr>rc_hold := True, rc_disposition := ON_HOLD\<rparr>) s)))))"

definition release_legal_hold :: "app_user \<Rightarrow> rid \<Rightarrow> string \<Rightarrow> qms \<Rightarrow> (qms_error, qms) result" where
  "release_legal_hold actor i reason s =
     bind_res (load_record s i) (\<lambda>r.
     bind_res (require (rc_hold r) (Refuse 409 ''not_on_hold'')) (\<lambda>_.
     Inr (emit_record_event (user_id actor) ''RECORD_LEGAL_HOLD_RELEASED'' i
           (Some [hold_item True, state_item (rc_disposition r)])
           (Some [hold_item False, state_item ACTIVE, (''reason'', JStr reason)])
           (put_record (r\<lparr>rc_hold := False, rc_disposition := ACTIVE\<rparr>) s))))"

end
