(* ===== verification/DestroyOrder.thy ===== *)
theory DestroyOrder
  imports Disposition
begin

text \<open>
  The dual-control destroy order with its cascade over sealed evidence packs, the retention sweep and
  the reaper of pending purges (\<open>services/records/disposition.py\<close>, with the closure over packs of
  \<open>services/packs/repository.py\<close>). The records copied into a pack are the argument \<open>qe_dependencies\<close>.
\<close>

subsection \<open>Requesting and cancelling\<close>

definition open_worm_destroy_request :: "qms \<Rightarrow> rid \<Rightarrow> destroy_request option" where
  "open_worm_destroy_request s i =
     find (\<lambda>q. wr_record q = i \<and> wr_executed_at q = None \<and> wr_cancelled_at q = None) (q_requests s)"

definition get_request :: "qms \<Rightarrow> rid \<Rightarrow> destroy_request option" where
  "get_request s k = find (\<lambda>q. wr_id q = k) (q_requests s)"

definition put_request :: "destroy_request \<Rightarrow> qms \<Rightarrow> qms" where
  "put_request q s = s\<lparr>q_requests := map (\<lambda>x. if wr_id x = wr_id q then q else x) (q_requests s)\<rparr>"

definition request_worm_destroy :: "app_user \<Rightarrow> rid \<Rightarrow> string \<Rightarrow> qms \<Rightarrow> (qms_error, qms \<times> destroy_request) result" where
  "request_worm_destroy actor i legal_basis s =
     bind_res (load_record s i) (\<lambda>r.
     bind_res (require (rc_disposition r \<noteq> DISPOSED) (Refuse 409 ''already_disposed'')) (\<lambda>_.
     bind_res (require (open_worm_destroy_request s i = None) (Refuse 409 ''worm_destroy_request_open'')) (\<lambda>_.
     let (s1, k) = take_id s;
         q = \<lparr>wr_id = k, wr_record = i, wr_legal_basis = legal_basis, wr_requested_by = user_id actor,
              wr_approved_by = None, wr_executed_at = None, wr_cancelled_by = None, wr_cancelled_at = None\<rparr> in
     Inr (emit_record_event (user_id actor) ''RECORD_WORM_DESTROY_REQUESTED'' i None
            (Some [(''request_id'', JStr (id_str k)), (''legal_basis'', JStr legal_basis)])
            (s1\<lparr>q_requests := q_requests s1 @ [q]\<rparr>), q))))"

definition load_open_request :: "rid \<Rightarrow> rid \<Rightarrow> qms \<Rightarrow> (qms_error, destroy_request) result" where
  "load_open_request i k s =
     (case get_request s k of
        None \<Rightarrow> Inl (Refuse 404 ''not_found'')
      | Some q \<Rightarrow>
        if wr_record q \<noteq> i then Inl (Refuse 404 ''not_found'')
        else if wr_executed_at q \<noteq> None \<or> wr_cancelled_at q \<noteq> None then Inl (Refuse 409 ''not_open'')
        else Inr q)"

definition cancel_worm_destroy ::
    "app_user \<Rightarrow> rid \<Rightarrow> rid \<Rightarrow> string option \<Rightarrow> instant \<Rightarrow> qms \<Rightarrow> (qms_error, qms \<times> destroy_request) result" where
  "cancel_worm_destroy actor i k reason now s =
     bind_res (load_open_request i k s) (\<lambda>q.
     let q' = q\<lparr>wr_cancelled_by := Some (user_id actor), wr_cancelled_at := Some now\<rparr> in
     Inr (emit_record_event (user_id actor) ''RECORD_WORM_DESTROY_CANCELLED'' i None
            (Some [(''request_id'', JStr (id_str k)), (''reason'', opt_json reason)]) (put_request q' s), q'))"

subsection \<open>The packs an order reaches\<close>

text \<open>One pass of the closure over the packs, then passes until nothing is added.\<close>

type_synonym closure_state = "rid list \<times> rid list \<times> string list"

definition pack_shas :: "pack \<Rightarrow> string list" where
  "pack_shas p = (case pk_zip p of None \<Rightarrow> [] | Some x \<Rightarrow> [x]) @ (case pk_portfolio p of None \<Rightarrow> [] | Some x \<Rightarrow> [x])"

definition pack_affected :: "(pack \<Rightarrow> rid list) \<Rightarrow> pack \<Rightarrow> closure_state \<Rightarrow> bool" where
  "pack_affected deps p c =
     (case c of (selected, affected, shas) \<Rightarrow>
        list_ex (\<lambda>x. x \<in> set affected) (deps p) \<or> list_ex (\<lambda>x. x \<in> set shas) (pack_shas p))"

definition closure_visit :: "(pack \<Rightarrow> rid list) \<Rightarrow> pack \<Rightarrow> closure_state \<Rightarrow> closure_state" where
  "closure_visit deps p c =
     (case c of (selected, affected, shas) \<Rightarrow>
        if pk_id p \<in> set selected \<or> \<not> pack_affected deps p c then c
        else (pk_id p # selected, (case pk_record p of None \<Rightarrow> affected | Some i \<Rightarrow> i # affected), pack_shas p @ shas))"

definition closure_pass :: "(pack \<Rightarrow> rid list) \<Rightarrow> pack list \<Rightarrow> closure_state \<Rightarrow> closure_state" where
  "closure_pass deps packs c = fold (closure_visit deps) packs c"

lemma closure_visit_selected:
  "fst (closure_visit deps p c) = fst c \<or>
     (fst (closure_visit deps p c) = pk_id p # fst c \<and> pk_id p \<notin> set (fst c))"
  by (auto simp: closure_visit_def split: prod.splits)

lemma closure_visit_same: "fst (closure_visit deps p c) = fst c \<Longrightarrow> closure_visit deps p c = c"
  by (auto simp: closure_visit_def split: prod.splits if_splits)

lemma closure_pass_selected:
  "\<exists>new. fst (closure_pass deps packs c) = new @ fst c \<and> distinct new \<and> set new \<subseteq> pk_id ` set packs - set (fst c)"
proof (induction packs arbitrary: c)
  case Nil
  then show ?case by (simp add: closure_pass_def)
next
  case (Cons p ps)
  let ?c = "closure_visit deps p c"
  obtain new where new: "fst (closure_pass deps ps ?c) = new @ fst ?c" "distinct new"
    "set new \<subseteq> pk_id ` set ps - set (fst ?c)" using Cons by blast
  have step: "closure_pass deps (p # ps) c = closure_pass deps ps ?c" by (simp add: closure_pass_def)
  from closure_visit_selected [of deps p c] show ?case
  proof
    assume "fst ?c = fst c"
    with new step show ?thesis by auto
  next
    assume "fst ?c = pk_id p # fst c \<and> pk_id p \<notin> set (fst c)"
    with new step show ?thesis by (intro exI [of _ "new @ [pk_id p]"]) auto
  qed
qed

lemma closure_pass_same: "fst (closure_pass deps packs c) = fst c \<Longrightarrow> closure_pass deps packs c = c"
proof (induction packs arbitrary: c)
  case (Cons p ps)
  let ?c = "closure_visit deps p c"
  have step: "closure_pass deps (p # ps) c = closure_pass deps ps ?c" by (simp add: closure_pass_def)
  obtain new where new: "fst (closure_pass deps ps ?c) = new @ fst ?c" using closure_pass_selected by blast
  have "fst ?c = fst c" using closure_visit_selected [of deps p c] new Cons.prems step by auto
  then show ?case using closure_visit_same Cons.IH Cons.prems step by metis
qed (simp add: closure_pass_def)

function closure_loop :: "(pack \<Rightarrow> rid list) \<Rightarrow> pack list \<Rightarrow> closure_state \<Rightarrow> closure_state" where
  "closure_loop deps packs c =
     (let c' = closure_pass deps packs c in
      if length (fst c') = length (fst c) then c' else closure_loop deps packs c')"
  by pat_completeness auto

termination
proof (relation "measure (\<lambda>(deps, packs, c). card (pk_id ` set packs - set (fst c)))")
  fix deps packs c c'
  assume c': "c' = closure_pass deps packs c" and grew: "length (fst c') \<noteq> length (fst c)"
  obtain new where new: "fst c' = new @ fst c" "distinct new" "set new \<subseteq> pk_id ` set packs - set (fst c)"
    using closure_pass_selected c' by blast
  with grew obtain x where "x \<in> set new" by (cases new) auto
  then have "x \<in> pk_id ` set packs - set (fst c)" "x \<notin> pk_id ` set packs - set (fst c')" using new by auto
  moreover have "pk_id ` set packs - set (fst c') \<subseteq> pk_id ` set packs - set (fst c)" using new(1) by auto
  ultimately have "pk_id ` set packs - set (fst c') \<subset> pk_id ` set packs - set (fst c)" by blast
  then show "((deps, packs, c'), deps, packs, c) \<in> measure (\<lambda>(deps, packs, c). card (pk_id ` set packs - set (fst c)))"
    by (simp add: psubset_card_mono)
qed simp

declare closure_loop.simps [simp del]

definition pack_invalidation_closure :: "(pack \<Rightarrow> rid list) \<Rightarrow> pack list \<Rightarrow> rid \<Rightarrow> rid list" where
  "pack_invalidation_closure deps packs source = fst (closure_loop deps packs ([], [source], []))"

definition affected_sealed_packs :: "qms_env \<Rightarrow> qms \<Rightarrow> rid \<Rightarrow> pack list" where
  "affected_sealed_packs E s source =
     (let packs = sort_key pk_id (filter (\<lambda>p. pk_status p = P_SEALED) (q_packs s));
          ids = pack_invalidation_closure (qe_dependencies E) packs source in
      filter (\<lambda>p. pk_id p \<in> set ids) packs)"

subsection \<open>Invalidating the packs\<close>

type_synonym artifact = "string \<times> rec \<times> disposition_event \<times> bool"

fun put_artifact :: "string \<Rightarrow> rec \<Rightarrow> disposition_event \<Rightarrow> bool \<Rightarrow> artifact list \<Rightarrow> artifact list" where
  "put_artifact sha r ev wz [] = [(sha, r, ev, wz)]"
| "put_artifact sha r ev wz ((k, r', ev', z') # as) =
     (if k = sha then (k, r', ev', z' \<or> wz) # as else (k, r', ev', z') # put_artifact sha r ev wz as)"

definition put_pack :: "pack \<Rightarrow> qms \<Rightarrow> qms" where
  "put_pack p s = s\<lparr>q_packs := map (\<lambda>x. if pk_id x = pk_id p then p else x) (q_packs s)\<rparr>"

definition pack_records :: "qms \<Rightarrow> pack list \<Rightarrow> (qms_error, rec list) result" where
  "pack_records s packs =
     (if list_ex (\<lambda>p. pk_record p = None) packs then Inl (Raises RuntimeError)
      else
        let ids = sort (remdups (map (\<lambda>p. the (pk_record p)) packs)) in
        if list_ex (\<lambda>i. get_record s i = None) ids then Inl (Raises RuntimeError)
        else Inr (map (\<lambda>i. the (get_record s i)) ids))"

text \<open>The tombstone of every pack record; the record the order names keeps its own event.\<close>

fun tombstone_pack_records ::
    "disposition_event \<Rightarrow> rec \<Rightarrow> rec list \<Rightarrow> qms \<Rightarrow> qms \<times> (rec \<times> disposition_event) list" where
  "tombstone_pack_records src_ev src [] s = (s, [])"
| "tombstone_pack_records src_ev src (r # rs) s =
     (if rc_id r = rc_id src then
        (case tombstone_pack_records src_ev src rs s of (s', es) \<Rightarrow> (s', (src, src_ev) # es))
      else
        (case write_tombstone r DESTROY None (de_approved_by src_ev) (de_requested_by src_ev) True (de_legal_basis src_ev)
              (Some (de_id src_ev)) s of
           (s1, r', ev) \<Rightarrow>
           (case tombstone_pack_records src_ev src rs s1 of (s', es) \<Rightarrow> (s', (r', ev) # es))))"

definition record_event :: "(rec \<times> disposition_event) list \<Rightarrow> rid \<Rightarrow> rec \<times> disposition_event" where
  "record_event es i = the (find (\<lambda>x. rc_id (fst x) = i) es)"

definition invalidate_pack ::
    "app_user \<Rightarrow> disposition_event \<Rightarrow> destroy_request \<Rightarrow> instant \<Rightarrow> (rec \<times> disposition_event) list \<Rightarrow> pack
       \<Rightarrow> qms \<times> artifact list \<Rightarrow> qms \<times> artifact list" where
  "invalidate_pack actor src_ev req now es p acc =
     (case acc of (s, arts) \<Rightarrow>
      (case record_event es (the (pk_record p)) of (r, ev) \<Rightarrow>
        let p' = p\<lparr>pk_status := P_UNAVAILABLE, pk_invalidated_at := Some now, pk_invalidated_by := Some (de_id src_ev),
                   pk_zip := None, pk_portfolio := None\<rparr>;
            arts1 = (case pk_zip p of None \<Rightarrow> arts | Some x \<Rightarrow> put_artifact x r ev True arts);
            arts2 = (case pk_portfolio p of None \<Rightarrow> arts1 | Some x \<Rightarrow> put_artifact x r ev False arts1) in
        (log_event ''PACK_INVALIDATED'' (Some (user_id actor)) ''evidence_pack'' (id_str (pk_id p))
           (Some [(''status'', JStr ''SEALED''), (''zip_blob_sha256'', opt_json (pk_zip p)),
                  (''portfolio_blob_sha256'', opt_json (pk_portfolio p))])
           (Some [(''status'', JStr ''UNAVAILABLE''), (''source_record_id'', JStr (id_str (de_record src_ev))),
                  (''source_disposition_event_id'', JStr (id_str (de_id src_ev))),
                  (''worm_destroy_request_id'', JStr (id_str (wr_id req))), (''pack_record_id'', JStr (id_str (rc_id r))),
                  (''pack_record_disposition_event_id'', JStr (id_str (de_id ev))),
                  (''zip_blob_sha256'', JNull), (''portfolio_blob_sha256'', JNull)])
           (put_pack p' s), arts2)))"

definition erasure_reason :: string where
  "erasure_reason = ''R27 legal erasure invalidated the Evidence Pack''"

definition revoke_share :: "app_user \<Rightarrow> disposition_event \<Rightarrow> instant \<Rightarrow> pack_share \<Rightarrow> qms \<Rightarrow> qms" where
  "revoke_share actor src_ev now l s =
     (let l' = l\<lparr>ps_revoked_at := Some now, ps_revoked_by := Some (user_id actor), ps_reason := Some erasure_reason\<rparr> in
      log_event ''PACK_SHARE_REVOKED'' (Some (user_id actor)) ''evidence_pack'' (id_str (ps_pack l)) None
        (Some [(''share_link_id'', JStr (id_str (ps_id l))), (''reason'', JStr erasure_reason),
               (''source_disposition_event_id'', JStr (id_str (de_id src_ev)))])
        (s\<lparr>q_shares := map (\<lambda>x. if ps_id x = ps_id l then l' else x) (q_shares s)\<rparr>))"

definition live_shares :: "qms \<Rightarrow> pack list \<Rightarrow> pack_share list" where
  "live_shares s packs =
     sort_key ps_id (filter (\<lambda>l. ps_pack l \<in> pk_id ` set packs \<and> ps_revoked_at l = None) (q_shares s))"

fun mark_pack_records ::
    "qms_env \<Rightarrow> rec \<Rightarrow> disposition_event \<Rightarrow> destroy_request \<Rightarrow> (rec \<times> disposition_event) list \<Rightarrow> qms \<times> purge_marker list
       \<Rightarrow> (qms_error, qms \<times> purge_marker list) result" where
  "mark_pack_records E src src_ev req [] acc = Inr acc"
| "mark_pack_records E src src_ev req ((r, ev) # es) (s, specs) =
     (if rc_id r = rc_id src then mark_pack_records E src src_ev req es (s, specs)
      else bind_res (mark_record_evidence E r ev (Some req) (Some src_ev) s) (\<lambda>(s1, ms).
        mark_pack_records E src src_ev req es (s1, specs @ ms)))"

fun mark_artifacts ::
    "qms_env \<Rightarrow> disposition_event \<Rightarrow> destroy_request \<Rightarrow> artifact list \<Rightarrow> qms \<times> purge_marker list
       \<Rightarrow> (qms_error, qms \<times> purge_marker list) result" where
  "mark_artifacts E src_ev req [] acc = Inr acc"
| "mark_artifacts E src_ev req ((sha, r, ev, wz) # as) (s, specs) =
     (if \<not> r27_authority_matches r ev req (if de_id ev \<noteq> de_id src_ev then Some src_ev else None)
      then Inl (Raises ValueError)
      else (case get_blob s sha of
              None \<Rightarrow> mark_artifacts E src_ev req as (s, specs)
            | Some b \<Rightarrow>
              if blob_needed_by_any_live_owner E s sha then mark_artifacts E src_ev req as (s, specs)
              else (case insert_pending_purge b (wz \<and> bl_locked b) (rc_id r) (de_id ev) (Some (wr_id req)) s of
                (s1, m) \<Rightarrow> mark_artifacts E src_ev req as (delete_blob_and_links sha s1, specs @ [m]))))"

definition invalidate_sealed_packs ::
    "qms_env \<Rightarrow> app_user \<Rightarrow> rec \<Rightarrow> disposition_event \<Rightarrow> destroy_request \<Rightarrow> instant \<Rightarrow> qms
       \<Rightarrow> (qms_error, qms \<times> purge_marker list) result" where
  "invalidate_sealed_packs E actor src src_ev req now s =
     bind_res (require (r27_authority_matches src src_ev req None) (Raises ValueError)) (\<lambda>_.
     let packs = affected_sealed_packs E s (rc_id src) in
     bind_res (pack_records s packs) (\<lambda>rs.
     let (s1, es) = tombstone_pack_records src_ev src rs s;
         (s2, arts) = fold (invalidate_pack actor src_ev req now es) packs (s1, []);
         s3 = fold (revoke_share actor src_ev now) (live_shares s2 packs) s2 in
     bind_res (mark_record_evidence E src src_ev (Some req) None s3) (\<lambda>acc.
     bind_res (mark_pack_records E src src_ev req es acc) (\<lambda>acc'.
     mark_artifacts E src_ev req (sort_key fst arts) acc'))))"

definition approve_worm_destroy ::
    "qms_env \<Rightarrow> app_user \<Rightarrow> rid \<Rightarrow> rid \<Rightarrow> string option \<Rightarrow> instant \<Rightarrow> (rid \<Rightarrow> purge_fate) \<Rightarrow> qms \<Rightarrow> unit reply" where
  "approve_worm_destroy E actor i k reason now fate s =
     (case load_open_request i k s of
        Inl e \<Rightarrow> (s, Inl e)
      | Inr q \<Rightarrow>
        if user_id actor = wr_requested_by q then (s, Inl (Refuse 409 ''dual_control_same_actor''))
        else (case load_record s i of
          Inl e \<Rightarrow> (s, Inl e)
        | Inr r \<Rightarrow>
          if rc_disposition r = DISPOSED then (s, Inl (Refuse 409 ''already_disposed''))
          else (case destroy_refusal E r True now s of
            Some (code, why) \<Rightarrow> (refuse_destroy actor r why s, Inl (Refuse 409 code))
          | None \<Rightarrow>
            let q' = q\<lparr>wr_approved_by := Some (user_id actor), wr_executed_at := Some now\<rparr> in
            (case write_tombstone r DESTROY None (Some (user_id actor)) (Some (wr_requested_by q)) True
                  (Some (wr_legal_basis q)) None (put_request q' s) of
               (s1, r', ev) \<Rightarrow>
               (case invalidate_sealed_packs E actor r' ev q' now s1 of
                  Inl e \<Rightarrow> (s, Inl e)
                | Inr (s2, specs) \<Rightarrow>
                  (purge_marked fate specs
                    (emit_record_event (user_id actor) ''RECORD_WORM_DESTROYED'' i None
                      (Some [(''request_id'', JStr (id_str k)), (''requested_by'', JStr (uuid_str (wr_requested_by q))),
                             (''approved_by'', JStr (uuid_str (user_id actor))), (''legal_basis'', JStr (wr_legal_basis q)),
                             (''reason'', opt_json reason)]) s2), Inr ()))))))"

end
