(* ===== verification/RetentionSweep.thy ===== *)
theory RetentionSweep
  imports DestroyOrder
begin

text \<open>
  The periodic work on retention (\<open>services/records/disposition.py\<close>): the sweep that marks elapsed
  records as due and disposes those that need no review, and the reaper that completes pending purges
  after checking the authority each marker is bound to.
\<close>

subsection \<open>The sweep\<close>

definition due_active_records :: "qms \<Rightarrow> (rec \<times> rpolicy) list" where
  "due_active_records s =
     concat (map (\<lambda>r. case get_policy s (rc_policy r) of
         None \<Rightarrow> []
       | Some p \<Rightarrow>
         if \<not> rc_hold r \<and> rc_basis_date r \<noteq> None \<and> rp_action p \<noteq> RETAIN_PERMANENT
            \<and> (rc_disposition r = ACTIVE \<or> rc_disposition r = DUE_FOR_REVIEW \<and> \<not> rp_review p)
         then [(r, p)] else []) (q_records s))"

definition auto_dispose ::
    "qms_env \<Rightarrow> rec \<Rightarrow> rpolicy \<Rightarrow> instant \<Rightarrow> qms \<Rightarrow> (qms_error, (qms \<times> purge_marker list) option) result" where
  "auto_dispose E r p now s =
     (if rp_action p = DESTROY \<and> (case max_worm_retain_until s (rc_id r) of None \<Rightarrow> False | Some t \<Rightarrow> t > now) then Inr None
      else (case write_tombstone r (rp_action p) (Some (rp_id p)) None None False None None s of
        (s1, r', ev) \<Rightarrow>
          bind_res (if rp_action p = DESTROY then mark_record_evidence E r' ev None None s1 else Inr (s1, [])) (\<lambda>(s2, specs).
          Inr (Some (emit_record_event_system ''RECORD_DISPOSED'' (rc_id r) (Some [state_item DUE_FOR_REVIEW])
                (Some (disposed_event (rp_action p) (rp_id p) (''trigger'', JStr ''sweep''))) s2, specs)))))"

record sweep_summary =
  su_flipped :: nat
  su_disposed :: nat
  su_skipped :: nat

definition flip_due :: "rec \<Rightarrow> date option \<Rightarrow> qms \<Rightarrow> qms" where
  "flip_due r until s =
     emit_record_event_system ''RECORD_DISPOSITION_DUE'' (rc_id r) (Some [state_item ACTIVE])
       (Some [state_item DUE_FOR_REVIEW, (''trigger'', JStr ''sweep''), (''retention_until'', date_json until)])
       (set_disposition r DUE_FOR_REVIEW s)"

definition sweep_one ::
    "qms_env \<Rightarrow> instant \<Rightarrow> rec \<times> rpolicy \<Rightarrow> qms \<times> purge_marker list \<times> sweep_summary
       \<Rightarrow> (qms_error, qms \<times> purge_marker list \<times> sweep_summary) result" where
  "sweep_one E now rp acc =
     (case rp of (r, p) \<Rightarrow> (case acc of (s, specs, su) \<Rightarrow>
      (case retention_until (rc_basis_date r) (rp_duration p) of
         Inl ValueError \<Rightarrow> Inr (s, specs, su\<lparr>su_skipped := su_skipped su + 1\<rparr>)
       | Inl e \<Rightarrow> Inl (Raises e)
       | Inr until \<Rightarrow>
         let due = (case until of None \<Rightarrow> False | Some d \<Rightarrow> d \<le> utc_date now) in
         if rc_disposition r = ACTIVE \<and> \<not> due then Inr (s, specs, su)
         else
           let flip = (rc_disposition r = ACTIVE);
               s1 = (if flip then flip_due r until s else s);
               r1 = (if flip then r\<lparr>rc_disposition := DUE_FOR_REVIEW\<rparr> else r);
               su1 = (if flip then su\<lparr>su_flipped := su_flipped su + 1\<rparr> else su) in
           if \<not> rp_review p \<and> due \<and> rc_disposition r1 = DUE_FOR_REVIEW then
             (case auto_dispose E r1 p now s1 of
                Inl e \<Rightarrow> Inr (s1, specs, su1)
              | Inr None \<Rightarrow> Inr (s1, specs, su1)
              | Inr (Some (s2, ms)) \<Rightarrow> Inr (s2, specs @ ms, su1\<lparr>su_disposed := su_disposed su1 + 1\<rparr>))
           else Inr (s1, specs, su1))))"

fun sweep_all ::
    "qms_env \<Rightarrow> instant \<Rightarrow> (rec \<times> rpolicy) list \<Rightarrow> qms \<times> purge_marker list \<times> sweep_summary
       \<Rightarrow> (qms_error, qms \<times> purge_marker list \<times> sweep_summary) result" where
  "sweep_all E now [] acc = Inr acc"
| "sweep_all E now (x # xs) acc = bind_res (sweep_one E now x acc) (sweep_all E now xs)"

definition sweep_due_records ::
    "qms_env \<Rightarrow> instant \<Rightarrow> (rid \<Rightarrow> purge_fate) \<Rightarrow> qms \<Rightarrow> (qms_error, qms \<times> sweep_summary) result" where
  "sweep_due_records E now fate s =
     bind_res (sweep_all E now (due_active_records s) (s, [], \<lparr>su_flipped = 0, su_disposed = 0, su_skipped = 0\<rparr>))
       (\<lambda>(s1, specs, su). Inr (purge_marked fate specs s1, su))"

subsection \<open>The reaper\<close>

definition get_event :: "qms \<Rightarrow> rid \<Rightarrow> disposition_event option" where
  "get_event s k = find (\<lambda>e. de_id e = k) (q_dispositions s)"

definition authorized_reaper_bypass :: "qms_env \<Rightarrow> qms \<Rightarrow> purge_marker \<Rightarrow> bool option" where
  "authorized_reaper_bypass E s m =
     (if pm_bucket m \<notin> {qe_records_bucket E, qe_renditions_bucket E} then None
      else if \<not> pm_bound m then Some False
      else (case (pm_record m, pm_event m) of
        (Some i, Some k) \<Rightarrow>
          (case (get_record s i, get_event s k) of
            (Some r, Some ev) \<Rightarrow>
              if rc_disposition r \<noteq> DISPOSED \<or> de_record ev \<noteq> rc_id r \<or> de_action ev \<noteq> DESTROY then None
              else (case pm_request m of
                None \<Rightarrow>
                  if pm_bypass m \<or> de_worm ev \<or> de_derived ev \<noteq> None \<or> de_policy ev = None
                     \<or> de_policy ev \<noteq> Some (rc_policy r) \<or> de_requested_by ev \<noteq> None \<or> de_legal_basis ev \<noteq> None
                  then None else Some False
              | Some q \<Rightarrow>
                (case get_request s q of
                   None \<Rightarrow> None
                 | Some req \<Rightarrow>
                   let src = (case de_derived ev of None \<Rightarrow> None | Some d \<Rightarrow> get_event s d) in
                   if \<not> r27_authority_matches r ev req src then None
                   else (case src of
                     None \<Rightarrow> Some (pm_bypass m)
                   | Some x \<Rightarrow>
                     if list_ex (\<lambda>p. pk_record p = Some (rc_id r) \<and> pk_status p = P_UNAVAILABLE
                          \<and> pk_invalidated_by p = Some (de_id x)) (q_packs s)
                     then Some (pm_bypass m) else None)))
          | _ \<Rightarrow> None)
      | _ \<Rightarrow> None))"

text \<open>What one marker does: the state, whether it counts as reaped and as refused, and whether the run goes on.
A database error ends the run; what was committed before it stays.\<close>

definition reap_one :: "qms_env \<Rightarrow> (rid \<Rightarrow> purge_fate) \<Rightarrow> purge_marker \<Rightarrow> qms \<Rightarrow> qms \<times> bool \<times> bool \<times> bool" where
  "reap_one E fate m s =
     (let f = fate (pm_id m); dropped = drop_marker (pm_id m) s in
      if \<not> list_ex (\<lambda>x. pm_id x = pm_id m) (q_markers s) then (s, False, False, True)
      else if f = DbFailsBefore then (s, False, False, False)
      else if object_is_owned s (pm_bucket m) (pm_key m) then
        (if f = DbFailsAfter then (s, False, False, False) else (dropped, True, False, True))
      else (case authorized_reaper_bypass E s m of
        None \<Rightarrow> if f = DbFailsAfter then (s, False, False, False) else (dropped, True, True, True)
      | Some bypass \<Rightarrow>
          if f = StoreFails then (s, False, False, True)
          else if f = DbFailsAfter then (remove_object (pm_bucket m) (pm_key m) s, False, False, False)
          else (drop_marker (pm_id m) (remove_object (pm_bucket m) (pm_key m) s), True, False, True)))"

fun reap_all :: "qms_env \<Rightarrow> (rid \<Rightarrow> purge_fate) \<Rightarrow> purge_marker list \<Rightarrow> qms \<Rightarrow> nat \<Rightarrow> nat \<Rightarrow> qms \<times> nat \<times> nat" where
  "reap_all E fate [] s reaped refused = (s, reaped, refused)"
| "reap_all E fate (m # ms) s reaped refused =
     (case reap_one E fate m s of (s', a, b, go) \<Rightarrow>
        let reaped' = (if a then reaped + 1 else reaped); refused' = (if b then refused + 1 else refused) in
        if go then reap_all E fate ms s' reaped' refused' else (s', reaped', refused'))"

definition reap_pending_blob_purges :: "qms_env \<Rightarrow> (rid \<Rightarrow> purge_fate) \<Rightarrow> qms \<Rightarrow> qms \<times> nat \<times> nat" where
  "reap_pending_blob_purges E fate s = reap_all E fate (q_markers s) s 0 0"

end
