(* ===== verification/RecordsSpec.thy ===== *)
theory RecordsSpec
  imports Evolve RetentionPolicies RetentionSweep "HOL-Library.Sublist"
begin

text \<open>
  What the records side promises, apart from how it is programmed: the transitions \<open>ev_step\<close> of the evidence
  store, each with its guard, the invariant \<open>ev_inv\<close> they keep and the order \<open>q_evolves\<close> on states they refine.
\<close>

subsection \<open>Transitions\<close>

definition relabel :: "rec \<Rightarrow> rec \<Rightarrow> bool" where
  "relabel r r' \<longleftrightarrow>
     (\<exists>k. rc_superseded_by r = None \<and> r' = r\<lparr>rc_superseded_by := Some k\<rparr>)
   \<or> (\<exists>d. rc_disposition r \<in> {ACTIVE, DUE_FOR_REVIEW} \<and> d \<in> {ACTIVE, DUE_FOR_REVIEW} \<and> r' = r\<lparr>rc_disposition := d\<rparr>)
   \<or> rc_disposition r \<noteq> DISPOSED \<and> r' = r\<lparr>rc_hold := True, rc_disposition := ON_HOLD\<rparr>
   \<or> rc_hold r \<and> r' = r\<lparr>rc_hold := False, rc_disposition := ACTIVE\<rparr>"

definition pack_evolves :: "pack \<Rightarrow> pack \<Rightarrow> bool" where
  "pack_evolves p p' \<longleftrightarrow> p' = p \<or> pk_status p' = P_UNAVAILABLE \<and> pk_zip p' = None \<and> pk_portfolio p' = None \<and> pk_id p' = pk_id p"

definition two_people :: "disposition_event \<Rightarrow> bool" where
  "two_people ev \<longleftrightarrow> de_requested_by ev \<noteq> None \<and> de_approved_by ev \<noteq> None \<and> de_requested_by ev \<noteq> de_approved_by ev"

definition authorises :: "destroy_request \<Rightarrow> disposition_event \<Rightarrow> bool" where
  "authorises q ev \<longleftrightarrow> wr_executed_at q \<noteq> None \<and> Some (wr_requested_by q) = de_requested_by ev
     \<and> wr_approved_by q = de_approved_by ev \<and> (de_derived ev = None \<longrightarrow> wr_record q = de_record ev)"

definition ordered :: "qms \<Rightarrow> disposition_event \<Rightarrow> bool" where
  "ordered s ev \<longleftrightarrow> (\<exists>q \<in> set (q_requests s). authorises q ev)"

definition tombstone_allowed :: "qms \<Rightarrow> rec \<Rightarrow> disposition_event \<Rightarrow> bool" where
  "tombstone_allowed s r ev \<longleftrightarrow>
     de_record ev = rc_id r \<and> (de_derived ev = None \<longrightarrow> \<not> rc_hold r) \<and> (\<not> de_worm ev \<longrightarrow> de_derived ev = None)
     \<and> (de_worm ev \<longrightarrow> de_action ev = DESTROY \<and> two_people ev \<and> ordered s ev)"

definition captures :: "qms \<Rightarrow> rec \<Rightarrow> qms \<Rightarrow> bool" where
  "captures s r s' \<longleftrightarrow>
     rc_id r < q_next s' \<and> q_next s \<le> rc_id r \<and> rc_disposition r = ACTIVE \<and> \<not> rc_hold r \<and> rc_superseded_by r = None
     \<and> q_records s' = q_records s @ [r]
     \<and> (\<exists>es. q_evidence s' = q_evidence s @ es \<and> (\<forall>e \<in> set es. eb_record e = rc_id r \<and> eb_sha e \<in> bl_sha ` set (q_blobs s')))
     \<and> bl_sha ` set (q_blobs s) \<subseteq> bl_sha ` set (q_blobs s')
     \<and> (\<forall>b \<in> set (q_blobs s'). (bl_bucket b, bl_key b) \<in> q_stored s'
          \<or> (\<exists>b0 \<in> set (q_blobs s). bl_bucket b0 = bl_bucket b \<and> bl_key b0 = bl_key b))
     \<and> q_stored s \<subseteq> q_stored s' \<and> prefix (q_events s) (q_events s')
     \<and> q_dispositions s' = q_dispositions s \<and> q_requests s' = q_requests s \<and> q_markers s' = q_markers s
     \<and> q_packs s' = q_packs s \<and> q_shares s' = q_shares s"

definition capa_tables where
  "capa_tables s = (q_capas s, q_stages s, q_links s, q_flows s, q_complaints s, q_ncrs s, q_findings s, q_signatures s)"

inductive ev_step :: "qms_env \<Rightarrow> qms \<Rightarrow> qms \<Rightarrow> bool" for E :: qms_env where
  ev_log: "q_next s \<le> n \<Longrightarrow>
     ev_step E s (s\<lparr>q_events := q_events s @ es, q_next := n, q_queue := qu, q_vault := v, q_policies := ps\<rparr>)"
| ev_request: "q_next s \<le> wr_id q \<Longrightarrow> wr_id q < n \<Longrightarrow> ev_step E s (s\<lparr>q_requests := q_requests s @ [q], q_next := n\<rparr>)"
| ev_settle: "q0 \<in> set (q_requests s) \<Longrightarrow> wr_executed_at q0 = None \<Longrightarrow> wr_id q = wr_id q0 \<Longrightarrow>
     ev_step E s (put_request q s)"
| ev_capture: "captures s r s' \<Longrightarrow> capa_tables s' = capa_tables s \<Longrightarrow> ev_step E s s'"
| ev_relabel: "get_record s (rc_id r) = Some r \<Longrightarrow> relabel r r' \<Longrightarrow> ev_step E s (put_record r' s)"
| ev_rendition: "get_record s (rc_id r) = Some r \<Longrightarrow> \<not> content_preserved s (rc_id r) \<Longrightarrow>
     ev_step E s (put_record (r\<lparr>rc_rendition := None\<rparr>) s)"
| ev_tombstone: "get_record s (rc_id r) = Some r \<Longrightarrow> write_tombstone r a p ab rb w lb d s = (s', r', ev) \<Longrightarrow>
     tombstone_allowed s r ev \<Longrightarrow> ev_step E s s'"
| ev_detach: "\<not> content_preserved s i \<Longrightarrow> ev_step E s (detach_record_evidence_blob i sha s)"
| ev_drop_blob: "\<not> blob_needed_by_any_live_owner E s (bl_sha b) \<Longrightarrow>
     insert_pending_purge b byp i ev rq s = (s', m) \<Longrightarrow> ev_step E s (delete_blob_and_links (bl_sha b) s')"
| ev_packs: "list_all2 pack_evolves (q_packs s) ps \<Longrightarrow> ev_step E s (s\<lparr>q_packs := ps, q_shares := sh\<rparr>)"
| ev_remove: "\<not> object_is_owned s bu k \<Longrightarrow> ev_step E s (remove_object bu k s)"
| ev_drop_marker: "ev_step E s (drop_marker k s)"

subsection \<open>The invariant\<close>

definition hold_ok :: "qms \<Rightarrow> rec \<Rightarrow> bool" where
  "hold_ok s r \<longleftrightarrow>
     (rc_disposition r = ON_HOLD \<longrightarrow> rc_hold r)
   \<and> (rc_hold r \<longrightarrow> rc_disposition r = ON_HOLD \<or>
        rc_disposition r = DISPOSED \<and> (\<exists>ev \<in> set (q_dispositions s). de_record ev = rc_id r \<and> de_derived ev \<noteq> None))
   \<and> (rc_disposition r = DISPOSED \<longrightarrow> (\<exists>ev \<in> set (q_dispositions s). de_record ev = rc_id r))"

definition ids_ok :: "qms \<Rightarrow> bool" where
  "ids_ok s \<longleftrightarrow> distinct (map rc_id (q_records s)) \<and> (\<forall>r \<in> set (q_records s). rc_id r < q_next s)
     \<and> distinct (map wr_id (q_requests s)) \<and> (\<forall>q \<in> set (q_requests s). wr_id q < q_next s)"

definition evidence_ok :: "qms \<Rightarrow> bool" where
  "evidence_ok s \<longleftrightarrow>
     (\<forall>e \<in> set (q_evidence s). eb_sha e \<in> bl_sha ` set (q_blobs s) \<and> eb_record e \<in> rc_id ` set (q_records s))"

definition objects_ok :: "qms \<Rightarrow> bool" where
  "objects_ok s \<longleftrightarrow> (\<forall>b \<in> set (q_blobs s). (bl_bucket b, bl_key b) \<in> q_stored s)"

definition orders_ok :: "qms \<Rightarrow> bool" where
  "orders_ok s \<longleftrightarrow> (\<forall>ev \<in> set (q_dispositions s). de_worm ev \<longrightarrow> de_action ev = DESTROY \<and> two_people ev \<and> ordered s ev)"

definition ev_inv :: "qms \<Rightarrow> bool" where
  "ev_inv s \<longleftrightarrow> ids_ok s \<and> (\<forall>r \<in> set (q_records s). hold_ok s r) \<and> evidence_ok s \<and> objects_ok s \<and> orders_ok s"

lemmas ev_inv_defs = ev_inv_def ids_ok_def evidence_ok_def objects_ok_def orders_ok_def

lemma ev_inv_empty: "ev_inv empty_qms"
  by (simp add: ev_inv_defs empty_qms_def)

subsection \<open>Lookups\<close>

lemma find_by_key:
  "distinct (map f xs) \<Longrightarrow> find (\<lambda>x. f x = i) xs = Some y \<longleftrightarrow> y \<in> set xs \<and> f y = i"
  by (induction xs) auto

lemma find_key_SomeD: "find (\<lambda>x. f x = i) xs = Some y \<Longrightarrow> y \<in> set xs \<and> f y = i"
  by (induction xs) (auto split: if_splits)

lemma find_key_None: "find (\<lambda>x. f x = i) xs = None \<longleftrightarrow> i \<notin> f ` set xs"
  by (induction xs) auto

lemma get_record_mem: "get_record s i = Some r \<Longrightarrow> r \<in> set (q_records s) \<and> rc_id r = i"
  unfolding get_record_def by (rule find_key_SomeD)

lemma get_record_None: "get_record s i = None \<longleftrightarrow> i \<notin> rc_id ` set (q_records s)"
  unfolding get_record_def by (rule find_key_None)

lemma get_record_unique: "ids_ok s \<Longrightarrow> get_record s i = Some r \<longleftrightarrow> r \<in> set (q_records s) \<and> rc_id r = i"
  unfolding get_record_def ids_ok_def by (rule find_by_key) simp

lemma map_key_put: "map f (map (\<lambda>x. if f x = f y then y else x) xs) = map f xs"
  by (induction xs) auto

lemma put_record_ids: "map rc_id (q_records (put_record r s)) = map rc_id (q_records s)"
  using map_key_put [of rc_id r] by (simp add: put_record_def del: map_map)

lemma put_record_mem:
  "x \<in> set (q_records (put_record r s)) \<Longrightarrow> x = r \<and> rc_id r \<in> rc_id ` set (q_records s) \<or> x \<in> set (q_records s) \<and> rc_id x \<noteq> rc_id r"
  by (auto simp: put_record_def split: if_splits) (metis imageI)+

lemma put_record_image [simp]: "rc_id ` set (q_records (put_record r s)) = rc_id ` set (q_records s)"
  using put_record_ids [of r s] by (metis list.set_map)

lemma put_record_other [simp]:
  "q_next (put_record r s) = q_next s" "q_evidence (put_record r s) = q_evidence s" "q_blobs (put_record r s) = q_blobs s"
  "q_stored (put_record r s) = q_stored s" "q_dispositions (put_record r s) = q_dispositions s"
  "q_requests (put_record r s) = q_requests s" "q_events (put_record r s) = q_events s" "q_markers (put_record r s) = q_markers s"
  "q_packs (put_record r s) = q_packs s" "q_shares (put_record r s) = q_shares s" "q_vault (put_record r s) = q_vault s"
  "capa_tables (put_record r s) = capa_tables s"
  by (simp_all add: put_record_def capa_tables_def)

lemma put_request_ids: "map wr_id (q_requests (put_request q s)) = map wr_id (q_requests s)"
  using map_key_put [of wr_id q] by (simp add: put_request_def del: map_map)

lemma put_request_image: "wr_id ` set (q_requests (put_request q s)) = wr_id ` set (q_requests s)"
  using put_request_ids [of q s] by (metis list.set_map)

lemma put_request_other [simp]:
  "q_next (put_request q s) = q_next s" "q_evidence (put_request q s) = q_evidence s" "q_blobs (put_request q s) = q_blobs s"
  "q_stored (put_request q s) = q_stored s" "q_dispositions (put_request q s) = q_dispositions s"
  "q_records (put_request q s) = q_records s" "q_events (put_request q s) = q_events s" "q_markers (put_request q s) = q_markers s"
  "q_packs (put_request q s) = q_packs s" "q_shares (put_request q s) = q_shares s" "q_vault (put_request q s) = q_vault s"
  "capa_tables (put_request q s) = capa_tables s"
  by (simp_all add: put_request_def capa_tables_def)

lemma put_request_keeps:
  assumes "ids_ok s" and "q0 \<in> set (q_requests s)" and "wr_executed_at q0 = None" and "wr_id q = wr_id q0"
    and "x \<in> set (q_requests s)" and "wr_executed_at x \<noteq> None"
  shows "x \<in> set (q_requests (put_request q s))"
proof -
  have "wr_id x \<noteq> wr_id q" using assms by (metis (no_types) distinct_map inj_onD ids_ok_def)
  with assms(5) show ?thesis by (auto simp: put_request_def)
qed

subsection \<open>Every transition keeps the invariant\<close>

lemma hold_ok_mono: "hold_ok s r \<Longrightarrow> set (q_dispositions s) \<subseteq> set (q_dispositions s') \<Longrightarrow> hold_ok s' r"
  unfolding hold_ok_def by blast

lemma authorises_executed: "authorises q ev \<Longrightarrow> wr_executed_at q \<noteq> None"
  by (simp add: authorises_def)

lemma ordered_mono:
  assumes "ordered s ev" and "\<And>q. q \<in> set (q_requests s) \<Longrightarrow> wr_executed_at q \<noteq> None \<Longrightarrow> q \<in> set (q_requests s')"
  shows "ordered s' ev"
  using assms authorises_executed unfolding ordered_def by blast

lemma hold_ok_relabel: "hold_ok s r \<Longrightarrow> relabel r r' \<Longrightarrow> hold_ok s r' \<and> rc_id r' = rc_id r"
  unfolding relabel_def by (elim disjE exE conjE) (simp_all add: hold_ok_def, auto)

lemma write_tombstone_state:
  "write_tombstone r a p ab rb w lb d s = (s', r', ev) \<longleftrightarrow>
     ev = \<lparr>de_id = q_next s, de_record = rc_id r, de_action = a, de_policy = p, de_approved_by = ab,
           de_requested_by = rb, de_worm = w, de_legal_basis = lb, de_derived = d\<rparr> \<and>
     r' = r\<lparr>rc_disposition := DISPOSED, rc_values := (if a = DESTROY then None else rc_values r)\<rparr> \<and>
     s' = put_record r' (s\<lparr>q_next := q_next s + 1, q_dispositions := q_dispositions s @ [ev]\<rparr>)"
  by (auto simp: write_tombstone_def Let_def take_id_def)

lemma insert_purge_state:
  "insert_pending_purge b byp i ev rq s = (s', m) \<longleftrightarrow>
     m = \<lparr>pm_id = q_next s, pm_sha = bl_sha b, pm_bucket = bl_bucket b, pm_key = bl_key b, pm_bypass = byp,
          pm_record = Some i, pm_event = Some ev, pm_request = rq, pm_bound = True\<rparr> \<and>
     s' = s\<lparr>q_next := q_next s + 1, q_markers := q_markers s @ [m]\<rparr>"
  by (auto simp: insert_pending_purge_def Let_def take_id_def)

lemma ids_ok_put: "ids_ok (put_record r s) \<longleftrightarrow> ids_ok s"
proof -
  have "(\<forall>x \<in> set (q_records (put_record r s)). rc_id x < n) \<longleftrightarrow> (\<forall>x \<in> set (q_records s). rc_id x < n)" for n
    using put_record_image [of r s] by (metis (no_types, lifting) image_iff)
  then show ?thesis by (simp add: ids_ok_def put_record_ids)
qed

lemma ids_ok_put_request: "ids_ok (put_request q s) \<longleftrightarrow> ids_ok s"
proof -
  have "(\<forall>x \<in> set (q_requests (put_request q s)). wr_id x < n) \<longleftrightarrow> (\<forall>x \<in> set (q_requests s). wr_id x < n)" for n
    using put_request_image [of q s] by (metis (no_types, lifting) image_iff)
  then show ?thesis by (simp add: ids_ok_def put_request_ids)
qed

lemma ids_ok_mono:
  "ids_ok s \<Longrightarrow> q_records s' = q_records s \<Longrightarrow> q_requests s' = q_requests s \<Longrightarrow> q_next s \<le> q_next s' \<Longrightarrow> ids_ok s'"
  unfolding ids_ok_def by (metis order_less_le_trans)

lemma captures_ids: "captures s r s' \<Longrightarrow> ids_ok s \<Longrightarrow> ids_ok s'"
  unfolding captures_def ids_ok_def by force

lemma ev_step_ids: "ev_step E s s' \<Longrightarrow> ids_ok s \<Longrightarrow> ids_ok s'"
proof (induction rule: ev_step.induct)
  case (ev_log s n es qu v ps)
  then show ?case by (intro ids_ok_mono [OF ev_log(2)]) simp_all
next
  case (ev_request s q n)
  then show ?case unfolding ids_ok_def by force
next
  case (ev_tombstone s r a p ab rb w lb d s' r' ev)
  then have "ids_ok (s\<lparr>q_next := q_next s + 1, q_dispositions := q_dispositions s @ [ev]\<rparr>)"
    by (intro ids_ok_mono [OF ev_tombstone(4)]) simp_all
  with ev_tombstone(2) show ?case by (simp add: write_tombstone_state ids_ok_put)
next
  case (ev_drop_blob b s byp i ev rq s' m)
  then show ?case by (intro ids_ok_mono [OF ev_drop_blob(3)]) (simp_all add: insert_purge_state delete_blob_and_links_def)
qed (simp_all add: ids_ok_put ids_ok_put_request captures_ids, simp_all add: ids_ok_def detach_record_evidence_blob_def
   remove_object_def drop_marker_def)

abbreviation holds_ok :: "qms \<Rightarrow> bool" where
  "holds_ok s \<equiv> \<forall>r \<in> set (q_records s). hold_ok s r"

lemma holds_ok_mono:
  "holds_ok s \<Longrightarrow> q_records s' = q_records s \<Longrightarrow> set (q_dispositions s) \<subseteq> set (q_dispositions s') \<Longrightarrow> holds_ok s'"
  using hold_ok_mono by metis

lemma holds_ok_put: "holds_ok s \<Longrightarrow> hold_ok s r \<Longrightarrow> holds_ok (put_record r s)"
  using put_record_mem hold_ok_mono put_record_other(5) by (metis subset_refl)

lemma ev_step_holds: "ev_step E s s' \<Longrightarrow> holds_ok s \<Longrightarrow> holds_ok s'"
proof (induction rule: ev_step.induct)
  case (ev_capture s r s')
  then have "hold_ok s' r" by (simp add: captures_def hold_ok_def)
  moreover have "holds_ok (s'\<lparr>q_records := q_records s\<rparr>)"
    using ev_capture by (intro holds_ok_mono [OF ev_capture(3)]) (simp_all add: captures_def)
  ultimately show ?case using ev_capture(1) by (simp add: captures_def hold_ok_def)
next
  case (ev_relabel s r r')
  then show ?case using get_record_mem hold_ok_relabel holds_ok_put by metis
next
  case (ev_rendition s r)
  then have "hold_ok s r" using get_record_mem by blast
  then show ?case using ev_rendition by (intro holds_ok_put) (simp_all add: hold_ok_def)
next
  case (ev_tombstone s r a p ab rb w lb d s' r' ev)
  let ?s = "s\<lparr>q_next := q_next s + 1, q_dispositions := q_dispositions s @ [ev]\<rparr>"
  have "holds_ok ?s" by (rule holds_ok_mono [OF ev_tombstone(4)]) auto
  moreover have "hold_ok ?s r'"
    using ev_tombstone(2,3) by (auto simp: write_tombstone_state tombstone_allowed_def hold_ok_def)
  ultimately show ?case using ev_tombstone(2) holds_ok_put by (simp only: write_tombstone_state)
next
  case (ev_drop_blob b s byp i ev rq s' m)
  then show ?case by (intro holds_ok_mono [OF ev_drop_blob(3)]) (simp_all add: insert_purge_state delete_blob_and_links_def)
qed (erule holds_ok_mono; simp add: detach_record_evidence_blob_def remove_object_def drop_marker_def)+

lemma captures_evidence: "captures s r s' \<Longrightarrow> evidence_ok s \<Longrightarrow> evidence_ok s'"
  unfolding captures_def evidence_ok_def by (elim conjE exE, simp) blast

lemma evidence_ok_mono:
  "evidence_ok s \<Longrightarrow> set (q_evidence s') \<subseteq> set (q_evidence s) \<Longrightarrow> rc_id ` set (q_records s') = rc_id ` set (q_records s) \<Longrightarrow>
     q_blobs s' = q_blobs s \<Longrightarrow> evidence_ok s'"
  unfolding evidence_ok_def by auto

lemma ev_step_evidence: "ev_step E s s' \<Longrightarrow> evidence_ok s \<Longrightarrow> evidence_ok s'"
proof (induction rule: ev_step.induct)
  case (ev_tombstone s r a p ab rb w lb d s' r' ev)
  then show ?case by (intro evidence_ok_mono [OF ev_tombstone(4)]) (simp_all add: write_tombstone_state)
next
  case (ev_drop_blob b s byp i ev rq s' m)
  then show ?case by (auto simp: insert_purge_state delete_blob_and_links_def evidence_ok_def)
qed (simp_all add: captures_evidence, (rule evidence_ok_mono, assumption,
     auto simp: detach_record_evidence_blob_def remove_object_def drop_marker_def)+)

lemma captures_objects: "captures s r s' \<Longrightarrow> objects_ok s \<Longrightarrow> objects_ok s'"
  unfolding captures_def objects_ok_def by (elim conjE exE) fastforce

lemma ev_step_objects: "ev_step E s s' \<Longrightarrow> objects_ok s \<Longrightarrow> objects_ok s'"
proof (induction rule: ev_step.induct)
  case (ev_tombstone s r a p ab rb w lb d s' r' ev)
  then show ?case by (simp add: write_tombstone_state objects_ok_def)
next
  case (ev_drop_blob b s byp i ev rq s' m)
  then show ?case by (simp add: insert_purge_state delete_blob_and_links_def objects_ok_def)
next
  case (ev_remove s bu k)
  then show ?case by (auto simp: remove_object_def objects_ok_def object_is_owned_def list_ex_iff)
qed (simp_all add: captures_objects, simp_all add: objects_ok_def detach_record_evidence_blob_def drop_marker_def)

lemma orders_ok_mono:
  assumes "orders_ok s" and "q_dispositions s' = q_dispositions s"
    and "\<And>q. q \<in> set (q_requests s) \<Longrightarrow> wr_executed_at q \<noteq> None \<Longrightarrow> q \<in> set (q_requests s')"
  shows "orders_ok s'"
  using assms ordered_mono unfolding orders_ok_def by metis

lemma ev_step_orders: "ev_step E s s' \<Longrightarrow> ids_ok s \<Longrightarrow> orders_ok s \<Longrightarrow> orders_ok s'"
proof (induction rule: ev_step.induct)
  case (ev_settle q0 s q)
  then show ?case by (intro orders_ok_mono [OF ev_settle(5)]) (simp_all add: put_request_keeps)
next
  case (ev_tombstone s r a p ab rb w lb d s' r' ev)
  have o: "ordered s x \<Longrightarrow> ordered s' x" for x
    using ev_tombstone(2) by (auto simp: ordered_def write_tombstone_state)
  then show ?case using ev_tombstone(2,3,5)
    unfolding orders_ok_def tombstone_allowed_def by (auto simp: write_tombstone_state)
next
  case (ev_drop_blob b s byp i ev rq s' m)
  then show ?case by (intro orders_ok_mono [OF ev_drop_blob(4)]) (simp_all add: insert_purge_state delete_blob_and_links_def)
next
  case (ev_capture s r s')
  then show ?case by (intro orders_ok_mono [OF ev_capture(4)]) (simp_all add: captures_def)
qed (erule orders_ok_mono; simp add: detach_record_evidence_blob_def remove_object_def drop_marker_def)+

theorem ev_step_inv: "ev_step E s s' \<Longrightarrow> ev_inv s \<Longrightarrow> ev_inv s'"
  unfolding ev_inv_def
  using ev_step_ids ev_step_holds ev_step_evidence ev_step_objects ev_step_orders by metis

subsection \<open>What no transition undoes\<close>

text \<open>The members of a record that are sealed at its capture.\<close>

definition seal where
  "seal r = (rc_identifier r, rc_title r, rc_class r, rc_area r, rc_framework r, rc_type r, rc_captured_at r, rc_captured_by r,
     rc_hash r, rc_hash_version r, rc_source_doc r, rc_source_version r, rc_correction_of r, rc_policy r, rc_basis_date r)"

definition rec_evolves :: "qms \<Rightarrow> rec \<Rightarrow> rec \<Rightarrow> bool" where
  "rec_evolves s' r r' \<longleftrightarrow>
     rc_id r' = rc_id r \<and> seal r' = seal r \<and> (rc_superseded_by r \<noteq> None \<longrightarrow> rc_superseded_by r' = rc_superseded_by r)
     \<and> (content_preserved s' (rc_id r) \<longrightarrow> rc_values r' = rc_values r)"

definition q_evolves :: "qms \<Rightarrow> qms \<Rightarrow> bool" where
  "q_evolves s s' \<longleftrightarrow>
     prefix (q_events s) (q_events s') \<and> prefix (q_dispositions s) (q_dispositions s')
     \<and> (\<forall>r \<in> set (q_records s). \<exists>r' \<in> set (q_records s'). rec_evolves s' r r')
     \<and> (\<forall>e \<in> set (q_evidence s). content_preserved s' (eb_record e) \<longrightarrow> e \<in> set (q_evidence s'))
     \<and> (\<forall>q \<in> set (q_requests s). wr_executed_at q \<noteq> None \<longrightarrow> q \<in> set (q_requests s'))"

lemma content_preserved_mono:
  "prefix (q_dispositions s) (q_dispositions s') \<Longrightarrow> content_preserved s' i \<Longrightarrow> content_preserved s i"
  by (auto simp: content_preserved_def prefix_def list_ex_iff)

lemma rec_evolves_refl [simp]: "rec_evolves s r r"
  by (simp add: rec_evolves_def)

lemma rec_evolves_trans:
  "rec_evolves s' r r' \<Longrightarrow> rec_evolves s'' r' r'' \<Longrightarrow> prefix (q_dispositions s') (q_dispositions s'') \<Longrightarrow> rec_evolves s'' r r''"
  unfolding rec_evolves_def using content_preserved_mono by metis

lemma q_evolves_refl [simp]: "q_evolves s s"
  by (simp add: q_evolves_def) (use rec_evolves_refl in blast)

lemma q_evolves_trans: "q_evolves s s' \<Longrightarrow> q_evolves s' s'' \<Longrightarrow> q_evolves s s''"
  unfolding q_evolves_def using rec_evolves_trans content_preserved_mono prefix_order.trans by (smt (verit))

lemma q_evolves_same:
  "prefix (q_events s) (q_events s') \<Longrightarrow> q_dispositions s' = q_dispositions s \<Longrightarrow> q_records s' = q_records s \<Longrightarrow>
   (\<forall>e \<in> set (q_evidence s). content_preserved s (eb_record e) \<longrightarrow> e \<in> set (q_evidence s')) \<Longrightarrow>
   (\<forall>q \<in> set (q_requests s). wr_executed_at q \<noteq> None \<longrightarrow> q \<in> set (q_requests s')) \<Longrightarrow> q_evolves s s'"
  unfolding q_evolves_def content_preserved_def by (simp, use rec_evolves_refl in blast)

lemma q_evolves_put:
  assumes "ids_ok s" and "get_record s (rc_id r) = Some r" and "rec_evolves s' r r'"
    and "s' = put_record r' (s\<lparr>q_next := n, q_dispositions := q_dispositions s @ es\<rparr>)"
  shows "q_evolves s s'"
proof -
  have id: "rc_id r' = rc_id r" using assms(3) by (simp add: rec_evolves_def)
  have "\<exists>y \<in> set (q_records s'). rec_evolves s' x y" if x: "x \<in> set (q_records s)" for x
  proof (cases "rc_id x = rc_id r")
    case True
    then have "x = r" using assms(1,2) x get_record_unique by (metis option.inject)
    moreover have "r' \<in> set (q_records s')" using assms(4) x True id by (force simp: put_record_def)
    ultimately show ?thesis using assms(3) by blast
  next
    case False
    then have "x \<in> set (q_records s')" using assms(4) x id by (force simp: put_record_def)
    then show ?thesis using rec_evolves_refl by blast
  qed
  then show ?thesis using assms(4) by (simp add: q_evolves_def)
qed

lemma rec_evolves_relabel: "relabel r r' \<Longrightarrow> rec_evolves s r r'"
  unfolding relabel_def by (elim disjE exE conjE) (simp_all add: rec_evolves_def seal_def)

lemma not_needed_not_preserved:
  assumes "\<not> blob_needed_by_any_live_owner E s (eb_sha e)" and "e \<in> set (q_evidence s)" and "evidence_ok s"
  shows "\<not> content_preserved s (eb_record e)"
proof -
  have "get_record s (eb_record e) \<noteq> None" using assms(2,3) by (auto simp: evidence_ok_def get_record_None)
  then show ?thesis using assms(1,2) by (auto simp: blob_needed_by_any_live_owner_def evidence_owner_def list_ex_iff)
qed

lemma ev_step_evolves: "ev_step E s s' \<Longrightarrow> ids_ok s \<Longrightarrow> evidence_ok s \<Longrightarrow> q_evolves s s'"
proof (induction rule: ev_step.induct)
  case (ev_settle q0 s q)
  then show ?case by (intro q_evolves_same) (simp_all add: put_request_keeps)
next
  case (ev_capture s r s')
  then show ?case unfolding captures_def q_evolves_def by (auto intro: rec_evolves_refl)
next
  case (ev_relabel s r r')
  show ?case
    by (rule q_evolves_put [OF ev_relabel(3,1), where n = "q_next s" and es = "[]"]) (use ev_relabel rec_evolves_relabel in auto)
next
  case (ev_rendition s r)
  show ?case
    by (rule q_evolves_put [OF ev_rendition(3,1), where n = "q_next s" and es = "[]"]) (auto simp: rec_evolves_def seal_def)
next
  case (ev_tombstone s r a p ab rb w lb d s' r' ev)
  have "rec_evolves s' r r'"
    using ev_tombstone(2) by (auto simp: write_tombstone_state rec_evolves_def seal_def content_preserved_def)
  then show ?case
    by (rule q_evolves_put [OF ev_tombstone(4,1), where n = "q_next s + 1" and es = "[ev]"]) (use ev_tombstone(2) in \<open>simp add: write_tombstone_state\<close>)
next
  case (ev_drop_blob b s byp i ev rq s' m)
  then show ?case using not_needed_not_preserved
    by (intro q_evolves_same) (auto simp: insert_purge_state delete_blob_and_links_def)
qed (rule q_evolves_same; auto simp: detach_record_evidence_blob_def remove_object_def drop_marker_def)+

interpretation store: evolving "ev_step E" ev_inv q_evolves for E
proof
  fix s t u :: qms
  show "ev_inv t" if "ev_step E s t" "ev_inv s" using ev_step_inv that .
  show "q_evolves s t" if "ev_step E s t" "ev_inv s" using ev_step_evolves that by (simp add: ev_inv_def)
  show "q_evolves s u" if "q_evolves s t" "q_evolves t u" using q_evolves_trans that .
qed simp

lemmas ev_steps_inv = store.run_keeps
lemmas ev_steps_evolve = store.run_moves

lemma ev_step_capa: "ev_step E s s' \<Longrightarrow> capa_tables s' = capa_tables s"
proof (induction rule: ev_step.induct)
  case (ev_tombstone s r a p ab rb w lb d s' r' ev)
  then show ?case by (simp add: write_tombstone_state capa_tables_def put_record_def)
next
  case (ev_drop_blob b s byp i ev rq s' m)
  then show ?case by (simp add: insert_purge_state delete_blob_and_links_def capa_tables_def)
qed (simp_all, simp_all add: capa_tables_def detach_record_evidence_blob_def remove_object_def drop_marker_def)

lemma ev_steps_capa: "(ev_step E)\<^sup>*\<^sup>* s s' \<Longrightarrow> capa_tables s' = capa_tables s"
  by (induction rule: rtranclp_induct) (auto dest: ev_step_capa)

end
