(* ===== verification/DcrSpec.thy ===== *)
theory DcrSpec
  imports Dcr Trails RecordsSpec VaultProps
begin

text \<open>
  What a change request promises, apart from how it is programmed: the transitions \<open>change_step\<close> of the requests, their
  stage events, their signatures and the versions they claim, the invariant they keep, and the proof that every
  operation of \<open>Dcr\<close> is a run of them.
\<close>

definition history :: "change_store \<Rightarrow> rid \<Rightarrow> stage_event list" where
  "history s i = filter (\<lambda>e. se_dcr e = i) (cs_trail s)"

text \<open>Stage events that begin in \<open>Open\<close> and follow the lifecycle table without a gap.\<close>

abbreviation chained :: "dcr_state option \<Rightarrow> stage_event list \<Rightarrow> bool" where
  "chained \<equiv> legal_trail dcr_allowed DCR_Open se_from se_to"

definition documented :: "change_store \<Rightarrow> dcr \<Rightarrow> bool" where
  "documented s d \<longleftrightarrow> history s (dc_id d) \<noteq> [] \<and> chained None (history s (dc_id d)) \<and> se_to (last (history s (dc_id d))) = dc_state d"

definition approves :: "q_signature list \<Rightarrow> dcr \<Rightarrow> stage_event \<Rightarrow> bool" where
  "approves gs d e \<longleftrightarrow> se_dcr e = dc_id d \<and> se_to e = DCR_Approved \<and> dc_decided_by d = Some (se_by e) \<and>
     (\<exists>g \<in> set gs. se_signed e = Some (qs_id g) \<and> qs_object g = dc_id d \<and> qs_signer g = se_by e \<and> qs_meaning g = ''approval'')"

definition past_approval :: "dcr_state \<Rightarrow> bool" where
  "past_approval st \<longleftrightarrow> st \<in> {DCR_Approved, DCR_Implemented, DCR_Closed}"

definition approved_by :: "change_store \<Rightarrow> dcr \<Rightarrow> bool" where
  "approved_by s d \<longleftrightarrow> (past_approval (dc_state d) \<longrightarrow> (\<exists>e \<in> set (cs_trail s). approves (cs_signatures s) d e))"

definition carried_out :: "change_store \<Rightarrow> dcr \<Rightarrow> bool" where
  "carried_out s d \<longleftrightarrow> (dc_state d \<in> {DCR_Implemented, DCR_Closed} \<and> dc_type d \<noteq> CH_RETIRE \<longrightarrow>
     (\<exists>v. dc_result d = Some v \<and> map_of (cs_claims s) v = Some (dc_id d)))"

text \<open>The version a request was carried out by is approved, and released and signed for from its closure on.\<close>

definition took_effect :: "vault \<Rightarrow> dcr \<Rightarrow> version \<Rightarrow> bool" where
  "took_effect v d r \<longleftrightarrow> r \<in> set (versions v) \<and> dc_result d = Some (ver_id r) \<and> version_move\<^sup>*\<^sup>* V_Approved (ver_state r)
     \<and> (was_released (ver_state r) \<longrightarrow> release_signed v r) \<and> (dc_state d = DCR_Closed \<longrightarrow> was_released (ver_state r))"

definition effects :: "change_store \<Rightarrow> dcr \<Rightarrow> bool" where
  "effects s d \<longleftrightarrow> (dc_state d \<in> {DCR_Implemented, DCR_Closed} \<and> dc_type d \<noteq> CH_RETIRE \<longrightarrow>
     (\<exists>r. took_effect (cs_vault s) d r))"

definition change_inv :: "change_store \<Rightarrow> bool" where
  "change_inv s \<longleftrightarrow> distinct (map dc_id (cs_dcrs s)) \<and> (\<forall>d \<in> set (cs_dcrs s). dc_id d < cs_next s)
     \<and> (\<forall>e \<in> set (cs_trail s). se_dcr e < cs_next s)
     \<and> (\<forall>d \<in> set (cs_dcrs s). documented s d \<and> approved_by s d \<and> carried_out s d \<and> effects s d)
     \<and> vault_inv (cs_vault s)"

text \<open>Events, signatures and claims are only added, and a claim is never taken over.\<close>

definition change_evolves :: "change_store \<Rightarrow> change_store \<Rightarrow> bool" where
  "change_evolves s s' \<longleftrightarrow> prefix (cs_trail s) (cs_trail s') \<and> prefix (cs_signatures s) (cs_signatures s')
     \<and> prefix (cs_claims s) (cs_claims s') \<and> cs_next s \<le> cs_next s'
     \<and> evolves (cs_vault s) (cs_vault s')"

subsection \<open>Transitions\<close>

definition tables where
  "tables s = (cs_dcrs s, cs_trail s, cs_claims s, cs_signatures s, cs_vault s)"

definition replace_dcr :: "dcr \<Rightarrow> dcr list \<Rightarrow> dcr list" where
  "replace_dcr d ds = map (\<lambda>x. if dc_id x = dc_id d then d else x) ds"

definition vault_moves :: "vault \<Rightarrow> vault \<Rightarrow> bool" where
  "vault_moves v w \<longleftrightarrow> (vault_inv v \<longrightarrow> vault_inv w \<and> evolves v w)"

definition event_of :: "dcr \<Rightarrow> dcr_state \<Rightarrow> stage_event \<Rightarrow> bool" where
  "event_of d st e \<longleftrightarrow> se_dcr e = dc_id d \<and> se_from e = Some (dc_state d) \<and> se_to e = st"

inductive change_step :: "change_store \<Rightarrow> change_store \<Rightarrow> bool" where
  ch_rest: "tables s' = (cs_dcrs s, cs_trail s, cs_claims s, cs_signatures s @ gs, v) \<Longrightarrow> cs_next s \<le> cs_next s' \<Longrightarrow>
     vault_moves (cs_vault s) v \<Longrightarrow> change_step s s'"
| ch_raise: "cs_next s \<le> dc_id d \<Longrightarrow> dc_id d < cs_next s' \<Longrightarrow> dc_state d = DCR_Open \<Longrightarrow>
     se_dcr e = dc_id d \<Longrightarrow> se_from e = None \<Longrightarrow> se_to e = DCR_Open \<Longrightarrow> vault_moves (cs_vault s) v \<Longrightarrow>
     tables s' = (cs_dcrs s @ [d], cs_trail s @ [e], cs_claims s, cs_signatures s, v) \<Longrightarrow> change_step s s'"
| ch_edit: "get_dcr s (dc_id d) = Some d \<Longrightarrow> dc_id d' = dc_id d \<Longrightarrow> dc_state d = DCR_Open \<Longrightarrow> dc_state d' = DCR_Open \<Longrightarrow>
     tables s' = (replace_dcr d' (cs_dcrs s), cs_trail s, cs_claims s, cs_signatures s, cs_vault s) \<Longrightarrow> cs_next s \<le> cs_next s' \<Longrightarrow>
     change_step s s'"
| ch_move: "get_dcr s (dc_id d) = Some d \<Longrightarrow> dc_id d' = dc_id d \<Longrightarrow> dc_type d' = dc_type d \<Longrightarrow>
     dcr_allowed (dc_state d) (dc_state d') \<Longrightarrow> event_of d (dc_state d') e \<Longrightarrow>
     (past_approval (dc_state d) \<longrightarrow> dc_decided_by d' = dc_decided_by d) \<Longrightarrow>
     (dc_state d' = DCR_Approved \<longrightarrow> approves (cs_signatures s @ gs) d' e) \<Longrightarrow>
     (dc_state d' = DCR_Implemented \<and> dc_type d \<noteq> CH_RETIRE \<longrightarrow>
        (\<exists>r \<in> set (versions (cs_vault s)). dc_result d' = Some (ver_id r) \<and> ver_state r = V_Approved
           \<and> \<not> claimed s (ver_id r) \<and> cl = [(ver_id r, dc_id d)])) \<Longrightarrow>
     (dc_state d' \<noteq> DCR_Implemented \<or> dc_type d = CH_RETIRE \<longrightarrow> dc_result d' = dc_result d \<and> cl = []) \<Longrightarrow>
     (dc_state d' = DCR_Closed \<and> dc_type d \<noteq> CH_RETIRE \<longrightarrow>
        (\<exists>i r. dc_result d = Some i \<and> get_version (cs_vault s) i = Some r \<and> ver_state r \<noteq> V_Approved)) \<Longrightarrow>
     vault_moves (cs_vault s) v \<Longrightarrow>
     tables s' = (replace_dcr d' (cs_dcrs s), cs_trail s @ [e], cs_claims s @ cl, cs_signatures s @ gs, v) \<Longrightarrow>
     cs_next s \<le> cs_next s' \<Longrightarrow> change_step s s'"

lemma tables_eq:
  "tables s = (ds, es, cl, gs, v) \<longleftrightarrow>
     cs_dcrs s = ds \<and> cs_trail s = es \<and> cs_claims s = cl \<and> cs_signatures s = gs \<and> cs_vault s = v"
  by (auto simp: tables_def)

subsection \<open>Every transition keeps the invariant\<close>

lemma get_dcr_mem: "get_dcr s i = Some d \<Longrightarrow> d \<in> set (cs_dcrs s) \<and> dc_id d = i"
  unfolding get_dcr_def by (rule find_key_SomeD)

lemma replace_dcr_ids [simp]: "map dc_id (replace_dcr d ds) = map dc_id ds"
  unfolding replace_dcr_def by (rule map_key_put)

lemma replace_dcr_mem: "x \<in> set (replace_dcr d ds) \<Longrightarrow> x = d \<or> x \<in> set ds \<and> dc_id x \<noteq> dc_id d"
  by (auto simp: replace_dcr_def split: if_splits)

lemma history_cong: "cs_trail s' = cs_trail s @ es \<Longrightarrow> \<forall>e \<in> set es. se_dcr e \<noteq> i \<Longrightarrow> history s' i = history s i"
  by (simp add: history_def)

lemma history_move: "cs_trail s' = cs_trail s @ [e] \<Longrightarrow> se_dcr e = i \<Longrightarrow> history s' i = history s i @ [e]"
  by (simp add: history_def)

lemma documented_other:
  "documented s d \<Longrightarrow> cs_trail s' = cs_trail s @ es \<Longrightarrow> \<forall>e \<in> set es. se_dcr e \<noteq> dc_id d \<Longrightarrow> documented s' d"
  by (simp add: documented_def history_cong)

lemma documented_move:
  assumes "documented s d" "dc_id d' = dc_id d" "dcr_allowed (dc_state d) (dc_state d')" "event_of d (dc_state d') e"
    and "cs_trail s' = cs_trail s @ [e]"
  shows "documented s' d'"
proof -
  have "history s' (dc_id d) = history s (dc_id d) @ [e]" using assms(4,5) by (simp add: event_of_def history_move)
  with assms(1-4) show ?thesis by (simp add: documented_def event_of_def legal_trail_append)
qed

lemma approves_mono: "approves gs d e \<Longrightarrow> approves (gs @ hs) d e"
  by (auto simp: approves_def)

lemma approved_by_mono:
  "approved_by s d \<Longrightarrow> prefix (cs_trail s) (cs_trail s') \<Longrightarrow> prefix (cs_signatures s) (cs_signatures s') \<Longrightarrow> approved_by s' d"
  unfolding approved_by_def prefix_def using approves_mono by fastforce

lemma carried_out_mono: "carried_out s d \<Longrightarrow> prefix (cs_claims s) (cs_claims s') \<Longrightarrow> carried_out s' d"
  by (auto simp: carried_out_def prefix_def map_add_Some_iff)

lemma claim_new: "\<not> claimed s v \<Longrightarrow> map_of (cs_claims s @ [(v, i)]) v = Some i"
  by (simp add: claimed_def map_add_def map_of_eq_None_iff [THEN iffD2])

lemma vault_moves_refl [simp]: "vault_moves v v"
  by (simp add: vault_moves_def evolves_frame)

lemma change_step_vault: "change_step s s' \<Longrightarrow> vault_moves (cs_vault s) (cs_vault s')"
  by (induction rule: change_step.induct) (auto simp: tables_eq)

lemma change_step_logs: "change_step s s' \<Longrightarrow> prefix (cs_trail s) (cs_trail s') \<and> prefix (cs_signatures s) (cs_signatures s')
     \<and> prefix (cs_claims s) (cs_claims s') \<and> cs_next s \<le> cs_next s'"
  by (induction rule: change_step.induct) (auto simp: tables_eq)

lemma change_step_evolves: "change_step s s' \<Longrightarrow> change_inv s \<Longrightarrow> change_evolves s s'"
  using change_step_logs [of s s'] change_step_vault [of s s'] by (simp add: change_inv_def vault_moves_def change_evolves_def)

lemma approved_path: "version_move\<^sup>*\<^sup>* V_Approved st \<Longrightarrow> st = V_Approved \<or> was_released st"
proof (induction rule: rtranclp_induct)
  case (step y z)
  then show ?case by (cases y) (auto simp: was_released_def)
qed simp

lemma released_stays: "version_move\<^sup>*\<^sup>* a b \<Longrightarrow> was_released a \<Longrightarrow> was_released b"
proof (induction rule: rtranclp_induct)
  case (step y z)
  then show ?case by (cases y) (auto simp: was_released_def)
qed simp

lemma took_effect_mono:
  assumes "took_effect v d r" "evolves v w" shows "\<exists>y. took_effect w d y \<and> ver_id y = ver_id r"
proof -
  obtain old new where o: "versions w = old @ new" "list_all2 (row_follows w) (versions v) old"
    and s: "prefix (signatures v) (signatures w)" using assms(2) unfolding evolves_def by blast
  have r: "r \<in> set (versions v)" using assms(1) by (simp add: took_effect_def)
  obtain y where y: "y \<in> set old" "row_follows w r y" using list_all2_in_set [OF o(2) r] by blast
  have c: "version_content y = version_content r" "version_move\<^sup>*\<^sup>* (ver_state r) (ver_state y)"
    and g: "was_released (ver_state y) \<longrightarrow> was_released (ver_state r) \<or> release_signed w y"
    using y(2) by (simp_all add: row_follows_def)
  have i: "ver_id y = ver_id r" using c(1) by (simp add: version_content_def)
  have p: "version_move\<^sup>*\<^sup>* V_Approved (ver_state y)"
    using assms(1) c(2) by (auto simp: took_effect_def)
  have "was_released (ver_state y)" if "was_released (ver_state r)"
    using released_stays [OF c(2) that] .
  moreover have "release_signed w y" if "was_released (ver_state r)"
    using that assms(1) release_signed_mono [OF _ s c(1)] by (auto simp: took_effect_def)
  ultimately show ?thesis using assms(1) y(1) o(1) i p g by (auto simp: took_effect_def)
qed

lemma change_evolves_keeps:
  assumes "change_evolves s s'" "approved_by s d" "carried_out s d" "effects s d"
  shows "approved_by s' d \<and> carried_out s' d \<and> effects s' d"
  using assms approved_by_mono carried_out_mono took_effect_mono unfolding change_evolves_def effects_def by meson

lemma ch_frame_inv:
  assumes i: "change_inv s" and c: "change_evolves s s'" and v: "vault_inv (cs_vault s')"
    and ds: "cs_dcrs s' = cs_dcrs s" and es: "cs_trail s' = cs_trail s"
  shows "change_inv s'"
  unfolding change_inv_def
proof (intro conjI ballI)
  have n: "cs_next s \<le> cs_next s'" using c by (simp add: change_evolves_def)
  show "dc_id d < cs_next s'" if "d \<in> set (cs_dcrs s')" for d
    using that i n ds unfolding change_inv_def by (metis order_less_le_trans)
  show "se_dcr e < cs_next s'" if "e \<in> set (cs_trail s')" for e
    using that i n es unfolding change_inv_def by (metis order_less_le_trans)
  fix d assume "d \<in> set (cs_dcrs s')"
  then have d: "documented s d" "approved_by s d" "carried_out s d" "effects s d" using i ds by (auto simp: change_inv_def)
  show "documented s' d" using d(1) es by (simp add: documented_def history_def)
  show "approved_by s' d" "carried_out s' d" "effects s' d" using change_evolves_keeps [OF c d(2-4)] by auto
qed (use i ds v in \<open>simp_all add: change_inv_def\<close>)

lemma ch_put_inv:
  assumes i: "change_inv s" and c: "change_evolves s s'" and v: "vault_inv (cs_vault s')"
    and d: "get_dcr s (dc_id d') = Some d" and ds: "cs_dcrs s' = replace_dcr d' (cs_dcrs s)"
    and es: "cs_trail s' = cs_trail s @ es" "\<forall>e \<in> set es. se_dcr e = dc_id d'"
    and ok: "documented s' d'" "approved_by s' d'" "carried_out s' d'" "effects s' d'"
  shows "change_inv s'"
  unfolding change_inv_def
proof (intro conjI ballI)
  have n: "cs_next s \<le> cs_next s'" using c by (simp add: change_evolves_def)
  have m: "d \<in> set (cs_dcrs s)" "dc_id d = dc_id d'" using get_dcr_mem [OF d] by auto
  show "distinct (map dc_id (cs_dcrs s'))" using i ds by (simp add: change_inv_def)
  show "dc_id x < cs_next s'" if "x \<in> set (cs_dcrs s')" for x
    using replace_dcr_mem that m i n ds unfolding change_inv_def by (metis order_less_le_trans)
  show "se_dcr e < cs_next s'" if "e \<in> set (cs_trail s')" for e
    using that es m i n unfolding change_inv_def by (metis Un_iff order_less_le_trans set_append)
  fix x assume "x \<in> set (cs_dcrs s')"
  then consider "x = d'" | "x \<in> set (cs_dcrs s)" "dc_id x \<noteq> dc_id d'" using replace_dcr_mem ds by metis
  then have "documented s' x \<and> approved_by s' x \<and> carried_out s' x \<and> effects s' x"
  proof cases
    case 2
    then have "documented s x" "approved_by s x" "carried_out s x" "effects s x" using i by (auto simp: change_inv_def)
    then show "documented s' x \<and> approved_by s' x \<and> carried_out s' x \<and> effects s' x"
      using change_evolves_keeps [OF c] documented_other [OF _ es(1)] es(2) 2(2) by metis
  qed (use ok in simp)
  then show "documented s' x" "approved_by s' x" "carried_out s' x" "effects s' x" by simp_all
qed (rule v)

lemma effects_move:
  assumes "vault_inv (cs_vault s)" "effects s d" "evolves (cs_vault s) (cs_vault s')" "dc_type d' = dc_type d"
    and "dcr_allowed (dc_state d) (dc_state d')"
    and imp: "dc_state d' = DCR_Implemented \<and> dc_type d \<noteq> CH_RETIRE \<Longrightarrow>
      \<exists>r \<in> set (versions (cs_vault s)). dc_result d' = Some (ver_id r) \<and> ver_state r = V_Approved"
    and rest: "dc_state d' \<noteq> DCR_Implemented \<Longrightarrow> dc_result d' = dc_result d"
    and closed: "dc_state d' = DCR_Closed \<and> dc_type d \<noteq> CH_RETIRE \<Longrightarrow>
      \<exists>i r. dc_result d = Some i \<and> get_version (cs_vault s) i = Some r \<and> ver_state r \<noteq> V_Approved"
  shows "effects s' d'"
  unfolding effects_def assms(4)
proof (intro impI, elim conjE)
  assume a: "dc_state d' \<in> {DCR_Implemented, DCR_Closed}" and t: "dc_type d \<noteq> CH_RETIRE"
  have "\<exists>r. took_effect (cs_vault s) d' r"
  proof (cases "dc_state d' = DCR_Implemented")
    case True
    then obtain r where "r \<in> set (versions (cs_vault s))" "dc_result d' = Some (ver_id r)" "ver_state r = V_Approved"
      using imp t by blast
    then show ?thesis using True by (auto simp: took_effect_def was_released_def)
  next
    case False
    then have c: "dc_state d' = DCR_Closed" using a by simp
    then have "dc_state d = DCR_Implemented" using assms(5) by (cases "dc_state d") (auto simp: dcr_allowed_def)
    then obtain x where x: "took_effect (cs_vault s) d x" using assms(2) t by (auto simp: effects_def)
    obtain i r where r: "dc_result d = Some i" "get_version (cs_vault s) i = Some r" "ver_state r \<noteq> V_Approved"
      using closed c t by blast
    have "get_version (cs_vault s) i = Some x"
      using x r(1) get_version_Some [OF assms(1)] by (auto simp: took_effect_def)
    then have "ver_state x \<noteq> V_Approved" using r(2,3) by simp
    then have "was_released (ver_state x)" using x approved_path [of "ver_state x"] by (auto simp: took_effect_def)
    then show ?thesis using x rest [OF False] by (auto simp: took_effect_def)
  qed
  then show "\<exists>r. took_effect (cs_vault s') d' r" using took_effect_mono [OF _ assms(3)] by blast
qed

lemma change_step_inv: "change_step s s' \<Longrightarrow> change_inv s \<Longrightarrow> change_inv s'"
proof -
  assume step: "change_step s s'" and i: "change_inv s"
  note c = change_step_evolves [OF step i]
  have vi: "vault_inv (cs_vault s)" and v: "vault_inv (cs_vault s')"
    using change_step_vault [OF step] i by (auto simp: change_inv_def vault_moves_def)
  have ev: "evolves (cs_vault s) (cs_vault s')" using c by (simp add: change_evolves_def)
  from step show "change_inv s'"
  proof cases
    case (ch_rest gs w)
    then show ?thesis by (intro ch_frame_inv [OF i c v]) (simp_all add: tables_eq)
  next
    case (ch_raise d e w)
    have h: "history s' (dc_id d) = [e]"
      using i ch_raise by (auto simp: history_def tables_eq change_inv_def filter_empty_conv)
    have old: "documented s' x \<and> approved_by s' x \<and> carried_out s' x \<and> effects s' x" if "x \<in> set (cs_dcrs s)" for x
    proof -
      have x: "documented s x" "approved_by s x" "carried_out s x" "effects s x" "dc_id x < cs_next s"
        using i that by (auto simp: change_inv_def)
      have "documented s' x" by (rule documented_other [OF x(1), of _ "[e]"]) (use ch_raise x(5) in \<open>auto simp: tables_eq\<close>)
      then show ?thesis using change_evolves_keeps [OF c x(2-4)] by simp
    qed
    have n: "documented s' d \<and> approved_by s' d \<and> carried_out s' d \<and> effects s' d"
      using h ch_raise by (simp add: documented_def approved_by_def carried_out_def effects_def past_approval_def)
    show ?thesis using i old n v ch_raise unfolding change_inv_def tables_eq by (elim conjE, simp) force
  next
    case (ch_edit d d')
    have dd: "get_dcr s (dc_id d') = Some d" using ch_edit by simp
    have x: "documented s d" using i get_dcr_mem [OF dd] by (auto simp: change_inv_def)
    show ?thesis
    proof (rule ch_put_inv [OF i c v dd, of "[]"])
      show "documented s' d'" using x ch_edit by (simp add: documented_def history_def tables_eq)
    qed (use ch_edit in \<open>auto simp: tables_eq approved_by_def carried_out_def effects_def past_approval_def\<close>)
  next
    case (ch_move d d' e gs cl w)
    have dd: "get_dcr s (dc_id d') = Some d" using ch_move by simp
    have x: "documented s d" "approved_by s d" "carried_out s d" "effects s d"
      using i get_dcr_mem [OF dd] by (auto simp: change_inv_def)
    note k = change_evolves_keeps [OF c x(2-4)]
    show ?thesis
    proof (rule ch_put_inv [OF i c v dd, of "[e]"])
      show "documented s' d'" by (rule documented_move [OF x(1)]) (use ch_move in \<open>simp_all add: tables_eq\<close>)
      show "effects s' d'" by (rule effects_move [OF vi x(4) ev]) (use ch_move in blast)+
      show "approved_by s' d'"
      proof (cases "past_approval (dc_state d)")
        case True
        then show ?thesis using k ch_move by (auto simp: approved_by_def approves_def)
      next
        case False
        have "dc_state d' = DCR_Approved" if "past_approval (dc_state d')"
          using that False ch_move(4) by (cases "dc_state d") (auto simp: past_approval_def dcr_allowed_def)
        then show ?thesis using ch_move by (auto simp: approved_by_def tables_eq)
      qed
      show "carried_out s' d'"
      proof (cases "dc_state d' = DCR_Implemented \<and> dc_type d \<noteq> CH_RETIRE")
        case True
        then obtain v where v: "dc_result d' = Some v" "\<not> claimed s v" "cl = [(v, dc_id d)]" using ch_move by blast
        then show ?thesis using claim_new [OF v(2)] ch_move by (auto simp: carried_out_def tables_eq)
      next
        case False
        have "dc_state d = DCR_Implemented" if "dc_state d' = DCR_Closed"
          using that ch_move(4) by (cases "dc_state d") (auto simp: dcr_allowed_def)
        then show ?thesis using k False ch_move by (auto simp: carried_out_def tables_eq)
      qed
    qed (use ch_move in \<open>simp_all add: tables_eq event_of_def\<close>)
  qed
qed

interpretation requests: evolving change_step change_inv change_evolves
proof unfold_locales
  show "change_evolves s u" if "change_evolves s t" "change_evolves t u" for s t u
    using that evolves_trans unfolding change_evolves_def by (meson prefix_order.trans order_trans)
qed (simp_all add: change_step_inv change_step_evolves, simp add: change_evolves_def)


subsection \<open>Every operation is a run of transitions\<close>

abbreviation change_run :: "change_store \<Rightarrow> change_store \<Rightarrow> bool" where
  "change_run \<equiv> change_step\<^sup>*\<^sup>*"

lemma load_dcr_Inr [simp]: "load_dcr s i = Inr d \<longleftrightarrow> get_dcr s i = Some d"
  by (simp add: load_dcr_def split: option.splits)

lemma allocate_moves: "allocate_seq org t ar v = (w, n) \<Longrightarrow> vault_moves v w"
  using vault_inv_cong [of w v] by (auto simp: allocate_seq_def Let_def vault_moves_def intro!: evolves_frame)

lemma vault_step_moves: "vault_step E v w \<Longrightarrow> vault_moves v w"
  using vault_step_inv vault_step_accounted by (simp add: vault_moves_def accounted_def)

lemma put_date_inv:
  assumes v: "vault_inv v" and r: "r \<in> set (versions v)"
  shows "vault_inv (put_version (r\<lparr>ver_effective_from := t\<rparr>) v)"
proof -
  let ?r = "r\<lparr>ver_effective_from := t\<rparr>"
  let ?w = "put_version ?r v"
  define f where "f = (\<lambda>x. if ver_id x = ver_id r then ?r else x)"
  have f: "ver_id (f x) = ver_id x \<and> ver_doc (f x) = ver_doc x \<and> ver_seq (f x) = ver_seq x \<and> ver_state (f x) = ver_state x"
    if "x \<in> set (versions v)" for x
  proof (cases "ver_id x = ver_id r")
    case True
    then have "x = r" using v r that by (auto simp: vault_inv_def distinct_map dest: inj_onD)
    then show ?thesis by (simp add: f_def)
  qed (simp add: f_def)
  have w: "versions ?w = map f (versions v)" by (simp add: put_version_def f_def)
  have dv: "doc_versions ?w i = map f (doc_versions v i)" for i
  proof -
    have "filter (\<lambda>x. ver_doc x = i) (map f xs) = map f (filter (\<lambda>x. ver_doc x = i) xs)" if "set xs \<subseteq> set (versions v)" for xs
      using that f by (induction xs) auto
    then show ?thesis by (simp add: doc_versions_def w)
  qed
  have fd: "x \<in> set (versions v)" if "x \<in> set (doc_versions v i)" for x i using that by (simp add: doc_versions_def)
  have sq: "map ver_seq (doc_versions ?w i) = map ver_seq (doc_versions v i)" for i
    using f fd by (simp add: dv)
  have ok: "doc_ok d (doc_versions ?w i) \<longleftrightarrow> doc_ok d (doc_versions v i)" for d i
  proof -
    let ?xs = "doc_versions v i"
    have "effective_ids (map f xs) = effective_ids xs" if "set xs \<subseteq> set ?xs" for xs
      using that f fd by (induction xs) (auto simp: effective_ids_def)
    moreover have "last_state (map f ?xs) = last_state ?xs"
    proof (cases ?xs rule: rev_cases)
      case (snoc ys y)
      then have "y \<in> set (versions v)" by (intro fd [of _ i]) simp
      then show ?thesis using snoc f by (simp add: last_state_def)
    qed (simp add: last_state_def)
    moreover have "(\<forall>x \<in> set (butlast (map f ?xs)). ver_state x \<notin> {V_InReview, V_Approved}) \<longleftrightarrow>
        (\<forall>x \<in> set (butlast ?xs). ver_state x \<notin> {V_InReview, V_Approved})"
    proof -
      have "ver_state (f x) = ver_state x" if "x \<in> set (butlast ?xs)" for x
        using f fd [of x i] in_set_butlastD [OF that] by simp
      then show ?thesis by (simp add: map_butlast [symmetric])
    qed
    ultimately show ?thesis by (simp add: doc_ok_def dv)
  qed
  have "\<forall>x \<in> set (versions ?w). ver_doc x \<in> doc_id ` set (docs v)" using w f vault_invD(3) [OF v] by auto
  then show ?thesis
    unfolding vault_inv_def using sq ok vault_invD(1,2,4,5) [OF v] by simp
qed

lemma get_dcr_id: "get_dcr s i = Some d \<Longrightarrow> dc_id d = i"
  by (simp add: get_dcr_mem)

lemma put_dcr_tables: "tables (put_dcr d s) = (replace_dcr d (cs_dcrs s), cs_trail s, cs_claims s, cs_signatures s, cs_vault s)"
  by (simp add: tables_def put_dcr_def replace_dcr_def)

lemma log_stage_tables: "tables (log_stage e s) = (cs_dcrs s, cs_trail s @ [e], cs_claims s, cs_signatures s, cs_vault s)"
  by (simp add: tables_def log_stage_def)

lemma emit_dcr_tables [simp]: "tables (emit_dcr actor ev i old new s) = tables s" "cs_next (emit_dcr actor ev i old new s) = cs_next s"
  by (simp_all add: tables_def emit_dcr_def)

lemma put_dcr_flow_tables [simp]: "tables (put_dcr_flow k w s) = tables s" "cs_next (put_dcr_flow k w s) = cs_next s"
  by (simp_all add: tables_def put_dcr_flow_def)

lemma cs_next_simps [simp]: "cs_next (put_dcr d s) = cs_next s" "cs_next (log_stage e s) = cs_next s"
  by (simp_all add: put_dcr_def log_stage_def)

lemma get_dcr_tables: "tables s' = tables s \<Longrightarrow> get_dcr s' i = get_dcr s i"
  by (simp add: tables_def get_dcr_def)

lemma move_dcr_state:
  "tables (move_dcr actor d st c g p ex s) =
     (replace_dcr (d\<lparr>dc_state := st\<rparr>) (cs_dcrs s),
      cs_trail s @ [\<lparr>se_dcr = dc_id d, se_from = Some (dc_state d), se_to = st, se_by = user_id actor, se_comment = c,
        se_signed = g, se_payload = p\<rparr>], cs_claims s, cs_signatures s, cs_vault s)"
  "cs_next (move_dcr actor d st c g p ex s) = cs_next s"
  by (simp_all add: move_dcr_def put_dcr_tables) (simp_all add: log_stage_def)

lemma unsigned_move:
  assumes "get_dcr s i = Some d" "dcr_allowed (dc_state d) st" "st \<notin> {DCR_Approved, DCR_Implemented, DCR_Closed}"
  shows "change_step s (move_dcr actor d st c None p ex s)"
  by (rule ch_move [of s d "d\<lparr>dc_state := st\<rparr>" _ "[]" "[]" "cs_vault s"])
    (use assms in \<open>simp_all add: move_dcr_state event_of_def get_dcr_id\<close>)

lemma step_same: "tables s' = tables s \<Longrightarrow> cs_next s \<le> cs_next s' \<Longrightarrow> change_step s s'"
  by (rule ch_rest [of s' s "[]" "cs_vault s"]) (simp_all add: tables_def)

lemma two_steps: "change_step s t \<Longrightarrow> change_step t u \<Longrightarrow> change_run s u"
  by (rule converse_rtranclp_into_rtranclp [OF _ r_into_rtranclp])

lemma raise_dcr_run: "raise_dcr E actor now c s = Inr (s', d) \<Longrightarrow> change_run s s'"
proof -
  assume r: "raise_dcr E actor now c s = Inr (s', d)"
  obtain v n where a: "allocate_seq (user_org actor) ''DCR'' (year_str now) (cs_vault s) = (v, n)" by (metis surj_pair)
  have v: "vault_moves (cs_vault s) v" using a by (rule allocate_moves)
  show ?thesis
  proof (rule r_into_rtranclp, rule ch_raise [OF _ _ _ _ _ _ v])
    show "tables s' = (cs_dcrs s @ [d], cs_trail s @ [\<lparr>se_dcr = cs_next s, se_from = None, se_to = DCR_Open, se_by = user_id actor,
       se_comment = None, se_signed = None, se_payload = Some [(''change_type'', JStr (change_value (di_type c))),
       (''change_significance'', JStr (significance_value (di_significance c))),
       (''reason_class'', JStr (reason_value (di_class c)))]\<rparr>], cs_claims s, cs_signatures s, v)"
      using r by (auto simp: raise_dcr_def a Let_def log_stage_tables)
  qed (use r in \<open>auto simp: raise_dcr_def a Let_def\<close>)
qed

lemma raise_dcr_from_capa_run: "raise_dcr_from_capa E actor now row c s = Inr (s', d, b) \<Longrightarrow> change_run s s'"
  by (auto simp: raise_dcr_from_capa_def split: option.splits dest: raise_dcr_run)

lemma patch_dcr_run: "patch_dcr actor i p s = Inr (s', d') \<Longrightarrow> change_run s s'"
proof -
  assume r: "patch_dcr actor i p s = Inr (s', d')"
  then obtain d where d: "get_dcr s i = Some d" "dc_state d = DCR_Open" "d' = patched p d"
    and s: "tables s' = tables (put_dcr d' s)" "cs_next s' = cs_next s"
    by (auto simp: patch_dcr_def Let_def split: if_splits)
  show ?thesis
    by (rule r_into_rtranclp, rule ch_edit [of s d d'])
      (use d s in \<open>simp_all add: put_dcr_tables patched_def get_dcr_id\<close>)
qed

lemma cancel_dcr_run: "cancel_dcr actor i c s = Inr s' \<Longrightarrow> change_run s s'"
  by (auto simp: cancel_dcr_def intro!: unsigned_move)

lemma close_dcr_run: "close_dcr actor i s = Inr s' \<Longrightarrow> change_run s s'"
proof -
  assume "close_dcr actor i s = Inr s'"
  then obtain d where d: "get_dcr s i = Some d" "dcr_allowed (dc_state d) DCR_Closed" "assert_change_effective d s = Inr ()"
    and s': "s' = move_dcr actor d DCR_Closed None None None [] s"
    by (auto simp: close_dcr_def)
  have e: "\<exists>v r. dc_result d = Some v \<and> get_version (cs_vault s) v = Some r \<and> ver_state r \<noteq> V_Approved" if "dc_type d \<noteq> CH_RETIRE"
    using d(3) that by (auto simp: assert_change_effective_def split: option.splits)
  show ?thesis
    by (rule r_into_rtranclp, rule ch_move [of s d "d\<lparr>dc_state := DCR_Closed\<rparr>" _ "[]" "[]" "cs_vault s"])
      (use d e in \<open>simp_all add: s' move_dcr_state event_of_def get_dcr_id\<close>)
qed

lemma assess_dcr_run: "assess_dcr E actor i s = Inr s' \<Longrightarrow> change_run s s'"
proof -
  assume r: "assess_dcr E actor i s = Inr s'"
  then obtain d rows where d: "get_dcr s i = Some d" "dcr_allowed (dc_state d) DCR_Assessed"
    and s: "s' = move_dcr actor d DCR_Assessed None None None [] (upsert_impact i rows s)"
    by (auto simp: assess_dcr_def Let_def)
  let ?t = "upsert_impact i rows s"
  have t: "tables ?t = tables s" "cs_next ?t = cs_next s" by (simp_all add: tables_def upsert_impact_def)
  have "change_step s ?t" using step_same t by simp
  moreover have "change_step ?t s'"
    unfolding s by (rule unsigned_move) (use d get_dcr_tables [OF t(1)] in simp_all)
  ultimately show ?thesis by (rule two_steps)
qed

lemma annotate_impact_run: "annotate_impact actor i notes s = Inr s' \<Longrightarrow> change_run s s'"
proof -
  assume r: "annotate_impact actor i notes s = Inr s'"
  then have "tables s' = tables s" "cs_next s' = cs_next s"
    by (auto simp: annotate_impact_def Let_def tables_def emit_dcr_def)
  then show ?thesis using step_same by (simp add: r_into_rtranclp)
qed

lemma find_replace: "dc_id d' = i \<Longrightarrow> i \<in> dc_id ` set ds \<Longrightarrow> find (\<lambda>d. dc_id d = i) (replace_dcr d' ds) = Some d'"
  by (induction ds) (auto simp: replace_dcr_def)

lemma get_dcr_put: "get_dcr s i = Some d \<Longrightarrow> dc_id d' = i \<Longrightarrow> cs_dcrs t = replace_dcr d' (cs_dcrs s) \<Longrightarrow> get_dcr t i = Some d'"
  using get_dcr_mem [of s i d] find_replace [of d' i "cs_dcrs s"] unfolding get_dcr_def by (metis imageI)

lemma replace_dcr_twice: "dc_id a = dc_id b \<Longrightarrow> replace_dcr b (replace_dcr a ds) = replace_dcr b ds"
  by (simp add: replace_dcr_def)

lemma route_dcr_run: "route_dcr E actor i s = Inr (s', k) \<Longrightarrow> change_run s s'"
proof -
  assume r: "route_dcr E actor i s = Inr (s', k)"
  then obtain d w where d: "get_dcr s i = Some d" "dcr_allowed (dc_state d) DCR_Routed" and k: "k = cs_next s"
    and s': "s' = emit_dcr actor ''DCR_TRANSITIONED'' i (Some [dcr_item (dc_state d)])
       (Some [dcr_item DCR_InApproval, (''workflow_instance_id'', JStr (id_str k))])
       (put_dcr (d\<lparr>dc_state := DCR_InApproval\<rparr>)
         (log_stage \<lparr>se_dcr = i, se_from = Some DCR_Routed, se_to = DCR_InApproval, se_by = user_id actor, se_comment = None,
            se_signed = None, se_payload = Some [(''workflow_instance_id'', JStr (id_str k))]\<rparr>
         (log_stage \<lparr>se_dcr = i, se_from = Some (dc_state d), se_to = DCR_Routed, se_by = user_id actor, se_comment = None,
            se_signed = None, se_payload = None\<rparr> (s\<lparr>cs_next := k + 1, cs_flows := cs_flows s @ [(k, i, w)]\<rparr>))))"
    by (auto simp: route_dcr_def Let_def)
  let ?d = "d\<lparr>dc_state := DCR_Routed\<rparr>"
  let ?e = "\<lparr>se_dcr = i, se_from = Some (dc_state d), se_to = DCR_Routed, se_by = user_id actor, se_comment = None,
       se_signed = None, se_payload = None\<rparr>"
  define t where "t = put_dcr ?d (log_stage ?e (s\<lparr>cs_next := k + 1\<rparr>))"
  have t: "tables t = (replace_dcr ?d (cs_dcrs s), cs_trail s @ [?e], cs_claims s, cs_signatures s, cs_vault s)" "cs_next t = k + 1"
    by (simp_all add: t_def put_dcr_tables) (simp_all add: log_stage_def)
  have i: "dc_id d = i" using d(1) by (rule get_dcr_id)
  have g: "get_dcr t i = Some ?d" by (rule get_dcr_put [OF d(1)]) (use t i in \<open>simp_all add: tables_eq\<close>)
  have "change_step s t"
    by (rule ch_move [of s d ?d ?e "[]" "[]" "cs_vault s"]) (use d i t k in \<open>simp_all add: event_of_def\<close>)
  moreover have "change_step t s'"
    by (rule ch_move [of t ?d "d\<lparr>dc_state := DCR_InApproval\<rparr>" "\<lparr>se_dcr = i, se_from = Some DCR_Routed, se_to = DCR_InApproval,
          se_by = user_id actor, se_comment = None, se_signed = None,
          se_payload = Some [(''workflow_instance_id'', JStr (id_str k))]\<rparr>" "[]" "[]" "cs_vault s"])
      (use g i t in \<open>simp_all add: event_of_def dcr_allowed_def past_approval_def s' put_dcr_tables tables_eq replace_dcr_twice,
         simp_all add: log_stage_def\<close>)
  ultimately show ?thesis by (rule two_steps)
qed

lemma approve_step_run:
  assumes d: "get_dcr s (dc_id d) = Some d" "dc_state d = DCR_InApproval" and r: "approve_step E actor now d t k fin s = (s', g)"
  shows "change_run s s'"
proof -
  define x where "x = \<lparr>qs_id = cs_next s, qs_object = dc_id d, qs_meaning = ''approval'', qs_signer = user_id actor,
      qs_digest = Capa.content_digest (ce_hash E) (approval_block actor d t k)\<rparr>"
  define s1 where "s1 = s\<lparr>cs_next := cs_next s + 1, cs_signatures := cs_signatures s @ [x]\<rparr>"
  have g: "g = cs_next s" using r by (auto simp: approve_step_def sign_approval_def)
  have s1: "tables s1 = (cs_dcrs s, cs_trail s, cs_claims s, cs_signatures s @ [x], cs_vault s)" "cs_next s1 = cs_next s + 1"
    by (simp_all add: s1_def tables_def)
  show ?thesis
  proof (cases fin)
    case True
    then have s': "s' = move_dcr actor (decided actor now ''approved'' d) DCR_Approved None (Some g)
        (Some [(''workflow_instance_id'', JStr (id_str k))]) [(''signed_event_id'', JStr (id_str g))] s1"
      using r by (auto simp: approve_step_def sign_approval_def s1_def x_def)
    show ?thesis
      by (rule r_into_rtranclp, rule ch_move [of s d "(decided actor now ''approved'' d)\<lparr>dc_state := DCR_Approved\<rparr>" _ "[x]" "[]" "cs_vault s"])
        (use d s1 in \<open>simp_all add: s' move_dcr_state tables_eq event_of_def decided_def dcr_allowed_def past_approval_def approves_def g x_def\<close>)
  next
    case False
    then have "s' = s1" using r by (auto simp: approve_step_def sign_approval_def s1_def x_def)
    then show ?thesis using s1 by (intro r_into_rtranclp ch_rest [of s' s "[x]" "cs_vault s"]) simp_all
  qed
qed

lemma refused_move:
  assumes "get_dcr s (dc_id d) = Some d" "dc_state d = DCR_InApproval" "st \<in> {DCR_Rejected, DCR_Open}"
  shows "change_step s (move_dcr actor (decided actor now outcome d) st comment None None [] s)"
  by (rule ch_move [of s d "(decided actor now outcome d)\<lparr>dc_state := st\<rparr>" _ "[]" "[]" "cs_vault s"])
    (use assms in \<open>auto simp: move_dcr_state event_of_def decided_def dcr_allowed_def past_approval_def\<close>)

lemma refuse_step_run:
  assumes d: "get_dcr s (dc_id d) = Some d" "dc_state d = DCR_InApproval"
  shows "change_run s (refuse_step actor now d outcome comment k w s)"
proof -
  let ?t = "put_dcr_flow k (stop_flow w) s"
  have g: "get_dcr ?t (dc_id d) = Some d" using get_dcr_tables [OF put_dcr_flow_tables(1)] d(1) by simp
  have "change_step s ?t" by (rule step_same) simp_all
  moreover have "change_step ?t (refuse_step actor now d outcome comment k w s)"
    unfolding refuse_step_def using g d(2) by (intro refused_move) simp_all
  ultimately show ?thesis by (rule two_steps)
qed

lemma decide_dcr_approval_run: "decide_dcr_approval E actor now k n outcome comment key s = Inr (s', r, x) \<Longrightarrow> change_run s s'"
proof -
  assume a: "decide_dcr_approval E actor now k n outcome comment key s = Inr (s', r, x)"
  obtain i w where w: "get_dcr_flow s k = Some (i, w)"
    using a by (cases "get_dcr_flow s k") (auto simp: decide_dcr_approval_def)
  obtain t where t: "get_task w n = Some t" using a w by (cases "get_task w n") (auto simp: decide_dcr_approval_def)
  obtain w' r' where w': "wf_decide (ce_flow E) (user_id actor) n outcome comment key w = Inr (w', r')"
    using a w t by (auto simp: decide_dcr_approval_def)
  let ?s = "put_dcr_flow k w' s"
  have 1: "change_run s ?s" by (intro r_into_rtranclp step_same) simp_all
  have "change_run ?s s'"
  proof (cases "rs_replayed r'")
    case True
    then show ?thesis using a w t w' by (auto simp: decide_dcr_approval_def Let_def)
  next
    case False
    then obtain d where d: "get_dcr ?s i = Some d" "dc_state d = DCR_InApproval"
      using a w t w' by (auto simp: decide_dcr_approval_def Let_def)
    have d': "get_dcr ?s (dc_id d) = Some d" using d(1) get_dcr_id [OF d(1)] by simp
    show ?thesis
    proof (cases "outcome = ''approve''")
      case True
      obtain u g where u: "approve_step E actor now d t k (rs_current r' = completed) ?s = (u, g)" by (metis surj_pair)
      have "u = s'" using a w t w' False True d u by (auto simp: decide_dcr_approval_def Let_def)
      then show ?thesis using approve_step_run [OF d' d(2) u] by simp
    next
      case neg: False
      have "s' = refuse_step actor now d outcome comment k w' ?s"
        using a w t w' False neg d by (auto simp: decide_dcr_approval_def Let_def)
      then show ?thesis using refuse_step_run [OF d' d(2)] by simp
    qed
  qed
  with 1 show ?thesis by (rule rtranclp_trans)
qed

lemma implement_move:
  assumes d: "get_dcr s (dc_id d) = Some d" "dcr_allowed (dc_state d) DCR_Implemented"
    and t: "cs_dcrs t = cs_dcrs s" "cs_trail t = cs_trail s" "cs_signatures t = cs_signatures s" "cs_next t = cs_next s"
      "vault_moves (cs_vault s) (cs_vault t)"
    and c: "cs_claims t = cs_claims s @ cl" "dc_type d = CH_RETIRE \<and> res = dc_result d \<and> cl = [] \<or>
        dc_type d \<noteq> CH_RETIRE \<and> (\<exists>r \<in> set (versions (cs_vault s)). res = Some (ver_id r) \<and> ver_state r = V_Approved
          \<and> \<not> claimed s (ver_id r) \<and> cl = [(ver_id r, dc_id d)])"
  shows "change_run s (append_implemented actor (d\<lparr>dc_result := res\<rparr>) ver t)"
proof -
  let ?u = "append_implemented actor (d\<lparr>dc_result := res\<rparr>) ver t"
  let ?d = "d\<lparr>dc_result := res, dc_state := DCR_Implemented\<rparr>"
  let ?e = "\<lparr>se_dcr = dc_id d, se_from = Some (dc_state d), se_to = DCR_Implemented, se_by = user_id actor, se_comment = None,
       se_signed = None, se_payload = Some [(''change_type'', JStr (change_value (dc_type d))),
         (''resulting_version_id'', opt_json (map_option uuid_str ver))]\<rparr>"
  have T: "tables ?u = (replace_dcr ?d (cs_dcrs s), cs_trail s @ [?e], cs_claims s @ cl, cs_signatures s, cs_vault t)"
    "cs_next ?u = cs_next s"
    using t c(1) by (simp_all add: append_implemented_def Let_def move_dcr_state)
  show ?thesis
    by (rule r_into_rtranclp, rule ch_move [of s d ?d ?e "[]" cl "cs_vault t"]) (use d t c T in \<open>auto simp: event_of_def\<close>)
qed

lemma head_case_mem: "(case xs of [] \<Rightarrow> None | x # _ \<Rightarrow> Some x) = Some r \<Longrightarrow> r \<in> set xs"
  by (cases xs) simp_all

lemma resolved_version:
  assumes "resolve_implement_version E actor d chosen s = Inr r"
  shows "\<not> claimed s (ver_id r)" "r \<in> set (versions (cs_vault s))" "ver_state r = V_Approved"
proof -
  have a: "r \<in> set (versions (cs_vault s)) \<and> ver_state r = V_Approved" if "approved_version (cs_vault s) i = Some r" for i
  proof -
    have "r \<in> set (filter (\<lambda>x. ver_state x = V_Approved) (doc_versions (cs_vault s) i))"
      using head_case_mem [OF that [unfolded approved_version_def]] by simp
    then show ?thesis by (simp add: doc_versions_def)
  qed
  have g: "r \<in> set (versions (cs_vault s))" if "get_version (cs_vault s) i = Some r" for i
    using that by (auto simp: get_version_def dest: find_key_SomeD)
  show "\<not> claimed s (ver_id r)" "r \<in> set (versions (cs_vault s))" "ver_state r = V_Approved"
    using assms a g unfolding resolve_implement_version_def by (auto split: if_splits option.splits)
qed

lemma schedule_moves: "r \<in> set (versions (cs_vault s)) \<Longrightarrow> vault_moves (cs_vault s) (cs_vault (schedule_version r start i s))"
  unfolding vault_moves_def
proof
  let ?r = "r\<lparr>ver_effective_from := Some start\<rparr>" and ?v = "cs_vault s"
  assume r: "r \<in> set (versions ?v)" and v: "vault_inv ?v"
  have d: "distinct (map ver_id (versions ?v))" using v by (rule vault_invD)
  have w: "cs_vault (schedule_version r start i s) = put_version ?r ?v" by (simp add: schedule_version_def)
  have "evolves ?v (put_version ?r ?v)"
    by (rule evolves_put [OF d r, of ?r]) (simp_all add: version_content_def put_version_def)
  moreover have "vault_inv (put_version ?r ?v)" by (rule put_date_inv [OF v r])
  ultimately show "vault_inv (cs_vault (schedule_version r start i s)) \<and> evolves ?v (cs_vault (schedule_version r start i s))"
    unfolding w by simp
qed

lemma implement_dcr_run: "implement_dcr E actor now i chosen fr ju s = Inr s' \<Longrightarrow> change_run s s'"
proof -
  assume a: "implement_dcr E actor now i chosen fr ju s = Inr s'"
  then obtain d where g: "get_dcr s i = Some d" and ok: "dcr_allowed (dc_state d) DCR_Implemented"
    by (auto simp: implement_dcr_def)
  have d: "get_dcr s (dc_id d) = Some d" using g get_dcr_id [OF g] by simp
  show ?thesis
  proof (cases "dc_type d = CH_RETIRE")
    case True
    then obtain v t where s': "s' = (append_implemented actor d None s)\<lparr>cs_vault := v\<rparr>"
      and o: "obsolete (ce_vault E) actor t (dc_reason d) None fr ju (cs_vault s) = Inr v"
      using a g by (auto simp: implement_dcr_def split: option.splits if_splits)
    have m: "vault_moves (cs_vault s) v" using step_obsolete [OF o] by (rule vault_step_moves)
    have "s' = append_implemented actor (d\<lparr>dc_result := dc_result d\<rparr>) None (s\<lparr>cs_vault := v\<rparr>)"
      by (simp add: s' append_implemented_def Let_def move_dcr_def emit_dcr_def put_dcr_def log_stage_def)
    then show ?thesis
      using implement_move [OF d ok, of "s\<lparr>cs_vault := v\<rparr>" "[]" "dc_result d" actor None] True m by simp
  next
    case False
    then obtain r start where r: "resolve_implement_version E actor d chosen s = Inr r"
      and s': "s' = append_implemented actor (d\<lparr>dc_result := Some (ver_id r)\<rparr>) (Some (ver_id r)) (schedule_version r start i s)"
      using a g by (auto simp: implement_dcr_def Let_def)
    let ?t = "schedule_version r start i s"
    show ?thesis unfolding s'
      by (rule implement_move [OF d ok, of ?t "[(ver_id r, i)]"])
        (use False resolved_version [OF r] get_dcr_id [OF g] schedule_moves [OF resolved_version(2) [OF r]] in
          \<open>auto simp: schedule_version_def\<close>)
  qed
qed

subsection \<open>The system\<close>

inductive change_op :: "change_env \<Rightarrow> change_store \<Rightarrow> change_store \<Rightarrow> bool" for E :: change_env where
  co_raise: "raise_dcr E actor now c s = Inr (s', d) \<Longrightarrow> change_op E s s'"
| co_spawn: "raise_dcr_from_capa E actor now row c s = Inr (s', d, b) \<Longrightarrow> change_op E s s'"
| co_patch: "patch_dcr actor i p s = Inr (s', d) \<Longrightarrow> change_op E s s'"
| co_cancel: "cancel_dcr actor i comment s = Inr s' \<Longrightarrow> change_op E s s'"
| co_assess: "assess_dcr E actor i s = Inr s' \<Longrightarrow> change_op E s s'"
| co_annotate: "annotate_impact actor i notes s = Inr s' \<Longrightarrow> change_op E s s'"
| co_route: "route_dcr E actor i s = Inr (s', k) \<Longrightarrow> change_op E s s'"
| co_decide: "decide_dcr_approval E actor now k n outcome comment key s = Inr (s', r, x) \<Longrightarrow> change_op E s s'"
| co_implement: "implement_dcr E actor now i chosen force justification s = Inr s' \<Longrightarrow> change_op E s s'"
| co_close: "close_dcr actor i s = Inr s' \<Longrightarrow> change_op E s s'"

text \<open>Other parts run the vault, take ids and work on the tasks of the approvals.\<close>

inductive change_sys :: "change_env \<Rightarrow> change_store \<Rightarrow> change_store \<Rightarrow> bool" for E :: change_env where
  cy_op: "change_op E s s' \<Longrightarrow> change_sys E s s'"
| cy_vault: "vault_step (ce_vault E) (cs_vault s) v \<Longrightarrow> change_sys E s (s\<lparr>cs_vault := v\<rparr>)"
| cy_rest: "change_sys E s (s\<lparr>cs_next := cs_next s + n, cs_flows := fl\<rparr>)"

lemma change_op_run: "change_op E s s' \<Longrightarrow> change_run s s'"
  by (induction rule: change_op.induct)
    (rule raise_dcr_run raise_dcr_from_capa_run patch_dcr_run cancel_dcr_run assess_dcr_run annotate_impact_run route_dcr_run
       decide_dcr_approval_run implement_dcr_run close_dcr_run, assumption)+

lemma change_sys_run: "change_sys E s s' \<Longrightarrow> change_run s s'"
proof (induction rule: change_sys.induct)
  case (cy_op s s')
  then show ?case by (rule change_op_run)
next
  case (cy_vault s v)
  then show ?case
    by (intro r_into_rtranclp ch_rest [of _ s "[]" v] vault_step_moves) (simp_all add: tables_def)
next
  case (cy_rest s n fl)
  show ?case by (intro r_into_rtranclp step_same) (simp_all add: tables_def)
qed

lemma change_sys_runs: "(change_sys E)\<^sup>*\<^sup>* s s' \<Longrightarrow> change_run s s'"
  by (induction rule: rtranclp_induct) (use change_sys_run in \<open>auto intro: rtranclp_trans\<close>)

definition no_changes :: change_store where
  "no_changes = \<lparr>cs_vault = empty_vault, cs_next = 0, cs_dcrs = [], cs_trail = [], cs_impacts = [], cs_flows = [],
     cs_signatures = [], cs_claims = [], cs_events = []\<rparr>"

abbreviation reachable_changes :: "change_env \<Rightarrow> change_store \<Rightarrow> bool" where
  "reachable_changes E s \<equiv> (change_sys E)\<^sup>*\<^sup>* no_changes s"

lemma reachable_change_inv: "reachable_changes E s \<Longrightarrow> change_inv s"
proof -
  have "change_inv no_changes"
    using vault_reachable_inv [of _ empty_vault] by (simp add: change_inv_def no_changes_def)
  then show "reachable_changes E s \<Longrightarrow> change_inv s" using requests.run_keeps change_sys_runs by blast
qed

end
