(* ===== verification/RecordsRefine.thy ===== *)
theory RecordsRefine
  imports RecordsSpec
begin

text \<open>
  The operations on records, policies and dispositions refine the transitions of \<open>RecordsSpec\<close>: from a state
  that satisfies the invariant, each of them is a run of transitions.
\<close>

abbreviation ev_run :: "qms_env \<Rightarrow> qms \<Rightarrow> qms \<Rightarrow> bool" where
  "ev_run E \<equiv> (ev_step E)\<^sup>*\<^sup>*"

lemma run_step: "ev_run E s t \<Longrightarrow> ev_step E t u \<Longrightarrow> ev_run E s u"
  by (rule rtranclp.rtrancl_into_rtrancl)

lemma run_trans: "ev_run E s t \<Longrightarrow> ev_run E t u \<Longrightarrow> ev_run E s u"
  by (rule rtranclp_trans)

subsection \<open>Bookkeeping\<close>

lemma step_book:
  assumes "t = s\<lparr>q_events := q_events s @ es, q_next := n, q_queue := qu, q_vault := v, q_policies := ps\<rparr>" and "q_next s \<le> n"
  shows "ev_step E s t"
  using ev_log [OF assms(2)] assms(1) by simp

lemma step_log: "ev_step E s (log_event ev a ot oid b f s)"
  by (rule step_book [where n = "q_next s" and v = "q_vault s" and ps = "q_policies s" and qu = "q_queue s"])
    (simp_all add: log_event_def)

lemma step_policies: "ev_step E s (s\<lparr>q_policies := ps\<rparr>)"
  by (rule step_book [where n = "q_next s" and v = "q_vault s" and es = "[]" and qu = "q_queue s"]) simp_all

lemma step_vault: "ev_step E s (s\<lparr>q_vault := v\<rparr>)"
  by (rule step_book [where n = "q_next s" and ps = "q_policies s" and es = "[]" and qu = "q_queue s"]) simp_all

lemma step_queue: "ev_step E s (s\<lparr>q_queue := qu\<rparr>)"
  by (rule step_book [where n = "q_next s" and ps = "q_policies s" and es = "[]" and v = "q_vault s"]) simp_all

lemma run_book:
  "ev_run E s t \<Longrightarrow> ev_run E s (log_event ev a ot oid b f t)"
  "ev_run E s t \<Longrightarrow> ev_run E s (emit_record_event u ev i b f t)"
  "ev_run E s t \<Longrightarrow> ev_run E s (emit_record_event_system ev i b f t)"
  "ev_run E s t \<Longrightarrow> ev_run E s (emit_policy actor ev pid b f t)"
  "ev_run E s t \<Longrightarrow> ev_run E s (t\<lparr>q_policies := ps\<rparr>)"
  "ev_run E s t \<Longrightarrow> ev_run E s (put_policy p t)"
  "ev_run E s t \<Longrightarrow> ev_run E s (t\<lparr>q_queue := qu\<rparr>)"
  "ev_run E s t \<Longrightarrow> ev_run E s (ensure_default_policy fresh t)"
  "ev_run E s t \<Longrightarrow> ev_run E s (t\<lparr>q_vault := v\<rparr>)"
  using step_log step_policies step_queue step_vault
  by (auto simp: emit_record_event_def emit_record_event_system_def emit_policy_def put_policy_def ensure_default_policy_def
      intro: run_step)

subsection \<open>Policies\<close>

lemma create_policy_run: "create_policy actor i n s = Inr (s', p) \<Longrightarrow> ev_run E s s'"
  by (auto simp: create_policy_def Let_def intro!: run_book)

lemma update_policy_run:
  assumes "update_policy actor i c s = Inr (s', p)"
  shows "ev_run E s s'"
proof (cases "get_policy s i")
  case None
  with assms show ?thesis by (simp add: update_policy_def)
next
  case (Some p0)
  then have "s' = emit_policy actor ''RETENTION_POLICY_UPDATED'' i (Some (changed_fields c p0)) (Some (changed_fields c p)) (put_policy p s)"
    using update_policy_Inr [OF assms] by blast
  then show ?thesis by (simp only: run_book rtranclp.rtrancl_refl)
qed

lemma archive_policy_run: "archive_policy actor i now s = Inr (s', p) \<Longrightarrow> ev_run E s s'"
  by (auto simp: archive_policy_def Let_def intro!: run_book split: option.splits)

lemma unarchive_policy_run: "unarchive_policy actor i s = Inr (s', p) \<Longrightarrow> ev_run E s s'"
  by (auto simp: unarchive_policy_def Let_def intro!: run_book split: option.splits)

subsection \<open>Capture\<close>

text \<open>What attaching evidence to record \<open>i\<close> does to the tables.\<close>

definition attached :: "rid \<Rightarrow> qms \<Rightarrow> qms \<Rightarrow> bool" where
  "attached i s s' \<longleftrightarrow>
     (\<exists>bs es st. s' = s\<lparr>q_blobs := bs, q_evidence := q_evidence s @ es, q_stored := st\<rparr>
        \<and> (\<forall>e \<in> set es. eb_record e = i \<and> eb_sha e \<in> bl_sha ` set bs) \<and> bl_sha ` set (q_blobs s) \<subseteq> bl_sha ` set bs
        \<and> (\<forall>b \<in> set bs. (bl_bucket b, bl_key b) \<in> st
             \<or> (\<exists>b0 \<in> set (q_blobs s). bl_bucket b0 = bl_bucket b \<and> bl_key b0 = bl_key b))
        \<and> q_stored s \<subseteq> st)"

lemma attached_refl: "attached i s s"
  unfolding attached_def by (intro exI [of _ "q_blobs s"] exI [of _ "[]"] exI [of _ "q_stored s"]) auto

lemma attached_trans:
  assumes "attached i s t" and "attached i t u"
  shows "attached i s u"
proof -
  from assms(1) obtain bs es st where a: "t = s\<lparr>q_blobs := bs, q_evidence := q_evidence s @ es, q_stored := st\<rparr>"
    "\<forall>e \<in> set es. eb_record e = i \<and> eb_sha e \<in> bl_sha ` set bs" "bl_sha ` set (q_blobs s) \<subseteq> bl_sha ` set bs"
    "\<forall>b \<in> set bs. (bl_bucket b, bl_key b) \<in> st \<or> (\<exists>b0 \<in> set (q_blobs s). bl_bucket b0 = bl_bucket b \<and> bl_key b0 = bl_key b)"
    "q_stored s \<subseteq> st" unfolding attached_def by blast
  from assms(2) obtain cs fs tt where b: "u = t\<lparr>q_blobs := cs, q_evidence := q_evidence t @ fs, q_stored := tt\<rparr>"
    "\<forall>e \<in> set fs. eb_record e = i \<and> eb_sha e \<in> bl_sha ` set cs" "bl_sha ` set (q_blobs t) \<subseteq> bl_sha ` set cs"
    "\<forall>b \<in> set cs. (bl_bucket b, bl_key b) \<in> tt \<or> (\<exists>b0 \<in> set (q_blobs t). bl_bucket b0 = bl_bucket b \<and> bl_key b0 = bl_key b)"
    "q_stored t \<subseteq> tt" unfolding attached_def by blast
  have sub: "bl_sha ` set bs \<subseteq> bl_sha ` set cs" "st \<subseteq> tt" "q_blobs t = bs" using a(1) b(3,5) by simp_all
  have 4: "(bl_bucket x, bl_key x) \<in> tt \<or> (\<exists>b0 \<in> set (q_blobs s). bl_bucket b0 = bl_bucket x \<and> bl_key b0 = bl_key x)"
    if xin: "x \<in> set cs" for x
  proof (cases "(bl_bucket x, bl_key x) \<in> tt")
    case False
    then obtain y where y: "y \<in> set bs" "bl_bucket y = bl_bucket x" "bl_key y = bl_key x" using b(4) xin sub(3) by metis
    with a(4) sub(2) False show ?thesis by (metis subsetD)
  qed simp
  have 1: "u = s\<lparr>q_blobs := cs, q_evidence := q_evidence s @ (es @ fs), q_stored := tt\<rparr>" using a(1) b(1) by simp
  have 2: "\<forall>e \<in> set (es @ fs). eb_record e = i \<and> eb_sha e \<in> bl_sha ` set cs" using a(2) b(2) sub(1) by auto
  have 3: "bl_sha ` set (q_blobs s) \<subseteq> bl_sha ` set cs" using a(3) sub(1) by (rule subset_trans)
  have 5: "q_stored s \<subseteq> tt" using a(5) sub(2) by (rule subset_trans)
  show ?thesis unfolding attached_def
    by (rule exI [of _ cs], rule exI [of _ "es @ fs"], rule exI [of _ tt], intro conjI ballI) (use 1 2 3 4 5 in auto)
qed

lemma ensure_blob_attached: "ensure_blob E mr x s = Inr s' \<Longrightarrow> attached i s s'"
proof (cases "get_blob s (ei_sha x)")
  case None
  assume "ensure_blob E mr x s = Inr s'"
  with None obtain loc ky ret where s': "s' = s\<lparr>q_blobs := q_blobs s @ [\<lparr>bl_sha = ei_sha x, bl_bucket = qe_records_bucket E,
      bl_key = ky, bl_locked = True, bl_retain = ret\<rparr>], q_stored := insert (qe_records_bucket E, ky) (q_stored s)\<rparr>"
    by (auto simp: ensure_blob_def split: option.splits)
  show ?thesis unfolding attached_def s'
    by (intro exI [of _ "q_blobs s @ [\<lparr>bl_sha = ei_sha x, bl_bucket = qe_records_bucket E, bl_key = ky, bl_locked = True, bl_retain = ret\<rparr>]"]
        exI [of _ "[]"] exI [of _ "insert (qe_records_bucket E, ky) (q_stored s)"]) auto
qed (simp add: ensure_blob_def attached_refl)

lemma add_evidence_attached: "get_blob s sha \<noteq> None \<Longrightarrow> attached i s (add_evidence i sha s)"
proof -
  assume "get_blob s sha \<noteq> None"
  then have "sha \<in> bl_sha ` set (q_blobs s)" by (auto simp: get_blob_def dest: find_key_SomeD)
  then have "attached i s (s\<lparr>q_evidence := q_evidence s @ [\<lparr>eb_record = i, eb_sha = sha\<rparr>]\<rparr>)"
    unfolding attached_def
    by (intro exI [of _ "q_blobs s"] exI [of _ "[\<lparr>eb_record = i, eb_sha = sha\<rparr>]"] exI [of _ "q_stored s"]) auto
  then show ?thesis by (simp add: add_evidence_def attached_refl)
qed

lemma set_retain_attached: "attached i s (set_retain sha t s)"
proof -
  let ?f = "\<lambda>b. if bl_sha b = sha then b\<lparr>bl_retain := Some t\<rparr> else b"
  have f: "bl_sha (?f b) = bl_sha b" "bl_bucket (?f b) = bl_bucket b" "bl_key (?f b) = bl_key b" for b by simp_all
  have "map bl_sha (map ?f (q_blobs s)) = map bl_sha (q_blobs s)" by (simp add: f)
  then have "bl_sha ` set (q_blobs s) \<subseteq> bl_sha ` set (map ?f (q_blobs s))" by (metis list.set_map subset_refl)
  then show ?thesis unfolding attached_def set_retain_def
    by (intro exI [of _ "map ?f (q_blobs s)"] exI [of _ "[]"] exI [of _ "q_stored s"]) (auto simp: f)
qed

lemma attach_items_attached: "attach_items E i mr xs s = Inr (s', p) \<Longrightarrow> attached i s s'"
proof (induction xs arbitrary: s s' p)
  case (Cons x xs)
  then obtain s1 b p' where 1: "ensure_blob E mr x s = Inr s1" "get_blob s1 (ei_sha x) = Some b"
    "attach_items E i mr xs (add_evidence i (ei_sha x) s1) = Inr (s', p')"
    by (auto split: option.splits if_splits)
  from ensure_blob_attached [OF 1(1), of i] add_evidence_attached [of s1 "ei_sha x" i] 1(2) Cons.IH [OF 1(3)]
  show ?case by (metis attached_trans option.distinct(1))
qed (simp add: attached_refl)

lemma extend_locks_attached: "extend_locks E mr bs s = Inr s' \<Longrightarrow> attached i s s'"
proof (induction bs arbitrary: s)
  case (Cons b bs)
  then obtain t u where "mr = Some t" "extend_locks E mr bs (set_retain (bl_sha b) u s) = Inr s'"
    by (auto split: option.splits)
  then show ?case using Cons.IH set_retain_attached attached_trans by blast
qed (simp add: attached_refl)

lemma attach_evidence_attached:
  assumes "attach_evidence E i ev mr s = Inr (s', shas)"
  shows "attached i s s'"
proof -
  from assms obtain xs s1 p where "attach_items E i mr xs s = Inr (s1, p)" "extend_locks E mr p s1 = Inr s'"
    by (auto simp: attach_evidence_def)
  then show ?thesis using attach_items_attached extend_locks_attached attached_trans by metis
qed

lemma store_capture_Inr:
  assumes "store_capture E actor now c co fw sv vals res s1 = Inr (s', r)"
  shows "\<exists>v mr s3 shas h ident p.
     \<not> identifier_taken s1 actor ident \<and>
     attach_evidence E (q_next s1) (cp_evidence c) mr (s1\<lparr>q_vault := v, q_next := q_next s1 + 1\<rparr>) = Inr (s3, shas) \<and>
     record_content_hash (qe_hash E) (qe_jcs E) (cp_type c) sv vals shas content_hash_version = Inr h \<and>
     r = sealed_record c (q_next s1) ident fw actor now sv vals co res h \<and>
     s' = emit_record_event (user_id actor) ''RECORD_CAPTURED'' (q_next s1) None (Some p) (s3\<lparr>q_records := q_records s3 @ [r]\<rparr>)"
proof -
  define ar where "ar = (if some_text (cp_area c) then the (cp_area c) else ''GEN'')"
  obtain v n where a: "allocate_seq (user_org actor) ''REC'' ar (q_vault s1) = (v, n)"
    by (cases "allocate_seq (user_org actor) ''REC'' ar (q_vault s1)")
  define ident where "ident = format_identifier ''REC'' (nat n) (Some ar) 3"
  obtain mr s3 shas h where f: "\<not> identifier_taken s1 actor ident"
    "attach_evidence E (q_next s1) (cp_evidence c) mr (s1\<lparr>q_vault := v, q_next := q_next s1 + 1\<rparr>) = Inr (s3, shas)"
    "record_content_hash (qe_hash E) (qe_jcs E) (cp_type c) sv vals shas content_hash_version = Inr h"
    "sealed_record c (q_next s1) ident fw actor now sv vals co res h = r"
    "emit_record_event (user_id actor) ''RECORD_CAPTURED'' (q_next s1) None
       (Some (capture_payload ident c sv h (length shas) res co))
       (s3\<lparr>q_records := q_records s3 @ [sealed_record c (q_next s1) ident fw actor now sv vals co res h]\<rparr>) = s'"
    using assms unfolding store_capture_def Let_def take_id_def ar_def [symmetric] a prod.case ident_def [symmetric]
    by auto
  show ?thesis using f(1,2,3) f(4) [symmetric] f(5) [symmetric] by metis
qed

lemma capture_record_Inr:
  assumes "capture_record E actor now fresh c co pin commit s = Inr (s', r)"
  shows "\<exists>fw sv st res s1 s2.
     cp_type c \<in> set record_types \<and> cp_class c \<in> set classifications \<and> framework_of (qe_vault E) (user_org actor) = Some fw \<and>
     resolve_source_version E actor fw (cp_source_doc c) (cp_source_version c) (cp_values c) pin s = Inr (sv, st) \<and>
     resolve_capture_retention fresh (cp_type c) (cp_policy c) [] [] now s = Inr (s1, res) \<and>
     store_capture E actor now c co fw sv (capture_values c st) res s1 = Inr (s2, r) \<and>
     s' = enqueue_pdf (commit \<and> st) (rc_id r) s2"
  using assms unfolding capture_record_def by (auto split: option.splits)

lemma store_capture_run:
  assumes "store_capture E actor now c co fw sv vals res s1 = Inr (s', r)"
  shows "ev_run E s1 s' \<and> q_records s' = q_records s1 @ [r]"
proof -
  obtain v mr s3 shas h ident p where
    a: "attach_evidence E (q_next s1) (cp_evidence c) mr (s1\<lparr>q_vault := v, q_next := q_next s1 + 1\<rparr>) = Inr (s3, shas)"
    and r: "r = sealed_record c (q_next s1) ident fw actor now sv vals co res h"
    and s': "s' = emit_record_event (user_id actor) ''RECORD_CAPTURED'' (q_next s1) None (Some p) (s3\<lparr>q_records := q_records s3 @ [r]\<rparr>)"
    using store_capture_Inr [OF assms] by blast
  obtain bs es st where t: "s3 = s1\<lparr>q_vault := v, q_next := q_next s1 + 1, q_blobs := bs, q_evidence := q_evidence s1 @ es, q_stored := st\<rparr>"
    and es: "\<forall>e \<in> set es. eb_record e = q_next s1 \<and> eb_sha e \<in> bl_sha ` set bs"
    and bs: "bl_sha ` set (q_blobs s1) \<subseteq> bl_sha ` set bs" "q_stored s1 \<subseteq> st"
      "\<forall>b \<in> set bs. (bl_bucket b, bl_key b) \<in> st \<or> (\<exists>b0 \<in> set (q_blobs s1). bl_bucket b0 = bl_bucket b \<and> bl_key b0 = bl_key b)"
    using attach_evidence_attached [OF a] unfolding attached_def by auto
  have "captures (s1\<lparr>q_vault := v\<rparr>) r s'"
    unfolding captures_def s' t r using es bs
    by (simp add: emit_record_event_def log_event_def sealed_record_def)
  moreover have "capa_tables s' = capa_tables (s1\<lparr>q_vault := v\<rparr>)"
    by (simp add: s' t capa_tables_def emit_record_event_def log_event_def)
  ultimately have "ev_step E (s1\<lparr>q_vault := v\<rparr>) s'" by (rule ev_capture)
  then have "ev_run E s1 s'" using run_book(9) run_step by blast
  moreover have "q_records s' = q_records s1 @ [r]" by (simp add: s' t emit_record_event_def log_event_def)
  ultimately show ?thesis ..
qed

lemma resolve_capture_retention_run:
  "resolve_capture_retention fresh rt ov cl pr tm s = Inr (s', res) \<Longrightarrow> s' = ensure_default_policy fresh s"
  by (auto simp: resolve_capture_retention_def Let_def split: option.splits)

lemma enqueue_pdf_simps [simp]:
  "q_records (enqueue_pdf b i s) = q_records s" "capa_tables (enqueue_pdf b i s) = capa_tables s"
  "q_evidence (enqueue_pdf b i s) = q_evidence s" "q_next (enqueue_pdf b i s) = q_next s"
  by (simp_all add: enqueue_pdf_def capa_tables_def)

lemma enqueue_pdf_run: "ev_run E s t \<Longrightarrow> ev_run E s (enqueue_pdf b i t)"
  by (simp add: enqueue_pdf_def run_book)

lemma capture_record_run:
  assumes "capture_record E actor now fresh c co pin commit s = Inr (s', r)"
  shows "ev_run E s s' \<and> q_records s' = q_records s @ [r]"
proof -
  obtain fw sv st res s1 s2 where c: "resolve_capture_retention fresh (cp_type c) (cp_policy c) [] [] now s = Inr (s1, res)"
    "store_capture E actor now c co fw sv (capture_values c st) res s1 = Inr (s2, r)"
    "s' = enqueue_pdf (commit \<and> st) (rc_id r) s2"
    using capture_record_Inr [OF assms] by blast
  have "ev_run E s s1" using resolve_capture_retention_run [OF c(1)] run_book(8) by blast
  moreover have "q_records s1 = q_records s"
    using resolve_capture_retention_run [OF c(1)] by (simp add: ensure_default_policy_def)
  ultimately show ?thesis using store_capture_run [OF c(2)] c(3) run_trans enqueue_pdf_run by (metis enqueue_pdf_simps(1))
qed

lemma find_append: "find P xs = Some x \<Longrightarrow> find P (xs @ ys) = Some x"
  by (induction xs) auto

lemma capture_correction_run:
  assumes "capture_correction E actor now fresh i c s = Inr (s', r)"
  shows "ev_run E s s'"
proof -
  obtain old c' s1 b ev1 ev2 where f: "get_record s i = Some old" "rc_superseded_by old = None"
    "capture_record E actor now fresh c' (Some i) (if rc_source_doc old \<noteq> None then rc_source_version old else None) False s = Inr (s1, r)"
    "s' = enqueue_pdf b (rc_id r) (emit_record_event (user_id actor) ''RECORD_CORRECTED'' i ev1 ev2
        (put_record (old\<lparr>rc_superseded_by := Some (rc_id r)\<rparr>) s1))"
    using assms unfolding capture_correction_def Let_def load_record_def
    by (cases "get_record s i") auto
  note cr = capture_record_run [OF f(3)]
  have id: "rc_id old = i" using get_record_mem [OF f(1)] by simp
  have "get_record s1 (rc_id old) = Some old"
    using f(1) cr id by (simp add: get_record_def find_append)
  moreover have "relabel old (old\<lparr>rc_superseded_by := Some (rc_id r)\<rparr>)" using f(2) by (auto simp: relabel_def)
  ultimately have "ev_step E s1 (put_record (old\<lparr>rc_superseded_by := Some (rc_id r)\<rparr>) s1)" by (rule ev_relabel)
  then have "ev_run E s (put_record (old\<lparr>rc_superseded_by := Some (rc_id r)\<rparr>) s1)" by (rule run_step [OF conjunct1 [OF cr]])
  then show ?thesis unfolding f(4) by (intro enqueue_pdf_run run_book(2))
qed

subsection \<open>Legal holds and destroy orders\<close>

lemma place_legal_hold_run: "place_legal_hold actor i reason s = Inr (s') \<Longrightarrow> ev_run E s s'"
proof -
  assume "place_legal_hold actor i reason s = Inr s'"
  then obtain r b f where r: "get_record s i = Some r" "rc_disposition r \<noteq> DISPOSED"
    "s' = emit_record_event (user_id actor) ''RECORD_LEGAL_HOLD_PLACED'' i b f (put_record (r\<lparr>rc_hold := True, rc_disposition := ON_HOLD\<rparr>) s)"
    unfolding place_legal_hold_def load_record_def by (cases "get_record s i") auto
  have "rc_id r = i" using get_record_mem [OF r(1)] by simp
  then have "ev_step E s (put_record (r\<lparr>rc_hold := True, rc_disposition := ON_HOLD\<rparr>) s)"
    using r by (intro ev_relabel [of s r]) (auto simp: relabel_def)
  then show ?thesis using r(3) run_book(2) by (metis r_into_rtranclp)
qed

lemma release_legal_hold_run: "release_legal_hold actor i reason s = Inr s' \<Longrightarrow> ev_run E s s'"
proof -
  assume "release_legal_hold actor i reason s = Inr s'"
  then obtain r b f where r: "get_record s i = Some r" "rc_hold r"
    "s' = emit_record_event (user_id actor) ''RECORD_LEGAL_HOLD_RELEASED'' i b f (put_record (r\<lparr>rc_hold := False, rc_disposition := ACTIVE\<rparr>) s)"
    unfolding release_legal_hold_def load_record_def by (cases "get_record s i") auto
  have "rc_id r = i" using get_record_mem [OF r(1)] by simp
  then have "ev_step E s (put_record (r\<lparr>rc_hold := False, rc_disposition := ACTIVE\<rparr>) s)"
    using r by (intro ev_relabel [of s r]) (auto simp: relabel_def)
  then show ?thesis using r(3) run_book(2) by (metis r_into_rtranclp)
qed

lemma request_worm_destroy_run: "request_worm_destroy actor i lb s = Inr (s', q) \<Longrightarrow> ev_run E s s'"
proof -
  assume "request_worm_destroy actor i lb s = Inr (s', q)"
  then obtain f where q: "wr_id q = q_next s"
    "s' = emit_record_event (user_id actor) ''RECORD_WORM_DESTROY_REQUESTED'' i None f (s\<lparr>q_next := q_next s + 1, q_requests := q_requests s @ [q]\<rparr>)"
    unfolding request_worm_destroy_def take_id_def Let_def by auto
  have "ev_step E s (s\<lparr>q_next := q_next s + 1, q_requests := q_requests s @ [q]\<rparr>)"
  proof -
    have e: "s\<lparr>q_next := q_next s + 1, q_requests := q_requests s @ [q]\<rparr> = s\<lparr>q_requests := q_requests s @ [q], q_next := q_next s + 1\<rparr>"
      by simp
    show ?thesis unfolding e by (rule ev_request) (use q(1) in simp_all)
  qed
  then show ?thesis using q(2) run_book(2) by (metis r_into_rtranclp)
qed

lemma load_open_request_Inr:
  "load_open_request i k s = Inr q \<Longrightarrow> q \<in> set (q_requests s) \<and> wr_id q = k \<and> wr_record q = i \<and> wr_executed_at q = None \<and> wr_cancelled_at q = None"
  by (auto simp: load_open_request_def get_request_def split: option.splits if_splits dest: find_key_SomeD)

lemma settle_run: "load_open_request i k s = Inr q \<Longrightarrow> wr_id q' = wr_id q \<Longrightarrow> ev_run E s (put_request q' s)"
  using ev_settle load_open_request_Inr by (metis r_into_rtranclp)

lemma cancel_worm_destroy_run: "cancel_worm_destroy actor i k reason now s = Inr (s', q) \<Longrightarrow> ev_run E s s'"
  by (auto simp: cancel_worm_destroy_def Let_def intro!: run_book settle_run)

subsection \<open>Purging\<close>

lemma run_remove: "ev_run E s t \<Longrightarrow> \<not> object_is_owned t bu k \<Longrightarrow> ev_run E s (remove_object bu k t)"
  using ev_remove run_step by metis

lemma run_drop: "ev_run E s t \<Longrightarrow> ev_run E s (drop_marker k t)"
  using ev_drop_marker run_step by metis

lemma purge_one_run: "ev_run E s (purge_one fate m s)"
  by (auto simp: purge_one_def intro!: run_drop run_remove split: purge_fate.splits)

lemma purge_marked_run: "ev_run E s t \<Longrightarrow> ev_run E s (purge_marked fate ms t)"
proof (induction ms arbitrary: t)
  case (Cons m ms)
  then show ?case using purge_one_run run_trans by (simp add: purge_marked_def)
qed (simp add: purge_marked_def)

lemma reap_one_run: "reap_one E' fate m s = (s', a, b, go) \<Longrightarrow> ev_run E s s'"
  by (auto simp: reap_one_def Let_def intro!: run_drop run_remove split: if_splits option.splits)

lemma reap_all_run: "reap_all E' fate ms s x y = (s', x', y') \<Longrightarrow> ev_run E s s'"
proof (induction ms arbitrary: s x y)
  case (Cons m ms)
  obtain s1 a b go where r: "reap_one E' fate m s = (s1, a, b, go)" by (cases "reap_one E' fate m s") auto
  then have "s' = s1 \<or> (\<exists>x y. reap_all E' fate ms s1 x y = (s', x', y'))"
    using Cons.prems by (auto simp: Let_def split: if_splits)
  then show ?case using Cons.IH reap_one_run [OF r] run_trans by blast
qed simp

lemma reap_run: "reap_pending_blob_purges E' fate s = (s', x, y) \<Longrightarrow> ev_run E s s'"
  unfolding reap_pending_blob_purges_def by (rule reap_all_run)

subsection \<open>Marking\<close>

lemma find_map_put:
  "find (\<lambda>x. f x = j) (map (\<lambda>x. if f x = f y then y else x) xs) =
     (if j = f y \<and> find (\<lambda>x. f x = j) xs \<noteq> None then Some y else find (\<lambda>x. f x = j) xs)"
  by (induction xs) auto

lemma get_record_put:
  "get_record (put_record r s) j = (if j = rc_id r \<and> get_record s j \<noteq> None then Some r else get_record s j)"
  unfolding get_record_def put_record_def using find_map_put [of rc_id j r "q_records s"] by auto

lemma get_record_cong: "q_records s' = q_records s \<Longrightarrow> get_record s' = get_record s"
  by (simp add: get_record_def fun_eq_iff)

lemma content_preserved_cong: "q_dispositions s' = q_dispositions s \<Longrightarrow> content_preserved s' = content_preserved s"
  by (simp add: content_preserved_def fun_eq_iff)

lemma not_needed_by_any:
  "\<not> content_preserved s i \<Longrightarrow> \<not> blob_needed_by_other_live_record E s sha i \<Longrightarrow> \<not> blob_needed_by_any_live_owner E s sha"
  unfolding blob_needed_by_other_live_record_def blob_needed_by_any_live_owner_def evidence_owner_def rendition_owner_def list_ex_iff
  by metis

lemma drop_blob_run:
  assumes "\<not> blob_needed_by_any_live_owner E s (bl_sha b)" and "insert_pending_purge b byp i ev rq s = (s1, m)"
  shows "ev_run E s (delete_blob_and_links (bl_sha b) s1) \<and> q_records (delete_blob_and_links (bl_sha b) s1) = q_records s \<and>
    q_dispositions (delete_blob_and_links (bl_sha b) s1) = q_dispositions s"
  using ev_drop_blob [OF assms] assms(2) by (auto simp: insert_purge_state delete_blob_and_links_def)

lemma mark_evidence_blob_run:
  assumes "\<not> content_preserved s i" and "mark_evidence_blob E i ev rq byp b (s, ms) = (s', ms')"
  shows "ev_run E s s' \<and> q_records s' = q_records s \<and> q_dispositions s' = q_dispositions s"
proof (cases "blob_needed_by_other_live_record E s (bl_sha b) i")
  case True
  then show ?thesis using assms ev_detach [OF assms(1)]
    by (auto simp: mark_evidence_blob_def detach_record_evidence_blob_def)
next
  case False
  obtain s1 m where i: "insert_pending_purge b byp i ev rq s = (s1, m)" by (cases "insert_pending_purge b byp i ev rq s")
  with assms(2) False have "s' = delete_blob_and_links (bl_sha b) s1" by (simp add: mark_evidence_blob_def)
  then show ?thesis using drop_blob_run [OF not_needed_by_any [OF assms(1) False] i] by simp
qed

lemma mark_evidence_blobs_run:
  "\<not> content_preserved s i \<Longrightarrow> fold (mark_evidence_blob E i ev rq byp) bs (s, ms) = (s', ms') \<Longrightarrow>
     ev_run E s s' \<and> q_records s' = q_records s \<and> q_dispositions s' = q_dispositions s"
proof (induction bs arbitrary: s ms)
  case (Cons b bs)
  obtain s1 m1 where m: "mark_evidence_blob E i ev rq byp b (s, ms) = (s1, m1)"
    by (cases "mark_evidence_blob E i ev rq byp b (s, ms)")
  note one = mark_evidence_blob_run [OF Cons.prems(1) m]
  have np: "\<not> content_preserved s1 i" using Cons.prems(1) one content_preserved_cong by metis
  have "fold (mark_evidence_blob E i ev rq byp) bs (s1, m1) = (s', ms')" using Cons.prems(2) m by simp
  from Cons.IH [OF np this] one show ?case using run_trans by metis
qed simp

lemma mark_rendition_run:
  assumes "\<not> content_preserved s (rc_id r)" and "get_record s (rc_id r) \<noteq> None"
    and "mark_rendition E r ev rq byp (s, ms) = (s', ms')"
  shows "ev_run E s s' \<and> q_dispositions s' = q_dispositions s \<and> get_record s' (rc_id r) \<noteq> None \<and>
    (\<forall>j. j \<noteq> rc_id r \<longrightarrow> get_record s' j = get_record s j)"
proof (cases "rc_rendition r")
  case None
  then show ?thesis using assms(2,3) by (simp add: mark_rendition_def)
next
  case (Some sha)
  obtain x where x: "get_record s (rc_id r) = Some x" using assms(2) by blast
  have id: "rc_id x = rc_id r" using get_record_mem [OF x] by simp
  define u where "u = put_record (x\<lparr>rc_rendition := None\<rparr>) s"
  have "ev_step E s u" unfolding u_def using ev_rendition [of s x E] x id assms(1) by simp
  then have u: "ev_run E s u" by blast
  have gu: "get_record u (rc_id r) \<noteq> None \<and> (\<forall>j. j \<noteq> rc_id r \<longrightarrow> get_record u j = get_record s j)"
    using x id by (simp add: u_def get_record_put)
  have du: "q_dispositions u = q_dispositions s" by (simp add: u_def)
  show ?thesis
  proof (cases "get_blob u sha = None \<or> blob_needed_by_any_live_owner E u sha")
    case True
    then have "s' = u" using assms(3) Some x by (auto simp: mark_rendition_def u_def [symmetric] Let_def split: option.splits)
    then show ?thesis using u gu du by simp
  next
    case False
    then obtain b where b: "get_blob u sha = Some b" by (cases "get_blob u sha") auto
    then have sha: "bl_sha b = sha" by (auto simp: get_blob_def dest: find_key_SomeD)
    obtain s1 m where i: "insert_pending_purge b (byp \<and> bl_locked b) (rc_id r) ev rq u = (s1, m)"
      by (cases "insert_pending_purge b (byp \<and> bl_locked b) (rc_id r) ev rq u")
    have s': "s' = delete_blob_and_links (bl_sha b) s1"
      using assms(3) Some x False b i sha by (simp add: mark_rendition_def u_def [symmetric] Let_def)
    have n: "\<not> blob_needed_by_any_live_owner E u (bl_sha b)" using False sha by simp
    note d = drop_blob_run [OF n i]
    have "get_record s' = get_record u" using d s' by (intro get_record_cong) simp
    then show ?thesis using d u gu du s' run_trans by metis
  qed
qed

lemma mark_record_evidence_run:
  assumes "\<not> content_preserved s (rc_id r)" and "get_record s (rc_id r) \<noteq> None"
    and "mark_record_evidence E r ev req src s = Inr (s', ms)"
  shows "ev_run E s s' \<and> q_dispositions s' = q_dispositions s \<and> get_record s' (rc_id r) \<noteq> None \<and>
    (\<forall>j. j \<noteq> rc_id r \<longrightarrow> get_record s' j = get_record s j)"
proof -
  obtain s1 m1 where f: "fold (mark_evidence_blob E (rc_id r) (de_id ev) (map_option wr_id req) (de_worm ev))
      (sorted_blobs (list_evidence_blobs s (rc_id r))) (s, []) = (s1, m1)"
    by (metis surj_pair)
  with assms(3) have m: "mark_rendition E r (de_id ev) (map_option wr_id req) (de_worm ev) (s1, m1) = (s', ms)"
    by (simp add: mark_record_evidence_def Let_def split: if_splits)
  note a = mark_evidence_blobs_run [OF assms(1) f]
  have "get_record s1 = get_record s" using a by (intro get_record_cong) simp
  moreover have "content_preserved s1 = content_preserved s" using a by (intro content_preserved_cong) simp
  ultimately show ?thesis using mark_rendition_run [OF _ _ m] a assms(1,2) run_trans by metis
qed

subsection \<open>Human disposition and the sweep\<close>

lemma tombstone_run:
  assumes "get_record s (rc_id r) = Some r" and "write_tombstone r a p ab rb w lb d s = (s', r', ev)" and "tombstone_allowed s r ev"
  shows "ev_run E s s' \<and> get_record s' (rc_id r) = Some r' \<and> rc_id r' = rc_id r \<and> ev \<in> set (q_dispositions s') \<and>
    (\<forall>j. j \<noteq> rc_id r \<longrightarrow> get_record s' j = get_record s j) \<and> q_requests s' = q_requests s"
proof -
  have "ev_step E s s'" using assms by (rule ev_tombstone)
  moreover have id: "rc_id r' = rc_id r" using assms(2) by (simp add: write_tombstone_state)
  moreover have "get_record s' j = (if j = rc_id r then Some r' else get_record s j)" for j
  proof -
    let ?u = "s\<lparr>q_next := q_next s + 1, q_dispositions := q_dispositions s @ [ev]\<rparr>"
    have "get_record ?u = get_record s" by (intro get_record_cong) simp
    moreover have "s' = put_record r' ?u" using assms(2) by (simp add: write_tombstone_state)
    ultimately show ?thesis using assms(1) id by (auto simp: get_record_put)
  qed
  moreover have "ev \<in> set (q_dispositions s')" "q_requests s' = q_requests s"
    using assms(2) by (auto simp: write_tombstone_state)
  ultimately show ?thesis by auto
qed

lemma destroyed_not_preserved:
  "ev \<in> set (q_dispositions s) \<Longrightarrow> de_record ev = i \<Longrightarrow> de_action ev = DESTROY \<Longrightarrow> \<not> content_preserved s i"
  by (auto simp: content_preserved_def list_ex_iff)

text \<open>A disposition under a policy: the tombstone, then the marking of the evidence when it destroys.\<close>

lemma policy_disposal_run:
  assumes "get_record s (rc_id r) = Some r" and "\<not> rc_hold r"
    and "write_tombstone r a p ab None False None None s = (s1, r', ev)"
    and "(if a = DESTROY then mark_record_evidence E r' ev None None s1 else Inr (s1, [])) = Inr (s2, ms)"
  shows "ev_run E s s2 \<and> (\<forall>j. j \<noteq> rc_id r \<longrightarrow> get_record s2 j = get_record s j)"
proof -
  have "tombstone_allowed s r ev"
    using assms(2,3) by (simp add: tombstone_allowed_def write_tombstone_state)
  note t = tombstone_run [OF assms(1,3) this]
  show ?thesis
  proof (cases "a = DESTROY")
    case True
    have "\<not> content_preserved s1 (rc_id r')"
      using t True assms(3) by (intro destroyed_not_preserved [of ev]) (auto simp: write_tombstone_state)
    moreover have "get_record s1 (rc_id r') \<noteq> None" using t by simp
    moreover have "mark_record_evidence E r' ev None None s1 = Inr (s2, ms)" using assms(4) True by simp
    ultimately show ?thesis using mark_record_evidence_run t run_trans by metis
  next
    case False
    then show ?thesis using assms(4) t by auto
  qed
qed

lemma refuse_run: "ev_run E s (refuse_destroy actor r why s)" "ev_run E s (refuse_self_disposition actor r s)"
  by (auto simp: refuse_destroy_def refuse_self_disposition_def intro!: run_book)

lemma dispose_now_run:
  assumes "get_record s (rc_id r) = Some r" and "\<not> rc_hold r"
  shows "(\<forall>s1 e. dispose_now E actor r reason now s = (s1, Inl e) \<longrightarrow> ev_run E s s1) \<and>
    (\<forall>s1 s2 ms. dispose_now E actor r reason now s = (s1, Inr (s2, ms)) \<longrightarrow> ev_run E s s2)"
proof (cases "get_policy s (rc_policy r)")
  case None
  then show ?thesis by (simp add: dispose_now_def)
next
  case (Some p)
  obtain s1 r' ev where w: "write_tombstone r (rp_action p) (Some (rp_id p)) (Some (user_id actor)) None False None None s = (s1, r', ev)"
    by (metis prod_cases3)
  note run = policy_disposal_run [OF assms w]
  define out where "out = (if rp_action p = DESTROY then mark_record_evidence E r' ev None None s1 else Inr (s1, []))"
  show ?thesis
  proof (cases out)
    case (Inl e)
    then show ?thesis using refuse_run(1)
      unfolding dispose_now_def Some option.case w prod.case out_def [symmetric] by (auto split: option.splits)
  next
    case (Inr x)
    then obtain s2 ms where x: "out = Inr (s2, ms)" by (cases x) simp
    then have "ev_run E s s2" using run [of E s2 ms] unfolding out_def by simp
    then show ?thesis using refuse_run(1) x
      unfolding dispose_now_def Some option.case w prod.case out_def [symmetric]
      by (auto intro!: run_book split: option.splits)
  qed
qed

lemma set_disposition_run:
  assumes "get_record s (rc_id r) = Some r" and "rc_disposition r \<in> {ACTIVE, DUE_FOR_REVIEW}" and "d \<in> {ACTIVE, DUE_FOR_REVIEW}"
  shows "ev_run E s (set_disposition r d s)"
proof -
  have "ev_step E s (put_record (r\<lparr>rc_disposition := d\<rparr>) s)"
    using assms by (intro ev_relabel [of s r]) (auto simp: relabel_def)
  then show ?thesis by (simp add: set_disposition_def r_into_rtranclp)
qed

lemma not_held:
  "ev_inv s \<Longrightarrow> get_record s i = Some r \<Longrightarrow> rc_disposition r \<in> {ACTIVE, DUE_FOR_REVIEW} \<Longrightarrow> \<not> rc_hold r"
  using get_record_mem unfolding ev_inv_def hold_ok_def by fastforce

lemma advance_disposition_run:
  assumes "ev_inv s" and "advance_disposition E actor i d reason now fate s = (s', res)"
  shows "ev_run E s s'"
proof (cases "get_record s i")
  case None
  with assms(2) show ?thesis by (simp add: advance_disposition_def load_record_def)
next
  case (Some r)
  have id: "rc_id r = i" using get_record_mem [OF Some] by simp
  have g: "get_record s (rc_id r) = Some r" using Some id by simp
  show ?thesis
  proof (cases "d \<noteq> ON_HOLD \<and> rc_disposition r \<noteq> ON_HOLD \<and> legal_disposition_transition (rc_disposition r) d")
    case False
    then have "s' = s" using assms(2) Some by (auto simp: advance_disposition_def load_record_def Let_def split: if_splits)
    then show ?thesis by simp
  next
    case True
    then have t: "d \<in> disposition_targets (rc_disposition r)" by (simp add: disposition_targets_def)
    then have st: "rc_disposition r \<in> {ACTIVE, DUE_FOR_REVIEW}" using True by (cases "rc_disposition r") auto
    have set: "ev_run E s (set_disposition r d s)" if "d \<in> {ACTIVE, DUE_FOR_REVIEW}"
      using set_disposition_run [OF g st that] .
    show ?thesis
    proof (cases "d \<in> {ACTIVE, DUE_FOR_REVIEW}")
      case flip: True
      then show ?thesis using assms(2) Some True set
        by (auto simp: advance_disposition_def load_record_def Let_def intro!: run_book split: if_splits)
    next
      case False
      note now = dispose_now_run [OF g not_held [OF assms(1) Some st], of E actor reason now]
      show ?thesis
      proof (cases "self_disposition_blocked (user_id actor) (rc_captured_by r) (qe_self_disposition E)")
        case blocked: True
        then show ?thesis using assms(2) Some True False refuse_run(2)
          by (auto simp: advance_disposition_def load_record_def Let_def split: if_splits)
      next
        case False2: False
        obtain s1 out where dn: "dispose_now E actor r reason now s = (s1, out)" by (metis surj_pair)
        show ?thesis
        proof (cases out)
          case (Inl e)
          then show ?thesis using assms(2) Some True False False2 dn now
            by (auto simp: advance_disposition_def load_record_def Let_def split: if_splits)
        next
          case (Inr x)
          then show ?thesis using assms(2) Some True False False2 dn now
            by (cases x) (auto simp: advance_disposition_def load_record_def Let_def intro!: purge_marked_run split: if_splits)
        qed
      qed
    qed
  qed
qed

end
