(* ===== verification/DestroyRefine.thy ===== *)
theory DestroyRefine
  imports RecordsRefine
begin

text \<open>
  The dual-control destroy order, its cascade over the sealed packs and the retention sweep refine the transitions
  of \<open>RecordsSpec\<close>.
\<close>

subsection \<open>The destroy order and the packs it reaches\<close>

lemma tombstone_pack_records_run:
  assumes "distinct (map rc_id rs)" and "\<forall>r \<in> set rs. rc_id r \<noteq> rc_id src \<longrightarrow> get_record s (rc_id r) = Some r"
    and "two_people src_ev" and "ordered s src_ev"
    and "tombstone_pack_records src_ev src rs s = (s', es)"
  shows "ev_run E s s' \<and> set (q_dispositions s) \<subseteq> set (q_dispositions s') \<and>
    (\<forall>j. j \<notin> rc_id ` set rs \<or> j = rc_id src \<longrightarrow> get_record s' j = get_record s j) \<and>
    (\<forall>x \<in> set es. rc_id (fst x) \<noteq> rc_id src \<longrightarrow>
       get_record s' (rc_id (fst x)) \<noteq> None \<and> \<not> content_preserved s' (rc_id (fst x)))"
  using assms
proof (induction rs arbitrary: s es)
  case (Cons r rs)
  show ?case
  proof (cases "rc_id r = rc_id src")
    case True
    obtain es' where es: "tombstone_pack_records src_ev src rs s = (s', es')" "es = (src, src_ev) # es'"
      using Cons.prems(5) True by (auto split: prod.splits)
    from Cons.IH [OF _ _ Cons.prems(3,4) es(1)] Cons.prems(1,2) es(2) True show ?thesis by auto
  next
    case False
    obtain s1 r' ev where w: "write_tombstone r DESTROY None (de_approved_by src_ev) (de_requested_by src_ev) True
        (de_legal_basis src_ev) (Some (de_id src_ev)) s = (s1, r', ev)"
      by (metis prod_cases3)
    obtain es' where es: "tombstone_pack_records src_ev src rs s1 = (s', es')" "es = (r', ev) # es'"
      using Cons.prems(5) False w by (auto split: prod.splits)
    have g: "get_record s (rc_id r) = Some r" using Cons.prems(2) False by simp
    have "ordered s ev" using Cons.prems(4) w by (auto simp: ordered_def authorises_def write_tombstone_state)
    moreover have "two_people ev" using Cons.prems(3) w by (simp add: two_people_def write_tombstone_state)
    ultimately have "tombstone_allowed s r ev" using w by (simp add: tombstone_allowed_def write_tombstone_state)
    note t = tombstone_run [OF g w this]
    have o: "ordered s1 src_ev" using Cons.prems(4) t by (simp add: ordered_def)
    have d: "distinct (map rc_id rs)" using Cons.prems(1) by simp
    have gs: "\<forall>x \<in> set rs. rc_id x \<noteq> rc_id src \<longrightarrow> get_record s1 (rc_id x) = Some x"
    proof (intro ballI impI)
      fix x assume x: "x \<in> set rs" "rc_id x \<noteq> rc_id src"
      have "rc_id x \<in> rc_id ` set rs" using x(1) by simp
      moreover have "rc_id r \<notin> rc_id ` set rs" using Cons.prems(1) by simp
      ultimately have "rc_id x \<noteq> rc_id r" by metis
      then have "get_record s1 (rc_id x) = get_record s (rc_id x)" using t by blast
      then show "get_record s1 (rc_id x) = Some x" using Cons.prems(2) x by simp
    qed
    note ih = Cons.IH [OF d gs Cons.prems(3) o es(1)]
    have sub: "set (q_dispositions s) \<subseteq> set (q_dispositions s1)" using w by (auto simp: write_tombstone_state)
    have "rc_id r \<notin> rc_id ` set rs" using Cons.prems(1) by simp
    then have "get_record s' (rc_id r) = Some r'" using ih t by simp
    moreover have "\<not> content_preserved s' (rc_id r)"
      using ih t w by (intro destroyed_not_preserved [of ev]) (auto simp: write_tombstone_state)
    moreover have "rc_id r' = rc_id r" using t by simp
    moreover have "ev_run E s s'" using ih t [of E] by (meson run_trans)
    moreover have "get_record s' j = get_record s j" if "j \<notin> rc_id ` set (r # rs) \<or> j = rc_id src" for j
      using that ih t False by (metis image_insert insertI1 insertI2 list.simps(15))
    ultimately show ?thesis using ih sub es(2) by auto
  qed
qed auto

lemma list_all2_pack_refl: "list_all2 pack_evolves ps ps"
  by (simp add: list.rel_refl pack_evolves_def)

lemma invalidate_pack_run:
  assumes "invalidate_pack actor src_ev req now es p (s, arts) = (s', arts')"
  shows "ev_run E s s' \<and> q_records s' = q_records s \<and> q_dispositions s' = q_dispositions s"
proof -
  obtain r ev where re: "record_event es (the (pk_record p)) = (r, ev)" by (metis surj_pair)
  define p' where "p' = p\<lparr>pk_status := P_UNAVAILABLE, pk_invalidated_at := Some now, pk_invalidated_by := Some (de_id src_ev),
                   pk_zip := None, pk_portfolio := None\<rparr>"
  obtain o' b f where s': "s' = log_event ''PACK_INVALIDATED'' (Some (user_id actor)) ''evidence_pack'' o' b f (put_pack p' s)"
    using assms by (auto simp: invalidate_pack_def re Let_def p'_def)
  have "list_all2 pack_evolves (q_packs s) (map (\<lambda>x. if pk_id x = pk_id p' then p' else x) (q_packs s))"
    by (simp add: list_all2_conv_all_nth pack_evolves_def p'_def)
  then have "ev_step E s (put_pack p' s)"
    using ev_packs [of s "map (\<lambda>x. if pk_id x = pk_id p' then p' else x) (q_packs s)" E "q_shares s"] by (simp add: put_pack_def)
  then have "ev_run E s s'" unfolding s' by (intro run_book(1)) blast
  then show ?thesis by (simp add: s' put_pack_def log_event_def)
qed

lemma invalidate_packs_run:
  "fold (invalidate_pack actor src_ev req now es) ps (s, arts) = (s', arts') \<Longrightarrow>
     ev_run E s s' \<and> q_records s' = q_records s \<and> q_dispositions s' = q_dispositions s"
proof (induction ps arbitrary: s arts)
  case (Cons p ps)
  obtain s1 a1 where i: "invalidate_pack actor src_ev req now es p (s, arts) = (s1, a1)" by (metis surj_pair)
  with Cons.prems have "fold (invalidate_pack actor src_ev req now es) ps (s1, a1) = (s', arts')" by simp
  from Cons.IH [OF this] invalidate_pack_run [OF i] show ?case using run_trans by metis
qed simp

lemma revoke_share_run:
  "ev_run E s (revoke_share actor src_ev now l s) \<and> q_records (revoke_share actor src_ev now l s) = q_records s \<and>
   q_dispositions (revoke_share actor src_ev now l s) = q_dispositions s"
proof -
  obtain sh o' b f where e: "revoke_share actor src_ev now l s = log_event ''PACK_SHARE_REVOKED'' (Some (user_id actor)) ''evidence_pack'' o' b f (s\<lparr>q_shares := sh\<rparr>)"
    by (simp add: revoke_share_def Let_def)
  have "ev_step E s (s\<lparr>q_packs := q_packs s, q_shares := sh\<rparr>)" by (rule ev_packs [OF list_all2_pack_refl])
  then have "ev_run E s (s\<lparr>q_shares := sh\<rparr>)" by simp
  then have "ev_run E s (revoke_share actor src_ev now l s)" unfolding e by (rule run_book(1))
  then show ?thesis by (simp add: e log_event_def)
qed

lemma revoke_shares_run:
  "ev_run E s (fold (revoke_share actor src_ev now) ls s) \<and> q_records (fold (revoke_share actor src_ev now) ls s) = q_records s \<and>
   q_dispositions (fold (revoke_share actor src_ev now) ls s) = q_dispositions s"
proof (induction ls arbitrary: s)
  case (Cons l ls)
  show ?case using Cons.IH [of "revoke_share actor src_ev now l s"] revoke_share_run run_trans by (simp, metis)
qed simp

lemma mark_pack_records_run:
  "\<forall>x \<in> set es. rc_id (fst x) \<noteq> rc_id src \<longrightarrow> get_record s (rc_id (fst x)) \<noteq> None \<and> \<not> content_preserved s (rc_id (fst x)) \<Longrightarrow>
     mark_pack_records E src src_ev req es (s, ms) = Inr (s', ms') \<Longrightarrow> ev_run E s s'"
proof (induction es arbitrary: s ms)
  case (Cons x es)
  obtain r ev where x: "x = (r, ev)" by (cases x)
  show ?case
  proof (cases "rc_id r = rc_id src")
    case True
    with Cons x show ?thesis by simp
  next
    case False
    then obtain s1 m1 where m: "mark_record_evidence E r ev (Some req) (Some src_ev) s = Inr (s1, m1)"
      "mark_pack_records E src src_ev req es (s1, ms @ m1) = Inr (s', ms')"
      using Cons.prems(2) x by (auto split: prod.splits)
    have g: "get_record s (rc_id r) \<noteq> None" "\<not> content_preserved s (rc_id r)" using Cons.prems(1) x False by auto
    note a = mark_record_evidence_run [OF g(2,1) m(1)]
    have "content_preserved s1 = content_preserved s" using a by (intro content_preserved_cong) blast
    moreover have "get_record s1 j \<noteq> None" if "get_record s j \<noteq> None" for j
      using a that by (cases "j = rc_id r") (metis, metis)
    ultimately have "\<forall>x \<in> set es. rc_id (fst x) \<noteq> rc_id src \<longrightarrow> get_record s1 (rc_id (fst x)) \<noteq> None \<and> \<not> content_preserved s1 (rc_id (fst x))"
      using Cons.prems(1) by (metis list.set_intros(2))
    from Cons.IH [OF this m(2)] a show ?thesis using run_trans by metis
  qed
qed simp

lemma mark_artifacts_run:
  "mark_artifacts E src_ev req as (s, ms) = Inr (s', ms') \<Longrightarrow> ev_run E s s'"
proof (induction as arbitrary: s ms)
  case (Cons x as)
  obtain sha r ev wz where x: "x = (sha, r, ev, wz)" by (metis prod_cases4)
  show ?case
  proof (cases "get_blob s sha = None \<or> blob_needed_by_any_live_owner E s sha")
    case True
    then have "mark_artifacts E src_ev req as (s, ms) = Inr (s', ms')"
      using Cons.prems x by (auto split: if_splits option.splits)
    then show ?thesis by (rule Cons.IH)
  next
    case False
    then obtain b where b: "get_blob s sha = Some b" by (cases "get_blob s sha") auto
    then have sha: "bl_sha b = sha" by (auto simp: get_blob_def dest: find_key_SomeD)
    obtain s1 m where i: "insert_pending_purge b (wz \<and> bl_locked b) (rc_id r) (de_id ev) (Some (wr_id req)) s = (s1, m)"
      by (metis surj_pair)
    have rest: "mark_artifacts E src_ev req as (delete_blob_and_links (bl_sha b) s1, ms @ [m]) = Inr (s', ms')"
      using Cons.prems x False b i sha by (simp split: if_splits)
    have n: "\<not> blob_needed_by_any_live_owner E s (bl_sha b)" using False sha by simp
    from Cons.IH [OF rest] drop_blob_run [OF n i] show ?thesis using run_trans by metis
  qed
qed simp


lemma pack_records_Inr:
  "pack_records s packs = Inr rs \<Longrightarrow> distinct (map rc_id rs) \<and> (\<forall>r \<in> set rs. get_record s (rc_id r) = Some r)"
proof -
  assume p: "pack_records s packs = Inr rs"
  define ids where "ids = sort (remdups (map (\<lambda>p. the (pk_record p)) packs))"
  have rs: "rs = map (\<lambda>i. the (get_record s i)) ids" and some: "\<forall>i \<in> set ids. get_record s i \<noteq> None"
    using p by (auto simp: pack_records_def Let_def ids_def [symmetric] list_ex_iff split: if_splits)
  have id: "get_record s i = Some (the (get_record s i)) \<and> rc_id (the (get_record s i)) = i" if "i \<in> set ids" for i
    using some that get_record_mem by (metis option.exhaust_sel)
  have "map rc_id rs = ids" using id by (simp add: rs map_idI)
  moreover have "distinct ids" by (simp add: ids_def)
  ultimately show ?thesis using id rs by auto
qed

lemma invalidate_sealed_packs_run:
  assumes "get_record s (rc_id src) = Some src" and "src_ev \<in> set (q_dispositions s)" and "de_action src_ev = DESTROY"
    and "two_people src_ev" and "ordered s src_ev"
    and "invalidate_sealed_packs E actor src src_ev req now s = Inr (s', ms)"
  shows "ev_run E s s'"
proof -
  define packs where "packs = affected_sealed_packs E s (rc_id src)"
  have auth: "r27_authority_matches src src_ev req None"
    and "\<exists>rs. pack_records s packs = Inr rs"
    using assms(6) by (auto simp: invalidate_sealed_packs_def Let_def packs_def)
  then obtain rs where rs: "pack_records s packs = Inr rs" by blast
  obtain s1 es where t: "tombstone_pack_records src_ev src rs s = (s1, es)" by (metis surj_pair)
  obtain s2 arts where i: "fold (invalidate_pack actor src_ev req now es) packs (s1, []) = (s2, arts)" by (metis surj_pair)
  define s3 where "s3 = fold (revoke_share actor src_ev now) (live_shares s2 packs) s2"
  obtain s4 m4 s5 m5 where m: "mark_record_evidence E src src_ev (Some req) None s3 = Inr (s4, m4)"
    "mark_pack_records E src src_ev req es (s4, m4) = Inr (s5, m5)"
    "mark_artifacts E src_ev req (sort_key fst arts) (s5, m5) = Inr (s', ms)"
    using assms(6) auth rs unfolding invalidate_sealed_packs_def Let_def packs_def [symmetric] t i prod.case s3_def [symmetric]
    by (auto simp: rs t i s3_def)
  note a = tombstone_pack_records_run [OF _ _ assms(4,5) t, of E]
  have 1: "ev_run E s s1 \<and> set (q_dispositions s) \<subseteq> set (q_dispositions s1) \<and>
    get_record s1 (rc_id src) = Some src \<and>
    (\<forall>x \<in> set es. rc_id (fst x) \<noteq> rc_id src \<longrightarrow> get_record s1 (rc_id (fst x)) \<noteq> None \<and> \<not> content_preserved s1 (rc_id (fst x)))"
    using a pack_records_Inr [OF rs] assms(1) by auto
  note 2 = invalidate_packs_run [OF i, of E]
  have 3: "ev_run E s2 s3 \<and> q_records s3 = q_records s2 \<and> q_dispositions s3 = q_dispositions s2"
    unfolding s3_def by (rule revoke_shares_run)
  have same: "get_record s3 = get_record s1" "content_preserved s3 = content_preserved s1"
    using 2 3 by (auto intro: get_record_cong content_preserved_cong)
  have "de_record src_ev = rc_id src" using auth by (auto simp: r27_authority_matches_def split: if_splits)
  then have "\<not> content_preserved s1 (rc_id src)" using 1 assms(2,3) by (intro destroyed_not_preserved [of src_ev]) auto
  then have 4: "ev_run E s3 s4 \<and> q_dispositions s4 = q_dispositions s3 \<and> (\<forall>j. j \<noteq> rc_id src \<longrightarrow> get_record s4 j = get_record s3 j)"
    using mark_record_evidence_run [OF _ _ m(1)] 1 same by simp
  have "content_preserved s4 = content_preserved s1" using 4 same by (metis content_preserved_cong)
  then have 5: "ev_run E s4 s5" using mark_pack_records_run [OF _ m(2)] 1 4 same by simp
  from 1 2 3 4 5 mark_artifacts_run [OF m(3)] show ?thesis using run_trans by metis
qed

text \<open>What an approval that goes through has checked.\<close>

lemma approve_worm_destroy_Inr:
  assumes "approve_worm_destroy E actor i k reason now fate s = (s', Inr ())"
  shows "\<exists>q r q' s1 r' ev s2 ms f. load_open_request i k s = Inr q \<and> user_id actor \<noteq> wr_requested_by q \<and>
    get_record s i = Some r \<and> rc_disposition r \<noteq> DISPOSED \<and> destroy_refusal E r True now s = None \<and>
    q' = q\<lparr>wr_approved_by := Some (user_id actor), wr_executed_at := Some now\<rparr> \<and>
    write_tombstone r DESTROY None (Some (user_id actor)) (Some (wr_requested_by q)) True
       (Some (wr_legal_basis q)) None (put_request q' s) = (s1, r', ev) \<and>
    invalidate_sealed_packs E actor r' ev q' now s1 = Inr (s2, ms) \<and>
    s' = purge_marked fate ms (emit_record_event (user_id actor) ''RECORD_WORM_DESTROYED'' i None f s2)"
proof -
  obtain q where q: "load_open_request i k s = Inr q" "user_id actor \<noteq> wr_requested_by q"
    using assms by (auto simp: approve_worm_destroy_def split: sum.splits if_splits)
  obtain r where r: "get_record s i = Some r" "rc_disposition r \<noteq> DISPOSED"
    using assms q by (cases "get_record s i") (auto simp: approve_worm_destroy_def load_record_def split: if_splits)
  have d: "destroy_refusal E r True now s = None"
    using assms q r by (cases "destroy_refusal E r True now s") (auto simp: approve_worm_destroy_def load_record_def)
  obtain s1 r' ev where w: "write_tombstone r DESTROY None (Some (user_id actor)) (Some (wr_requested_by q)) True
      (Some (wr_legal_basis q)) None (put_request (q\<lparr>wr_approved_by := Some (user_id actor), wr_executed_at := Some now\<rparr>) s) = (s1, r', ev)"
    by (metis prod_cases3)
  note u = assms [unfolded approve_worm_destroy_def load_record_def, simplified q r d sum.case option.case if_False Let_def w prod.case]
  show ?thesis
  proof (cases "invalidate_sealed_packs E actor r' ev (q\<lparr>wr_approved_by := Some (user_id actor), wr_executed_at := Some now\<rparr>) now s1")
    case (Inl e)
    with u q r show ?thesis by simp
  next
    case (Inr x)
    obtain s2 ms where x: "x = (s2, ms)" by (cases x)
    with u q r Inr q r d w show ?thesis by (simp, blast)
  qed
qed


lemma approve_worm_destroy_run:
  assumes "ids_ok s" and "approve_worm_destroy E actor i k reason now fate s = (s', Inr ())"
  shows "ev_run E s s'"
proof -
  obtain q r q' s1 r' ev s2 ms f where q: "load_open_request i k s = Inr q" "user_id actor \<noteq> wr_requested_by q"
    and r: "get_record s i = Some r" "destroy_refusal E r True now s = None"
    and q': "q' = q\<lparr>wr_approved_by := Some (user_id actor), wr_executed_at := Some now\<rparr>"
    and w: "write_tombstone r DESTROY None (Some (user_id actor)) (Some (wr_requested_by q)) True
       (Some (wr_legal_basis q)) None (put_request q' s) = (s1, r', ev)"
    and inv: "invalidate_sealed_packs E actor r' ev q' now s1 = Inr (s2, ms)"
    and s': "s' = purge_marked fate ms (emit_record_event (user_id actor) ''RECORD_WORM_DESTROYED'' i None f s2)"
    using approve_worm_destroy_Inr [OF assms(2)] by blast
  have id: "rc_id r = i" using get_record_mem [OF r(1)] by simp
  have hold: "\<not> rc_hold r" using r(2) by (auto simp: destroy_refusal_def Let_def split: if_splits)
  note lq = load_open_request_Inr [OF q(1)]
  have mem: "q' \<in> set (q_requests (put_request q' s))" using lq q' by (force simp: put_request_def)
  have auth: "authorises q' ev" using w lq q' id by (simp add: write_tombstone_state authorises_def)
  then have ord: "ordered (put_request q' s) ev" using mem unfolding ordered_def by blast
  have two: "two_people ev" using w q(2) by (simp add: write_tombstone_state two_people_def)
  have g: "get_record (put_request q' s) (rc_id r) = Some r" using r(1) id get_record_cong [of "put_request q' s" s] by simp
  have "tombstone_allowed (put_request q' s) r ev"
    using w hold ord two by (simp add: write_tombstone_state tombstone_allowed_def)
  note t = tombstone_run [OF g w this, of E]
  have "ev_run E s1 s2"
  proof (rule invalidate_sealed_packs_run [OF _ _ _ two _ inv])
    show "get_record s1 (rc_id r') = Some r'" "ev \<in> set (q_dispositions s1)" using t by simp_all
    show "de_action ev = DESTROY" using w by (simp add: write_tombstone_state)
    show "ordered s1 ev" using ord t by (simp add: ordered_def)
  qed
  moreover have "ev_run E s (put_request q' s)" using settle_run [OF q(1)] q' by simp
  ultimately have "ev_run E s s2" using t run_trans by metis
  then show ?thesis unfolding s' by (intro purge_marked_run run_book(2))
qed

lemma approve_refused_run:
  "approve_worm_destroy E actor i k reason now fate s = (s', Inl e) \<Longrightarrow> ev_run E s s'"
proof -
  assume a: "approve_worm_destroy E actor i k reason now fate s = (s', Inl e)"
  show ?thesis
  proof (cases "s' = s")
    case False
    then have "\<exists>r why. s' = refuse_destroy actor r why s"
      using a by (auto simp: approve_worm_destroy_def Let_def split: sum.splits if_splits option.splits prod.splits)
    then show ?thesis using refuse_run(1) by metis
  qed simp
qed

subsection \<open>The sweep\<close>

lemma auto_dispose_run:
  assumes "get_record s (rc_id r) = Some r" and "\<not> rc_hold r" and "auto_dispose E r p now s = Inr (Some (s', ms))"
  shows "ev_run E s s' \<and> (\<forall>j. j \<noteq> rc_id r \<longrightarrow> get_record s' j = get_record s j)"
proof -
  obtain s1 r' ev where w: "write_tombstone r (rp_action p) (Some (rp_id p)) None None False None None s = (s1, r', ev)"
    by (metis prod_cases3)
  obtain s2 b f where m: "(if rp_action p = DESTROY then mark_record_evidence E r' ev None None s1 else Inr (s1, [])) = Inr (s2, ms)"
    and s': "s' = emit_record_event_system ''RECORD_DISPOSED'' (rc_id r) b f s2"
    using assms(3) unfolding auto_dispose_def w prod.case by (auto split: if_splits)
  have "get_record s' = get_record s2" by (intro get_record_cong) (simp add: s' emit_record_event_system_def log_event_def)
  then show ?thesis using policy_disposal_run [OF assms(1,2) w m] s' run_book(3) by metis
qed

lemma flip_due_run:
  assumes "get_record s (rc_id r) = Some r" and "rc_disposition r = ACTIVE"
  shows "ev_run E s (flip_due r until s) \<and> get_record (flip_due r until s) (rc_id r) = Some (r\<lparr>rc_disposition := DUE_FOR_REVIEW\<rparr>) \<and>
    (\<forall>j. j \<noteq> rc_id r \<longrightarrow> get_record (flip_due r until s) j = get_record s j)"
proof -
  have "ev_run E s (set_disposition r DUE_FOR_REVIEW s)" using assms by (intro set_disposition_run) simp_all
  then have "ev_run E s (flip_due r until s)" unfolding flip_due_def by (rule run_book(3))
  moreover have "get_record (flip_due r until s) = get_record (put_record (r\<lparr>rc_disposition := DUE_FOR_REVIEW\<rparr>) s)"
    by (intro get_record_cong) (simp add: flip_due_def set_disposition_def emit_record_event_system_def log_event_def)
  ultimately show ?thesis using assms(1) by (simp add: get_record_put)
qed

lemma sweep_one_run:
  assumes "get_record s (rc_id r) = Some r" and "\<not> rc_hold r"
    and "sweep_one E now (r, p) (s, specs, su) = Inr (s', specs', su')"
  shows "ev_run E s s' \<and> (\<forall>j. j \<noteq> rc_id r \<longrightarrow> get_record s' j = get_record s j)"
proof (cases "retention_until (rc_basis_date r) (rp_duration p)")
  case (Inl e)
  then show ?thesis using assms(3) by (cases e) (auto simp: sweep_one_def)
next
  case (Inr until)
  define due where "due = (case until of None \<Rightarrow> False | Some d \<Rightarrow> d \<le> utc_date now)"
  define s1 where "s1 = (if rc_disposition r = ACTIVE then flip_due r until s else s)"
  define r1 where "r1 = (if rc_disposition r = ACTIVE then r\<lparr>rc_disposition := DUE_FOR_REVIEW\<rparr> else r)"
  have id: "rc_id r1 = rc_id r" and h: "\<not> rc_hold r1" using assms(2) by (simp_all add: r1_def)
  have 1: "ev_run E s s1 \<and> get_record s1 (rc_id r1) = Some r1 \<and> (\<forall>j. j \<noteq> rc_id r \<longrightarrow> get_record s1 j = get_record s j)"
    using flip_due_run [OF assms(1)] assms(1) by (simp add: s1_def r1_def)
  have "s' = s \<or> s' = s1 \<or> (\<exists>ms. auto_dispose E r1 p now s1 = Inr (Some (s', ms)))"
    using assms(3) unfolding sweep_one_def prod.case Inr sum.case Let_def due_def [symmetric] s1_def [symmetric] r1_def [symmetric]
    by (auto split: if_splits sum.splits option.splits)
  then show ?thesis
  proof (elim disjE exE)
    fix ms assume "auto_dispose E r1 p now s1 = Inr (Some (s', ms))"
    from auto_dispose_run [OF _ h this] 1 id show ?thesis using run_trans by metis
  qed (use 1 in simp_all)
qed

lemma sweep_all_run:
  "distinct (map (rc_id \<circ> fst) xs) \<Longrightarrow> \<forall>x \<in> set xs. get_record s (rc_id (fst x)) = Some (fst x) \<and> \<not> rc_hold (fst x) \<Longrightarrow>
     sweep_all E now xs (s, specs, su) = Inr (s', specs', su') \<Longrightarrow> ev_run E s s'"
proof (induction xs arbitrary: s specs su)
  case (Cons x xs)
  obtain r p where x: "x = (r, p)" by (cases x)
  obtain s1 specs1 su1 where one: "sweep_one E now (r, p) (s, specs, su) = Inr (s1, specs1, su1)"
    and rest: "sweep_all E now xs (s1, specs1, su1) = Inr (s', specs', su')"
    using Cons.prems(3) x by auto
  have "get_record s (rc_id r) = Some r" "\<not> rc_hold r" using Cons.prems(2) x by simp_all
  note a = sweep_one_run [OF this one]
  have "\<forall>y \<in> set xs. get_record s1 (rc_id (fst y)) = Some (fst y) \<and> \<not> rc_hold (fst y)"
  proof
    fix y assume y: "y \<in> set xs"
    have "(rc_id \<circ> fst) y \<in> (rc_id \<circ> fst) ` set xs" using y by simp
    moreover have "(rc_id \<circ> fst) x \<notin> (rc_id \<circ> fst) ` set xs" using Cons.prems(1) by simp
    ultimately have "rc_id (fst y) \<noteq> rc_id r" using x by (metis comp_apply fst_conv)
    then show "get_record s1 (rc_id (fst y)) = Some (fst y) \<and> \<not> rc_hold (fst y)" using a Cons.prems(2) y by simp
  qed
  from Cons.IH [OF _ this rest] Cons.prems(1) a show ?case using run_trans by (metis distinct.simps(2) list.simps(9))
qed simp

lemma due_ids:
  "distinct (map rc_id rs) \<Longrightarrow>
     distinct (map (rc_id \<circ> fst) (concat (map (\<lambda>r. case f r of None \<Rightarrow> [] | Some p \<Rightarrow> if g r p then [(r, p)] else []) rs)))"
proof (induction rs)
  case (Cons r rs)
  have "(rc_id \<circ> fst) ` set (concat (map (\<lambda>r. case f r of None \<Rightarrow> [] | Some p \<Rightarrow> if g r p then [(r, p)] else []) rs)) \<subseteq> rc_id ` set rs"
    by (auto split: option.splits if_splits)
  moreover have "rc_id r \<notin> rc_id ` set rs" using Cons.prems by simp
  ultimately show ?case using Cons by (auto split: option.splits)
qed simp

lemma sweep_due_records_run:
  assumes "ids_ok s" and "sweep_due_records E now fate s = Inr (s', su)"
  shows "ev_run E s s'"
proof -
  obtain s1 specs where sw: "sweep_all E now (due_active_records s) (s, [], \<lparr>su_flipped = 0, su_disposed = 0, su_skipped = 0\<rparr>) = Inr (s1, specs, su)"
    and s': "s' = purge_marked fate specs s1"
    using assms(2) by (auto simp: sweep_due_records_def)
  have d: "distinct (map (rc_id \<circ> fst) (due_active_records s))"
    unfolding due_active_records_def by (rule due_ids) (use assms(1) in \<open>simp add: ids_ok_def\<close>)
  have m: "\<forall>x \<in> set (due_active_records s). get_record s (rc_id (fst x)) = Some (fst x) \<and> \<not> rc_hold (fst x)"
    using assms(1) by (auto simp: due_active_records_def get_record_unique split: option.splits if_splits)
  from sweep_all_run [OF d m sw] show ?thesis unfolding s' by (rule purge_marked_run)
qed

end
