(* ===== verification/CapaSpec.thy ===== *)
theory CapaSpec
  imports Capa RecordsRefine
begin

text \<open>
  What a corrective action promises, apart from how it is programmed: the transitions \<open>trail_step\<close> of the rows
  that document it (the CAPA, its stages, the links to evidence, the signatures) and the invariant they keep.
\<close>

definition trail where
  "trail s = (q_capas s, q_stages s, q_links s, q_signatures s)"

definition signs :: "qms_env \<Rightarrow> q_signature \<Rightarrow> capa_stage \<Rightarrow> bool" where
  "signs E g x \<longleftrightarrow> sg_signature x = Some (qs_id g) \<and> qs_object g = sg_id x \<and> qs_signer g = sg_by x
     \<and> qs_digest g = content_digest (qe_hash E) (sg_block x)"

definition independent :: "qms_env \<Rightarrow> nc_severity \<Rightarrow> capa_stage list \<Rightarrow> uuid \<Rightarrow> bool" where
  "independent E sev earlier u \<longleftrightarrow>
     (\<exists>us. derive_implementer_ids earlier = Inr us \<and> \<not> capa_self_verify_blocked u (set us) sev (qe_self_verify E))"

definition effective :: "qms \<Rightarrow> capa \<Rightarrow> bool" where
  "effective s c \<longleftrightarrow> recorded_decision (cycle_stages s c C_Verify) = Inr verifier_effective
     \<and> (\<exists>x \<in> set (cycle_stages s c C_Implement). stage_has_evidence s (sg_id x))
     \<and> (\<exists>x \<in> set (cycle_stages s c C_Verify). stage_has_evidence s (sg_id x))"

definition needs_signature :: "capa_state \<Rightarrow> bool" where
  "needs_signature st \<longleftrightarrow> st \<in> {C_ActionPlan, C_Verify}"

definition replace_capa :: "capa \<Rightarrow> capa list \<Rightarrow> capa list" where
  "replace_capa c cs = map (\<lambda>x. if ca_id x = ca_id c then c else x) cs"

inductive trail_step :: "qms_env \<Rightarrow> qms \<Rightarrow> qms \<Rightarrow> bool" for E :: qms_env where
  ts_other: "trail s' = trail s \<Longrightarrow> q_next s \<le> q_next s' \<Longrightarrow> trail_step E s s'"
| ts_raise: "q_next s \<le> ca_id c \<Longrightarrow> ca_id c < q_next s' \<Longrightarrow> q_next s \<le> sg_id x \<Longrightarrow> sg_id x < q_next s' \<Longrightarrow>
     ca_state c = C_Raised \<Longrightarrow> sg_capa x = ca_id c \<Longrightarrow> sg_stage x = C_Raised \<Longrightarrow>
     trail s' = (q_capas s @ [c], q_stages s @ [x], q_links s, q_signatures s) \<Longrightarrow> trail_step E s s'"
| ts_stage: "get_capa s (ca_id c) = Some c \<Longrightarrow> capa_allowed (ca_state c) st \<Longrightarrow> st \<notin> {C_Closed, C_Rejected} \<Longrightarrow>
     q_next s \<le> sg_id x \<Longrightarrow> sg_id x < q_next s' \<Longrightarrow>
     sg_capa x = ca_id c \<Longrightarrow> sg_stage x = st \<Longrightarrow> sg_cycle x = ca_cycle c \<Longrightarrow>
     (needs_signature st \<longrightarrow> (\<exists>g \<in> set gs. signs E g x)) \<Longrightarrow>
     (st = C_Verify \<longrightarrow> independent E (ca_severity c) (capa_stages s (ca_id c)) (sg_by x)) \<Longrightarrow>
     trail s' = (replace_capa (c\<lparr>ca_state := st\<rparr>) (q_capas s), q_stages s @ [x], q_links s, q_signatures s @ gs) \<Longrightarrow>
     trail_step E s s'"
| ts_close: "get_capa s (ca_id c) = Some c \<Longrightarrow> ca_state c = C_Verify \<Longrightarrow> effective s c \<Longrightarrow> q_next s \<le> q_next s' \<Longrightarrow>
     trail s' = (replace_capa (c\<lparr>ca_state := C_Closed\<rparr>) (q_capas s), q_stages s, q_links s, q_signatures s) \<Longrightarrow>
     trail_step E s s'"
| ts_loop: "get_capa s (ca_id c) = Some c \<Longrightarrow> ca_state c = C_Verify \<Longrightarrow> q_next s \<le> q_next s' \<Longrightarrow>
     trail s' = (replace_capa (c\<lparr>ca_cycle := ca_cycle c + 1, ca_state := C_RootCause\<rparr>) (q_capas s), q_stages s, q_links s,
       q_signatures s) \<Longrightarrow> trail_step E s s'"
| ts_target: "get_capa s (ca_id c) = Some c \<Longrightarrow> ca_state c \<notin> {C_Closed, C_Rejected} \<Longrightarrow> q_next s \<le> q_next s' \<Longrightarrow>
     trail s' = (replace_capa (c\<lparr>ca_target := d, ca_overdue_at := None\<rparr>) (q_capas s), q_stages s, q_links s, q_signatures s) \<Longrightarrow>
     trail_step E s s'"
| ts_link: "q_next s \<le> el_id l \<Longrightarrow> el_id l < q_next s' \<Longrightarrow>
     trail s' = (q_capas s, q_stages s, q_links s @ [l], q_signatures s) \<Longrightarrow> trail_step E s s'"
| ts_unlink: "l \<in> set (q_links s) \<Longrightarrow> \<not> evidence_frozen s (el_target l) \<Longrightarrow> q_next s \<le> q_next s' \<Longrightarrow>
     trail s' = (q_capas s, q_stages s, filter (\<lambda>x. el_id x \<noteq> el_id l) (q_links s), q_signatures s) \<Longrightarrow> trail_step E s s'"

subsection \<open>The invariant\<close>

definition trail_ids :: "qms \<Rightarrow> bool" where
  "trail_ids s \<longleftrightarrow> distinct (map ca_id (q_capas s)) \<and> (\<forall>c \<in> set (q_capas s). ca_id c < q_next s)
     \<and> distinct (map sg_id (q_stages s)) \<and> (\<forall>x \<in> set (q_stages s). sg_id x < q_next s \<and> sg_capa x \<in> ca_id ` set (q_capas s))
     \<and> distinct (map el_id (q_links s)) \<and> (\<forall>l \<in> set (q_links s). el_id l < q_next s)"

definition passed :: "qms \<Rightarrow> capa \<Rightarrow> bool" where
  "passed s c \<longleftrightarrow>
     (ca_state c \<in> {C_RootCause, C_ActionPlan, C_Implement, C_Verify, C_Closed} \<longrightarrow>
        (\<exists>x \<in> set (capa_stages s (ca_id c)). sg_stage x = C_RootCause))
   \<and> (ca_state c \<in> {C_ActionPlan, C_Implement, C_Verify, C_Closed} \<longrightarrow> cycle_stages s c C_ActionPlan \<noteq> [])
   \<and> (ca_state c \<in> {C_Implement, C_Verify, C_Closed} \<longrightarrow> cycle_stages s c C_Implement \<noteq> [])
   \<and> (ca_state c \<in> {C_Verify, C_Closed} \<longrightarrow> cycle_stages s c C_Verify \<noteq> [])
   \<and> (ca_state c = C_Closed \<longrightarrow> effective s c)"

definition all_signed :: "qms_env \<Rightarrow> qms \<Rightarrow> bool" where
  "all_signed E s \<longleftrightarrow>
     (\<forall>x \<in> set (q_stages s). needs_signature (sg_stage x) \<longrightarrow> (\<exists>g \<in> set (q_signatures s). signs E g x))"

definition stages_before :: "qms \<Rightarrow> capa_stage \<Rightarrow> capa_stage list" where
  "stages_before s x = filter (\<lambda>y. sg_capa y = sg_capa x) (takeWhile (\<lambda>y. y \<noteq> x) (q_stages s))"

definition all_independent :: "qms_env \<Rightarrow> qms \<Rightarrow> bool" where
  "all_independent E s \<longleftrightarrow>
     (\<forall>x \<in> set (q_stages s). \<forall>c \<in> set (q_capas s). sg_stage x = C_Verify \<and> sg_capa x = ca_id c \<longrightarrow>
        independent E (ca_severity c) (stages_before s x) (sg_by x))"

definition trail_inv :: "qms_env \<Rightarrow> qms \<Rightarrow> bool" where
  "trail_inv E s \<longleftrightarrow> trail_ids s \<and> (\<forall>c \<in> set (q_capas s). passed s c) \<and> all_signed E s \<and> all_independent E s"

lemma trail_inv_empty: "trail_inv E empty_qms"
  by (simp add: trail_inv_def trail_ids_def all_signed_def all_independent_def empty_qms_def)

lemma trail_eq:
  "trail s = (cs, xs, ls, gs) \<longleftrightarrow> q_capas s = cs \<and> q_stages s = xs \<and> q_links s = ls \<and> q_signatures s = gs"
  by (auto simp: trail_def)

subsection \<open>Every transition keeps it\<close>

lemma get_capa_mem: "get_capa s i = Some c \<Longrightarrow> c \<in> set (q_capas s) \<and> ca_id c = i"
  unfolding get_capa_def by (rule find_key_SomeD)

lemma replace_capa_ids [simp]: "map ca_id (replace_capa c cs) = map ca_id cs"
  unfolding replace_capa_def by (rule map_key_put)

lemma replace_capa_image [simp]: "ca_id ` set (replace_capa c cs) = ca_id ` set cs"
  using replace_capa_ids [of c cs] by (metis list.set_map)

lemma replace_capa_mem: "x \<in> set (replace_capa c cs) \<Longrightarrow> x = c \<and> ca_id c \<in> ca_id ` set cs \<or> x \<in> set cs \<and> ca_id x \<noteq> ca_id c"
  by (auto simp: replace_capa_def image_iff split: if_splits) (metis+)

lemma replace_capa_keep: "x \<in> set cs \<Longrightarrow> ca_id x \<noteq> ca_id c \<Longrightarrow> x \<in> set (replace_capa c cs)"
  by (force simp: replace_capa_def)

lemma trail_ids_replace:
  assumes "trail_ids s" and "q_next s \<le> q_next s'"
    and "q_capas s' = replace_capa c (q_capas s)" and "q_stages s' = q_stages s" and "q_links s' = q_links s"
  shows "trail_ids s'"
proof -
  have "(\<forall>x \<in> set (q_capas s'). ca_id x < q_next s') \<longleftrightarrow> (\<forall>i \<in> ca_id ` set (q_capas s'). i < q_next s')" by blast
  also have "\<dots> \<longleftrightarrow> (\<forall>i \<in> ca_id ` set (q_capas s). i < q_next s')" by (simp only: assms(3) replace_capa_image)
  finally show ?thesis using assms unfolding trail_ids_def by (force simp: less_le_trans)
qed

lemma trail_step_next: "trail_step E s s' \<Longrightarrow> q_next s \<le> q_next s'"
  by (induction rule: trail_step.induct) auto

lemma trail_step_ids: "trail_step E s s' \<Longrightarrow> trail_ids s \<Longrightarrow> trail_ids s'"
proof (induction rule: trail_step.induct)
  case (ts_other s' s)
  then show ?case by (force simp: trail_ids_def trail_def)
next
  case (ts_raise s c s' x)
  then show ?case unfolding trail_eq trail_ids_def by (elim conjE, simp) force
next
  case (ts_stage s c st x s' gs)
  let ?t = "s\<lparr>q_capas := replace_capa (c\<lparr>ca_state := st\<rparr>) (q_capas s)\<rparr>"
  have "trail_ids ?t" by (rule trail_ids_replace [OF ts_stage(12)]) simp_all
  moreover have "ca_id c \<in> ca_id ` set (q_capas ?t)" using get_capa_mem [OF ts_stage(1)] by simp
  ultimately show ?case using ts_stage(4-6,11) unfolding trail_eq trail_ids_def by (elim conjE, simp) force
next
  case (ts_link s l s')
  then show ?case unfolding trail_eq trail_ids_def by (elim conjE, simp) force
next
  case (ts_unlink l s s')
  then show ?case unfolding trail_eq trail_ids_def by (elim conjE, simp) (force simp: distinct_map_filter)
next
  case (ts_close s c s')
  then show ?case by (intro trail_ids_replace [OF ts_close(6)]) (simp_all add: trail_eq)
next
  case (ts_loop s c s')
  then show ?case by (intro trail_ids_replace [OF ts_loop(5)]) (simp_all add: trail_eq)
next
  case (ts_target s c s' d)
  then show ?case by (intro trail_ids_replace [OF ts_target(5)]) (simp_all add: trail_eq)
qed


lemma capa_unique: "trail_ids s \<Longrightarrow> get_capa s i = Some c \<longleftrightarrow> c \<in> set (q_capas s) \<and> ca_id c = i"
  unfolding get_capa_def trail_ids_def by (rule find_by_key) simp

lemma stage_unique: "trail_ids s \<Longrightarrow> get_stage s i = Some x \<longleftrightarrow> x \<in> set (q_stages s) \<and> sg_id x = i"
  unfolding get_stage_def trail_ids_def by (rule find_by_key) simp

lemma same_capa: "trail_ids s \<Longrightarrow> c \<in> set (q_capas s) \<Longrightarrow> c' \<in> set (q_capas s) \<Longrightarrow> ca_id c = ca_id c' \<Longrightarrow> c = c'"
  by (metis capa_unique option.inject)

lemma capa_stages_append:
  "q_stages s' = q_stages s @ [x] \<Longrightarrow> capa_stages s' i = capa_stages s i @ (if sg_capa x = i then [x] else [])"
  by (simp add: capa_stages_def)

lemma capa_stages_cong: "q_stages s' = q_stages s \<Longrightarrow> capa_stages s' = capa_stages s"
  by (simp add: capa_stages_def fun_eq_iff)

lemma evidence_cong: "q_links s' = q_links s \<Longrightarrow> stage_has_evidence s' = stage_has_evidence s"
  by (simp add: stage_has_evidence_def fun_eq_iff)

lemma effective_keep:
  assumes "effective s c" and "capa_stages s' (ca_id c) = capa_stages s (ca_id c)"
    and "\<And>x. x \<in> set (capa_stages s (ca_id c)) \<Longrightarrow> stage_has_evidence s (sg_id x) \<Longrightarrow> stage_has_evidence s' (sg_id x)"
  shows "effective s' c"
proof -
  have "cycle_stages s' c st = cycle_stages s c st" for st using assms(2) by (simp add: cycle_stages_def)
  moreover have "x \<in> set (capa_stages s (ca_id c))" if "x \<in> set (cycle_stages s c st)" for x st
    using that by (simp add: cycle_stages_def)
  ultimately show ?thesis using assms(1,3) unfolding effective_def by metis
qed

lemma passed_keep:
  assumes "passed s c" and "capa_stages s' (ca_id c) = capa_stages s (ca_id c)"
    and "ca_state c = C_Closed \<Longrightarrow> effective s c \<Longrightarrow> effective s' c"
  shows "passed s' c"
proof -
  have "cycle_stages s' c st = cycle_stages s c st" for st using assms(2) by (simp add: cycle_stages_def)
  then show ?thesis using assms unfolding passed_def by metis
qed

lemma passed_same:
  "passed s c \<Longrightarrow> capa_stages s' (ca_id c) = capa_stages s (ca_id c) \<Longrightarrow> q_links s' = q_links s \<Longrightarrow> passed s' c"
  using passed_keep effective_keep evidence_cong by metis

text \<open>A CAPA that moves on has documented the step it is in.\<close>

lemma passed_stage:
  assumes "passed s c" and "capa_allowed (ca_state c) st" and "st \<notin> {C_Closed, C_Rejected}"
    and "sg_capa x = ca_id c" and "sg_stage x = st" and "sg_cycle x = ca_cycle c" and "q_stages s' = q_stages s @ [x]"
  shows "passed s' (c\<lparr>ca_state := st\<rparr>)"
proof -
  let ?c = "c\<lparr>ca_state := st\<rparr>"
  have cs: "capa_stages s' (ca_id c) = capa_stages s (ca_id c) @ [x]" using assms(4) capa_stages_append [OF assms(7)] by simp
  have cy: "cycle_stages s' ?c t = cycle_stages s c t @ (if t = st then [x] else [])" for t
    using assms(5,6) by (auto simp: cycle_stages_def cs)
  show ?thesis using assms(1-3,5) unfolding passed_def cy
    by (cases "ca_state c"; simp add: capa_allowed_def cs; elim disjE; simp; blast?)
qed

lemma passed_retarget: "passed s c \<Longrightarrow> capa_stages s' = capa_stages s \<Longrightarrow> ca_id c' = ca_id c \<Longrightarrow> ca_state c' = ca_state c \<Longrightarrow>
  ca_cycle c' = ca_cycle c \<Longrightarrow> ca_state c \<noteq> C_Closed \<Longrightarrow> passed s' c'"
  unfolding passed_def cycle_stages_def by simp

lemma frozen_link:
  assumes "trail_ids s" and "c \<in> set (q_capas s)" and "ca_state c = C_Closed" and "x \<in> set (capa_stages s (ca_id c))"
  shows "evidence_frozen s (TCapaStage (sg_id x))"
proof -
  have x: "x \<in> set (q_stages s)" "sg_capa x = ca_id c" using assms(4) by (simp_all add: capa_stages_def)
  have "get_stage s (sg_id x) = Some x" using stage_unique [OF assms(1)] x by simp
  moreover have "get_capa s (sg_capa x) = Some c" using capa_unique [OF assms(1)] x assms(2) by simp
  ultimately show ?thesis using assms(3) by (simp add: evidence_frozen_def)
qed

lemma evidence_stays:
  assumes "trail_ids s" and "l \<in> set (q_links s)" and "\<not> evidence_frozen s (el_target l)"
    and "q_links s' = filter (\<lambda>x. el_id x \<noteq> el_id l) (q_links s)"
    and "k \<in> set (q_links s)" and "evidence_frozen s (el_target k)"
  shows "k \<in> set (q_links s')"
proof -
  have "k \<noteq> l" using assms(3,6) by auto
  then have "el_id k \<noteq> el_id l" using assms(1,2,5) unfolding trail_ids_def by (metis (no_types) distinct_map inj_onD)
  then show ?thesis using assms(4,5) by simp
qed

lemma passed_unlink:
  assumes "trail_ids s" and "c \<in> set (q_capas s)" and "passed s c" and "q_stages s' = q_stages s"
    and "l \<in> set (q_links s)" and "\<not> evidence_frozen s (el_target l)"
    and "q_links s' = filter (\<lambda>x. el_id x \<noteq> el_id l) (q_links s)"
  shows "passed s' c"
proof (rule passed_keep [OF assms(3)])
  show cs: "capa_stages s' (ca_id c) = capa_stages s (ca_id c)" using capa_stages_cong [OF assms(4)] by simp
  assume closed: "ca_state c = C_Closed" and eff: "effective s c"
  show "effective s' c"
  proof (rule effective_keep [OF eff cs])
    fix x assume x: "x \<in> set (capa_stages s (ca_id c))" and "stage_has_evidence s (sg_id x)"
    then obtain k where k: "k \<in> set (q_links s)" "el_target k = TCapaStage (sg_id x)"
      by (auto simp: stage_has_evidence_def list_ex_iff)
    have "k \<in> set (q_links s')"
      using evidence_stays [OF assms(1,5,6,7) k(1)] frozen_link [OF assms(1,2) closed x] k(2) by simp
    then show "stage_has_evidence s' (sg_id x)" using k(2) by (auto simp: stage_has_evidence_def list_ex_iff)
  qed
qed

abbreviation all_passed :: "qms \<Rightarrow> bool" where
  "all_passed s \<equiv> \<forall>c \<in> set (q_capas s). passed s c"

lemma all_passed_replace:
  assumes "all_passed s" and "q_capas s' = replace_capa c' (q_capas s)" and "passed s' c'"
    and "\<And>c. c \<in> set (q_capas s) \<Longrightarrow> ca_id c \<noteq> ca_id c' \<Longrightarrow> passed s c \<Longrightarrow> passed s' c"
  shows "all_passed s'"
  using assms replace_capa_mem [of _ c' "q_capas s"] by metis

lemma trail_step_passed: "trail_step E s s' \<Longrightarrow> trail_ids s \<Longrightarrow> all_passed s \<Longrightarrow> all_passed s'"
proof (induction rule: trail_step.induct)
  case (ts_other s' s)
  then have t: "q_capas s' = q_capas s" "q_stages s' = q_stages s" "q_links s' = q_links s" by (simp_all add: trail_def)
  then show ?case using ts_other(4) passed_same capa_stages_cong by metis
next
  case (ts_raise s c s' x)
  then have t: "q_capas s' = q_capas s @ [c]" "q_stages s' = q_stages s @ [x]" "q_links s' = q_links s" by (simp_all add: trail_eq)
  have "passed s' d" if d: "d \<in> set (q_capas s)" for d
  proof (rule passed_same)
    have "ca_id d < q_next s" using ts_raise(9) d by (simp add: trail_ids_def)
    then show "capa_stages s' (ca_id d) = capa_stages s (ca_id d)" using ts_raise(1,6) capa_stages_append [OF t(2)] by simp
  qed (use d ts_raise(10) t in simp_all)
  moreover have "passed s' c" using ts_raise(5) by (simp add: passed_def)
  ultimately show ?case using t(1) by auto
next
  case (ts_stage s c st x s' gs)
  then have t: "q_capas s' = replace_capa (c\<lparr>ca_state := st\<rparr>) (q_capas s)" "q_stages s' = q_stages s @ [x]" "q_links s' = q_links s"
    by (simp_all add: trail_eq)
  show ?case
  proof (rule all_passed_replace [OF ts_stage(13) t(1)])
    show "passed s' (c\<lparr>ca_state := st\<rparr>)"
      using ts_stage(13) get_capa_mem [OF ts_stage(1)] by (intro passed_stage [OF _ ts_stage(2,3,6,7,8) t(2)]) blast
    fix d assume "ca_id d \<noteq> ca_id (c\<lparr>ca_state := st\<rparr>)" and d: "passed s d"
    then show "passed s' d" using ts_stage(6) capa_stages_append [OF t(2)] by (intro passed_same [OF d _ t(3)]) simp
  qed
next
  case (ts_close s c s')
  then have t: "q_capas s' = replace_capa (c\<lparr>ca_state := C_Closed\<rparr>) (q_capas s)" "q_stages s' = q_stages s" "q_links s' = q_links s"
    by (simp_all add: trail_eq)
  show ?case
  proof (rule all_passed_replace [OF ts_close(7) t(1)])
    have "passed s c" using ts_close(7) get_capa_mem [OF ts_close(1)] by blast
    moreover have "effective s' c" using effective_keep [OF ts_close(3)] capa_stages_cong [OF t(2)] evidence_cong [OF t(3)] by simp
    ultimately show "passed s' (c\<lparr>ca_state := C_Closed\<rparr>)"
      using ts_close(2) capa_stages_cong [OF t(2)] by (simp add: passed_def cycle_stages_def effective_def)
    fix d assume d: "passed s d"
    show "passed s' d" using capa_stages_cong [OF t(2)] by (intro passed_same [OF d _ t(3)]) simp
  qed
next
  case (ts_loop s c s')
  then have t: "q_capas s' = replace_capa (c\<lparr>ca_cycle := ca_cycle c + 1, ca_state := C_RootCause\<rparr>) (q_capas s)"
    "q_stages s' = q_stages s" "q_links s' = q_links s"
    by (simp_all add: trail_eq)
  show ?case
  proof (rule all_passed_replace [OF ts_loop(6) t(1)])
    have "passed s c" using ts_loop(6) get_capa_mem [OF ts_loop(1)] by blast
    then show "passed s' (c\<lparr>ca_cycle := ca_cycle c + 1, ca_state := C_RootCause\<rparr>)"
      using ts_loop(2) capa_stages_cong [OF t(2)] by (simp add: passed_def)
    fix d assume d: "passed s d"
    show "passed s' d" using capa_stages_cong [OF t(2)] by (intro passed_same [OF d _ t(3)]) simp
  qed
next
  case (ts_target s c s' d)
  then have t: "q_capas s' = replace_capa (c\<lparr>ca_target := d, ca_overdue_at := None\<rparr>) (q_capas s)" "q_stages s' = q_stages s" "q_links s' = q_links s"
    by (simp_all add: trail_eq)
  show ?case
  proof (rule all_passed_replace [OF ts_target(6) t(1)])
    have "passed s c" using ts_target(6) get_capa_mem [OF ts_target(1)] by blast
    then show "passed s' (c\<lparr>ca_target := d, ca_overdue_at := None\<rparr>)"
      by (rule passed_retarget) (use ts_target(2) capa_stages_cong [OF t(2)] in simp_all)
    fix d assume d: "passed s d"
    show "passed s' d" using capa_stages_cong [OF t(2)] by (intro passed_same [OF d _ t(3)]) simp
  qed
next
  case (ts_link s l s')
  then have t: "q_capas s' = q_capas s" "q_stages s' = q_stages s" "q_links s' = q_links s @ [l]" by (simp_all add: trail_eq)
  have "passed s' c" if c: "c \<in> set (q_capas s)" for c
  proof (rule passed_keep)
    show "passed s c" using ts_link(5) c by blast
    show cs: "capa_stages s' (ca_id c) = capa_stages s (ca_id c)" using capa_stages_cong [OF t(2)] by simp
    assume "effective s c"
    then show "effective s' c" using cs by (rule effective_keep) (simp add: stage_has_evidence_def t(3))
  qed
  then show ?case using t(1) by simp
next
  case (ts_unlink l s s')
  then have t: "q_capas s' = q_capas s" "q_stages s' = q_stages s" "q_links s' = filter (\<lambda>x. el_id x \<noteq> el_id l) (q_links s)"
    by (simp_all add: trail_eq)
  then show ?case using passed_unlink [OF ts_unlink(5) _ _ t(2) ts_unlink(1,2) t(3)] ts_unlink(6) by metis
qed


lemma trail_step_signed: "trail_step E s s' \<Longrightarrow> all_signed E s \<Longrightarrow> all_signed E s'"
proof (induction rule: trail_step.induct)
  case (ts_raise s c s' x)
  then show ?case by (simp add: trail_eq all_signed_def needs_signature_def)
next
  case (ts_stage s c st x s' gs)
  then show ?case by (simp add: trail_eq all_signed_def) blast
qed (simp_all add: trail_eq all_signed_def, simp add: trail_def)

lemma stages_before_old:
  assumes "x \<in> set (q_stages s)" and "prefix (q_stages s) (q_stages s')"
  shows "stages_before s' x = stages_before s x"
proof -
  obtain ys where "q_stages s' = q_stages s @ ys" using assms(2) by (auto simp: prefix_def)
  then show ?thesis using assms(1) takeWhile_append1 [of x "q_stages s" "\<lambda>y. y \<noteq> x" ys] by (simp add: stages_before_def)
qed

lemma stages_before_new:
  assumes "x \<notin> set (q_stages s)" and "q_stages s' = q_stages s @ [x]"
  shows "stages_before s' x = capa_stages s (sg_capa x)"
proof -
  have "takeWhile (\<lambda>y. y \<noteq> x) (q_stages s @ [x]) = q_stages s"
    using assms(1) takeWhile_append2 [of "q_stages s" "\<lambda>y. y \<noteq> x" "[x]"] by fastforce
  then show ?thesis by (simp add: stages_before_def capa_stages_def assms(2))
qed

lemma all_independent_keep:
  assumes "all_independent E s" and "prefix (q_stages s) (q_stages s')"
    and "\<And>x. x \<in> set (q_stages s') \<Longrightarrow> sg_stage x = C_Verify \<Longrightarrow> x \<in> set (q_stages s)"
    and "\<And>x c'. x \<in> set (q_stages s) \<Longrightarrow> c' \<in> set (q_capas s') \<Longrightarrow> sg_capa x = ca_id c' \<Longrightarrow>
        \<exists>c \<in> set (q_capas s). ca_id c = ca_id c' \<and> ca_severity c = ca_severity c'"
  shows "all_independent E s'"
  unfolding all_independent_def
proof (intro ballI impI, elim conjE)
  fix x c' assume x: "x \<in> set (q_stages s')" "c' \<in> set (q_capas s')" "sg_stage x = C_Verify" "sg_capa x = ca_id c'"
  then have old: "x \<in> set (q_stages s)" using assms(3) by blast
  then obtain c where c: "c \<in> set (q_capas s)" "ca_id c = ca_id c'" "ca_severity c = ca_severity c'" using assms(4) x by blast
  then have "independent E (ca_severity c) (stages_before s x) (sg_by x)"
    using assms(1) old x(3,4) unfolding all_independent_def by metis
  then show "independent E (ca_severity c') (stages_before s' x) (sg_by x)"
    using c(3) stages_before_old [OF old assms(2)] by simp
qed

lemma replace_severity:
  "get_capa s (ca_id c) = Some c \<Longrightarrow> ca_id c' = ca_id c \<Longrightarrow> ca_severity c' = ca_severity c \<Longrightarrow> d \<in> set (replace_capa c' (q_capas s)) \<Longrightarrow>
     \<exists>e \<in> set (q_capas s). ca_id e = ca_id d \<and> ca_severity e = ca_severity d"
  using replace_capa_mem get_capa_mem by metis

lemma trail_step_independent:
  "trail_step E s s' \<Longrightarrow> trail_ids s \<Longrightarrow> all_independent E s \<Longrightarrow> all_independent E s'"
proof (induction rule: trail_step.induct)
  case (ts_other s' s)
  then show ?case by (intro all_independent_keep [OF ts_other(4)]) (auto simp: trail_def)
next
  case (ts_raise s c s' x)
  then have t: "q_capas s' = q_capas s @ [c]" "q_stages s' = q_stages s @ [x]" by (simp_all add: trail_eq)
  show ?case
  proof (rule all_independent_keep [OF ts_raise(10)])
    fix y d assume y: "y \<in> set (q_stages s)" "d \<in> set (q_capas s')" "sg_capa y = ca_id d"
    then have "ca_id d \<in> ca_id ` set (q_capas s)" using ts_raise(9) unfolding trail_ids_def by metis
    then have "ca_id d < q_next s" using ts_raise(9) by (auto simp: trail_ids_def)
    then have "d \<in> set (q_capas s)" using y(2) t(1) ts_raise(1) by auto
    then show "\<exists>e \<in> set (q_capas s). ca_id e = ca_id d \<and> ca_severity e = ca_severity d" by blast
  qed (use t ts_raise(7) in auto)
next
  case (ts_stage s c st x s' gs)
  then have t: "q_capas s' = replace_capa (c\<lparr>ca_state := st\<rparr>) (q_capas s)" "q_stages s' = q_stages s @ [x]"
    by (simp_all add: trail_eq)
  have sev: "\<exists>e \<in> set (q_capas s). ca_id e = ca_id d \<and> ca_severity e = ca_severity d" if "d \<in> set (q_capas s')" for d
    using replace_severity [OF ts_stage(1), of "c\<lparr>ca_state := st\<rparr>" d] that t(1) by simp
  let ?u = "s'\<lparr>q_stages := q_stages s\<rparr>"
  have u: "all_independent E ?u"
    by (rule all_independent_keep [OF ts_stage(13)]) (use sev in auto)
  have new: "x \<notin> set (q_stages s)" using ts_stage(4,12) by (auto simp: trail_ids_def)
  show ?case unfolding all_independent_def
  proof (intro ballI impI, elim conjE)
    fix y d assume y: "y \<in> set (q_stages s')" "d \<in> set (q_capas s')" "sg_stage y = C_Verify" "sg_capa y = ca_id d"
    show "independent E (ca_severity d) (stages_before s' y) (sg_by y)"
    proof (cases "y = x")
      case True
      have "ca_id d = ca_id c" using True y(4) ts_stage(6) by simp
      then have "ca_severity d = ca_severity c" using sev [OF y(2)] get_capa_mem [OF ts_stage(1)] same_capa [OF ts_stage(12)] by metis
      then show ?thesis using True ts_stage(6,7,10) y(3) stages_before_new [OF new t(2)] by simp
    next
      case False
      then have old: "y \<in> set (q_stages s)" using y(1) t(2) by simp
      then have "independent E (ca_severity d) (stages_before ?u y) (sg_by y)" using u y by (simp add: all_independent_def)
      moreover have "stages_before s' y = stages_before ?u y" using old t(2) by (intro stages_before_old) simp_all
      ultimately show ?thesis by simp
    qed
  qed
next
  case (ts_close s c s')
  then have t: "q_capas s' = replace_capa (c\<lparr>ca_state := C_Closed\<rparr>) (q_capas s)" "q_stages s' = q_stages s" by (simp_all add: trail_eq)
  show ?case using replace_severity [OF ts_close(1), of "c\<lparr>ca_state := C_Closed\<rparr>"]
    by (intro all_independent_keep [OF ts_close(7)]) (simp_all add: t)
next
  case (ts_loop s c s')
  let ?c = "c\<lparr>ca_cycle := ca_cycle c + 1, ca_state := C_RootCause\<rparr>"
  have t: "q_capas s' = replace_capa ?c (q_capas s)" "q_stages s' = q_stages s" using ts_loop(4) by (simp_all add: trail_eq)
  show ?case using replace_severity [OF ts_loop(1), of ?c]
    by (intro all_independent_keep [OF ts_loop(6)]) (simp_all add: t)
next
  case (ts_target s c s' d)
  let ?c = "c\<lparr>ca_target := d, ca_overdue_at := None\<rparr>"
  have t: "q_capas s' = replace_capa ?c (q_capas s)" "q_stages s' = q_stages s" using ts_target(4) by (simp_all add: trail_eq)
  show ?case using replace_severity [OF ts_target(1), of ?c]
    by (intro all_independent_keep [OF ts_target(6)]) (simp_all add: t)
next
  case (ts_link s l s')
  then show ?case by (intro all_independent_keep [OF ts_link(5)]) (auto simp: trail_eq)
next
  case (ts_unlink l s s')
  then show ?case by (intro all_independent_keep [OF ts_unlink(6)]) (auto simp: trail_eq)
qed

theorem trail_step_inv: "trail_step E s s' \<Longrightarrow> trail_inv E s \<Longrightarrow> trail_inv E s'"
  unfolding trail_inv_def using trail_step_ids trail_step_passed trail_step_signed trail_step_independent by metis

subsection \<open>A closed corrective action is final\<close>

definition trail_evolves :: "qms \<Rightarrow> qms \<Rightarrow> bool" where
  "trail_evolves s s' \<longleftrightarrow>
     prefix (q_stages s) (q_stages s') \<and> prefix (q_signatures s) (q_signatures s')
     \<and> (\<forall>c \<in> set (q_capas s). ca_state c = C_Closed \<longrightarrow> c \<in> set (q_capas s') \<and> capa_stages s' (ca_id c) = capa_stages s (ca_id c))
     \<and> (\<forall>l \<in> set (q_links s). evidence_frozen s (el_target l) \<longrightarrow> l \<in> set (q_links s') \<and> evidence_frozen s' (el_target l))"

lemma trail_evolves_trans: "trail_evolves s t \<Longrightarrow> trail_evolves t u \<Longrightarrow> trail_evolves s u"
  unfolding trail_evolves_def by (intro conjI; metis prefix_order.trans)


lemma trail_evolves_refl [simp]: "trail_evolves s s"
  by (simp add: trail_evolves_def)

lemma frozen_cases:
  assumes "evidence_frozen s t"
  obtains i x where "t = TCapaStage i" and "get_stage s i = Some x"
    and "sg_stage x = C_Verify \<or> (\<exists>c. get_capa s (sg_capa x) = Some c \<and> ca_state c = C_Closed)"
  using assms by (cases t) (auto simp: evidence_frozen_def split: option.splits)

lemma frozen_stays:
  assumes "evidence_frozen s t" and "trail_ids s" and "trail_ids s'" and "prefix (q_stages s) (q_stages s')"
    and "\<And>c. c \<in> set (q_capas s) \<Longrightarrow> ca_state c = C_Closed \<Longrightarrow> c \<in> set (q_capas s')"
  shows "evidence_frozen s' t"
proof -
  obtain i x where t: "t = TCapaStage i" "get_stage s i = Some x"
    and x: "sg_stage x = C_Verify \<or> (\<exists>c. get_capa s (sg_capa x) = Some c \<and> ca_state c = C_Closed)"
    using assms(1) by (rule frozen_cases)
  have "get_stage s' i = Some x" using t(2) assms(4) by (auto simp: get_stage_def prefix_def find_append)
  moreover have "sg_stage x = C_Verify \<or> (\<exists>c. get_capa s' (sg_capa x) = Some c \<and> ca_state c = C_Closed)"
    using x assms(5) capa_unique [OF assms(2)] capa_unique [OF assms(3)] by metis
  ultimately show ?thesis using t(1) by (auto simp: evidence_frozen_def)
qed

lemma trail_evolvesI:
  assumes "trail_ids s" and "trail_ids s'" and "prefix (q_stages s) (q_stages s')" and "prefix (q_signatures s) (q_signatures s')"
    and "\<And>c. c \<in> set (q_capas s) \<Longrightarrow> ca_state c = C_Closed \<Longrightarrow> c \<in> set (q_capas s')"
    and "\<And>c. c \<in> set (q_capas s) \<Longrightarrow> ca_state c = C_Closed \<Longrightarrow> capa_stages s' (ca_id c) = capa_stages s (ca_id c)"
    and "\<And>l. l \<in> set (q_links s) \<Longrightarrow> evidence_frozen s (el_target l) \<Longrightarrow> l \<in> set (q_links s')"
  shows "trail_evolves s s'"
  unfolding trail_evolves_def using assms(3-7) frozen_stays [OF _ assms(1,2,3,5)] by blast

lemma closed_kept:
  assumes "trail_ids s" and "get_capa s (ca_id c) = Some c" and "ca_state c \<noteq> C_Closed" and "ca_id c' = ca_id c"
    and "d \<in> set (q_capas s)" and "ca_state d = C_Closed"
  shows "d \<in> set (replace_capa c' (q_capas s))" and "ca_id d \<noteq> ca_id c"
proof -
  show "ca_id d \<noteq> ca_id c" using same_capa [OF assms(1,5)] get_capa_mem [OF assms(2)] assms(3,6) by metis
  then show "d \<in> set (replace_capa c' (q_capas s))" using assms(4,5) by (intro replace_capa_keep) simp_all
qed

lemma trail_step_evolves: "trail_step E s s' \<Longrightarrow> trail_ids s \<Longrightarrow> trail_evolves s s'"
proof -
  assume step: "trail_step E s s'" and ids: "trail_ids s"
  then have ids': "trail_ids s'" by (rule trail_step_ids)
  from step ids show ?thesis
  proof (cases rule: trail_step.cases)
    case ts_other
    then show ?thesis by (intro trail_evolvesI [OF ids ids']) (simp_all add: trail_def capa_stages_def)
  next
    case (ts_raise c x)
    then have t: "q_capas s' = q_capas s @ [c]" "q_stages s' = q_stages s @ [x]" "q_links s' = q_links s" "q_signatures s' = q_signatures s"
      by (simp_all add: trail_eq)
    have "ca_id d \<noteq> ca_id c" if "d \<in> set (q_capas s)" for d
      using that ids ts_raise(1) by (auto simp: trail_ids_def)
    then have "capa_stages s' (ca_id d) = capa_stages s (ca_id d)" if "d \<in> set (q_capas s)" for d
      using that ts_raise(6) capa_stages_append [OF t(2), of "ca_id d"] by simp metis
    then show ?thesis by (intro trail_evolvesI [OF ids ids']) (simp_all add: t)
  next
    case (ts_stage c st x gs)
    then have t: "q_capas s' = replace_capa (c\<lparr>ca_state := st\<rparr>) (q_capas s)" "q_stages s' = q_stages s @ [x]" "q_links s' = q_links s"
      "q_signatures s' = q_signatures s @ gs" by (simp_all add: trail_eq)
    have open': "ca_state c \<noteq> C_Closed" using ts_stage(2) by (auto simp: capa_allowed_def)
    note k = closed_kept [OF ids ts_stage(1) open', of "c\<lparr>ca_state := st\<rparr>"]
    show ?thesis
    proof (rule trail_evolvesI [OF ids ids'])
      fix d assume d: "d \<in> set (q_capas s)" "ca_state d = C_Closed"
      show "d \<in> set (q_capas s')" using k(1) d t(1) by simp
      show "capa_stages s' (ca_id d) = capa_stages s (ca_id d)" using k(2) [OF _ d] ts_stage(6) capa_stages_append [OF t(2), of "ca_id d"] by (simp add: eq_commute)
    qed (simp_all add: t)
  next
    case (ts_close c)
    then have t: "q_capas s' = replace_capa (c\<lparr>ca_state := C_Closed\<rparr>) (q_capas s)" "q_stages s' = q_stages s" "q_links s' = q_links s"
      "q_signatures s' = q_signatures s" by (simp_all add: trail_eq)
    show ?thesis using closed_kept(1) [OF ids ts_close(1), of "c\<lparr>ca_state := C_Closed\<rparr>"] ts_close(2) capa_stages_cong [OF t(2)]
      by (intro trail_evolvesI [OF ids ids']) (simp_all add: t)
  next
    case (ts_loop c)
    let ?c = "c\<lparr>ca_cycle := ca_cycle c + 1, ca_state := C_RootCause\<rparr>"
    have t: "q_capas s' = replace_capa ?c (q_capas s)" "q_stages s' = q_stages s" "q_links s' = q_links s"
      "q_signatures s' = q_signatures s" using ts_loop by (simp_all add: trail_eq)
    show ?thesis using closed_kept(1) [OF ids ts_loop(1), of ?c] ts_loop(2) capa_stages_cong [OF t(2)]
      by (intro trail_evolvesI [OF ids ids']) (simp_all add: t)
  next
    case (ts_target c d)
    let ?c = "c\<lparr>ca_target := d, ca_overdue_at := None\<rparr>"
    have t: "q_capas s' = replace_capa ?c (q_capas s)" "q_stages s' = q_stages s" "q_links s' = q_links s"
      "q_signatures s' = q_signatures s" using ts_target by (simp_all add: trail_eq)
    show ?thesis using closed_kept(1) [OF ids ts_target(1), of ?c] ts_target(2) capa_stages_cong [OF t(2)]
      by (intro trail_evolvesI [OF ids ids']) (simp_all add: t)
  next
    case (ts_link l)
    then show ?thesis by (intro trail_evolvesI [OF ids ids']) (simp_all add: trail_eq capa_stages_def)
  next
    case (ts_unlink l)
    then have t: "q_capas s' = q_capas s" "q_stages s' = q_stages s" "q_links s' = filter (\<lambda>x. el_id x \<noteq> el_id l) (q_links s)"
      "q_signatures s' = q_signatures s" by (simp_all add: trail_eq)
    show ?thesis using evidence_stays [OF ids ts_unlink(1,2) t(3)] capa_stages_cong [OF t(2)]
      by (intro trail_evolvesI [OF ids ids']) (simp_all add: t(1,2,4))
  qed
qed

interpretation capa_trail: evolving "trail_step E" "trail_inv E" trail_evolves for E
proof
  fix s t u :: qms
  show "trail_inv E t" if "trail_step E s t" "trail_inv E s" using trail_step_inv that .
  show "trail_evolves s t" if "trail_step E s t" "trail_inv E s" using trail_step_evolves that by (simp add: trail_inv_def)
  show "trail_evolves s u" if "trail_evolves s t" "trail_evolves t u" using trail_evolves_trans that .
qed simp

end
