(* ===== verification/CapaRefine.thy ===== *)
theory CapaRefine
  imports CapaSpec
begin

text \<open>
  The operations on complaints, CAPAs, nonconformities and evidence links refine the transitions of \<open>CapaSpec\<close>, and
  leave the evidence store as a run of captures does.
\<close>

subsection \<open>The tables of the evidence store\<close>

definition store_frame :: "qms \<Rightarrow> qms \<Rightarrow> bool" where
  "store_frame s s' \<longleftrightarrow>
     q_records s' = q_records s \<and> q_evidence s' = q_evidence s \<and> q_dispositions s' = q_dispositions s
     \<and> q_requests s' = q_requests s \<and> q_blobs s' = q_blobs s \<and> q_stored s' = q_stored s
     \<and> prefix (q_events s) (q_events s') \<and> q_next s \<le> q_next s'"

lemma store_frame_inv: "store_frame s s' \<Longrightarrow> ev_inv s \<Longrightarrow> ev_inv s'"
proof -
  assume f: "store_frame s s'" and i: "ev_inv s"
  have "ids_ok s'" 
    by (rule ids_ok_mono [of s]) (use f i in \<open>simp_all add: store_frame_def ev_inv_def\<close>)
  moreover have "holds_ok s'"
    by (rule holds_ok_mono [of s]) (use f i in \<open>simp_all add: store_frame_def ev_inv_def\<close>)
  moreover have "evidence_ok s'" 
    by (rule evidence_ok_mono [of s]) (use f i in \<open>simp_all add: store_frame_def ev_inv_def\<close>)
  moreover have "objects_ok s'" using f i by (simp add: store_frame_def ev_inv_def objects_ok_def)
  moreover have "orders_ok s'" 
    by (rule orders_ok_mono [of s]) (use f i in \<open>simp_all add: store_frame_def ev_inv_def\<close>)
  ultimately show ?thesis by (simp add: ev_inv_def)
qed

lemma store_frame_evolves: "store_frame s s' \<Longrightarrow> q_evolves s s'"
  by (rule q_evolves_same) (simp_all add: store_frame_def)

text \<open>A run of the evidence store, then changes outside it.\<close>

definition store_run :: "qms_env \<Rightarrow> qms \<Rightarrow> qms \<Rightarrow> bool" where
  "store_run E s s' \<longleftrightarrow> (\<exists>t. ev_run E s t \<and> store_frame t s')"

lemma store_run_frame: "store_frame s s' \<Longrightarrow> store_run E s s'"
  unfolding store_run_def by blast

lemma store_run_inv: "store_run E s s' \<Longrightarrow> ev_inv s \<Longrightarrow> ev_inv s' \<and> q_evolves s s'"
  unfolding store_run_def using ev_steps_inv ev_steps_evolve store_frame_inv store_frame_evolves q_evolves_trans by metis

lemmas frame_defs = store_frame_def log_event_def emit_record_event_def emit_ncr_def move_capa_def put_capa_def new_stage_def
  add_stage_def signed_stage_def take_id_def raised_event_def put_flow_def put_complaint_def put_ncr_def

subsection \<open>Fresh ids\<close>

lemma ev_step_next: "ev_step E s s' \<Longrightarrow> q_next s \<le> q_next s'"
proof (induction rule: ev_step.induct)
  case (ev_capture s r s')
  then show ?case by (simp add: captures_def)
next
  case (ev_drop_blob b s byp i ev rq s' m)
  then show ?case by (simp add: insert_purge_state delete_blob_and_links_def)
qed (simp_all add: detach_record_evidence_blob_def remove_object_def drop_marker_def write_tombstone_state)

lemma ev_run_next: "ev_run E s s' \<Longrightarrow> q_next s \<le> q_next s'"
  by (induction rule: rtranclp_induct) (auto dest: ev_step_next)

lemma ev_run_trail: "ev_run E s s' \<Longrightarrow> trail s' = trail s"
  using ev_steps_capa by (simp add: capa_tables_def trail_def)

lemma capture_record_fresh:
  assumes "capture_record E actor now fresh c co pin commit s = Inr (s', r)"
  shows "q_next s \<le> rc_id r" and "rc_id r < q_next s'"
proof -
  obtain fw sv st res s1 s2 where c: "resolve_capture_retention fresh (cp_type c) (cp_policy c) [] [] now s = Inr (s1, res)"
    "store_capture E actor now c co fw sv (capture_values c st) res s1 = Inr (s2, r)" "s' = enqueue_pdf (commit \<and> st) (rc_id r) s2"
    using capture_record_Inr [OF assms] by blast
  have n: "q_next s1 = q_next s" using resolve_capture_retention_run [OF c(1)] by (simp add: ensure_default_policy_def)
  obtain v mr s3 shas h ident p where
    a: "attach_evidence E (q_next s1) (cp_evidence c) mr (s1\<lparr>q_vault := v, q_next := q_next s1 + 1\<rparr>) = Inr (s3, shas)"
    and r: "r = sealed_record c (q_next s1) ident fw actor now sv (capture_values c st) co res h"
    and s2: "s2 = emit_record_event (user_id actor) ''RECORD_CAPTURED'' (q_next s1) None (Some p) (s3\<lparr>q_records := q_records s3 @ [r]\<rparr>)"
    using store_capture_Inr [OF c(2)] by blast
  have "q_next s3 = q_next s1 + 1" using attach_evidence_attached [OF a] unfolding attached_def by auto
  then show "q_next s \<le> rc_id r" "rc_id r < q_next s'"
    using n r s2 c(3) by (simp_all add: sealed_record_def emit_record_event_def log_event_def)
qed

subsection \<open>Raising\<close>

lemma trail_raise:
  assumes "capture_record E actor now fresh cp co pin commit s = Inr (s1, r)"
    and "c = new_capa r origin source severity process target"
    and "trail s' = trail (new_stage (ca_id c) C_Raised block 0 actor (s1\<lparr>q_capas := q_capas s1 @ [c]\<rparr>))"
    and "q_next s' = q_next s1 + 1"
  shows "trail_step E s s'"
proof -
  have run: "ev_run E s s1" using capture_record_run [OF assms(1)] by blast
  note fresh = capture_record_fresh [OF assms(1)]
  let ?x = "\<lparr>sg_id = q_next s1, sg_capa = ca_id c, sg_stage = C_Raised, sg_block = block, sg_signature = None, sg_cycle = 0,
    sg_by = user_id actor\<rparr>"
  show ?thesis
  proof (rule ts_raise [of s c s' ?x])
    show "trail s' = (q_capas s @ [c], q_stages s @ [?x], q_links s, q_signatures s)"
      using assms(3) ev_run_trail [OF run] by (simp add: trail_def new_stage_def take_id_def add_stage_def)
    show "q_next s \<le> sg_id ?x" "sg_id ?x < q_next s'" using ev_run_next [OF run] assms(4) by simp_all
  qed (use fresh assms(2,4) in \<open>simp_all add: new_capa_def\<close>)
qed

definition capa_run :: "qms_env \<Rightarrow> qms \<Rightarrow> qms \<Rightarrow> bool" where
  "capa_run E s s' \<longleftrightarrow> trail_step E s s' \<and> store_run E s s'"

lemma capture_complaint_run:
  assumes "capture_complaint E actor now fresh d cu ra ch sev s = Inr (s', c)"
  shows "capa_run E s s'"
proof -
  obtain s1 r p title where c: "capture_record E actor now fresh (plain_capture ''COMPLAINT'' title) None None False s = Inr (s1, r)"
    and s': "s' = emit_record_event (user_id actor) ''COMPLAINT_CAPTURED'' (rc_id r) None p (s1\<lparr>q_complaints := q_complaints s1 @ [c]\<rparr>)"
    using assms by (auto simp: capture_complaint_def Let_def)
  have run: "ev_run E s s1" using capture_record_run [OF c] by blast
  moreover have "store_frame s1 s'" by (simp add: s' frame_defs)
  moreover have "trail_step E s s'"
    by (rule ts_other) (use ev_run_trail [OF run] ev_run_next [OF run] in \<open>simp_all add: s' trail_def frame_defs\<close>)
  ultimately show ?thesis unfolding capa_run_def store_run_def by blast
qed

lemma build_capa_run:
  assumes "build_capa E actor now fresh title severity source process origin block s = Inr (s', c)"
  shows "capa_run E s s'"
proof -
  obtain s1 r target where b: "capture_record E actor now fresh (plain_capture ''CAPA'' title) None None False s = Inr (s1, r)"
    "c = new_capa r origin source severity process target"
    and s': "s' = raised_event actor (ca_id c) source severity
            (new_stage (ca_id c) C_Raised block 0 actor (s1\<lparr>q_capas := q_capas s1 @ [c]\<rparr>))"
    using assms by (auto simp: build_capa_def Let_def)
  have "trail_step E s s'" by (rule trail_raise [OF b]) (simp_all add: s' trail_def frame_defs)
  moreover have "store_frame s1 s'" by (simp add: s' frame_defs)
  ultimately show ?thesis using capture_record_run [OF b(1)] unfolding capa_run_def store_run_def by blast
qed

lemma raise_capa_run: "raise_capa E actor now fresh title severity source process problem s = Inr (s', c) \<Longrightarrow> capa_run E s s'"
  by (auto simp: raise_capa_def intro: build_capa_run)

lemma capa_run_refl: "capa_run E s s"
  unfolding capa_run_def by (simp add: ts_other store_run_frame store_frame_def)

lemma spawn_capa_run:
  assumes "spawn_capa_from_complaint E actor now fresh i severity process s = Inr (s', c, b)"
  shows "capa_run E s s'"
proof (cases b)
  case False
  then have "s' = s" using assms by (auto simp: spawn_capa_from_complaint_def Let_def split: option.splits)
  then show ?thesis by (simp add: capa_run_refl)
next
  case True
  then obtain s1 r target sev block co f where
    b: "capture_record E actor now fresh (plain_capture ''CAPA'' ''CAPA (from complaint)'') None None False s = Inr (s1, r)"
    "c = new_capa r None S_complaint sev process target"
    and s': "s' = emit_record_event (user_id actor) ''COMPLAINT_SPAWNED_CAPA'' i None f
       (raised_event actor (ca_id c) S_complaint sev (put_complaint co
          (new_stage (ca_id c) C_Raised block 0 actor (s1\<lparr>q_capas := q_capas s1 @ [c]\<rparr>))))"
    using assms by (auto simp: spawn_capa_from_complaint_def Let_def split: option.splits)
  have "trail_step E s s'" by (rule trail_raise [OF b]) (simp_all add: s' trail_def frame_defs)
  moreover have "store_frame s1 s'" by (simp add: s' frame_defs)
  ultimately show ?thesis using capture_record_run [OF b(1)] unfolding capa_run_def store_run_def by blast
qed


subsection \<open>Stages\<close>

lemma frame_run: "store_frame s s' \<Longrightarrow> trail s' = trail s \<Longrightarrow> capa_run E s s'"
  unfolding capa_run_def using store_run_frame ts_other store_frame_def by metis

lemma stage_run:
  assumes "get_capa s i = Some c" and "capa_allowed (ca_state c) st" and "st \<notin> {C_Closed, C_Rejected}"
    and "needs_signature st \<longrightarrow> (\<exists>g \<in> set gs. signs E g x)"
    and "st = C_Verify \<longrightarrow> independent E (ca_severity c) (capa_stages s i) (sg_by x)"
    and "sg_capa x = i" and "sg_stage x = st" and "sg_cycle x = ca_cycle c" and "q_next s \<le> sg_id x" and "sg_id x < q_next s'"
    and "trail s' = (replace_capa (c\<lparr>ca_state := st\<rparr>) (q_capas s), q_stages s @ [x], q_links s, q_signatures s @ gs)"
    and "store_frame s s'"
  shows "capa_run E s s'"
proof -
  have id: "ca_id c = i" using get_capa_mem [OF assms(1)] by simp
  have "trail_step E s s'"
    by (rule ts_stage [of s c st x s' gs]) (use assms(1-11) id in simp_all)
  then show ?thesis using assms(12) by (simp add: capa_run_def store_run_frame)
qed

lemma advance_stage_run:
  assumes "advance_stage st extra actor i block s = Inr (s', c')" and "st \<in> {C_Containment, C_RootCause, C_Implement}"
  shows "capa_run E s s'"
proof -
  obtain c b f where c: "get_capa s i = Some c" "capa_allowed (ca_state c) st"
    and s': "s' = fst (move_capa actor c st b f (new_stage (ca_id c) st block (ca_cycle c) actor s))"
    using assms(1) by (auto simp: advance_stage_def load_capa_def check_move_def move_capa_def Let_def split: option.splits)
  have id: "ca_id c = i" using get_capa_mem [OF c(1)] by simp
  let ?x = "\<lparr>sg_id = q_next s, sg_capa = i, sg_stage = st, sg_block = block, sg_signature = None, sg_cycle = ca_cycle c,
    sg_by = user_id actor\<rparr>"
  show ?thesis
    by (rule stage_run [OF c, of "[]" E ?x])
      (use assms(2) in \<open>auto simp: s' id Let_def frame_defs trail_def replace_capa_def needs_signature_def\<close>)
qed

lemma signed_stage_state:
  assumes "signed_stage E c st meaning block actor s = (s1, sig)"
  shows "s1 = s\<lparr>q_next := q_next s + 2,
      q_stages := q_stages s @ [\<lparr>sg_id = q_next s, sg_capa = ca_id c, sg_stage = st, sg_block = block, sg_signature = Some sig,
        sg_cycle = ca_cycle c, sg_by = user_id actor\<rparr>],
      q_signatures := q_signatures s @ [\<lparr>qs_id = sig, qs_object = q_next s, qs_meaning = meaning, qs_signer = user_id actor,
        qs_digest = content_digest (qe_hash E) block\<rparr>]\<rparr>"
  using assms by (auto simp: signed_stage_def take_id_def add_stage_def)

lemma signed_move_run:
  assumes "get_capa s i = Some c" and "capa_allowed (ca_state c) st" and "st \<notin> {C_Closed, C_Rejected}"
    and "st = C_Verify \<longrightarrow> independent E (ca_severity c) (capa_stages s i) (user_id actor)"
    and "signed_stage E c st meaning block actor (s\<lparr>q_flows := fl\<rparr>) = (s1, sig)"
    and "s' = fst (move_capa actor c st b f s1)"
  shows "capa_run E s s'"
proof -
  have id: "ca_id c = i" using get_capa_mem [OF assms(1)] by simp
  let ?x = "\<lparr>sg_id = q_next s, sg_capa = i, sg_stage = st, sg_block = block, sg_signature = Some sig, sg_cycle = ca_cycle c,
    sg_by = user_id actor\<rparr>"
  let ?g = "\<lparr>qs_id = sig, qs_object = q_next s, qs_meaning = meaning, qs_signer = user_id actor,
        qs_digest = content_digest (qe_hash E) block\<rparr>"
  note s1 = signed_stage_state [OF assms(5)]
  show ?thesis
    by (rule stage_run [OF assms(1-3), of "[?g]" E ?x])
      (use assms(4) in \<open>simp_all add: assms(6) s1 id move_capa_def Let_def emit_record_event_def log_event_def put_capa_def
        trail_def replace_capa_def store_frame_def signs_def\<close>)
qed

lemma verify_capa_run:
  assumes "verify_capa E actor i d block s = Inr (s', c')"
  shows "capa_run E s s'"
proof -
  obtain c us s1 sig b f where c: "get_capa s i = Some c" "capa_allowed (ca_state c) C_Verify"
    and us: "derive_implementer_ids (capa_stages s i) = Inr us"
      "\<not> capa_self_verify_blocked (user_id actor) (set us) (ca_severity c) (qe_self_verify E)"
    and sg: "signed_stage E c C_Verify ''verify''
      (update_dict block [(''decision'', JStr d), (''verified_by'', JStr (uuid_str (user_id actor)))]) actor s = (s1, sig)"
    and s': "s' = fst (move_capa actor c C_Verify b f s1)"
    using assms by (auto simp: verify_capa_def load_capa_def check_move_def move_capa_def Let_def split: option.splits prod.splits)
  have "independent E (ca_severity c) (capa_stages s i) (user_id actor)" using us by (auto simp: independent_def)
  then show ?thesis using signed_move_run [OF c, of E actor "''verify''" _ "q_flows s", simplified, OF _ sg s'] by simp
qed

lemma seal_run:
  assumes "seal_action_plan E actor k i w (put_flow k w' s) = Inr (s', sig)"
  shows "capa_run E s s'"
proof -
  obtain fl where fl: "put_flow k w' s = s\<lparr>q_flows := fl\<rparr>" by (simp add: put_flow_def)
  have g: "get_capa (s\<lparr>q_flows := fl\<rparr>) i = get_capa s i" by (simp add: get_capa_def)
  obtain c plan where c: "get_capa s i = Some c" "capa_allowed (ca_state c) C_ActionPlan"
    and r: "(case signed_stage E c C_ActionPlan ''approval'' (sealed_plan actor k w plan) actor (s\<lparr>q_flows := fl\<rparr>) of (s1, sig) \<Rightarrow>
       Inr (fst (move_capa actor c C_ActionPlan [close_item (ca_state c)]
              [close_item C_ActionPlan, (''signed_event_id'', JStr (id_str sig))] s1), sig)) = (Inr (s', sig) :: (qms_error, qms \<times> rid) result)"
    using assms unfolding fl
    by (auto simp: seal_action_plan_def load_capa_def check_move_def g split: option.splits)
  obtain s1 sg where sg: "signed_stage E c C_ActionPlan ''approval'' (sealed_plan actor k w plan) actor (s\<lparr>q_flows := fl\<rparr>) = (s1, sg)"
    by (metis surj_pair)
  obtain b f where s': "s' = fst (move_capa actor c C_ActionPlan b f s1)" using r sg by auto
  show ?thesis by (rule signed_move_run [OF c _ _ sg s']) simp_all
qed

lemma decide_run:
  assumes "decide_capa_action_plan E actor k i outcome comment key s = Inr (s', x)"
  shows "capa_run E s s'"
proof -
  have "\<exists>w w'. s' = put_flow k w' s \<or> (\<exists>subject sig. seal_action_plan E actor k subject w (put_flow k w' s) = Inr (s', sig))"
    using assms by (auto simp: decide_capa_action_plan_def Let_def split: option.splits prod.splits if_splits)
  moreover have "capa_run E s (put_flow k w' s)" for w' by (rule frame_run) (simp_all add: frame_defs trail_def)
  ultimately show ?thesis using seal_run by metis
qed

lemma recorded_decision_valid: "recorded_decision vs = Inr d \<Longrightarrow> d \<in> verifier_decisions"
  by (auto simp: recorded_decision_def split: if_splits json.splits)

lemma close_capa_run:
  assumes "close_capa actor i s = Inr (s', c')"
  shows "capa_run E s s'"
proof -
  obtain c d where c: "get_capa s i = Some c" "ca_state c = C_Verify" and d: "recorded_decision (cycle_stages s c C_Verify) = Inr d"
    using assms by (auto simp: close_capa_def load_capa_def Let_def split: option.splits)
  have id: "ca_id c = i" using get_capa_mem [OF c(1)] by simp
  define out where "out = fst (adjudicate_capa_closure d (list_ex (\<lambda>x. sg_stage x = C_RootCause) (capa_stages s (ca_id c)))
           (list_ex (\<lambda>x. stage_has_evidence s (sg_id x)) (cycle_stages s c C_Implement))
           (list_ex (\<lambda>x. stage_has_evidence s (sg_id x)) (cycle_stages s c C_Verify)))"
  have out: "out \<noteq> INCOMPLETE"
    using assms c d by (auto simp: close_capa_def load_capa_def Let_def out_def [symmetric])
  have m: "\<exists>b f. s' = fst (move_capa actor (if out = LOOP then c\<lparr>ca_cycle := ca_cycle c + 1\<rparr> else c) (if out = CLOSE then C_Closed else C_RootCause) b f s)"
    using assms c d by (fastforce simp: close_capa_def load_capa_def Let_def out_def [symmetric] move_capa_def)
  have "trail_step E s s'"
  proof (cases out)
    case CLOSE
    then have "effective s c"
      using d unfolding out_def adjudicate_close_iff by (auto simp: effective_def list_ex_iff)
    then show ?thesis using m CLOSE c id
      by (intro ts_close [of s c s']) (auto simp: move_capa_def Let_def frame_defs trail_def replace_capa_def)
  next
    case LOOP
    then show ?thesis using m c id
      by (intro ts_loop [of s c s']) (auto simp: move_capa_def Let_def frame_defs trail_def replace_capa_def)
  qed (use out in simp)
  moreover have "store_frame s s'" using m by (auto simp: move_capa_def Let_def frame_defs)
  ultimately show ?thesis by (simp add: capa_run_def store_run_frame)
qed

lemma link_evidence_run: 
  assumes "link_evidence E actor i target reason s = Inr (s', l)"
  shows "capa_run E s s'"
proof -
  obtain f where l: "el_id l = q_next s"
    and s': "s' = emit_record_event (user_id actor) ''RECORD_EVIDENCE_LINKED'' i None f
        (s\<lparr>q_next := q_next s + 1, q_links := q_links s @ [l]\<rparr>)"
    using assms by (cases target) (auto simp: link_evidence_def load_record_def Let_def take_id_def split: option.splits)
  have "trail_step E s s'" by (rule ts_link [of s l]) (simp_all add: l s' trail_def frame_defs)
  moreover have "store_frame s s'" by (simp add: s' frame_defs)
  ultimately show ?thesis by (simp add: capa_run_def store_run_frame)
qed

lemma unlink_evidence_run:
  assumes "unlink_evidence actor i k s = Inr s'"
  shows "capa_run E s s'"
proof -
  obtain l f where l: "find (\<lambda>l. el_id l = k) (q_links s) = Some l" "\<not> evidence_frozen s (el_target l)"
    and s': "s' = emit_record_event (user_id actor) ''RECORD_EVIDENCE_UNLINKED'' i f None
              (s\<lparr>q_links := filter (\<lambda>x. el_id x \<noteq> k) (q_links s)\<rparr>)"
    using assms by (auto simp: unlink_evidence_def load_record_def split: option.splits if_splits)
  have "l \<in> set (q_links s) \<and> el_id l = k" using l(1) by (rule find_key_SomeD)
  then have "trail_step E s s'" using l(2) by (intro ts_unlink [of l s]) (simp_all add: s' trail_def frame_defs)
  moreover have "store_frame s s'" by (simp add: s' frame_defs)
  ultimately show ?thesis by (simp add: capa_run_def store_run_frame)
qed

lemma set_target_run:
  assumes "set_capa_target_date actor i target s = Inr (s', c')"
  shows "capa_run E s s'"
proof -
  obtain c f g where c: "get_capa s i = Some c" "ca_state c \<notin> {C_Closed, C_Rejected}"
    and s': "s' = emit_record_event (user_id actor) ''CAPA_TARGET_DATE_SET'' (ca_id c) f g (put_capa (c\<lparr>ca_target := target, ca_overdue_at := None\<rparr>) s)"
    using assms by (auto simp: set_capa_target_date_def load_capa_def Let_def split: option.splits)
  have "ca_id c = i" using get_capa_mem [OF c(1)] by simp
  then have "trail_step E s s'" using c
    by (intro ts_target [of s c s' target]) (simp_all add: s' trail_def frame_defs replace_capa_def)
  moreover have "store_frame s s'" by (simp add: s' frame_defs)
  ultimately show ?thesis by (simp add: capa_run_def store_run_frame)
qed

lemma create_ncr_run: "create_ncr E actor source d sev p s = Inr (s', r) \<Longrightarrow> capa_run E' s s'"
  by (rule frame_run) (auto simp: create_ncr_def Let_def frame_defs trail_def split: prod.splits)

lemma record_ncr_disposition_run: "record_ncr_disposition actor i d notes now s = Inr (s', r) \<Longrightarrow> capa_run E s s'"
  by (rule frame_run) (auto simp: record_ncr_disposition_def Let_def frame_defs trail_def split: option.splits)

lemma propose_run: "propose_action_plan E actor i block s = Inr (s', k) \<Longrightarrow> capa_run E' s s'"
  by (rule frame_run) (auto simp: propose_action_plan_def Let_def frame_defs trail_def)

end
