(* ===== verification/QmsSystem.thy ===== *)
theory QmsSystem
  imports DestroyRefine CapaRefine
begin

text \<open>
  The operations on retained evidence as one transition system: those on records (\<open>record_op\<close>), those on
  complaints, CAPAs, nonconformities and evidence links (\<open>capa_op\<close>), and what other parts of the product do to the
  shared tables (\<open>outside\<close>): the document vault, the building and sharing of packs, audit findings, the storage of
  further blobs and the rendering of records. The invariants of RecordsSpec and CapaSpec hold in every reachable state.
\<close>

inductive record_op :: "qms_env \<Rightarrow> qms \<Rightarrow> qms \<Rightarrow> bool" for E :: qms_env where
  op_capture: "capture_record E actor now fresh c co pin commit s = Inr (s', r) \<Longrightarrow> record_op E s s'"
| op_correct: "capture_correction E actor now fresh i c s = Inr (s', r) \<Longrightarrow> record_op E s s'"
| op_hold: "place_legal_hold actor i reason s = Inr s' \<Longrightarrow> record_op E s s'"
| op_release: "release_legal_hold actor i reason s = Inr s' \<Longrightarrow> record_op E s s'"
| op_dispose: "advance_disposition E actor i d why now fate s = (s', reply) \<Longrightarrow> record_op E s s'"
| op_request: "request_worm_destroy actor i basis s = Inr (s', q) \<Longrightarrow> record_op E s s'"
| op_cancel: "cancel_worm_destroy actor i k why now s = Inr (s', q) \<Longrightarrow> record_op E s s'"
| op_approve: "approve_worm_destroy E actor i k why now fate s = (s', reply) \<Longrightarrow> record_op E s s'"
| op_sweep: "sweep_due_records E now fate s = Inr (s', su) \<Longrightarrow> record_op E s s'"
| op_reap: "reap_pending_blob_purges E fate s = (s', reaped, refused) \<Longrightarrow> record_op E s s'"
| op_policy_new: "create_policy actor u n s = Inr (s', p) \<Longrightarrow> record_op E s s'"
| op_policy_edit: "update_policy actor u ch s = Inr (s', p) \<Longrightarrow> record_op E s s'"
| op_policy_archive: "archive_policy actor u now s = Inr (s', p) \<Longrightarrow> record_op E s s'"
| op_policy_restore: "unarchive_policy actor u s = Inr (s', p) \<Longrightarrow> record_op E s s'"

inductive capa_op :: "qms_env \<Rightarrow> qms \<Rightarrow> qms \<Rightarrow> bool" for E :: qms_env where
  op_link: "link_evidence E actor i target why s = Inr (s', l) \<Longrightarrow> capa_op E s s'"
| op_unlink: "unlink_evidence actor i k s = Inr s' \<Longrightarrow> capa_op E s s'"
| op_complaint: "capture_complaint E actor now fresh d customer received channel osev s = Inr (s', co) \<Longrightarrow> capa_op E s s'"
| op_spawn: "spawn_capa_from_complaint E actor now fresh i osev pr s = Inr (s', c, b) \<Longrightarrow> capa_op E s s'"
| op_raise: "raise_capa E actor now fresh title sev source pr problem s = Inr (s', c) \<Longrightarrow> capa_op E s s'"
| op_build: "build_capa E actor now fresh title sev source pr origin block s = Inr (s', c) \<Longrightarrow> capa_op E s s'"
| op_containment: "advance_capa_to_containment actor i block s = Inr (s', c) \<Longrightarrow> capa_op E s s'"
| op_root_cause: "advance_capa_to_root_cause actor i block s = Inr (s', c) \<Longrightarrow> capa_op E s s'"
| op_propose: "propose_action_plan E actor i block s = Inr (s', k) \<Longrightarrow> capa_op E s s'"
| op_decide: "decide_capa_action_plan E actor k n outcome comment key s = Inr (s', x) \<Longrightarrow> capa_op E s s'"
| op_implement: "advance_capa_to_implement actor i block s = Inr (s', c) \<Longrightarrow> capa_op E s s'"
| op_verify: "verify_capa E actor i decided block s = Inr (s', c) \<Longrightarrow> capa_op E s s'"
| op_close: "close_capa actor i s = Inr (s', c) \<Longrightarrow> capa_op E s s'"
| op_target: "set_capa_target_date actor i target s = Inr (s', c) \<Longrightarrow> capa_op E s s'"
| op_ncr: "create_ncr E actor nsource d sev pr s = Inr (s', n) \<Longrightarrow> capa_op E s s'"
| op_ncr_dispose: "record_ncr_disposition actor i nd notes now s = Inr (s', n) \<Longrightarrow> capa_op E s s'"

inductive outside :: "qms \<Rightarrow> qms \<Rightarrow> bool" where
  out_rest: "outside s (s\<lparr>q_vault := v, q_packs := ps, q_shares := sh, q_findings := fs\<rparr>)"
| out_blob: "outside s (s\<lparr>q_blobs := q_blobs s @ [b], q_stored := insert (bl_bucket b, bl_key b) (q_stored s)\<rparr>)"
| out_rendition: "get_record s (rc_id r) = Some r \<Longrightarrow> outside s (put_record (r\<lparr>rc_rendition := sha\<rparr>) s)"

definition qms_step :: "qms_env \<Rightarrow> qms \<Rightarrow> qms \<Rightarrow> bool" where
  "qms_step E s s' \<longleftrightarrow> record_op E s s' \<or> capa_op E s s' \<or> outside s s'"

definition reachable_qms :: "qms_env \<Rightarrow> qms \<Rightarrow> bool" where
  "reachable_qms E s \<longleftrightarrow> (qms_step E)\<^sup>*\<^sup>* empty_qms s"

lemma record_op_run: "record_op E s s' \<Longrightarrow> ev_inv s \<Longrightarrow> ev_run E s s'"
proof (induction rule: record_op.induct)
  case (op_capture actor now fresh c co pin commit s s' r)
  then show ?case using capture_record_run by blast
next
  case (op_correct actor now fresh i c s s' r)
  then show ?case using capture_correction_run by blast
next
  case (op_hold actor i reason s s')
  then show ?case using place_legal_hold_run by blast
next
  case (op_release actor i reason s s')
  then show ?case using release_legal_hold_run by blast
next
  case (op_dispose actor i d why now fate s s' reply)
  then show ?case using advance_disposition_run by blast
next
  case (op_request actor i basis s s' q)
  then show ?case using request_worm_destroy_run by blast
next
  case (op_cancel actor i k why now s s' q)
  then show ?case using cancel_worm_destroy_run by blast
next
  case (op_approve actor i k why now fate s s' reply)
  then show ?case using approve_worm_destroy_run approve_refused_run by (cases reply) (auto simp: ev_inv_def)
next
  case (op_sweep now fate s s' su)
  then show ?case using sweep_due_records_run by (auto simp: ev_inv_def)
next
  case (op_reap fate s s' reaped refused)
  then show ?case using reap_run by blast
next
  case (op_policy_new actor u n s s' p)
  then show ?case using create_policy_run by blast
next
  case (op_policy_edit actor u ch s s' p)
  then show ?case using update_policy_run by blast
next
  case (op_policy_archive actor u now s s' p)
  then show ?case using archive_policy_run by blast
next
  case (op_policy_restore actor u s s' p)
  then show ?case using unarchive_policy_run by blast
qed

lemma capa_op_run: "capa_op E s s' \<Longrightarrow> capa_run E s s'"
proof (induction rule: capa_op.induct)
  case (op_containment actor i block s s' c)
  then show ?case unfolding advance_capa_to_containment_def by (rule advance_stage_run) simp
next
  case (op_root_cause actor i block s s' c)
  then show ?case unfolding advance_capa_to_root_cause_def by (rule advance_stage_run) simp
next
  case (op_implement actor i block s s' c)
  then show ?case unfolding advance_capa_to_implement_def by (rule advance_stage_run) simp
qed (rule link_evidence_run unlink_evidence_run capture_complaint_run spawn_capa_run raise_capa_run build_capa_run propose_run
       decide_run verify_capa_run close_capa_run set_target_run create_ncr_run record_ncr_disposition_run, assumption)+

lemma outside_inv: "outside s s' \<Longrightarrow> ev_inv s \<Longrightarrow> ev_inv s' \<and> q_evolves s s' \<and> trail s' = trail s \<and> q_next s' = q_next s"
proof (induction rule: outside.induct)
  case (out_rest s fs sh ps v)
  let ?t = "s\<lparr>q_vault := v, q_packs := ps, q_shares := sh, q_findings := fs\<rparr>"
  have f: "store_frame s ?t" by (simp add: store_frame_def)
  show ?case using store_frame_inv [OF f out_rest] store_frame_evolves [OF f] by (simp add: trail_def)
next
  case (out_blob s b)
  let ?t = "s\<lparr>q_blobs := q_blobs s @ [b], q_stored := insert (bl_bucket b, bl_key b) (q_stored s)\<rparr>"
  have "ids_ok ?t" by (rule ids_ok_mono [of s]) (use out_blob in \<open>simp_all add: ev_inv_def\<close>)
  moreover have "holds_ok ?t" by (rule holds_ok_mono [of s]) (use out_blob in \<open>simp_all add: ev_inv_def\<close>)
  moreover have "evidence_ok ?t" "objects_ok ?t" using out_blob by (simp_all add: ev_inv_def evidence_ok_def objects_ok_def)
  moreover have "orders_ok ?t" by (rule orders_ok_mono [of s]) (use out_blob in \<open>simp_all add: ev_inv_def\<close>)
  moreover have "q_evolves s ?t" by (rule q_evolves_same) simp_all
  ultimately show ?case by (simp add: ev_inv_def trail_def)
next
  case (out_rendition s r sha)
  let ?r = "r\<lparr>rc_rendition := sha\<rparr>" and ?t = "put_record (r\<lparr>rc_rendition := sha\<rparr>) s"
  have i: "ids_ok s" "holds_ok s" "evidence_ok s" "objects_ok s" "orders_ok s" using out_rendition(2) by (simp_all add: ev_inv_def)
  have "hold_ok s ?r" using i(2) get_record_mem [OF out_rendition(1)] by (simp add: hold_ok_def)
  then have "holds_ok ?t" using i(2) holds_ok_put by blast
  moreover have "ids_ok ?t" using i(1) by (simp add: ids_ok_put)
  moreover have "evidence_ok ?t" by (rule evidence_ok_mono [OF i(3)]) simp_all
  moreover have "objects_ok ?t" using i(4) by (simp add: objects_ok_def)
  moreover have "orders_ok ?t" by (rule orders_ok_mono [OF i(5)]) simp_all
  moreover have "q_evolves s ?t"
    by (rule q_evolves_put [OF i(1) out_rendition(1), where n = "q_next s" and es = "[]"]) (simp_all add: rec_evolves_def seal_def)
  ultimately show ?case by (simp add: ev_inv_def trail_def put_record_def)
qed

definition qms_inv :: "qms_env \<Rightarrow> qms \<Rightarrow> bool" where
  "qms_inv E s \<longleftrightarrow> ev_inv s \<and> trail_inv E s"

definition qms_evolves :: "qms \<Rightarrow> qms \<Rightarrow> bool" where
  "qms_evolves s s' \<longleftrightarrow> q_evolves s s' \<and> trail_evolves s s'"

lemma qms_step_refines: "qms_step E s s' \<Longrightarrow> ev_inv s \<Longrightarrow> trail_step E s s' \<and> ev_inv s' \<and> q_evolves s s'"
proof -
  assume step: "qms_step E s s'" and i: "ev_inv s"
  consider "record_op E s s'" | "capa_op E s s'" | "outside s s'" using step by (auto simp: qms_step_def)
  then show ?thesis
  proof cases
    case 1
    note run = record_op_run [OF 1 i]
    then show ?thesis using ev_steps_inv [OF run i] ev_steps_evolve [OF run i] ev_run_trail [OF run] ev_run_next [OF run]
      by (simp add: ts_other)
  next
    case 2
    then show ?thesis using capa_op_run store_run_inv i unfolding capa_run_def by blast
  next
    case 3
    then show ?thesis using outside_inv [OF 3 i] by (simp add: ts_other)
  qed
qed

lemma qms_step_inv: "qms_step E s s' \<Longrightarrow> qms_inv E s \<Longrightarrow> qms_inv E s' \<and> qms_evolves s s'"
  using qms_step_refines [of E s s'] capa_trail.keeps [of E s s'] capa_trail.moves [of E s s']
  by (simp add: qms_inv_def qms_evolves_def)

lemma qms_evolves_trans: "qms_evolves s t \<Longrightarrow> qms_evolves t u \<Longrightarrow> qms_evolves s u"
  unfolding qms_evolves_def using q_evolves_trans trail_evolves_trans by blast

interpretation system: evolving "qms_step E" "qms_inv E" qms_evolves for E
  by unfold_locales (simp_all add: qms_step_inv qms_evolves_trans, simp add: qms_evolves_def)

lemmas qms_steps_inv = system.run_both

lemma reachable_inv: "reachable_qms E s \<Longrightarrow> qms_inv E s"
  unfolding reachable_qms_def using qms_steps_inv ev_inv_empty trail_inv_empty unfolding qms_inv_def by blast

end
