(* ===== verification/PackClosure.thy ===== *)
theory PackClosure
  imports DestroyOrder "HOL-Library.Multiset"
begin

text \<open>
  The packs a destroy order reaches, as the least set of packs that depend on the record, on the record of a reached
  pack or on bytes a reached pack shares; the passes of \<open>closure_loop\<close> compute exactly it.
\<close>

inductive reached :: "(pack \<Rightarrow> rid list) \<Rightarrow> pack list \<Rightarrow> rid \<Rightarrow> pack \<Rightarrow> bool" for deps packs i where
  by_record: "p \<in> set packs \<Longrightarrow> i \<in> set (deps p) \<Longrightarrow> reached deps packs i p"
| by_pack: "reached deps packs i q \<Longrightarrow> p \<in> set packs \<Longrightarrow> pk_record q = Some k \<Longrightarrow> k \<in> set (deps p) \<Longrightarrow> reached deps packs i p"
| by_bytes: "reached deps packs i q \<Longrightarrow> p \<in> set packs \<Longrightarrow> x \<in> set (pack_shas q) \<Longrightarrow> x \<in> set (pack_shas p) \<Longrightarrow> reached deps packs i p"

definition closure_sound :: "(pack \<Rightarrow> rid list) \<Rightarrow> pack list \<Rightarrow> rid \<Rightarrow> closure_state \<Rightarrow> bool" where
  "closure_sound deps packs i c \<longleftrightarrow> (case c of (selected, affected, shas) \<Rightarrow>
     (\<forall>k \<in> set selected. \<exists>p. reached deps packs i p \<and> pk_id p = k)
   \<and> (\<forall>k \<in> set affected. k = i \<or> (\<exists>p. reached deps packs i p \<and> pk_record p = Some k))
   \<and> (\<forall>x \<in> set shas. \<exists>p. reached deps packs i p \<and> x \<in> set (pack_shas p)))"

definition closure_linked :: "pack list \<Rightarrow> rid \<Rightarrow> closure_state \<Rightarrow> bool" where
  "closure_linked packs i c \<longleftrightarrow> (case c of (selected, affected, shas) \<Rightarrow>
     i \<in> set affected \<and> (\<forall>p \<in> set packs. pk_id p \<in> set selected \<longrightarrow>
       (\<forall>k. pk_record p = Some k \<longrightarrow> k \<in> set affected) \<and> set (pack_shas p) \<subseteq> set shas))"

lemma affected_reached:
  assumes "closure_sound deps packs i c" and "p \<in> set packs" and "pack_affected deps p c"
  shows "reached deps packs i p"
proof -
  obtain sel aff shas where c: "c = (sel, aff, shas)" by (cases c)
  consider k where "k \<in> set aff" "k \<in> set (deps p)" | x where "x \<in> set shas" "x \<in> set (pack_shas p)"
    using assms(3) by (auto simp: c pack_affected_def list_ex_iff)
  then show ?thesis
  proof cases
    case 1
    then have "k = i \<or> (\<exists>q. reached deps packs i q \<and> pk_record q = Some k)" using assms(1) by (simp add: c closure_sound_def)
    then show ?thesis using 1 assms(2) by_record by_pack by blast
  next
    case 2
    then obtain q where "reached deps packs i q" "x \<in> set (pack_shas q)" using assms(1) by (auto simp: c closure_sound_def)
    then show ?thesis using 2 assms(2) by_bytes by blast
  qed
qed

lemma visit_sound:
  assumes "closure_sound deps packs i c" and "p \<in> set packs"
  shows "closure_sound deps packs i (closure_visit deps p c)"
proof (cases "pk_id p \<in> set (fst c) \<or> \<not> pack_affected deps p c")
  case True
  then show ?thesis using assms(1) by (auto simp: closure_visit_def split: prod.splits)
next
  case False
  then have "reached deps packs i p" using affected_reached [OF assms] by simp
  then show ?thesis using assms(1) by (auto simp: closure_visit_def closure_sound_def split: prod.splits option.splits)
qed

lemma visit_linked:
  assumes "distinct (map pk_id packs)" and "p \<in> set packs" and "closure_linked packs i c"
  shows "closure_linked packs i (closure_visit deps p c)"
proof -
  have "q = p" if "q \<in> set packs" "pk_id q = pk_id p" for q
    using assms(1,2) that by (metis (no_types) distinct_map inj_onD)
  then show ?thesis using assms(3)
    by (auto simp: closure_visit_def closure_linked_def split: prod.splits option.splits)
      (metis option.distinct(1) option.inject)+
qed

lemma pass_keeps:
  assumes "distinct (map pk_id packs)" and "set ps \<subseteq> set packs"
    and "closure_sound deps packs i c" and "closure_linked packs i c"
  shows "closure_sound deps packs i (closure_pass deps ps c) \<and> closure_linked packs i (closure_pass deps ps c)"
  using assms(2-)
proof (induction ps arbitrary: c)
  case (Cons p ps)
  then have "closure_sound deps packs i (closure_visit deps p c)" "closure_linked packs i (closure_visit deps p c)"
    using visit_sound visit_linked [OF assms(1)] by simp_all
  then show ?case using Cons by (simp add: closure_pass_def)
qed (simp add: closure_pass_def)

lemma pass_stable:
  "fst (closure_pass deps ps c) = fst c \<Longrightarrow> p \<in> set ps \<Longrightarrow> pk_id p \<in> set (fst c) \<or> \<not> pack_affected deps p c"
proof (induction ps)
  case (Cons q ps)
  let ?c = "closure_visit deps q c"
  obtain new where "fst (closure_pass deps ps ?c) = new @ fst ?c" using closure_pass_selected by blast
  then have grow: "fst (closure_pass deps (q # ps) c) = new @ fst ?c" by (simp add: closure_pass_def)
  then have "fst ?c = fst c" using closure_visit_selected [of deps q c] Cons.prems(1) by auto
  then have same: "?c = c" by (rule closure_visit_same)
  then have "pk_id q \<in> set (fst c) \<or> \<not> pack_affected deps q c"
    by (cases c) (auto simp: closure_visit_def split: if_splits)
  moreover have "fst (closure_pass deps ps c) = fst c" using Cons.prems(1) same by (simp add: closure_pass_def)
  ultimately show ?case using Cons by auto
qed simp

lemma loop_result:
  "distinct (map pk_id packs) \<Longrightarrow> closure_sound deps packs i c \<Longrightarrow> closure_linked packs i c \<Longrightarrow> closure_loop deps packs c = c' \<Longrightarrow>
    closure_sound deps packs i c' \<and> closure_linked packs i c' \<and>
      (\<forall>p \<in> set packs. pk_id p \<in> set (fst c') \<or> \<not> pack_affected deps p c')"
proof (induction deps packs c rule: closure_loop.induct)
  case (1 deps packs c)
  let ?c = "closure_pass deps packs c"
  have keep: "closure_sound deps packs i ?c \<and> closure_linked packs i ?c" by (rule pass_keeps [OF 1(2) _ 1(3,4)]) simp
  show ?case
  proof (cases "length (fst ?c) = length (fst c)")
    case True
    then have "c' = ?c" using 1(5) by (simp add: closure_loop.simps Let_def)
    moreover have same: "fst ?c = fst c" using True closure_pass_selected [of deps packs c] by auto
    moreover have "?c = c" by (rule closure_pass_same [OF same])
    ultimately show ?thesis using keep pass_stable [OF same] by metis
  next
    case False
    then have "closure_loop deps packs ?c = c'" using 1(5) by (simp add: closure_loop.simps [of deps packs c] Let_def)
    then show ?thesis using 1(1) [OF refl False 1(2)] keep by blast
  qed
qed

lemma pack_closure_least:
  assumes "distinct (map pk_id packs)"
  shows "set (pack_invalidation_closure deps packs i) = pk_id ` {p. reached deps packs i p}"
proof -
  have "closure_sound deps packs i ([], [i], [])" "closure_linked packs i ([], [i], [])"
    by (simp_all add: closure_sound_def closure_linked_def)
  then obtain sel aff shas where l: "closure_loop deps packs ([], [i], []) = (sel, aff, shas)"
    and sound: "closure_sound deps packs i (sel, aff, shas)" and linked: "closure_linked packs i (sel, aff, shas)"
    and stable: "\<forall>p \<in> set packs. pk_id p \<in> set sel \<or> \<not> pack_affected deps p (sel, aff, shas)"
    using loop_result [OF assms _ _ refl] by (metis fst_conv prod_cases3)
  have mem: "p \<in> set packs" if "reached deps packs i p" for p using that by (cases rule: reached.cases) auto
  have "pk_id p \<in> set sel" if "reached deps packs i p" for p
    using that
  proof (induction rule: reached.induct)
    case (by_record p)
    then have "pack_affected deps p (sel, aff, shas)" using linked by (auto simp: closure_linked_def pack_affected_def list_ex_iff)
    then show ?case using stable by_record by blast
  next
    case (by_pack q p k)
    then have "k \<in> set aff" using linked mem by (simp add: closure_linked_def) blast
    then have "pack_affected deps p (sel, aff, shas)" using by_pack by (auto simp: pack_affected_def list_ex_iff)
    then show ?case using stable by_pack by blast
  next
    case (by_bytes q p x)
    then have "x \<in> set shas" using linked mem by (simp add: closure_linked_def) blast
    then have "pack_affected deps p (sel, aff, shas)" using by_bytes by (auto simp: pack_affected_def list_ex_iff)
    then show ?case using stable by_bytes by blast
  qed
  moreover have "k \<in> pk_id ` {p. reached deps packs i p}" if "k \<in> set sel" for k
    using sound that by (auto simp: closure_sound_def)
  ultimately show ?thesis by (auto simp: pack_invalidation_closure_def l)
qed


lemma reached_set:
  assumes "set packs = set packs'" and "reached deps packs i p"
  shows "reached deps packs' i p"
  using assms(2)
proof (induction rule: reached.induct)
  case (by_record p)
  then show ?case using assms(1) reached.by_record by metis
next
  case (by_pack q p k)
  then show ?case using assms(1) reached.by_pack by metis
next
  case (by_bytes q p x)
  then show ?case using assms(1) reached.by_bytes by metis
qed

lemma reached_mem: "reached deps packs i p \<Longrightarrow> p \<in> set packs"
  by (cases rule: reached.cases) auto

lemma distinct_map_sort: "distinct (map f xs) \<Longrightarrow> distinct (map f (sort_key g xs))"
  by (metis distinct_map mset_eq_imp_distinct_iff mset_sort set_sort)

end
