(* ===== verification/QmsProps.thy ===== *)
theory QmsProps
  imports QmsSystem PackClosure VaultProps WorkflowProps
begin

text \<open>
  What holds of retained evidence and of corrective actions in every reachable state of \<open>QmsSystem\<close>, each with an
  instance at a concrete run.
\<close>

subsection \<open>Two concrete runs\<close>

definition flow_env :: wf_env where
  "flow_env = \<lparr>we_parse = (\<lambda>_. None), we_stages = [(''qm'', role_stage ''qm'' ''QM'' ''ALL'' JNull)],
     we_default_sla = None, we_assignments = [(2, ''QM'', None)], we_snap = (\<lambda>t. t), we_now = 0\<rparr>"

definition depot :: qms_env where
  "depot = \<lparr>qe_vault = site, qe_hash = (\<lambda>_. [0xAB]), qe_jcs = (\<lambda>_. Inr []), qe_records_bucket = ''records'',
     qe_renditions_bucket = ''renditions'', qe_promote = (\<lambda>sha loc t. Inr (sha, t)), qe_extend = (\<lambda>bu k t. Inr t),
     qe_clause = (\<lambda>_. None), qe_process = (\<lambda>_. True), qe_rendition = (\<lambda>_. None),
     qe_dependencies = (\<lambda>p. if pk_id p = 1 then [0] else if pk_id p = 2 then [11] else [5]),
     qe_pre_release = False, qe_self_disposition = False, qe_self_verify = False, qe_lock_mode = ''GOVERNANCE'',
     qe_local_date = (\<lambda>_. Date 2024 1 31), qe_flow = flow_env, qe_flow_definition = JObj [(''entry'', JStr ''qm'')]\<rparr>"

definition paper :: "string \<Rightarrow> capture" where
  "paper sha = (plain_capture ''EVIDENCE'' sha)\<lparr>cp_evidence := [\<lparr>ei_sha = sha, ei_source = Some ''up''\<rparr>]\<rparr>"

text \<open>Two records are captured, the second is put on hold, the first is destroyed under a legal order.\<close>

definition filing :: "(qms_error, qms) result" where
  "filing =
     bind_res (capture_record depot ann 0 70 (paper ''aa'') None None True empty_qms) (\<lambda>(s1, a).
     bind_res (capture_record depot ann 0 70 (paper ''bb'') None None True s1) (\<lambda>(s2, b).
     place_legal_hold ann (rc_id b) ''case'' s2))"

definition destroying :: "qms \<Rightarrow> (qms_error, qms) result" where
  "destroying s =
     bind_res (request_worm_destroy ann 0 ''court order'' s) (\<lambda>(s4, q).
     case approve_worm_destroy depot bob 0 (wr_id q) None 5 (\<lambda>_. Purged) s4 of
       (s5, Inl e) \<Rightarrow> Inl e
     | (s5, Inr _) \<Rightarrow> Inr s5)"

definition filed :: qms where
  "filed = (case filing of Inr s \<Rightarrow> s | Inl _ \<Rightarrow> empty_qms)"

definition destroyed :: qms where
  "destroyed = (case destroying filed of Inr s \<Rightarrow> s | Inl _ \<Rightarrow> filed)"

text \<open>A corrective action from its raising to its closure.\<close>

definition memo :: dict where "memo = [(''text'', JStr ''done'')]"

definition correcting :: "(qms_error, qms) result" where
  "correcting =
     bind_res (raise_capa depot ann 0 70 ''t'' Major S_process None None empty_qms) (\<lambda>(s1, c).
     bind_res (advance_capa_to_containment ann 0 memo s1) (\<lambda>(s2, _).
     bind_res (advance_capa_to_root_cause ann 0 memo s2) (\<lambda>(s3, _).
     bind_res (propose_action_plan depot ann 0 memo s3) (\<lambda>(s4, k).
     bind_res (decide_capa_action_plan depot bob k 0 ''approve'' None None s4) (\<lambda>(s5, _).
     bind_res (advance_capa_to_implement ann 0 memo s5) (\<lambda>(s6, _).
     bind_res (link_evidence depot ann 0 (Some (TCapaStage (q_next s6 - 1))) None s6) (\<lambda>(s7, _).
     bind_res (verify_capa depot bob 0 ''effective'' memo s7) (\<lambda>(s8, _).
     bind_res (link_evidence depot ann 0 (Some (TCapaStage (q_next s8 - 2))) None s8) (\<lambda>(s9, _).
     bind_res (close_capa ann 0 s9) (\<lambda>(s10, _). Inr s10))))))))))"

definition closed_case :: qms where
  "closed_case = (case correcting of Inr s \<Rightarrow> s | Inl _ \<Rightarrow> empty_qms)"

declare uuid_str_def [code del] id_str_def [code del]

lemma runs_succeed:
  "\<not> isl filing" "\<not> isl (destroying filed)" "\<not> isl correcting"
  by code_simp+

lemma runs_facts:
  "map rc_hold (q_records destroyed) = [False, True]" "map rc_disposition (q_records destroyed) = [DISPOSED, ON_HOLD]"
  "map bl_sha (q_blobs destroyed) = [''bb'']" "map eb_sha (q_evidence filed) = [''aa'', ''bb'']"
  "map eb_record (q_evidence filed) = [0, 1]"
  "map rc_id (q_records filed) = [0, 1]" "content_preserved destroyed 1" "map de_worm (q_dispositions destroyed) = [True]"
  "map ca_state (q_capas closed_case) = [C_Closed]"
  "map sg_stage (q_stages closed_case) = [C_Raised, C_Containment, C_RootCause, C_ActionPlan, C_Implement, C_Verify]"
  by code_simp+

lemma hold_demo:
  "\<not> isl (place_legal_hold ann 0 ''case'' filed)"
  "case place_legal_hold ann 0 ''case'' filed of Inr s' \<Rightarrow> map rc_hold (q_records s') = [True, True] | Inl e \<Rightarrow> False"
  "map rc_hold (q_records filed) = [False, True]"
  by code_simp+

declare uuid_str_def [code] id_str_def [code]


lemma step_record: "record_op E s s' \<Longrightarrow> (qms_step E)\<^sup>*\<^sup>* s s'"
  by (simp add: qms_step_def r_into_rtranclp)

lemma step_capa: "capa_op E s s' \<Longrightarrow> (qms_step E)\<^sup>*\<^sup>* s s'"
  by (simp add: qms_step_def r_into_rtranclp)

lemma steps_trans: "(qms_step E)\<^sup>*\<^sup>* s t \<Longrightarrow> (qms_step E)\<^sup>*\<^sup>* t u \<Longrightarrow> (qms_step E)\<^sup>*\<^sup>* s u"
  by (rule rtranclp_trans)

lemma filed_reachable: "reachable_qms depot filed"
proof -
  obtain s where s: "filing = Inr s" using sum.collapse(2) [OF runs_succeed(1)] by metis
  then obtain s1 a s2 b where
    1: "capture_record depot ann 0 70 (paper ''aa'') None None True empty_qms = Inr (s1, a)" and
    2: "capture_record depot ann 0 70 (paper ''bb'') None None True s1 = Inr (s2, b)" and
    3: "place_legal_hold ann (rc_id b) ''case'' s2 = Inr s"
    unfolding filing_def by auto
  have "(qms_step depot)\<^sup>*\<^sup>* empty_qms s"
    by (rule steps_trans [OF step_record [OF op_capture [OF 1]]],
        rule steps_trans [OF step_record [OF op_capture [OF 2]] step_record [OF op_hold [OF 3]]])
  then show ?thesis unfolding reachable_qms_def filed_def s sum.case .
qed

lemma destroyed_steps: "(qms_step depot)\<^sup>*\<^sup>* filed destroyed"
proof -
  obtain s where s: "destroying filed = Inr s" using sum.collapse(2) [OF runs_succeed(2)] by metis
  then obtain s1 q where
    1: "request_worm_destroy ann 0 ''court order'' filed = Inr (s1, q)" and
    2: "(case approve_worm_destroy depot bob 0 (wr_id q) None 5 (\<lambda>_. Purged) s1 of
       (s5, Inl e) \<Rightarrow> Inl e | (s5, Inr _) \<Rightarrow> Inr s5) = (Inr s :: (qms_error, qms) result)"
    unfolding destroying_def by auto
  obtain x y where a: "approve_worm_destroy depot bob 0 (wr_id q) None 5 (\<lambda>_. Purged) s1 = (x, y)" by (metis surj_pair)
  then have "x = s" using 2 by (cases y) simp_all
  then have "(qms_step depot)\<^sup>*\<^sup>* filed s"
    using steps_trans [OF step_record [OF op_request [OF 1]] step_record [OF op_approve [OF a]]] by simp
  then show ?thesis unfolding destroyed_def s sum.case .
qed

lemma destroyed_reachable: "reachable_qms depot destroyed"
  using filed_reachable destroyed_steps unfolding reachable_qms_def by (rule steps_trans)

lemma closed_reachable: "reachable_qms depot closed_case"
proof -
  obtain s where s: "correcting = Inr s" using sum.collapse(2) [OF runs_succeed(3)] by metis
  then obtain s1 c1 s2 c2 s3 c3 s4 k s5 x5 s6 c6 s7 l7 s8 c8 s9 l9 c10 where
    1: "raise_capa depot ann 0 70 ''t'' Major S_process None None empty_qms = Inr (s1, c1)" and
    2: "advance_capa_to_containment ann 0 memo s1 = Inr (s2, c2)" and
    3: "advance_capa_to_root_cause ann 0 memo s2 = Inr (s3, c3)" and
    4: "propose_action_plan depot ann 0 memo s3 = Inr (s4, k)" and
    5: "decide_capa_action_plan depot bob k 0 ''approve'' None None s4 = Inr (s5, x5)" and
    6: "advance_capa_to_implement ann 0 memo s5 = Inr (s6, c6)" and
    7: "link_evidence depot ann 0 (Some (TCapaStage (q_next s6 - 1))) None s6 = Inr (s7, l7)" and
    8: "verify_capa depot bob 0 ''effective'' memo s7 = Inr (s8, c8)" and
    9: "link_evidence depot ann 0 (Some (TCapaStage (q_next s8 - 2))) None s8 = Inr (s9, l9)" and
    10: "close_capa ann 0 s9 = Inr (s, c10)"
    unfolding correcting_def by (auto simp del: One_nat_def)
  note steps = step_capa [OF op_raise [OF 1]] step_capa [OF op_containment [OF 2]] step_capa [OF op_root_cause [OF 3]]
    step_capa [OF op_propose [OF 4]] step_capa [OF op_decide [OF 5]] step_capa [OF op_implement [OF 6]]
    step_capa [OF op_link [OF 7]] step_capa [OF op_verify [OF 8]] step_capa [OF op_link [OF 9]] step_capa [OF op_close [OF 10]]
  have "(qms_step depot)\<^sup>*\<^sup>* empty_qms s"
    by (rule steps_trans [OF steps(1)], rule steps_trans [OF steps(2)], rule steps_trans [OF steps(3)],
        rule steps_trans [OF steps(4)], rule steps_trans [OF steps(5)], rule steps_trans [OF steps(6)],
        rule steps_trans [OF steps(7)], rule steps_trans [OF steps(8)], rule steps_trans [OF steps(9) steps(10)])
  then show ?thesis unfolding reachable_qms_def closed_case_def s sum.case .
qed

subsection \<open>Records\<close>



text \<open>C23: From any reachable state on, whatever is done: the audit events and the disposition events are only appended to,
and every record stays, with all members sealed at its capture and, until a destruction of it is on record, with its form
values.\<close>

theorem sealed_history_kept:
  assumes "reachable_qms E s" and "(qms_step E)\<^sup>*\<^sup>* s s'"
  shows "prefix (q_events s) (q_events s') \<and> prefix (q_dispositions s) (q_dispositions s') \<and>
    (\<forall>r \<in> set (q_records s). \<exists>r' \<in> set (q_records s'). rc_id r' = rc_id r \<and> seal r' = seal r
      \<and> (content_preserved s' (rc_id r) \<longrightarrow> rc_values r' = rc_values r))"
proof -
  have "q_evolves s s'" using qms_steps_inv [OF assms(2) reachable_inv [OF assms(1)]] by (simp add: qms_evolves_def)
  then have "prefix (q_events s) (q_events s')" "prefix (q_dispositions s) (q_dispositions s')"
    and rs: "\<forall>r \<in> set (q_records s). \<exists>r' \<in> set (q_records s'). rec_evolves s' r r'"
    by (simp_all add: q_evolves_def)
  moreover have "\<exists>r' \<in> set (q_records s'). rc_id r' = rc_id r \<and> seal r' = seal r
      \<and> (content_preserved s' (rc_id r) \<longrightarrow> rc_values r' = rc_values r)" if r: "r \<in> set (q_records s)" for r
  proof -
    obtain r' where "r' \<in> set (q_records s')" "rec_evolves s' r r'" using rs r by blast
    then show ?thesis by (intro bexI [of _ r']) (simp_all add: rec_evolves_def)
  qed
  ultimately show ?thesis by simp
qed

lemma sealed_history_kept_witness:
  "reachable_qms depot filed \<and> prefix (q_events filed) (q_events destroyed)
   \<and> (\<exists>r \<in> set (q_records filed). \<exists>r' \<in> set (q_records destroyed). seal r' = seal r)"
proof -
  note kept = sealed_history_kept [OF filed_reachable destroyed_steps]
  have "q_records filed \<noteq> []" using runs_facts(6) by auto
  then obtain r where r: "r \<in> set (q_records filed)" using hd_in_set by blast
  then obtain r' where "r' \<in> set (q_records destroyed)" "seal r' = seal r" using kept by metis
  with r kept filed_reachable show ?thesis by metis
qed

text \<open>C7: Evidence of a record that no destruction is on record for survives every run of operations, whatever the object
store does to a purge: the attachment stays, its blob stays registered and the bytes stay stored.\<close>

theorem live_evidence_kept:
  assumes "reachable_qms E s" and "(qms_step E)\<^sup>*\<^sup>* s s'" and "e \<in> set (q_evidence s)" and "content_preserved s' (eb_record e)"
  shows "e \<in> set (q_evidence s') \<and> (\<exists>b \<in> set (q_blobs s'). bl_sha b = eb_sha e \<and> (bl_bucket b, bl_key b) \<in> q_stored s')"
proof -
  have inv: "ev_inv s'" and ev: "q_evolves s s'"
    using qms_steps_inv [OF assms(2) reachable_inv [OF assms(1)]] by (simp_all add: qms_evolves_def qms_inv_def)
  have e: "e \<in> set (q_evidence s')" using ev assms(3,4) unfolding q_evolves_def by blast
  then have "eb_sha e \<in> bl_sha ` set (q_blobs s')" using inv by (simp add: ev_inv_def evidence_ok_def)
  then show ?thesis using e inv by (auto simp: ev_inv_def objects_ok_def)
qed

lemma live_evidence_kept_witness:
  "\<exists>e \<in> set (q_evidence filed). eb_sha e = ''bb'' \<and> e \<in> set (q_evidence destroyed)"
proof -
  obtain x e where e: "q_evidence filed = [x, e]" "eb_sha e = ''bb''" "eb_record e = 1"
    using runs_facts(4,5) by (auto simp: map_eq_Cons_conv)
  then have "e \<in> set (q_evidence destroyed)"
    using live_evidence_kept [OF filed_reachable destroyed_steps, of e] runs_facts(7) by simp
  then show ?thesis using e by auto
qed



text \<open>C15: In every reachable state a record is in the state ON_HOLD exactly when it is under a legal hold, unless the
cascade of a destroy order has disposed of it with its evidence pack; and a disposed record has its disposition event.\<close>

theorem hold_stops_disposal:
  assumes "reachable_qms E s" and "r \<in> set (q_records s)"
  shows "(rc_disposition r = ON_HOLD \<longrightarrow> rc_hold r)
    \<and> (rc_hold r \<longrightarrow> rc_disposition r = ON_HOLD
        \<or> rc_disposition r = DISPOSED \<and> (\<exists>ev \<in> set (q_dispositions s). de_record ev = rc_id r \<and> de_derived ev \<noteq> None))
    \<and> (rc_disposition r = DISPOSED \<longrightarrow> (\<exists>ev \<in> set (q_dispositions s). de_record ev = rc_id r))"
  using reachable_inv [OF assms(1)] assms(2) unfolding qms_inv_def ev_inv_def hold_ok_def by blast

lemma hold_stops_disposal_witness:
  "\<exists>r \<in> set (q_records destroyed). rc_disposition r = ON_HOLD \<and> rc_hold r"
proof -
  obtain x r where r: "q_records destroyed = [x, r]" "rc_disposition r = ON_HOLD" using runs_facts(2) by (auto simp: map_eq_Cons_conv)
  then show ?thesis using hold_stops_disposal [OF destroyed_reachable, of r] by auto
qed

text \<open>C21: The sealed packs that a destroy order invalidates are exactly those that hold a copy of the record, of the
record of an invalidated pack, or share their bytes with an invalidated pack: none is missed, however long the chain,
and none is touched without cause.\<close>

theorem affected_packs_least:
  assumes "distinct (map pk_id (q_packs s))"
  shows "set (affected_sealed_packs E s i) =
    {p. reached (qe_dependencies E) (filter (\<lambda>p. pk_status p = P_SEALED) (q_packs s)) i p}"
proof -
  define xs where "xs = filter (\<lambda>p. pk_status p = P_SEALED) (q_packs s)"
  define ys where "ys = sort_key pk_id xs"
  have d: "distinct (map pk_id ys)" using assms by (simp add: ys_def xs_def distinct_map_filter distinct_map_sort)
  have eq: "set ys = set xs" by (simp add: ys_def)
  have "reached (qe_dependencies E) ys i p \<longleftrightarrow> reached (qe_dependencies E) xs i p" for p
    using reached_set eq by metis
  moreover have "p = q" if "p \<in> set ys" "q \<in> set ys" "pk_id p = pk_id q" for p q
    using d that by (metis (no_types) distinct_map inj_onD)
  then have "set (affected_sealed_packs E s i) = {p. reached (qe_dependencies E) ys i p}"
    using pack_closure_least [OF d, of "qe_dependencies E" i] reached_mem [of "qe_dependencies E" ys i]
    by (auto simp: affected_sealed_packs_def Let_def xs_def [symmetric] ys_def [symmetric])
  ultimately show ?thesis by (simp add: xs_def)
qed

text \<open>A pack with a copy of record 0, a pack with a copy of the first pack's record and an unrelated pack.\<close>

definition sealed_pack :: "rid \<Rightarrow> pack" where
  "sealed_pack k = \<lparr>pk_id = k, pk_status = P_SEALED, pk_record = Some (10 + k), pk_zip = None, pk_portfolio = None,
     pk_invalidated_at = None, pk_invalidated_by = None\<rparr>"

lemma affected_packs_least_witness:
  "sealed_pack 2 \<in> {p. reached (qe_dependencies depot) (filter (\<lambda>p. pk_status p = P_SEALED) (map sealed_pack [3, 2, 1])) 0 p}"
proof -
  let ?s = "empty_qms\<lparr>q_packs := map sealed_pack [3, 2, 1]\<rparr>"
  have d: "distinct (map pk_id (q_packs ?s))" by code_simp
  have "sealed_pack 2 \<in> set (affected_sealed_packs depot ?s 0)" by code_simp
  then show ?thesis unfolding affected_packs_least [OF d] by simp
qed

subsection \<open>Corrective actions\<close>





subsection \<open>A way back that skips the new cycle\<close>

text \<open>The root-cause step is meant for a contained CAPA. It is also accepted in the state Verify, where the table allows the
loop back, and then leaves the cycle as it is: the implementation and the evidence of the abandoned pass count in the next.\<close>

lemma root_cause_from_verify:
  assumes "get_capa s i = Some c" and "ca_state c = C_Verify" and "block \<noteq> []"
  shows "\<exists>s'. advance_capa_to_root_cause actor i block s = Inr (s', c\<lparr>ca_state := C_RootCause\<rparr>)"
  using assms by (auto simp: advance_capa_to_root_cause_def advance_stage_def non_empty_def load_capa_def check_move_def
      require_def capa_allowed_def move_capa_def Let_def)


subsection \<open>A disposed record that comes back\<close>

text \<open>The cascade of a destroy order does not ask whether a pack record is under a hold of its own; releasing that hold
later asks for the hold only, and makes the destroyed record active again.\<close>

lemma release_revives:
  assumes "get_record s i = Some r" and "rc_hold r" and "rc_disposition r = DISPOSED"
  shows "\<exists>s'. release_legal_hold actor i why s = Inr s' \<and> get_record s' i = Some (r\<lparr>rc_hold := False, rc_disposition := ACTIVE\<rparr>)"
proof -
  have id: "rc_id r = i" using get_record_mem [OF assms(1)] by simp
  have "get_record (emit_record_event u ev i b f t) = get_record t" for u ev b f t
    by (rule get_record_cong) (simp add: emit_record_event_def log_event_def)
  then show ?thesis using assms id
    by (simp add: release_legal_hold_def load_record_def require_def get_record_put)
qed

end
