(* ===== verification/DcrProps.thy ===== *)
theory DcrProps
  imports DcrSpec QmsProps
begin

text \<open>
  What holds of change requests in every reachable state of \<open>DcrSpec\<close>, with an instance: a document is written and
  approved in the vault, its creation is requested, assessed, routed, approved and implemented, the vault releases it,
  and the request is closed.
\<close>

definition desk :: change_env where
  "desk = \<lparr>ce_vault = site, ce_flow = flow_env, ce_flow_definition = JObj [(''entry'', JStr ''qm'')], ce_hash = (\<lambda>_. [0xAB]),
     ce_is_record = (\<lambda>_. False), ce_processes = (\<lambda>_. []), ce_links = (\<lambda>_. []), ce_records = (\<lambda>_. (0, [])), ce_clauses = (\<lambda>_. [])\<rparr>"

definition new_manual :: dcr_input where
  "new_manual = \<lparr>di_type = CH_CREATE, di_significance = SIG_MINOR, di_class = RC_other, di_reason = ''new'', di_target = None,
     di_source = None, di_from = None, di_key = None\<rparr>"

definition write_one :: "vault_op list" where
  "write_one = Op_create ann 1 50 # butlast (issue 1 11 ''a'')"

definition requesting :: "(qms_error, change_store) result" where
  "requesting =
     bind_res (raise_dcr desk ann 0 new_manual (no_changes\<lparr>cs_vault := after_run write_one\<rparr>)) (\<lambda>(s1, d).
     bind_res (assess_dcr desk ann (dc_id d) s1) (\<lambda>s2.
     bind_res (route_dcr desk ann (dc_id d) s2) (\<lambda>(s3, k).
     bind_res (decide_dcr_approval desk bob 0 k 0 ''approve'' None None s3) (\<lambda>(s4, x).
     implement_dcr desk ann 0 (dc_id d) (Some 11) False None s4))))"

text \<open>The vault releases the version, and the request is closed.\<close>

definition finishing :: "(qms_error, change_store) result" where
  "finishing =
     bind_res requesting (\<lambda>s.
     bind_res (lift_vault (exec site [Op_release bob 1 7] (cs_vault s))) (\<lambda>v.
     close_dcr ann 0 (s\<lparr>cs_vault := v\<rparr>)))"

definition finished :: change_store where
  "finished = (case finishing of Inr s \<Rightarrow> s | Inl _ \<Rightarrow> no_changes)"

declare year_str_def [code del] uuid_str_def [code del] id_str_def [code del] snapshot_def [code del] distribution_snapshot_def [code del]

lemma written: "\<not> isl (exec site write_one empty_vault)"
  by code_simp

lemma finished_facts:
  "case finishing of
     Inr s \<Rightarrow> map (\<lambda>d. (dc_state d, dc_type d, dc_result d)) (cs_dcrs s) = [(DCR_Closed, CH_CREATE, Some 11)]
   | Inl _ \<Rightarrow> False"
  by code_simp

declare year_str_def [code] uuid_str_def [code] id_str_def [code] snapshot_def [code] distribution_snapshot_def [code]

lemma sys_vault: "(vault_step (ce_vault E))\<^sup>*\<^sup>* v w \<Longrightarrow> (change_sys E)\<^sup>*\<^sup>* (s\<lparr>cs_vault := v\<rparr>) (s\<lparr>cs_vault := w\<rparr>)"
proof (induction rule: rtranclp_induct)
  case (step u w)
  have "change_sys E (s\<lparr>cs_vault := u\<rparr>) (s\<lparr>cs_vault := u, cs_vault := w\<rparr>)" by (rule cy_vault) (use step(2) in simp)
  then show ?case using step(3) by simp
qed simp

lemma sys_op: "change_op E s s' \<Longrightarrow> (change_sys E)\<^sup>*\<^sup>* s s'"
  by (simp add: cy_op r_into_rtranclp)

lemma finished_run: "finishing = Inr finished" and finished_state:
  "map (\<lambda>d. (dc_state d, dc_type d, dc_result d)) (cs_dcrs finished) = [(DCR_Closed, CH_CREATE, Some 11)]"
proof -
  obtain s where s: "finishing = Inr s" "map (\<lambda>d. (dc_state d, dc_type d, dc_result d)) (cs_dcrs s) = [(DCR_Closed, CH_CREATE, Some 11)]"
  proof (cases finishing)
    case (Inl e)
    show ?thesis by (rule FalseE [OF finished_facts [unfolded Inl sum.case]])
  next
    case (Inr s)
    show ?thesis by (rule that [OF Inr finished_facts [unfolded Inr sum.case]])
  qed
  have "finished = s" unfolding finished_def s(1) sum.case ..
  then show "finishing = Inr finished" "map (\<lambda>d. (dc_state d, dc_type d, dc_result d)) (cs_dcrs finished) = [(DCR_Closed, CH_CREATE, Some 11)]"
    using s by (simp_all only:)
qed

lemma finished_reachable: "reachable_changes desk finished"
proof -
  obtain s1 d s2 s3 k s4 x y s5 v where
    1: "raise_dcr desk ann 0 new_manual (no_changes\<lparr>cs_vault := after_run write_one\<rparr>) = Inr (s1, d)" and
    2: "assess_dcr desk ann (dc_id d) s1 = Inr s2" and
    3: "route_dcr desk ann (dc_id d) s2 = Inr (s3, k)" and
    4: "decide_dcr_approval desk bob 0 k 0 ''approve'' None None s3 = Inr (s4, x, y)" and
    5: "implement_dcr desk ann 0 (dc_id d) (Some 11) False None s4 = Inr s5" and
    6: "exec site [Op_release bob 1 7] (cs_vault s5) = Inr v" and
    7: "close_dcr ann 0 (s5\<lparr>cs_vault := v\<rparr>) = Inr finished"
    using finished_run unfolding finishing_def requesting_def by (auto simp del: exec.simps)
  have e: "ce_vault desk = site" by (simp add: desk_def)
  obtain w where w: "exec site write_one empty_vault = Inr w" using sum.collapse(2) [OF written] by metis
  have 0: "(change_sys desk)\<^sup>*\<^sup>* no_changes (no_changes\<lparr>cs_vault := after_run write_one\<rparr>)"
    using sys_vault [of desk empty_vault "after_run write_one" no_changes] exec_run [OF w]
    by (simp add: e after_run_def w) (simp add: no_changes_def)
  have 67: "(change_sys desk)\<^sup>*\<^sup>* s5 (s5\<lparr>cs_vault := v\<rparr>)"
    using sys_vault [of desk "cs_vault s5" v s5] exec_run [OF 6] by (simp add: e)
  note ops = sys_op [OF co_raise [OF 1]] sys_op [OF co_assess [OF 2]] sys_op [OF co_route [OF 3]] sys_op [OF co_decide [OF 4]]
    sys_op [OF co_implement [OF 5]]
  show ?thesis
    by (rule rtranclp_trans [OF 0], rule rtranclp_trans [OF ops(1)], rule rtranclp_trans [OF ops(2)], rule rtranclp_trans [OF ops(3)],
        rule rtranclp_trans [OF ops(4)], rule rtranclp_trans [OF ops(5)], rule rtranclp_trans [OF 67 sys_op [OF co_close [OF 7]]])
qed

text \<open>C4: change control. In every reachable state the stage events of a change request begin with its raising, follow the
lifecycle table without a gap and end in its current state; a request that is approved, implemented or closed has an
approval event by the person recorded as the decider, sealed with that person's approval signature on the request; an
implemented or closed revision or creation names a version that no other such request claims, and once the request is
closed that version has been released in the vault under a release signature.\<close>

theorem change_request_governed:
  assumes "reachable_changes E s" "d \<in> set (cs_dcrs s)"
  shows "history s (dc_id d) \<noteq> [] \<and> chained None (history s (dc_id d)) \<and> se_to (last (history s (dc_id d))) = dc_state d
    \<and> (dc_state d \<in> {DCR_Approved, DCR_Implemented, DCR_Closed} \<longrightarrow>
        (\<exists>e \<in> set (history s (dc_id d)). \<exists>g \<in> set (cs_signatures s).
           se_to e = DCR_Approved \<and> dc_decided_by d = Some (se_by e) \<and> se_signed e = Some (qs_id g)
           \<and> qs_object g = dc_id d \<and> qs_signer g = se_by e \<and> qs_meaning g = ''approval''))
    \<and> (dc_state d \<in> {DCR_Implemented, DCR_Closed} \<and> dc_type d \<noteq> CH_RETIRE \<longrightarrow>
        (\<exists>r \<in> set (versions (cs_vault s)). dc_result d = Some (ver_id r)
           \<and> (\<forall>c \<in> set (cs_dcrs s). dc_state c \<in> {DCR_Implemented, DCR_Closed} \<and> dc_type c \<noteq> CH_RETIRE
                \<and> dc_result c = Some (ver_id r) \<longrightarrow> c = d)
           \<and> (dc_state d = DCR_Closed \<longrightarrow> was_released (ver_state r) \<and> release_signed (cs_vault s) r)))"
proof -
  have i: "change_inv s" using assms(1) by (rule reachable_change_inv)
  have d: "documented s d" "approved_by s d" "carried_out s d" "effects s d" using i assms(2) by (auto simp: change_inv_def)
  have a: "\<exists>e \<in> set (history s (dc_id d)). \<exists>g \<in> set (cs_signatures s).
           se_to e = DCR_Approved \<and> dc_decided_by d = Some (se_by e) \<and> se_signed e = Some (qs_id g)
           \<and> qs_object g = dc_id d \<and> qs_signer g = se_by e \<and> qs_meaning g = ''approval''"
    if "dc_state d \<in> {DCR_Approved, DCR_Implemented, DCR_Closed}"
    using d(2) that unfolding approved_by_def past_approval_def approves_def history_def by fastforce
  have c: "\<exists>r \<in> set (versions (cs_vault s)). dc_result d = Some (ver_id r)
           \<and> (\<forall>c \<in> set (cs_dcrs s). dc_state c \<in> {DCR_Implemented, DCR_Closed} \<and> dc_type c \<noteq> CH_RETIRE
                \<and> dc_result c = Some (ver_id r) \<longrightarrow> c = d)
           \<and> (dc_state d = DCR_Closed \<longrightarrow> was_released (ver_state r) \<and> release_signed (cs_vault s) r)"
    if st: "dc_state d \<in> {DCR_Implemented, DCR_Closed}" "dc_type d \<noteq> CH_RETIRE"
  proof -
    obtain r where r: "took_effect (cs_vault s) d r" using d(4) st by (auto simp: effects_def)
    have m: "map_of (cs_claims s) (ver_id r) = Some (dc_id d)" using d(3) st r by (auto simp: carried_out_def took_effect_def)
    have "c = d" if c: "c \<in> set (cs_dcrs s)" "dc_state c \<in> {DCR_Implemented, DCR_Closed} \<and> dc_type c \<noteq> CH_RETIRE
        \<and> dc_result c = Some (ver_id r)" for c
    proof -
      have "carried_out s c" using i c(1) by (auto simp: change_inv_def)
      then have "dc_id c = dc_id d" using c(2) m by (auto simp: carried_out_def)
      then show ?thesis using i c(1) assms(2) by (auto simp: change_inv_def distinct_map dest: inj_onD)
    qed
    then show ?thesis using r by (auto simp: took_effect_def)
  qed
  show ?thesis using d(1) a c by (auto simp: documented_def)
qed

lemma change_request_governed_witness:
  "\<exists>d \<in> set (cs_dcrs finished). dc_state d = DCR_Closed \<and> (\<exists>r \<in> set (versions (cs_vault finished)).
     dc_result d = Some (ver_id r) \<and> ver_id r = 11 \<and> release_signed (cs_vault finished) r)"
proof -
  obtain d where d: "d \<in> set (cs_dcrs finished)" "dc_state d = DCR_Closed" "dc_type d = CH_CREATE" "dc_result d = Some 11"
    using finished_state by (cases "cs_dcrs finished") auto
  show ?thesis using change_request_governed [OF finished_reachable d(1)] d by (intro bexI [OF _ d(1)]) auto
qed

end
