(* ===== verification/Improvement.thy ===== *)
theory Improvement
  imports Dcr Trails
begin

text \<open>
  Improvement initiatives (\<open>services/improvement/service.py\<close>) and their signed authorisation by top management
  (\<open>services/improvement/authorization.py\<close>): a mutable stage, the append-only trail of its stage events, and an
  optional instance of the workflow engine whose positive decision closes the initiative. The tables are those of one
  organisation; which processes and users it has are arguments of the environment.
\<close>

subsection \<open>Tables\<close>

datatype improvement_source = IS_OFI | IS_review | IS_manual

fun improvement_source_value :: "improvement_source \<Rightarrow> string" where
  "improvement_source_value IS_OFI = ''OFI''"
| "improvement_source_value IS_review = ''review''"
| "improvement_source_value IS_manual = ''manual''"

fun improvement_value :: "improvement_stage \<Rightarrow> string" where
  "improvement_value I_Open = ''Open''"
| "improvement_value I_InProgress = ''InProgress''"
| "improvement_value I_Completed = ''Completed''"
| "improvement_value I_Closed = ''Closed''"
| "improvement_value I_Cancelled = ''Cancelled''"

record initiative =
  in_id :: rid
  in_identifier :: string
  in_title :: string
  in_description :: "string option"
  in_target :: "string option"
  in_source :: improvement_source
  in_link :: "rid option"
  in_key :: "string option"
  in_process :: "uuid option"
  in_owner :: "uuid option"
  in_stage :: improvement_stage
  in_closed_at :: "instant option"
  in_by :: uuid

record initiative_event =
  iv_id :: rid
  iv_item :: rid
  iv_from :: "improvement_stage option"
  iv_to :: improvement_stage
  iv_by :: uuid
  iv_comment :: "string option"
  iv_signed :: "rid option"
  iv_payload :: "dict option"

record imp_store =
  ip_vault :: vault
  ip_next :: rid
  ip_items :: "initiative list"
  ip_trail :: "initiative_event list"
  ip_flows :: "(rid \<times> rid \<times> wf) list"
  ip_signatures :: "q_signature list"
  ip_events :: "q_event list"

record imp_env =
  ne_flow :: wf_env
  ne_flow_definition :: json
  ne_hash :: "bytes \<Rightarrow> bytes"
  ne_process :: "uuid \<Rightarrow> bool"
  ne_user :: "uuid \<Rightarrow> bool"

subsection \<open>Shared steps\<close>

definition get_initiative :: "imp_store \<Rightarrow> rid \<Rightarrow> initiative option" where
  "get_initiative s i = find (\<lambda>x. in_id x = i) (ip_items s)"

definition load_initiative :: "imp_store \<Rightarrow> rid \<Rightarrow> (qms_error, initiative) result" where
  "load_initiative s i = (case get_initiative s i of None \<Rightarrow> Inl (Refuse 404 ''not_found'') | Some x \<Rightarrow> Inr x)"

definition put_initiative :: "initiative \<Rightarrow> imp_store \<Rightarrow> imp_store" where
  "put_initiative x s = s\<lparr>ip_items := map (\<lambda>y. if in_id y = in_id x then x else y) (ip_items s)\<rparr>"

definition emit_initiative :: "app_user \<Rightarrow> string \<Rightarrow> rid \<Rightarrow> dict option \<Rightarrow> dict option \<Rightarrow> imp_store \<Rightarrow> imp_store" where
  "emit_initiative actor ev i old new s =
     s\<lparr>ip_events := ip_events s @ [\<lparr>qv_type = ev, qv_actor = Some (user_id actor),
        qv_object_type = ''improvement_initiative'', qv_object = id_str i, qv_before = old, qv_after = new\<rparr>]\<rparr>"

definition stage_item :: "improvement_stage \<Rightarrow> string \<times> json" where
  "stage_item st = (''stage'', JStr (improvement_value st))"

definition add_initiative_event ::
    "app_user \<Rightarrow> rid \<Rightarrow> improvement_stage option \<Rightarrow> improvement_stage \<Rightarrow> string option \<Rightarrow> dict option \<Rightarrow> imp_store \<Rightarrow> imp_store" where
  "add_initiative_event actor i old new comment payload s =
     s\<lparr>ip_next := ip_next s + 1, ip_trail := ip_trail s @ [\<lparr>iv_id = ip_next s, iv_item = i, iv_from = old, iv_to = new,
        iv_by = user_id actor, iv_comment = comment, iv_signed = None, iv_payload = payload\<rparr>]\<rparr>"

definition check_imp_process :: "imp_env \<Rightarrow> uuid option \<Rightarrow> (qms_error, unit) result" where
  "check_imp_process E p = require (case p of None \<Rightarrow> True | Some u \<Rightarrow> ne_process E u) (Invalid ''process_id'' ''unknown_process'')"

definition check_imp_owner :: "imp_env \<Rightarrow> uuid option \<Rightarrow> (qms_error, unit) result" where
  "check_imp_owner E p = require (case p of None \<Rightarrow> True | Some u \<Rightarrow> ne_user E u) (Invalid ''owner_user_id'' ''unknown_owner'')"

subsection \<open>Raising and editing\<close>

record initiative_input =
  ii_title :: string
  ii_description :: "string option"
  ii_target :: "string option"
  ii_source :: improvement_source
  ii_link :: "rid option"
  ii_key :: "string option"
  ii_process :: "uuid option"
  ii_owner :: "uuid option"

definition create_initiative ::
    "imp_env \<Rightarrow> app_user \<Rightarrow> instant \<Rightarrow> initiative_input \<Rightarrow> imp_store \<Rightarrow> (qms_error, imp_store \<times> initiative) result" where
  "create_initiative E actor now c s =
     bind_res (check_imp_process E (ii_process c)) (\<lambda>_.
     bind_res (check_imp_owner E (ii_owner c)) (\<lambda>_.
     case allocate_seq (user_org actor) ''IMP'' (year_str now) (ip_vault s) of (v, n) \<Rightarrow>
       let i = ip_next s;
           ident = format_identifier ''IMP'' (nat n) (Some (year_str now)) 4;
           x = \<lparr>in_id = i, in_identifier = ident, in_title = ii_title c, in_description = ii_description c,
                in_target = ii_target c, in_source = ii_source c, in_link = ii_link c, in_key = ii_key c,
                in_process = ii_process c, in_owner = ii_owner c, in_stage = I_Open, in_closed_at = None,
                in_by = user_id actor\<rparr> in
       bind_res (require (\<not> list_ex (\<lambda>y. in_identifier y = ident
           \<or> in_key y \<noteq> None \<and> in_key y = in_key x \<and> in_link y \<noteq> None \<and> in_link y = in_link x) (ip_items s)) IntegrityError) (\<lambda>_.
       Inr (emit_initiative actor ''INITIATIVE_RAISED'' i None
              (Some [(''identifier'', JStr ident), (''title'', JStr (ii_title c)),
                     (''source'', JStr (improvement_source_value (ii_source c))), stage_item I_Open])
              (add_initiative_event actor i None I_Open None
                (Some [(''source'', JStr (improvement_source_value (ii_source c)))])
                (s\<lparr>ip_vault := v, ip_next := i + 1, ip_items := ip_items s @ [x]\<rparr>)), x))))"

definition get_spawned_initiative :: "imp_store \<Rightarrow> rid \<Rightarrow> string option \<Rightarrow> initiative option" where
  "get_spawned_initiative s link key =
     (if key = None then None else find (\<lambda>x. in_link x = Some link \<and> in_key x = key) (ip_items s))"

record initiative_patch =
  np_title :: "string option"
  np_description :: "string option"
  np_target :: "string option"
  np_owner :: "uuid option"
  np_process :: "uuid option"

text \<open>A nullable column is changed by a value it does not hold yet; an absent field is left alone.\<close>

definition sets :: "'a option \<Rightarrow> 'a option \<Rightarrow> bool" where
  "sets new old \<longleftrightarrow> new \<noteq> None \<and> new \<noteq> old"

definition initiative_changes :: "initiative_patch \<Rightarrow> initiative \<Rightarrow> (string \<times> json \<times> json) list" where
  "initiative_changes p x =
     (if changed (np_title p) (in_title x) then [(''title'', JStr (in_title x), JStr (the (np_title p)))] else [])
   @ (if sets (np_description p) (in_description x)
      then [(''description'', opt_json (in_description x), opt_json (np_description p))] else [])
   @ (if sets (np_target p) (in_target x) then [(''target_outcome'', opt_json (in_target x), opt_json (np_target p))] else [])
   @ (if sets (np_owner p) (in_owner x)
      then [(''owner_user_id'', opt_json (map_option uuid_str (in_owner x)), opt_json (map_option uuid_str (np_owner p)))] else [])
   @ (if sets (np_process p) (in_process x)
      then [(''process_id'', opt_json (map_option uuid_str (in_process x)), opt_json (map_option uuid_str (np_process p)))] else [])"

definition or_keep :: "'a option \<Rightarrow> 'a option \<Rightarrow> 'a option" where
  "or_keep new old = (if new = None then old else new)"

definition patched_initiative :: "initiative_patch \<Rightarrow> initiative \<Rightarrow> initiative" where
  "patched_initiative p x = x\<lparr>in_title := (case np_title p of None \<Rightarrow> in_title x | Some t \<Rightarrow> t),
     in_description := or_keep (np_description p) (in_description x), in_target := or_keep (np_target p) (in_target x),
     in_owner := or_keep (np_owner p) (in_owner x), in_process := or_keep (np_process p) (in_process x)\<rparr>"

definition update_initiative ::
    "imp_env \<Rightarrow> app_user \<Rightarrow> rid \<Rightarrow> initiative_patch \<Rightarrow> imp_store \<Rightarrow> (qms_error, imp_store \<times> initiative) result" where
  "update_initiative E actor i p s =
     bind_res (load_initiative s i) (\<lambda>x.
     bind_res (require (\<not> improvement_terminal (in_stage x)) (Refuse 409 ''improvement_not_editable'')) (\<lambda>_.
     bind_res (check_imp_owner E (if sets (np_owner p) (in_owner x) then np_owner p else None)) (\<lambda>_.
     bind_res (check_imp_process E (if sets (np_process p) (in_process x) then np_process p else None)) (\<lambda>_.
     let fs = initiative_changes p x; x' = patched_initiative p x; s' = put_initiative x' s in
     Inr (if fs = [] then s'
          else emit_initiative actor ''INITIATIVE_UPDATED'' i (Some (map (\<lambda>(k, a, b). (k, a)) fs))
                 (Some (map (\<lambda>(k, a, b). (k, b)) fs)) s', x')))))"

subsection \<open>Moving along the lifecycle\<close>

definition authorization_running :: "imp_store \<Rightarrow> rid \<Rightarrow> bool" where
  "authorization_running s i \<longleftrightarrow> list_ex (\<lambda>(k, j, w). j = i \<and> flow_running w) (ip_flows s)"

definition moved_initiative :: "instant \<Rightarrow> improvement_stage \<Rightarrow> initiative \<Rightarrow> initiative" where
  "moved_initiative now st x =
     x\<lparr>in_stage := st, in_closed_at := (if st \<in> {I_Closed, I_Cancelled} then Some now else in_closed_at x)\<rparr>"

definition transition_initiative ::
    "app_user \<Rightarrow> instant \<Rightarrow> rid \<Rightarrow> improvement_stage \<Rightarrow> string option \<Rightarrow> string option \<Rightarrow> imp_store \<Rightarrow> (qms_error, imp_store) result" where
  "transition_initiative actor now i st comment outcome s =
     bind_res (load_initiative s i) (\<lambda>x.
     bind_res (require (improvement_allowed (in_stage x) st) (Refuse 409 ''improvement_transition_invalid'')) (\<lambda>_.
     bind_res (require (\<not> (st = I_Closed \<and> authorization_running s i)) (Refuse 409 ''authorization_in_progress'')) (\<lambda>_.
     Inr (emit_initiative actor ''INITIATIVE_TRANSITIONED'' i (Some [stage_item (in_stage x)]) (Some [stage_item st])
            (put_initiative (moved_initiative now st x)
              (add_initiative_event actor i (Some (in_stage x)) st comment
                 (if st = I_Closed \<and> outcome \<noteq> None then Some [(''outcome'', opt_json outcome)] else None) s))))))"

subsection \<open>The signed authorisation\<close>

definition authorization_context :: "app_user \<Rightarrow> initiative \<Rightarrow> string option \<Rightarrow> dict" where
  "authorization_context actor x comment =
     [(''initiative_id'', JStr (id_str (in_id x))), (''identifier'', JStr (in_identifier x)), (''title'', JStr (in_title x)),
      (''process_id'', opt_json (map_option uuid_str (in_process x))), (''requested_by'', JStr (uuid_str (user_id actor))),
      (''request_comment'', opt_json comment)]"

definition request_authorization ::
    "imp_env \<Rightarrow> app_user \<Rightarrow> rid \<Rightarrow> string option \<Rightarrow> imp_store \<Rightarrow> (qms_error, imp_store \<times> rid) result" where
  "request_authorization E actor i comment s =
     bind_res (load_initiative s i) (\<lambda>x.
     bind_res (require (in_stage x = I_Completed) (Refuse 409 ''initiative_not_authorizable'')) (\<lambda>_.
     bind_res (require (\<not> authorization_running s i) (Refuse 409 ''authorization_in_progress'')) (\<lambda>_.
     bind_res (lift_flow (instantiate (ne_flow E) (ne_flow_definition E) ''IMPROVEMENT_INITIATIVE''
         (Some (authorization_context actor x comment)) (Some (user_id actor)))) (\<lambda>w.
     Inr (s\<lparr>ip_next := ip_next s + 1, ip_flows := ip_flows s @ [(ip_next s, i, w)]\<rparr>, ip_next s)))))"

definition put_initiative_flow :: "rid \<Rightarrow> wf \<Rightarrow> imp_store \<Rightarrow> imp_store" where
  "put_initiative_flow k w s = s\<lparr>ip_flows := map (\<lambda>(k', i, w'). if k' = k then (k', i, w) else (k', i, w')) (ip_flows s)\<rparr>"

definition assert_initiative_authorizer :: "imp_env \<Rightarrow> app_user \<Rightarrow> wf_task \<Rightarrow> wf \<Rightarrow> (qms_error, unit) result" where
  "assert_initiative_authorizer E actor t w =
     bind_res (require (tk_assignee t = Some (user_id actor) \<or> uuid_str (user_id actor) \<in> set (tk_pool t))
       (Refuse 404 ''not_found'')) (\<lambda>_.
     case map_of (we_stages (ne_flow E)) (tk_stage t) of
       None \<Rightarrow> Inl (Refuse 404 ''not_found'')
     | Some st \<Rightarrow>
       bind_res (lift_exn (json_list (dget_or (ctx_of (st_assignees st)) ''roles'' (JList [])))) (\<lambda>roles.
       bind_res (require (user_id actor \<in> set (users_with_roles (ne_flow E) roles)) (Refuse 404 ''not_found'')) (\<lambda>_.
       require (\<not> actor_decided_elsewhere w (user_id actor) (tk_id t)) (Refuse 409 ''conflict''))))"

definition authorization_outcomes :: "string list" where
  "authorization_outcomes = [''verify'', ''reject'']"

text \<open>What a replay of the completing decision adds to the response: the stage and the last signature of the trail.\<close>

definition initiative_replay :: "imp_store \<Rightarrow> rid \<Rightarrow> (improvement_stage \<times> rid option) option" where
  "initiative_replay s i =
     (case get_initiative s i of
        None \<Rightarrow> None
      | Some x \<Rightarrow>
        let signed_by = filter (\<lambda>e. iv_item e = i \<and> iv_signed e \<noteq> None) (ip_trail s) in
        Some (in_stage x, if signed_by = [] then None else iv_signed (last signed_by)))"

definition verified_block :: "app_user \<Rightarrow> initiative \<Rightarrow> string option \<Rightarrow> rid \<Rightarrow> wf \<Rightarrow> dict" where
  "verified_block actor x comment k w =
     [(''initiative_id'', JStr (id_str (in_id x))), (''identifier'', JStr (in_identifier x)),
      (''verified_by'', JStr (uuid_str (user_id actor))), (''requested_by'', dget (ctx_of (wf_context w)) ''requested_by''),
      (''outcome'', opt_json comment), (''workflow_instance_id'', JStr (id_str k))]"

text \<open>The closing step: the id of the stage event is drawn first, the signature names it, the event names the signature.\<close>

definition close_signed ::
    "imp_env \<Rightarrow> app_user \<Rightarrow> instant \<Rightarrow> initiative \<Rightarrow> string option \<Rightarrow> rid \<Rightarrow> wf \<Rightarrow> imp_store \<Rightarrow> imp_store \<times> rid" where
  "close_signed E actor now x comment k w s =
     (let ev = ip_next s; sig = ip_next s + 1;
          s1 = s\<lparr>ip_next := ip_next s + 2,
                 ip_signatures := ip_signatures s @ [\<lparr>qs_id = sig, qs_object = ev, qs_meaning = ''verify'',
                   qs_signer = user_id actor, qs_digest = Capa.content_digest (ne_hash E) (verified_block actor x comment k w)\<rparr>],
                 ip_trail := ip_trail s @ [\<lparr>iv_id = ev, iv_item = in_id x, iv_from = Some (in_stage x), iv_to = I_Closed,
                   iv_by = user_id actor, iv_comment = comment, iv_signed = Some sig,
                   iv_payload = (if comment \<noteq> None \<and> comment \<noteq> Some [] then Some [(''outcome'', opt_json comment)] else None)\<rparr>]\<rparr> in
      (emit_initiative actor ''INITIATIVE_AUTHORIZED'' (in_id x) (Some [stage_item (in_stage x)])
         (Some [stage_item I_Closed, (''signed_event_id'', JStr (id_str sig))])
         (put_initiative (moved_initiative now I_Closed x) s1), sig))"

definition decide_initiative_authorization ::
    "imp_env \<Rightarrow> app_user \<Rightarrow> instant \<Rightarrow> rid \<Rightarrow> nat \<Rightarrow> string \<Rightarrow> string option \<Rightarrow> string option \<Rightarrow> imp_store
       \<Rightarrow> (qms_error, imp_store \<times> response \<times> (improvement_stage \<times> rid option) option) result" where
  "decide_initiative_authorization E actor now k n outcome comment key s =
     (case map_of (ip_flows s) k of
        None \<Rightarrow> Inl (Refuse 404 ''not_found'')
      | Some (i, w) \<Rightarrow>
        (case get_task w n of
           None \<Rightarrow> Inl (Refuse 404 ''not_found'')
         | Some t \<Rightarrow>
           bind_res (assert_initiative_authorizer E actor t w) (\<lambda>_.
           bind_res (require (outcome \<in> set authorization_outcomes) (Refuse 422 ''validation_error'')) (\<lambda>_.
           bind_res (lift_flow (wf_decide (ne_flow E) (user_id actor) n outcome comment key w)) (\<lambda>(w', r).
           let s1 = put_initiative_flow k w' s in
           if rs_replayed r then
             Inr (s1, r, if rs_current r = completed then initiative_replay s1 i else None)
           else if rs_current r = completed then
             bind_res (load_initiative s1 i) (\<lambda>x.
             bind_res (require (improvement_allowed (in_stage x) I_Closed) (Refuse 409 ''improvement_transition_invalid'')) (\<lambda>_.
             case close_signed E actor now x comment k w' s1 of (s2, sig) \<Rightarrow> Inr (s2, r, Some (I_Closed, Some sig))))
           else if outcome = ''reject'' then
             Inr (put_initiative_flow k (stop_flow w') s1, r\<lparr>rs_current := rejected\<rparr>, None)
           else Inr (s1, r, None))))))"

end
