(* ===== verification/Audits.thy ===== *)
theory Audits
  imports Improvement
begin

text \<open>
  Internal audits (\<open>services/audits/service.py\<close>, \<open>services/audits/repository.py\<close>): programmes and plans, the audit as a
  retained record with a lifecycle, its findings with the corrective action every nonconformity must carry, and the
  gate that keeps an audit open while one of them is. The state joins the retained evidence (\<open>qms\<close>), the improvement
  initiatives a finding may raise and the tables of the audits; a finding is also entered in the table \<open>q_findings\<close>
  the evidence links look at.
\<close>

subsection \<open>Tables\<close>

fun audit_value :: "audit_state \<Rightarrow> string" where
  "audit_value A_Scheduled = ''Scheduled''"
| "audit_value A_Planned = ''Planned''"
| "audit_value A_InProgress = ''InProgress''"
| "audit_value A_FindingsDraft = ''FindingsDraft''"
| "audit_value A_Reported = ''Reported''"
| "audit_value A_Closing = ''Closing''"
| "audit_value A_Closed = ''Closed''"

fun finding_value :: "finding_type \<Rightarrow> string" where
  "finding_value NC = ''NC''"
| "finding_value OBSERVATION = ''OBSERVATION''"
| "finding_value OFI = ''OFI''"

record audit_program =
  ag_id :: rid
  ag_identifier :: string
  ag_title :: string
  ag_period :: "string option"
  ag_coverage :: "dict option"
  ag_archived :: bool
  ag_by :: uuid

record audit_plan =
  al_id :: rid
  al_program :: rid
  al_process :: "uuid option"
  al_lead :: "uuid option"
  al_date :: "date option"
  al_checklist :: "string option"
  al_by :: uuid

record audit =
  an_id :: rid
  an_plan :: rid
  an_lead :: "uuid option"
  an_started :: "date option"
  an_completed :: "date option"
  an_state :: audit_state

record audit_finding = finding +
  af_audit :: rid
  af_severity :: "nc_severity option"
  af_clause :: "string option"
  af_process :: "string option"

record audit_store =
  as_q :: qms
  as_imp :: imp_store
  as_programs :: "audit_program list"
  as_plans :: "audit_plan list"
  as_audits :: "audit list"
  as_findings :: "audit_finding list"

record audit_env =
  ae_qms :: qms_env
  ae_imp :: imp_env

definition get_program :: "audit_store \<Rightarrow> rid \<Rightarrow> audit_program option" where
  "get_program s i = find (\<lambda>x. ag_id x = i) (as_programs s)"

definition get_plan :: "audit_store \<Rightarrow> rid \<Rightarrow> audit_plan option" where
  "get_plan s i = find (\<lambda>x. al_id x = i) (as_plans s)"

definition get_audit :: "audit_store \<Rightarrow> rid \<Rightarrow> audit option" where
  "get_audit s i = find (\<lambda>x. an_id x = i) (as_audits s)"

definition get_finding :: "audit_store \<Rightarrow> rid \<Rightarrow> audit_finding option" where
  "get_finding s i = find (\<lambda>x. fi_id x = i) (as_findings s)"

definition found :: "'a option \<Rightarrow> (qms_error, 'a) result" where
  "found x = (case x of None \<Rightarrow> Inl (Refuse 404 ''not_found'') | Some a \<Rightarrow> Inr a)"

definition emit_audit :: "app_user \<Rightarrow> string \<Rightarrow> rid \<Rightarrow> dict option \<Rightarrow> dict option \<Rightarrow> qms \<Rightarrow> qms" where
  "emit_audit actor ev i old new = log_event ev (Some (user_id actor)) ''audit'' (id_str i) old new"

subsection \<open>Programmes and plans\<close>

definition create_audit_program ::
    "app_user \<Rightarrow> string \<Rightarrow> string option \<Rightarrow> dict option \<Rightarrow> audit_store \<Rightarrow> (qms_error, audit_store \<times> audit_program) result" where
  "create_audit_program actor title period coverage s =
     (case allocate_seq (user_org actor) ''AUDPROG'' [] (q_vault (as_q s)) of (v, n) \<Rightarrow>
        let i = q_next (as_q s);
            p = \<lparr>ag_id = i, ag_identifier = format_identifier ''AUDPROG'' (nat n) None 3, ag_title = title, ag_period = period,
                 ag_coverage = coverage, ag_archived = False, ag_by = user_id actor\<rparr> in
        bind_res (require (\<not> list_ex (\<lambda>x. ag_identifier x = ag_identifier p) (as_programs s)) IntegrityError) (\<lambda>_.
        Inr (s\<lparr>as_programs := as_programs s @ [p],
               as_q := emit_audit actor ''AUDIT_PROGRAM_CREATED'' i None
                 (Some [(''identifier'', JStr (ag_identifier p)), (''title'', JStr title), (''period'', opt_json period)])
                 ((as_q s)\<lparr>q_vault := v, q_next := i + 1\<rparr>)\<rparr>, p)))"

record program_patch =
  gp_title :: "string option"
  gp_period :: "string option"
  gp_coverage :: "dict option"
  gp_archived :: "bool option"

definition program_changes :: "program_patch \<Rightarrow> audit_program \<Rightarrow> (string \<times> json \<times> json) list" where
  "program_changes p x =
     (if changed (gp_title p) (ag_title x) then [(''title'', JStr (ag_title x), JStr (the (gp_title p)))] else [])
   @ (if sets (gp_period p) (ag_period x) then [(''period'', opt_json (ag_period x), opt_json (gp_period p))] else [])
   @ (if sets (gp_coverage p) (ag_coverage x)
      then [(''coverage'', case ag_coverage x of None \<Rightarrow> JNull | Some d \<Rightarrow> JObj d, JObj (the (gp_coverage p)))] else [])
   @ (if changed (gp_archived p) (ag_archived x)
      then [(''archived'', JBool (ag_archived x), JBool (the (gp_archived p)))] else [])"

definition patched_program :: "program_patch \<Rightarrow> audit_program \<Rightarrow> audit_program" where
  "patched_program p x = x\<lparr>ag_title := (case gp_title p of None \<Rightarrow> ag_title x | Some t \<Rightarrow> t),
     ag_period := or_keep (gp_period p) (ag_period x), ag_coverage := or_keep (gp_coverage p) (ag_coverage x),
     ag_archived := (case gp_archived p of None \<Rightarrow> ag_archived x | Some b \<Rightarrow> b)\<rparr>"

definition update_audit_program ::
    "app_user \<Rightarrow> rid \<Rightarrow> program_patch \<Rightarrow> audit_store \<Rightarrow> (qms_error, audit_store \<times> audit_program) result" where
  "update_audit_program actor i p s =
     bind_res (found (get_program s i)) (\<lambda>x.
     let fs = program_changes p x; x' = patched_program p x in
     Inr (if fs = [] then s
          else s\<lparr>as_programs := map (\<lambda>y. if ag_id y = i then x' else y) (as_programs s),
                 as_q := emit_audit actor ''AUDIT_PROGRAM_UPDATED'' i (Some (map (\<lambda>(k, a, b). (k, a)) fs))
                   (Some (map (\<lambda>(k, a, b). (k, b)) fs)) (as_q s)\<rparr>, x'))"

definition create_audit_plan ::
    "audit_env \<Rightarrow> app_user \<Rightarrow> rid \<Rightarrow> uuid option \<Rightarrow> uuid option \<Rightarrow> date option \<Rightarrow> string option \<Rightarrow> audit_store
       \<Rightarrow> (qms_error, audit_store \<times> audit_plan) result" where
  "create_audit_plan E actor i process lead due checklist s =
     bind_res (found (get_program s i)) (\<lambda>g.
     bind_res (require (\<not> ag_archived g) (Refuse 409 ''program_archived'')) (\<lambda>_.
     bind_res (require (case process of None \<Rightarrow> True | Some u \<Rightarrow> qe_process (ae_qms E) u) (Refuse 404 ''not_found'')) (\<lambda>_.
     let k = q_next (as_q s);
         p = \<lparr>al_id = k, al_program = i, al_process = process, al_lead = lead, al_date = due, al_checklist = checklist,
              al_by = user_id actor\<rparr> in
     Inr (s\<lparr>as_plans := as_plans s @ [p],
            as_q := emit_audit actor ''AUDIT_PLAN_CREATED'' k None
              (Some [(''program_id'', JStr (id_str i)), (''auditee_process_id'', opt_json (map_option uuid_str process)),
                     (''scheduled_date'', date_json due)]) ((as_q s)\<lparr>q_next := k + 1\<rparr>)\<rparr>, p))))"

subsection \<open>The audit\<close>

definition state_item :: "audit_state \<Rightarrow> string \<times> json" where
  "state_item st = (''state'', JStr (audit_value st))"

definition date_text :: "date option \<Rightarrow> string" where
  "date_text d = (case date_json d of JStr t \<Rightarrow> t | _ \<Rightarrow> ''unscheduled'')"

definition audit_title :: "string option \<Rightarrow> audit_plan \<Rightarrow> string" where
  "audit_title title p = (if some_text title then the title else ''Internal Audit ('' @ date_text (al_date p) @ '')'')"

definition create_audit ::
    "audit_env \<Rightarrow> app_user \<Rightarrow> instant \<Rightarrow> uuid \<Rightarrow> rid \<Rightarrow> string option \<Rightarrow> uuid option \<Rightarrow> audit_store
       \<Rightarrow> (qms_error, audit_store \<times> audit) result" where
  "create_audit E actor now fresh i title lead s =
     bind_res (found (get_plan s i)) (\<lambda>p.
     bind_res (capture_record (ae_qms E) actor now fresh (plain_capture ''AUDIT'' (audit_title title p)) None None False (as_q s))
       (\<lambda>(q1, r).
     let a = \<lparr>an_id = rc_id r, an_plan = i, an_lead = or_keep lead (al_lead p), an_started = None, an_completed = None,
              an_state = A_Scheduled\<rparr> in
     Inr (s\<lparr>as_audits := as_audits s @ [a],
            as_q := emit_record_event (user_id actor) ''AUDIT_CREATED'' (an_id a) None
              (Some [(''identifier'', JStr (rc_identifier r)), (''plan_id'', JStr (id_str i)), state_item A_Scheduled]) q1\<rparr>, a)))"

subsection \<open>Findings\<close>

definition audited_process :: "audit_store \<Rightarrow> audit \<Rightarrow> uuid option" where
  "audited_process s a = (case get_plan s (an_plan a) of None \<Rightarrow> None | Some p \<Rightarrow> al_process p)"

text \<open>The corrective action a nonconformity carries from its recording on.\<close>

definition auto_capa_for_finding ::
    "audit_env \<Rightarrow> app_user \<Rightarrow> instant \<Rightarrow> uuid \<Rightarrow> audit_store \<Rightarrow> audit \<Rightarrow> rec \<Rightarrow> string option \<Rightarrow> nc_severity \<Rightarrow> qms
       \<Rightarrow> (qms_error, qms \<times> rid) result" where
  "auto_capa_for_finding E actor now fresh s a r clause sev q =
     bind_res (build_capa (ae_qms E) actor now fresh
         (if rc_identifier r = [] then ''CAPA (from audit finding)'' else ''CAPA (from audit finding '' @ rc_identifier r @ '')'')
         sev S_audit (audited_process s a) (Some (rc_id r))
         [(''source'', JStr (source_value S_audit)), (''finding_id'', JStr (id_str (rc_id r))),
          (''audit_id'', JStr (id_str (an_id a))), (''clause_ref'', opt_json clause), (''severity'', JStr (Capa.severity_value sev))] q)
       (\<lambda>(q', c). Inr (q', ca_id c))"

text \<open>The new row and, for a nonconformity, its corrective action, in one transaction.\<close>

definition enter_finding ::
    "audit_env \<Rightarrow> app_user \<Rightarrow> instant \<Rightarrow> uuid \<Rightarrow> audit_store \<Rightarrow> audit \<Rightarrow> rec \<Rightarrow> finding_type \<Rightarrow> nc_severity option
       \<Rightarrow> string option \<Rightarrow> string option \<Rightarrow> qms \<Rightarrow> (qms_error, qms \<times> audit_finding) result" where
  "enter_finding E actor now fresh s a r ft sev clause process q =
     bind_res (case sev of
                 Some x \<Rightarrow> if ft = NC then bind_res (auto_capa_for_finding E actor now fresh s a r clause x q) (\<lambda>(q', k). Inr (q', Some k))
                           else Inr (q, None)
               | None \<Rightarrow> Inr (q, None))
       (\<lambda>(q', k).
     let f = \<lparr>fi_id = rc_id r, fi_type = ft, fi_capa = k, af_audit = an_id a, af_severity = sev, af_clause = clause,
              af_process = process\<rparr> in
     Inr (q'\<lparr>q_findings := q_findings q' @ [finding.truncate f]\<rparr>, f))"

definition create_finding ::
    "audit_env \<Rightarrow> app_user \<Rightarrow> instant \<Rightarrow> uuid \<Rightarrow> uuid \<Rightarrow> rid \<Rightarrow> finding_type \<Rightarrow> nc_severity option \<Rightarrow> string option
       \<Rightarrow> string option \<Rightarrow> string option \<Rightarrow> audit_store \<Rightarrow> (qms_error, audit_store \<times> audit_finding) result" where
  "create_finding E actor now fresh fresh2 i ft sev clause process summary s =
     bind_res (found (get_audit s i)) (\<lambda>a.
     bind_res (require (an_state a \<noteq> A_Closed) (Refuse 409 ''audit_finding_audit_closed'')) (\<lambda>_.
     bind_res (require (\<not> (ft = NC \<and> sev = None)) (Invalid ''severity'' ''required'')) (\<lambda>_.
     bind_res (capture_record (ae_qms E) actor now fresh
         (plain_capture ''AUDIT_FINDING'' (if some_text summary then the summary else finding_value ft @ '' finding''))
         None None False (as_q s)) (\<lambda>(q1, r).
     bind_res (enter_finding E actor now fresh2 s a r ft sev clause process q1) (\<lambda>(q2, f).
     Inr (s\<lparr>as_findings := as_findings s @ [f],
            as_q := emit_record_event (user_id actor) ''AUDIT_FINDING_CREATED'' (fi_id f) None
              (Some [(''identifier'', JStr (rc_identifier r)), (''audit_id'', JStr (id_str i)),
                     (''finding_type'', JStr (finding_value ft)), (''severity'', opt_json (map_option Capa.severity_value sev)),
                     (''clause_ref'', opt_json clause), (''auto_capa_id'', opt_json (map_option id_str (fi_capa f)))]) q2\<rparr>, f))))))"

definition correct_finding ::
    "audit_env \<Rightarrow> app_user \<Rightarrow> instant \<Rightarrow> uuid \<Rightarrow> uuid \<Rightarrow> rid \<Rightarrow> finding_type \<Rightarrow> nc_severity option \<Rightarrow> string option
       \<Rightarrow> string option \<Rightarrow> string option \<Rightarrow> audit_store \<Rightarrow> (qms_error, audit_store \<times> audit_finding) result" where
  "correct_finding E actor now fresh fresh2 i ft sev clause process reason s =
     bind_res (found (get_finding s i)) (\<lambda>old.
     bind_res (found (get_audit s (af_audit old))) (\<lambda>a.
     bind_res (require (an_state a \<noteq> A_Closed) (Refuse 409 ''audit_finding_audit_closed'')) (\<lambda>_.
     bind_res (load_record (as_q s) i) (\<lambda>orig.
     bind_res (require (rc_superseded_by orig = None) (Refuse 409 ''finding_already_corrected'')) (\<lambda>_.
     bind_res (require (\<not> (ft = NC \<and> sev = None)) (Invalid ''severity'' ''required'')) (\<lambda>_.
     bind_res (capture_record (ae_qms E) actor now fresh
         (plain_capture ''AUDIT_FINDING'' (if some_text reason then the reason else finding_value ft @ '' finding (correction)''))
         (Some i) None False (as_q s)) (\<lambda>(q1, r).
     bind_res (enter_finding E actor now fresh2 s a r ft sev (or_keep clause (af_clause old)) (or_keep process (af_process old)) q1)
       (\<lambda>(q2, f).
     Inr (s\<lparr>as_findings := as_findings s @ [f],
            as_q := emit_record_event (user_id actor) ''AUDIT_FINDING_CORRECTED'' i
              (Some [(''finding_type'', JStr (finding_value (fi_type old))), (''superseded_by_correction'', JNull)])
              (Some [(''finding_type'', JStr (finding_value ft)), (''superseded_by_correction'', JStr (id_str (fi_id f))),
                     (''auto_capa_id'', opt_json (map_option id_str (fi_capa f)))])
              (put_record (orig\<lparr>rc_superseded_by := Some (fi_id f)\<rparr>) q2)\<rparr>, f)))))))))"

definition raise_initiative_from_finding ::
    "audit_env \<Rightarrow> app_user \<Rightarrow> instant \<Rightarrow> rid \<Rightarrow> initiative_input \<Rightarrow> audit_store
       \<Rightarrow> (qms_error, audit_store \<times> initiative \<times> bool) result" where
  "raise_initiative_from_finding E actor now i c s =
     bind_res (found (get_finding s i)) (\<lambda>f.
     bind_res (require (fi_type f \<in> {OBSERVATION, OFI}) (Refuse 422 ''finding_not_improvable'')) (\<lambda>_.
     case get_spawned_initiative (as_imp s) i (ii_key c) of
       Some x \<Rightarrow> Inr (s, x, False)
     | None \<Rightarrow>
       bind_res (require (case get_record (as_q s) i of None \<Rightarrow> True | Some r \<Rightarrow> rc_superseded_by r = None)
         (Refuse 409 ''finding_superseded'')) (\<lambda>_.
       let process = (case get_audit s (af_audit f) of None \<Rightarrow> None | Some a \<Rightarrow> audited_process s a) in
       bind_res (create_initiative (ae_imp E) actor now (c\<lparr>ii_source := IS_OFI, ii_link := Some i, ii_process := process\<rparr>)
           ((as_imp s)\<lparr>ip_vault := q_vault (as_q s)\<rparr>)) (\<lambda>(m, x).
       Inr (s\<lparr>as_imp := m, as_q := (as_q s)\<lparr>q_vault := ip_vault m\<rparr>\<rparr>, x, True)))))"

subsection \<open>The lifecycle of the audit\<close>

text \<open>The rows of the close gate: the finding joined with its record, and its corrective action where it has one.\<close>

definition findings_for_close_gate :: "audit_store \<Rightarrow> rid \<Rightarrow> (finding_type \<times> bool \<times> capa_state option) list" where
  "findings_for_close_gate s i =
     concat (map (\<lambda>f. map (\<lambda>r. (fi_type f, rc_superseded_by r \<noteq> None,
          case fi_capa f of None \<Rightarrow> None | Some k \<Rightarrow> map_option ca_state (get_capa (as_q s) k)))
        (filter (\<lambda>r. rc_id r = fi_id f) (q_records (as_q s)))) (filter (\<lambda>f. af_audit f = i) (as_findings s)))"

definition audit_close_gate :: "audit_store \<Rightarrow> rid \<Rightarrow> (qms_error, unit) result" where
  "audit_close_gate s i =
     require (length (filter (\<lambda>(ft, sup, st). finding_blocks_close ft sup st) (findings_for_close_gate s i)) = 0)
       (Refuse 409 ''audit_close_blocked'')"

definition moved_audit :: "audit_env \<Rightarrow> instant \<Rightarrow> audit_state \<Rightarrow> audit \<Rightarrow> audit" where
  "moved_audit E now st a = a\<lparr>an_state := st,
     an_started := (if st = A_InProgress \<and> an_started a = None then Some (qe_local_date (ae_qms E) now) else an_started a),
     an_completed := (if st = A_Closed then Some (qe_local_date (ae_qms E) now) else an_completed a)\<rparr>"

definition advance_audit ::
    "audit_env \<Rightarrow> app_user \<Rightarrow> instant \<Rightarrow> rid \<Rightarrow> audit_state \<Rightarrow> audit_store \<Rightarrow> (qms_error, audit_store) result" where
  "advance_audit E actor now i st s =
     bind_res (found (get_audit s i)) (\<lambda>a.
     bind_res (require (audit_allowed (an_state a) st) (Refuse 409 ''invalid_audit_transition'')) (\<lambda>_.
     bind_res (if st = A_Closed then audit_close_gate s i else Inr ()) (\<lambda>_.
     Inr (s\<lparr>as_audits := map (\<lambda>y. if an_id y = i then moved_audit E now st a else y) (as_audits s),
            as_q := emit_record_event (user_id actor) (if st = A_Closed then ''AUDIT_CLOSED'' else ''AUDIT_TRANSITIONED'') i
              (Some [state_item (an_state a)]) (Some [state_item st]) (as_q s)\<rparr>))))"

end
