(* ===== verification/ImprovementSpec.thy ===== *)
theory ImprovementSpec
  imports Improvement DcrSpec
begin

text \<open>
  The transitions \<open>imp_step\<close> of improvement initiatives and their stage events, the invariant they keep, and the proof
  that every operation of \<open>Improvement\<close> is a run of them.
\<close>

definition item_history :: "imp_store \<Rightarrow> rid \<Rightarrow> initiative_event list" where
  "item_history s i = filter (\<lambda>e. iv_item e = i) (ip_trail s)"

abbreviation item_chain :: "improvement_stage option \<Rightarrow> initiative_event list \<Rightarrow> bool" where
  "item_chain \<equiv> legal_trail improvement_allowed I_Open iv_from iv_to"

text \<open>A signed event closes its initiative, and its signature names the event and its author.\<close>

definition sealed_close :: "q_signature list \<Rightarrow> initiative_event \<Rightarrow> bool" where
  "sealed_close gs e \<longleftrightarrow> iv_to e = I_Closed \<and> (\<exists>g \<in> set gs. iv_signed e = Some (qs_id g) \<and> qs_object g = iv_id e
     \<and> qs_signer g = iv_by e \<and> qs_meaning g = ''verify'')"

definition item_ok :: "imp_store \<Rightarrow> initiative \<Rightarrow> bool" where
  "item_ok s x \<longleftrightarrow> item_history s (in_id x) \<noteq> [] \<and> item_chain None (item_history s (in_id x))
     \<and> iv_to (last (item_history s (in_id x))) = in_stage x \<and> (in_closed_at x \<noteq> None \<longleftrightarrow> improvement_terminal (in_stage x))"

definition imp_inv :: "imp_store \<Rightarrow> bool" where
  "imp_inv s \<longleftrightarrow> distinct (map in_id (ip_items s)) \<and> (\<forall>x \<in> set (ip_items s). in_id x < ip_next s)
     \<and> (\<forall>e \<in> set (ip_trail s). iv_item e < ip_next s \<and> (iv_signed e \<noteq> None \<longrightarrow> sealed_close (ip_signatures s) e))
     \<and> (\<forall>x \<in> set (ip_items s). item_ok s x)"

definition imp_evolves :: "imp_store \<Rightarrow> imp_store \<Rightarrow> bool" where
  "imp_evolves s s' \<longleftrightarrow> prefix (ip_trail s) (ip_trail s') \<and> prefix (ip_signatures s) (ip_signatures s')
     \<and> (\<forall>x \<in> set (ip_items s). \<exists>x' \<in> set (ip_items s'). in_id x' = in_id x \<and> in_source x' = in_source x \<and> in_link x' = in_link x
          \<and> (improvement_terminal (in_stage x) \<longrightarrow> x' = x \<and> item_history s' (in_id x) = item_history s (in_id x)))"

subsection \<open>Transitions\<close>

definition item_tables where
  "item_tables s = (ip_items s, ip_trail s, ip_signatures s)"

definition replace_item :: "initiative \<Rightarrow> initiative list \<Rightarrow> initiative list" where
  "replace_item x xs = map (\<lambda>y. if in_id y = in_id x then x else y) xs"

definition same_item :: "initiative \<Rightarrow> initiative \<Rightarrow> bool" where
  "same_item x y \<longleftrightarrow> in_id y = in_id x \<and> in_source y = in_source x \<and> in_link y = in_link x"

inductive imp_step :: "imp_store \<Rightarrow> imp_store \<Rightarrow> bool" where
  im_rest: "item_tables s' = item_tables s \<Longrightarrow> ip_next s \<le> ip_next s' \<Longrightarrow> imp_step s s'"
| im_raise: "ip_next s \<le> in_id x \<Longrightarrow> in_id x < ip_next s' \<Longrightarrow> in_stage x = I_Open \<Longrightarrow> in_closed_at x = None \<Longrightarrow>
     iv_item e = in_id x \<Longrightarrow> iv_from e = None \<Longrightarrow> iv_to e = I_Open \<Longrightarrow> iv_signed e = None \<Longrightarrow>
     item_tables s' = (ip_items s @ [x], ip_trail s @ [e], ip_signatures s) \<Longrightarrow> imp_step s s'"
| im_edit: "get_initiative s (in_id x) = Some x \<Longrightarrow> same_item x y \<Longrightarrow> \<not> improvement_terminal (in_stage x) \<Longrightarrow>
     in_stage y = in_stage x \<Longrightarrow> in_closed_at y = in_closed_at x \<Longrightarrow>
     item_tables s' = (replace_item y (ip_items s), ip_trail s, ip_signatures s) \<Longrightarrow> ip_next s \<le> ip_next s' \<Longrightarrow> imp_step s s'"
| im_move: "get_initiative s (in_id x) = Some x \<Longrightarrow> same_item x y \<Longrightarrow> improvement_allowed (in_stage x) (in_stage y) \<Longrightarrow>
     (in_closed_at y \<noteq> None \<longleftrightarrow> improvement_terminal (in_stage y)) \<Longrightarrow>
     iv_item e = in_id x \<Longrightarrow> iv_from e = Some (in_stage x) \<Longrightarrow> iv_to e = in_stage y \<Longrightarrow>
     (iv_signed e \<noteq> None \<longrightarrow> sealed_close (ip_signatures s @ gs) e) \<Longrightarrow>
     item_tables s' = (replace_item y (ip_items s), ip_trail s @ [e], ip_signatures s @ gs) \<Longrightarrow> ip_next s \<le> ip_next s' \<Longrightarrow>
     imp_step s s'"

lemma item_tables_eq:
  "item_tables s = (xs, es, gs) \<longleftrightarrow> ip_items s = xs \<and> ip_trail s = es \<and> ip_signatures s = gs"
  by (auto simp: item_tables_def)

lemma get_initiative_mem: "get_initiative s i = Some x \<Longrightarrow> x \<in> set (ip_items s) \<and> in_id x = i"
  unfolding get_initiative_def by (rule find_key_SomeD)

lemma replace_item_ids [simp]: "map in_id (replace_item x xs) = map in_id xs"
  unfolding replace_item_def by (rule map_key_put)

lemma replace_item_mem: "y \<in> set (replace_item x xs) \<Longrightarrow> y = x \<or> y \<in> set xs \<and> in_id y \<noteq> in_id x"
  by (auto simp: replace_item_def split: if_splits)

lemma replace_item_keep: "y \<in> set xs \<Longrightarrow> in_id y \<noteq> in_id x \<Longrightarrow> y \<in> set (replace_item x xs)"
  by (force simp: replace_item_def)

lemma replace_item_new: "y \<in> set xs \<Longrightarrow> in_id y = in_id x \<Longrightarrow> x \<in> set (replace_item x xs)"
  by (force simp: replace_item_def)

subsection \<open>The invariant and the order\<close>

lemma sealed_close_mono: "sealed_close gs e \<Longrightarrow> sealed_close (gs @ hs) e"
  by (auto simp: sealed_close_def)

lemma item_history_other: "ip_trail s' = ip_trail s @ es \<Longrightarrow> \<forall>e \<in> set es. iv_item e \<noteq> i \<Longrightarrow> item_history s' i = item_history s i"
  by (simp add: item_history_def)

lemma item_ok_other:
  "item_ok s x \<Longrightarrow> ip_trail s' = ip_trail s @ es \<Longrightarrow> \<forall>e \<in> set es. iv_item e \<noteq> in_id x \<Longrightarrow> item_ok s' x"
  by (simp add: item_ok_def item_history_other)

lemma same_initiative:
  "imp_inv s \<Longrightarrow> x \<in> set (ip_items s) \<Longrightarrow> y \<in> set (ip_items s) \<Longrightarrow> in_id x = in_id y \<Longrightarrow> x = y"
  by (auto simp: imp_inv_def distinct_map dest: inj_onD)

text \<open>The initiatives after one of them is replaced and events of it are added.\<close>

lemma imp_put_inv:
  assumes i: "imp_inv s" and n: "ip_next s \<le> ip_next s'" and x: "get_initiative s (in_id y) = Some x"
    and t: "item_tables s' = (replace_item y (ip_items s), ip_trail s @ es, ip_signatures s @ gs)"
    and e: "\<forall>e \<in> set es. iv_item e = in_id y \<and> (iv_signed e \<noteq> None \<longrightarrow> sealed_close (ip_signatures s @ gs) e)"
    and ok: "item_ok s' y"
  shows "imp_inv s'"
proof -
  have xm: "x \<in> set (ip_items s)" "in_id x = in_id y" using get_initiative_mem [OF x] by auto
  then have yn: "in_id y < ip_next s" using i by (auto simp: imp_inv_def)
  have "in_id z < ip_next s' \<and> item_ok s' z" if z: "z \<in> set (ip_items s')" for z
  proof -
    consider "z = y" | "z \<in> set (ip_items s)" "in_id z \<noteq> in_id y"
      using z replace_item_mem [of z y "ip_items s"] t by (auto simp: item_tables_eq)
    then show ?thesis
    proof cases
      case 2
      then have "item_ok s z" "in_id z < ip_next s" using i by (auto simp: imp_inv_def)
      moreover have "item_ok s' z"
        by (rule item_ok_other [OF \<open>item_ok s z\<close>, of _ es]) (use t e 2(2) in \<open>auto simp: item_tables_eq\<close>)
      ultimately show ?thesis using n by simp
    qed (use ok yn n in simp)
  qed
  moreover have "iv_item f < ip_next s' \<and> (iv_signed f \<noteq> None \<longrightarrow> sealed_close (ip_signatures s') f)"
    if "f \<in> set (ip_trail s')" for f
  proof (cases "f \<in> set (ip_trail s)")
    case True
    then show ?thesis using i n t sealed_close_mono by (fastforce simp: imp_inv_def item_tables_eq)
  next
    case False
    then have "f \<in> set es" using that t by (simp add: item_tables_eq)
    then show ?thesis using e yn n t by (auto simp: item_tables_eq)
  qed
  ultimately show ?thesis using i t by (simp add: imp_inv_def item_tables_eq)
qed

lemma imp_put_evolves:
  assumes i: "imp_inv s" and x: "get_initiative s (in_id y) = Some x" and same: "same_item x y"
    and nt: "\<not> improvement_terminal (in_stage x)"
    and t: "item_tables s' = (replace_item y (ip_items s), ip_trail s @ es, ip_signatures s @ gs)"
    and e: "\<forall>e \<in> set es. iv_item e = in_id y"
  shows "imp_evolves s s'"
proof -
  have xm: "x \<in> set (ip_items s)" "in_id x = in_id y" using get_initiative_mem [OF x] by auto
  have "\<exists>z' \<in> set (ip_items s'). in_id z' = in_id z \<and> in_source z' = in_source z \<and> in_link z' = in_link z
      \<and> (improvement_terminal (in_stage z) \<longrightarrow> z' = z \<and> item_history s' (in_id z) = item_history s (in_id z))"
    if z: "z \<in> set (ip_items s)" for z
  proof (cases "in_id z = in_id y")
    case True
    then have "z = x" using same_initiative [OF i z xm(1)] xm(2) by simp
    moreover have "y \<in> set (ip_items s')" using replace_item_new [OF xm] t by (simp add: item_tables_eq)
    ultimately show ?thesis using same nt by (intro bexI [of _ y]) (auto simp: same_item_def)
  next
    case False
    then have "z \<in> set (ip_items s')" using replace_item_keep [OF z False] t by (simp add: item_tables_eq)
    moreover have "item_history s' (in_id z) = item_history s (in_id z)"
      by (rule item_history_other [of _ _ es]) (use t e False in \<open>auto simp: item_tables_eq\<close>)
    ultimately show ?thesis by blast
  qed
  then show ?thesis using t by (simp add: imp_evolves_def item_tables_eq)
qed

lemma imp_step_both: "imp_step s s' \<Longrightarrow> imp_inv s \<Longrightarrow> imp_inv s' \<and> imp_evolves s s'"
proof (induction rule: imp_step.induct)
  case (im_rest s' s)
  then have h: "item_history s' i = item_history s i" for i by (simp add: item_history_def item_tables_def)
  then have "item_ok s' x = item_ok s x" for x by (simp add: item_ok_def)
  moreover have "\<forall>x \<in> set (ip_items s). in_id x < ip_next s'" "\<forall>e \<in> set (ip_trail s). iv_item e < ip_next s'"
    using im_rest unfolding imp_inv_def by (meson order_less_le_trans)+
  ultimately have "imp_inv s'" using im_rest by (simp add: imp_inv_def item_tables_def)
  moreover have "imp_evolves s s'" using im_rest(1) h by (auto simp: imp_evolves_def item_tables_def)
  ultimately show ?case by blast
next
  case (im_raise s x s' e)
  have t: "ip_items s' = ip_items s @ [x]" "ip_trail s' = ip_trail s @ [e]" "ip_signatures s' = ip_signatures s"
    using im_raise(9) by (simp_all add: item_tables_eq)
  have old: "item_ok s' z \<and> in_id z < ip_next s' \<and> in_id z \<noteq> in_id x \<and> item_history s' (in_id z) = item_history s (in_id z)"
    if z: "z \<in> set (ip_items s)" for z
  proof -
    have a: "item_ok s z" "in_id z < ip_next s" using im_raise(10) z by (auto simp: imp_inv_def)
    then have d: "in_id z \<noteq> in_id x" using im_raise(1) by simp
    then show ?thesis using a item_ok_other [OF a(1) t(2)] item_history_other [OF t(2), of "in_id z"] im_raise(1,2,5) by simp
  qed
  have none: "\<forall>f \<in> set (ip_trail s). iv_item f \<noteq> in_id x" using im_raise(1,10) by (auto simp: imp_inv_def)
  then have "item_history s' (in_id x) = [e]" using t(2) im_raise(5) by (simp add: item_history_def filter_empty_conv)
  then have "item_ok s' x" using im_raise(3-7) by (simp add: item_ok_def improvement_terminal_def)
  moreover have "iv_item f < ip_next s'" if "f \<in> set (ip_trail s)" for f
    using that im_raise(1,2,10) unfolding imp_inv_def by fastforce
  moreover have "in_id x \<notin> in_id ` set (ip_items s)" using old by (metis imageE)
  then have "distinct (map in_id (ip_items s'))" using t(1) im_raise(10) by (simp add: imp_inv_def)
  ultimately have "imp_inv s'" using old im_raise(2,5,8,10) t by (auto simp: imp_inv_def)
  moreover have "imp_evolves s s'" using old t by (auto simp: imp_evolves_def)
  ultimately show ?case by blast
next
  case (im_edit s x y s')
  have g: "get_initiative s (in_id y) = Some x" using im_edit by (simp add: same_item_def)
  have "item_ok s x" using get_initiative_mem [OF g] im_edit(8) by (auto simp: imp_inv_def)
  then have ok: "item_ok s' y" using im_edit by (simp add: item_ok_def item_history_def item_tables_eq same_item_def)
  have t: "item_tables s' = (replace_item y (ip_items s), ip_trail s @ [], ip_signatures s @ [])" using im_edit by simp
  show ?case using imp_put_inv [OF im_edit(8,7) g t _ ok] imp_put_evolves [OF im_edit(8) g im_edit(2,3) t] by simp
next
  case (im_move s x y e gs s')
  have g: "get_initiative s (in_id y) = Some x" using im_move by (simp add: same_item_def)
  have x: "item_ok s x" using get_initiative_mem [OF g] im_move(11) by (auto simp: imp_inv_def)
  have nt: "\<not> improvement_terminal (in_stage x)" using im_move(3) improvement.terminal_stuck by blast
  have "item_history s' (in_id x) = item_history s (in_id x) @ [e]" using im_move by (simp add: item_history_def item_tables_eq)
  then have ok: "item_ok s' y" using x im_move by (simp add: item_ok_def same_item_def legal_trail_append)
  show ?case
    using imp_put_inv [OF im_move(11,10) g im_move(9) _ ok] imp_put_evolves [OF im_move(11) g im_move(2) nt im_move(9)] im_move(2,5,8)
    by (simp add: same_item_def)
qed

lemma imp_evolves_trans: "imp_evolves s t \<Longrightarrow> imp_evolves t u \<Longrightarrow> imp_evolves s u"
  unfolding imp_evolves_def by (intro conjI ballI; metis prefix_order.trans)

interpretation initiatives: evolving imp_step imp_inv imp_evolves
  by unfold_locales (simp_all add: imp_step_both imp_evolves_trans, auto simp: imp_evolves_def)

subsection \<open>Every operation is a run of transitions\<close>

abbreviation imp_run :: "imp_store \<Rightarrow> imp_store \<Rightarrow> bool" where
  "imp_run \<equiv> imp_step\<^sup>*\<^sup>*"

lemma load_initiative_Inr [simp]: "load_initiative s i = Inr x \<longleftrightarrow> get_initiative s i = Some x"
  by (simp add: load_initiative_def split: option.splits)

lemma item_state [simp]:
  "item_tables (emit_initiative actor ev i old new s) = item_tables s" "ip_next (emit_initiative actor ev i old new s) = ip_next s"
  "item_tables (put_initiative_flow k w s) = item_tables s" "ip_next (put_initiative_flow k w s) = ip_next s"
  "item_tables (put_initiative x s) = (replace_item x (ip_items s), ip_trail s, ip_signatures s)"
  "ip_next (put_initiative x s) = ip_next s"
  by (simp_all add: item_tables_def emit_initiative_def put_initiative_flow_def put_initiative_def replace_item_def)

lemma get_initiative_cong: "item_tables s' = item_tables s \<Longrightarrow> get_initiative s' i = get_initiative s i"
  by (simp add: item_tables_def get_initiative_def)

lemma imp_same: "item_tables s' = item_tables s \<Longrightarrow> ip_next s \<le> ip_next s' \<Longrightarrow> imp_run s s'"
  by (simp add: im_rest r_into_rtranclp)

lemma create_initiative_shape:
  assumes "create_initiative E actor now c s = Inr (s', x)"
  shows "imp_step s s'" "x \<in> set (ip_items s')" "in_source x = ii_source c" "in_link x = ii_link c"
    and "ip_items s' = ip_items s @ [x]"
proof -
  obtain v n where a: "allocate_seq (user_org actor) ''IMP'' (year_str now) (ip_vault s) = (v, n)" by (metis surj_pair)
  show "imp_step s s'"
    by (rule im_raise [of s x s' "\<lparr>iv_id = ip_next s + 1, iv_item = ip_next s, iv_from = None, iv_to = I_Open,
          iv_by = user_id actor, iv_comment = None, iv_signed = None,
          iv_payload = Some [(''source'', JStr (improvement_source_value (ii_source c)))]\<rparr>"])
      (use assms in \<open>auto simp: create_initiative_def a Let_def item_tables_def add_initiative_event_def emit_initiative_def\<close>)
  show "x \<in> set (ip_items s')" "in_source x = ii_source c" "in_link x = ii_link c" "ip_items s' = ip_items s @ [x]"
    using assms by (auto simp: create_initiative_def a Let_def add_initiative_event_def emit_initiative_def)
qed

lemma create_initiative_run: "create_initiative E actor now c s = Inr (s', x) \<Longrightarrow> imp_run s s'"
  using create_initiative_shape(1) by blast

lemma update_initiative_run: "update_initiative E actor i p s = Inr (s', x') \<Longrightarrow> imp_run s s'"
proof -
  assume r: "update_initiative E actor i p s = Inr (s', x')"
  then obtain x where x: "get_initiative s i = Some x" "\<not> improvement_terminal (in_stage x)" "x' = patched_initiative p x"
    and s: "item_tables s' = item_tables (put_initiative x' s)" "ip_next s' = ip_next s"
    by (auto simp: update_initiative_def Let_def split: if_splits)
  show ?thesis
    by (rule r_into_rtranclp, rule im_edit [of s x x'])
      (use x s get_initiative_mem [OF x(1)] in \<open>simp_all add: patched_initiative_def same_item_def\<close>)
qed

lemma moved_closed_at:
  assumes "item_ok s x" "improvement_allowed (in_stage x) st"
  shows "in_closed_at (moved_initiative now st x) \<noteq> None \<longleftrightarrow> improvement_terminal (in_stage (moved_initiative now st x))"
proof -
  have "\<not> improvement_terminal (in_stage x)" using assms(2) improvement.terminal_stuck by blast
  then have "in_closed_at x = None" using assms(1) by (simp add: item_ok_def)
  moreover have "improvement_terminal st \<longleftrightarrow> st \<in> {I_Closed, I_Cancelled}" by (cases st) (simp_all add: improvement_terminal_def)
  ultimately show ?thesis by (simp add: moved_initiative_def)
qed

lemma moved_initiative_step:
  assumes i: "imp_inv s" and x: "get_initiative s i = Some x" and ok: "improvement_allowed (in_stage x) st"
    and e: "iv_item e = i" "iv_from e = Some (in_stage x)" "iv_to e = st"
      "iv_signed e \<noteq> None \<longrightarrow> sealed_close (ip_signatures s @ gs) e"
    and t: "item_tables s' = (replace_item (moved_initiative now st x) (ip_items s), ip_trail s @ [e], ip_signatures s @ gs)"
    and n: "ip_next s \<le> ip_next s'"
  shows "imp_step s s'"
proof (rule im_move [of s x "moved_initiative now st x" e gs])
  have m: "x \<in> set (ip_items s)" "in_id x = i" using get_initiative_mem [OF x] by auto
  show "get_initiative s (in_id x) = Some x" using x m by simp
  show "in_closed_at (moved_initiative now st x) \<noteq> None \<longleftrightarrow> improvement_terminal (in_stage (moved_initiative now st x))"
    by (rule moved_closed_at [OF _ ok]) (use i m in \<open>auto simp: imp_inv_def\<close>)
  show "iv_item e = in_id x" using e m by simp
qed (use ok e t n in \<open>simp_all add: moved_initiative_def same_item_def\<close>)

lemma transition_initiative_run:
  assumes r: "transition_initiative actor now i st comment outcome s = Inr s'" and i: "imp_inv s"
  shows "imp_run s s'"
proof -
  obtain x where x: "get_initiative s i = Some x" "improvement_allowed (in_stage x) st"
    using r by (auto simp: transition_initiative_def)
  show ?thesis
    by (rule r_into_rtranclp, rule moved_initiative_step [OF i x, of "\<lparr>iv_id = ip_next s, iv_item = i,
          iv_from = Some (in_stage x), iv_to = st, iv_by = user_id actor, iv_comment = comment, iv_signed = None,
          iv_payload = (if st = I_Closed \<and> outcome \<noteq> None then Some [(''outcome'', opt_json outcome)] else None)\<rparr>" "[]" s' now])
      (use r x in \<open>auto simp: transition_initiative_def add_initiative_event_def\<close>)
qed

lemma request_authorization_run: "request_authorization E actor i comment s = Inr (s', k) \<Longrightarrow> imp_run s s'"
  by (rule imp_same) (auto simp: request_authorization_def item_tables_def)

lemma close_signed_step:
  assumes i: "imp_inv s" and x: "get_initiative s i = Some x" "improvement_allowed (in_stage x) I_Closed"
    and r: "close_signed E actor now x comment k w s = (s', sig)"
  shows "imp_step s s'"
proof -
  have m: "in_id x = i" using get_initiative_mem [OF x(1)] by simp
  show ?thesis
    by (rule moved_initiative_step [OF i x, of "\<lparr>iv_id = ip_next s, iv_item = i, iv_from = Some (in_stage x), iv_to = I_Closed,
          iv_by = user_id actor, iv_comment = comment, iv_signed = Some (ip_next s + 1),
          iv_payload = (if comment \<noteq> None \<and> comment \<noteq> Some [] then Some [(''outcome'', opt_json comment)] else None)\<rparr>"
        "[\<lparr>qs_id = ip_next s + 1, qs_object = ip_next s, qs_meaning = ''verify'', qs_signer = user_id actor,
          qs_digest = Capa.content_digest (ne_hash E) (verified_block actor x comment k w)\<rparr>]" s' now])
      (use r m in \<open>auto simp: close_signed_def Let_def sealed_close_def split: if_splits\<close>)
qed

lemma decide_initiative_run:
  assumes a: "decide_initiative_authorization E actor now k n outcome comment key s = Inr (s', r, z)" and i: "imp_inv s"
  shows "imp_run s s'"
proof -
  obtain j w where w: "map_of (ip_flows s) k = Some (j, w)"
    using a by (cases "map_of (ip_flows s) k") (auto simp: decide_initiative_authorization_def)
  obtain t where t: "get_task w n = Some t" using a w by (cases "get_task w n") (auto simp: decide_initiative_authorization_def)
  obtain w' r' where w': "wf_decide (ne_flow E) (user_id actor) n outcome comment key w = Inr (w', r')"
    using a w t by (auto simp: decide_initiative_authorization_def)
  let ?s = "put_initiative_flow k w' s"
  have 1: "imp_run s ?s" by (rule imp_same) simp_all
  have i1: "imp_inv ?s" using initiatives.run_keeps [OF 1 i] .
  show ?thesis
  proof (cases "\<not> rs_replayed r' \<and> rs_current r' = completed")
    case True
    then obtain x where x: "get_initiative ?s j = Some x" "improvement_allowed (in_stage x) I_Closed"
      using a w t w' by (auto simp: decide_initiative_authorization_def Let_def split: if_splits)
    obtain u g where u: "close_signed E actor now x comment k w' ?s = (u, g)" by (metis surj_pair)
    have "s' = u" using a w t w' True x u by (auto simp: decide_initiative_authorization_def Let_def)
    then have "imp_step ?s s'" using close_signed_step [OF i1 x u] by simp
    then show ?thesis using 1 by (rule rtranclp.rtrancl_into_rtrancl [rotated])
  next
    case False
    then have "item_tables s' = item_tables s \<and> ip_next s' = ip_next s"
      using a w t w' by (auto simp: decide_initiative_authorization_def Let_def split: if_splits)
    then show ?thesis by (intro imp_same) simp_all
  qed
qed

subsection \<open>The system\<close>

inductive imp_op :: "imp_env \<Rightarrow> imp_store \<Rightarrow> imp_store \<Rightarrow> bool" for E :: imp_env where
  io_create: "ii_source c \<noteq> IS_OFI \<Longrightarrow> create_initiative E actor now c s = Inr (s', x) \<Longrightarrow> imp_op E s s'"
| io_update: "update_initiative E actor i p s = Inr (s', x) \<Longrightarrow> imp_op E s s'"
| io_move: "transition_initiative actor now i st comment outcome s = Inr s' \<Longrightarrow> imp_op E s s'"
| io_request: "request_authorization E actor i comment s = Inr (s', k) \<Longrightarrow> imp_op E s s'"
| io_decide: "decide_initiative_authorization E actor now k n outcome comment key s = Inr (s', r, z) \<Longrightarrow> imp_op E s s'"
| io_rest: "imp_op E s (s\<lparr>ip_vault := v, ip_next := ip_next s + n, ip_flows := fl\<rparr>)"

lemma imp_op_run: "imp_op E s s' \<Longrightarrow> imp_inv s \<Longrightarrow> imp_run s s'"
proof (induction rule: imp_op.induct)
  case (io_rest s v n fl)
  show ?case by (rule imp_same) (simp_all add: item_tables_def)
qed (blast intro: create_initiative_run update_initiative_run transition_initiative_run request_authorization_run decide_initiative_run)+

end
