(* ===== verification/AuditMoves.thy ===== *)
theory AuditMoves
  imports Audits ImprovementSpec QmsSystem
begin

text \<open>
  What the operations of the audits do to the retained evidence, in terms of the transition system of QmsSystem: they
  keep its invariant, move along its order, and keep origin, source and severity of every corrective action.
\<close>

subsection \<open>What the operations do to the retained evidence\<close>

definition capas_kept :: "qms \<Rightarrow> qms \<Rightarrow> bool" where
  "capas_kept q q' \<longleftrightarrow> (\<forall>c \<in> set (q_capas q). \<exists>c' \<in> set (q_capas q'). ca_id c' = ca_id c \<and> ca_origin c' = ca_origin c
     \<and> ca_source c' = ca_source c \<and> ca_severity c' = ca_severity c)"

definition qms_moves :: "qms_env \<Rightarrow> qms \<Rightarrow> qms \<Rightarrow> bool" where
  "qms_moves E q q' \<longleftrightarrow> (qms_inv E q \<longrightarrow> qms_inv E q' \<and> qms_evolves q q' \<and> capas_kept q q')"

lemma capas_kept_refl [simp]: "capas_kept q q"
  by (auto simp: capas_kept_def)

lemma capas_kept_trans: "capas_kept q r \<Longrightarrow> capas_kept r t \<Longrightarrow> capas_kept q t"
  unfolding capas_kept_def by metis

lemma qms_moves_trans: "qms_moves E q r \<Longrightarrow> qms_moves E r t \<Longrightarrow> qms_moves E q t"
  unfolding qms_moves_def using qms_evolves_trans capas_kept_trans by blast

lemma capas_kept_replace:
  assumes "get_capa s (ca_id c) = Some c" "trail_ids s" "q_capas s' = replace_capa c' (q_capas s)"
    and "ca_id c' = ca_id c" "ca_origin c' = ca_origin c" "ca_source c' = ca_source c" "ca_severity c' = ca_severity c"
  shows "capas_kept s s'"
  unfolding capas_kept_def
proof
  fix d assume d: "d \<in> set (q_capas s)"
  show "\<exists>d' \<in> set (q_capas s'). ca_id d' = ca_id d \<and> ca_origin d' = ca_origin d \<and> ca_source d' = ca_source d \<and> ca_severity d' = ca_severity d"
  proof (cases "ca_id d = ca_id c")
    case True
    then have "d = c" using same_capa [OF assms(2) d] get_capa_mem [OF assms(1)] by metis
    moreover have "c' \<in> set (q_capas s')" using True d assms(3,4) by (force simp: replace_capa_def)
    ultimately show ?thesis using assms(4-7) by metis
  next
    case False
    then have "d \<in> set (q_capas s')" using replace_capa_keep [OF d] assms(3,4) by simp
    then show ?thesis by blast
  qed
qed

lemma trail_step_capas: "trail_step E s s' \<Longrightarrow> trail_ids s \<Longrightarrow> capas_kept s s'"
proof (induction rule: trail_step.induct)
  case (ts_stage s c st x s' gs)
  then show ?case by (intro capas_kept_replace [OF ts_stage(1) ts_stage(12), where c' = "c\<lparr>ca_state := st\<rparr>"]) (auto simp: trail_eq)
next
  case (ts_close s c s')
  then show ?case by (intro capas_kept_replace [OF ts_close(1) ts_close(6), where c' = "c\<lparr>ca_state := C_Closed\<rparr>"]) (auto simp: trail_eq)
next
  case (ts_loop s c s')
  then show ?case by (intro capas_kept_replace [OF ts_loop(1) ts_loop(5), where c' = "c\<lparr>ca_cycle := ca_cycle c + 1, ca_state := C_RootCause\<rparr>"]) (auto simp: trail_eq)
next
  case (ts_target s c s' d)
  then show ?case by (intro capas_kept_replace [OF ts_target(1) ts_target(5), where c' = "c\<lparr>ca_target := d, ca_overdue_at := None\<rparr>"]) (auto simp: trail_eq)
qed (auto simp: trail_eq trail_def capas_kept_def)

lemma qms_step_moves: "qms_step E q q' \<Longrightarrow> qms_moves E q q'"
  unfolding qms_moves_def
proof
  assume s: "qms_step E q q'" and i: "qms_inv E q"
  then have "trail_step E q q'" using qms_step_refines by (simp add: qms_inv_def)
  then have "capas_kept q q'" using trail_step_capas i by (simp add: qms_inv_def trail_inv_def)
  then show "qms_inv E q' \<and> qms_evolves q q' \<and> capas_kept q q'" using qms_step_inv [OF s i] by simp
qed

lemma frame_moves:
  assumes f: "store_frame q q'" and t: "trail q' = trail q" shows "qms_moves E q q'"
  unfolding qms_moves_def
proof
  assume i: "qms_inv E q"
  have s: "trail_step E q q'" using f t by (intro ts_other) (simp_all add: store_frame_def)
  then have "capas_kept q q'" using trail_step_capas i by (simp add: qms_inv_def trail_inv_def)
  then show "qms_inv E q' \<and> qms_evolves q q' \<and> capas_kept q q'"
    using i store_frame_inv [OF f] store_frame_evolves [OF f] capa_trail.keeps [OF s] capa_trail.moves [OF s]
    by (simp add: qms_inv_def qms_evolves_def)
qed

lemma superseded_moves:
  assumes r: "get_record q (rc_id r) = Some r" "rc_superseded_by r = None"
  shows "qms_moves E q (put_record (r\<lparr>rc_superseded_by := Some k\<rparr>) q)"
  unfolding qms_moves_def
proof
  let ?t = "put_record (r\<lparr>rc_superseded_by := Some k\<rparr>) q"
  assume i: "qms_inv E q"
  have "relabel r (r\<lparr>rc_superseded_by := Some k\<rparr>)" using r(2) by (auto simp: relabel_def)
  then have e: "ev_run E q ?t" using ev_relabel [OF r(1)] by blast
  have s: "trail_step E q ?t" by (rule ts_other) (simp_all add: trail_def put_record_def)
  then have "capas_kept q ?t" using trail_step_capas i by (simp add: qms_inv_def trail_inv_def)
  then show "qms_inv E ?t \<and> qms_evolves q ?t \<and> capas_kept q ?t"
    using i ev_steps_inv [OF e] ev_steps_evolve [OF e] capa_trail.keeps [OF s] capa_trail.moves [OF s]
    by (simp add: qms_inv_def qms_evolves_def)
qed

lemma capture_moves: "capture_record E actor now fresh c co pin commit q = Inr (q', r) \<Longrightarrow> qms_moves E q q'"
  by (rule qms_step_moves) (auto simp: qms_step_def intro: op_capture)

lemma build_moves: "build_capa E actor now fresh title severity source process origin block q = Inr (q', c) \<Longrightarrow> qms_moves E q q'"
  by (rule qms_step_moves) (auto simp: qms_step_def intro: op_build)

lemma log_moves: "qms_moves E q (log_event ev who ot oid old new q)"
  by (rule frame_moves) (simp_all add: frame_defs trail_def)

lemma emit_moves: "qms_moves E q (emit_record_event u ev i old new q)"
  unfolding emit_record_event_def by (rule log_moves)

lemma build_capa_shape:
  assumes "build_capa E actor now fresh title severity source process origin block q = Inr (q', c)"
  shows "c \<in> set (q_capas q')" "ca_origin c = origin" "ca_source c = source" "ca_severity c = severity"
    and "\<exists>r. q_records q' = q_records q @ [r]"
proof -
  obtain s1 r target where b: "capture_record E actor now fresh (plain_capture ''CAPA'' title) None None False q = Inr (s1, r)"
    "c = new_capa r origin source severity process target"
    and s': "q' = raised_event actor (ca_id c) source severity
            (new_stage (ca_id c) C_Raised block 0 actor (s1\<lparr>q_capas := q_capas s1 @ [c]\<rparr>))"
    using assms by (auto simp: build_capa_def Let_def)
  show "ca_origin c = origin" "ca_source c = source" "ca_severity c = severity" by (simp_all add: b(2) new_capa_def)
  show "c \<in> set (q_capas q')" "\<exists>r. q_records q' = q_records q @ [r]"
    using capture_record_run [OF b(1)] by (auto simp: s' frame_defs)
qed

end
