(* ===== verification/AuditSpec.thy ===== *)
theory AuditSpec
  imports AuditMoves
begin

text \<open>
  Internal audits with the retained evidence, the corrective actions and the improvement initiatives they work on, as one
  transition system: an invariant that ties findings, records, corrective actions and initiatives together, an order on
  states, and the proof that every operation keeps them.
\<close>

subsection \<open>Where initiatives come from\<close>

definition items_from :: "imp_store \<Rightarrow> imp_store \<Rightarrow> bool" where
  "items_from s s' \<longleftrightarrow> (\<forall>x \<in> set (ip_items s'). in_source x = IS_OFI \<longrightarrow>
     (\<exists>y \<in> set (ip_items s). in_source y = IS_OFI \<and> in_link y = in_link x))"

lemma items_from_same: "ip_items s' = ip_items s \<Longrightarrow> items_from s s'"
  by (auto simp: items_from_def)

lemma items_from_put:
  assumes "get_initiative s i = Some x" "same_item x y" "ip_items s' = replace_item y (ip_items s)"
  shows "items_from s s'"
  unfolding items_from_def
proof (intro ballI impI)
  fix z assume z: "z \<in> set (ip_items s')" "in_source z = IS_OFI"
  then consider "z = y" | "z \<in> set (ip_items s)" using replace_item_mem [of z y "ip_items s"] assms(3) by auto
  then show "\<exists>w \<in> set (ip_items s). in_source w = IS_OFI \<and> in_link w = in_link z"
    using z(2) assms(2) get_initiative_mem [OF assms(1)] by cases (metis same_item_def, metis)
qed

lemma same_moved [simp]: "same_item x (moved_initiative now st x)" "same_item x (patched_initiative p x)"
  by (simp_all add: same_item_def moved_initiative_def patched_initiative_def)

lemma item_fields [simp]:
  "ip_items (emit_initiative actor ev i old new s) = ip_items s" "ip_items (put_initiative_flow k w s) = ip_items s"
  "ip_items (put_initiative x s) = replace_item x (ip_items s)"
  "ip_items (add_initiative_event actor i a b c d s) = ip_items s"
  by (simp_all add: emit_initiative_def put_initiative_flow_def put_initiative_def replace_item_def add_initiative_event_def)

lemma decide_items_from:
  assumes a: "decide_initiative_authorization E actor now k n outcome comment key s = Inr (s', r, z)"
  shows "items_from s s'"
proof -
  obtain j w where w: "map_of (ip_flows s) k = Some (j, w)"
    using a by (cases "map_of (ip_flows s) k") (auto simp: decide_initiative_authorization_def)
  obtain t where t: "get_task w n = Some t" using a w by (cases "get_task w n") (auto simp: decide_initiative_authorization_def)
  obtain w' r' where w': "wf_decide (ne_flow E) (user_id actor) n outcome comment key w = Inr (w', r')"
    using a w t by (auto simp: decide_initiative_authorization_def)
  let ?s = "put_initiative_flow k w' s"
  have g: "get_initiative ?s j = get_initiative s j" by (simp add: get_initiative_def)
  show ?thesis
  proof (cases "\<not> rs_replayed r' \<and> rs_current r' = completed")
    case True
    then obtain x where x: "get_initiative s j = Some x"
      using a w t w' g by (auto simp: decide_initiative_authorization_def Let_def split: if_splits)
    obtain u g' where u: "close_signed E actor now x comment k w' ?s = (u, g')" by (metis surj_pair)
    have "s' = u" using a w t w' True x u g by (auto simp: decide_initiative_authorization_def Let_def split: if_splits)
    moreover have "ip_items u = replace_item (moved_initiative now I_Closed x) (ip_items s)"
      using u by (auto simp: close_signed_def Let_def)
    ultimately show ?thesis using items_from_put [OF x same_moved(1)] by simp
  next
    case False
    then have "ip_items s' = ip_items s"
      using a w t w' by (auto simp: decide_initiative_authorization_def Let_def split: if_splits)
    then show ?thesis by (rule items_from_same)
  qed
qed

lemma imp_op_items: "imp_op E s s' \<Longrightarrow> items_from s s'"
proof (induction rule: imp_op.induct)
  case (io_create c actor now s s' x)
  then show ?case using create_initiative_shape [OF io_create(2)] by (auto simp: items_from_def)
next
  case (io_update actor i p s s' x)
  then obtain y where "get_initiative s i = Some y" "ip_items s' = replace_item (patched_initiative p y) (ip_items s)"
    by (auto simp: update_initiative_def Let_def split: if_splits)
  then show ?case using items_from_put same_moved(2) by blast
next
  case (io_move actor now i st comment outcome s s')
  then obtain y where "get_initiative s i = Some y" "ip_items s' = replace_item (moved_initiative now st y) (ip_items s)"
    by (auto simp: transition_initiative_def)
  then show ?case using items_from_put same_moved(1) by blast
next
  case (io_request actor i comment s s' k)
  then show ?case by (intro items_from_same) (auto simp: request_authorization_def)
next
  case (io_decide actor now k n outcome comment key s s' r z)
  then show ?case by (rule decide_items_from)
qed (simp add: items_from_same)

subsection \<open>The invariant and the order\<close>

definition nc_carried :: "qms \<Rightarrow> audit_finding \<Rightarrow> bool" where
  "nc_carried q f \<longleftrightarrow> (fi_type f = NC \<longrightarrow> (\<exists>c \<in> set (q_capas q). fi_capa f = Some (ca_id c) \<and> ca_origin c = Some (fi_id f)
     \<and> ca_source c = S_audit \<and> af_severity f = Some (ca_severity c)))"

text \<open>A nonconformity no longer holds its audit open: its record is superseded or its corrective action is closed.\<close>

definition settled :: "qms \<Rightarrow> audit_finding \<Rightarrow> bool" where
  "settled q f \<longleftrightarrow> (\<exists>r \<in> set (q_records q). rc_id r = fi_id f \<and> rc_superseded_by r \<noteq> None)
     \<or> (\<exists>c \<in> set (q_capas q). fi_capa f = Some (ca_id c) \<and> ca_state c = C_Closed)"

definition findings_of :: "audit_store \<Rightarrow> rid \<Rightarrow> audit_finding list" where
  "findings_of s i = filter (\<lambda>f. af_audit f = i) (as_findings s)"

definition raised_from :: "audit_store \<Rightarrow> initiative \<Rightarrow> bool" where
  "raised_from s x \<longleftrightarrow> (in_source x = IS_OFI \<longrightarrow> (\<exists>f \<in> set (as_findings s). in_link x = Some (fi_id f) \<and> fi_type f \<noteq> NC))"

definition audits_ok :: "audit_store \<Rightarrow> bool" where
  "audits_ok s \<longleftrightarrow> distinct (map an_id (as_audits s)) \<and> an_id ` set (as_audits s) \<subseteq> rc_id ` set (q_records (as_q s))
     \<and> distinct (map fi_id (as_findings s)) \<and> fi_id ` set (as_findings s) \<subseteq> rc_id ` set (q_records (as_q s))
     \<and> af_audit ` set (as_findings s) \<subseteq> an_id ` set (as_audits s)"

definition audit_inv :: "audit_env \<Rightarrow> audit_store \<Rightarrow> bool" where
  "audit_inv E s \<longleftrightarrow> qms_inv (ae_qms E) (as_q s) \<and> imp_inv (as_imp s) \<and> audits_ok s
     \<and> (\<forall>f \<in> set (as_findings s). nc_carried (as_q s) f)
     \<and> (\<forall>a \<in> set (as_audits s). an_state a = A_Closed \<longrightarrow> (\<forall>f \<in> set (findings_of s (an_id a)). fi_type f = NC \<longrightarrow> settled (as_q s) f))
     \<and> (\<forall>x \<in> set (ip_items (as_imp s)). raised_from s x)"

definition audit_evolves :: "audit_store \<Rightarrow> audit_store \<Rightarrow> bool" where
  "audit_evolves s s' \<longleftrightarrow> qms_evolves (as_q s) (as_q s') \<and> capas_kept (as_q s) (as_q s') \<and> imp_evolves (as_imp s) (as_imp s')
     \<and> prefix (as_findings s) (as_findings s')
     \<and> (\<forall>a \<in> set (as_audits s). \<exists>a' \<in> set (as_audits s'). an_id a' = an_id a \<and> an_plan a' = an_plan a \<and>
          (an_state a = A_Closed \<longrightarrow> a' = a \<and> findings_of s' (an_id a) = findings_of s (an_id a)))"

inductive audit_step :: "audit_env \<Rightarrow> audit_store \<Rightarrow> audit_store \<Rightarrow> bool" for E :: audit_env where
  au_rest: "qms_moves (ae_qms E) (as_q s) (as_q s') \<Longrightarrow> as_imp s' = as_imp s \<Longrightarrow> as_audits s' = as_audits s \<Longrightarrow>
     as_findings s' = as_findings s \<Longrightarrow> audit_step E s s'"
| au_initiative: "(imp_inv (as_imp s) \<Longrightarrow> imp_run (as_imp s) (as_imp s')) \<Longrightarrow> \<forall>x \<in> set (ip_items (as_imp s')). in_source x = IS_OFI \<longrightarrow>
     (\<exists>y \<in> set (ip_items (as_imp s)). in_source y = IS_OFI \<and> in_link y = in_link x)
       \<or> (\<exists>f \<in> set (as_findings s). in_link x = Some (fi_id f) \<and> fi_type f \<noteq> NC) \<Longrightarrow>
     qms_moves (ae_qms E) (as_q s) (as_q s') \<Longrightarrow> as_audits s' = as_audits s \<Longrightarrow> as_findings s' = as_findings s \<Longrightarrow> audit_step E s s'"
| au_open: "qms_moves (ae_qms E) (as_q s) (as_q s') \<Longrightarrow> q_records (as_q s') = q_records (as_q s) @ [r] \<Longrightarrow> an_id a = rc_id r \<Longrightarrow>
     an_state a \<noteq> A_Closed \<Longrightarrow> as_imp s' = as_imp s \<Longrightarrow> as_audits s' = as_audits s @ [a] \<Longrightarrow> as_findings s' = as_findings s \<Longrightarrow>
     audit_step E s s'"
| au_finding: "qms_moves (ae_qms E) (as_q s) q1 \<Longrightarrow> q_records q1 = q_records (as_q s) @ [r] \<Longrightarrow> qms_moves (ae_qms E) q1 (as_q s') \<Longrightarrow>
     fi_id f = rc_id r \<Longrightarrow> nc_carried (as_q s') f \<Longrightarrow> get_audit s (af_audit f) = Some a \<Longrightarrow> an_state a \<noteq> A_Closed \<Longrightarrow>
     as_imp s' = as_imp s \<Longrightarrow> as_audits s' = as_audits s \<Longrightarrow> as_findings s' = as_findings s @ [f] \<Longrightarrow> audit_step E s s'"
| au_advance: "qms_moves (ae_qms E) (as_q s) (as_q s') \<Longrightarrow> get_audit s (an_id a) = Some a \<Longrightarrow> audit_allowed (an_state a) (an_state b) \<Longrightarrow>
     an_id b = an_id a \<Longrightarrow> an_plan b = an_plan a \<Longrightarrow>
     (an_state b = A_Closed \<longrightarrow> (\<forall>f \<in> set (findings_of s (an_id a)). fi_type f = NC \<longrightarrow> settled (as_q s) f)) \<Longrightarrow>
     as_imp s' = as_imp s \<Longrightarrow> as_audits s' = map (\<lambda>y. if an_id y = an_id a then b else y) (as_audits s) \<Longrightarrow>
     as_findings s' = as_findings s \<Longrightarrow> audit_step E s s'"

subsection \<open>The transitions keep the invariant and move along the order\<close>

lemma settled_mono: "qms_evolves q q' \<Longrightarrow> settled q f \<Longrightarrow> settled q' f"
  unfolding qms_evolves_def q_evolves_def trail_evolves_def rec_evolves_def settled_def by metis

lemma nc_carried_mono: "capas_kept q q' \<Longrightarrow> nc_carried q f \<Longrightarrow> nc_carried q' f"
  unfolding capas_kept_def nc_carried_def by metis

lemma record_ids_mono: "qms_evolves q q' \<Longrightarrow> rc_id ` set (q_records q) \<subseteq> rc_id ` set (q_records q')"
  unfolding qms_evolves_def q_evolves_def rec_evolves_def by (force intro: rev_image_eqI)

lemma new_record_fresh:
  assumes "qms_inv E q'" "q_records q' = q_records q @ [r]"
  shows "rc_id r \<notin> rc_id ` set (q_records q)" "rc_id r \<in> rc_id ` set (q_records q')"
  using assms by (auto simp: qms_inv_def ev_inv_def ids_ok_def)

lemma get_audit_mem: "get_audit s i = Some a \<Longrightarrow> a \<in> set (as_audits s) \<and> an_id a = i"
  unfolding get_audit_def by (rule find_key_SomeD)

lemma same_audit: "audits_ok s \<Longrightarrow> a \<in> set (as_audits s) \<Longrightarrow> b \<in> set (as_audits s) \<Longrightarrow> an_id a = an_id b \<Longrightarrow> a = b"
  by (auto simp: audits_ok_def distinct_map dest: inj_onD)

text \<open>The shape all transitions share: the evidence and the initiatives move on, findings are only added, to audits that
  are not closed, and closed audits stay.\<close>

lemma audit_move:
  assumes i: "audit_inv E s"
    and q: "qms_inv (ae_qms E) (as_q s')" "qms_evolves (as_q s) (as_q s')" "capas_kept (as_q s) (as_q s')"
    and m: "imp_inv (as_imp s')" "imp_evolves (as_imp s) (as_imp s')" "\<forall>x \<in> set (ip_items (as_imp s')). raised_from s' x"
    and f: "as_findings s' = as_findings s @ fs" "\<forall>f \<in> set fs. nc_carried (as_q s') f
          \<and> (\<forall>a \<in> set (as_audits s). an_id a = af_audit f \<longrightarrow> an_state a \<noteq> A_Closed)"
    and ok: "audits_ok s'"
    and a: "\<forall>a \<in> set (as_audits s). \<exists>a' \<in> set (as_audits s'). an_id a' = an_id a \<and> an_plan a' = an_plan a
          \<and> (an_state a = A_Closed \<longrightarrow> a' = a)"
    and c: "\<forall>a \<in> set (as_audits s'). an_state a = A_Closed \<longrightarrow> a \<in> set (as_audits s) \<or>
          (\<forall>f \<in> set (findings_of s' (an_id a)). fi_type f = NC \<longrightarrow> settled (as_q s) f)"
  shows "audit_inv E s' \<and> audit_evolves s s'"
proof -
  have same: "findings_of s' (an_id a) = findings_of s (an_id a)" if "a \<in> set (as_audits s)" "an_state a = A_Closed" for a
    using that f by (auto simp: findings_of_def filter_empty_conv)
  have "nc_carried (as_q s') g" if "g \<in> set (as_findings s')" for g
    using that f nc_carried_mono [OF q(3)] i by (auto simp: audit_inv_def)
  moreover have "settled (as_q s') g" if "b \<in> set (as_audits s')" "an_state b = A_Closed" "g \<in> set (findings_of s' (an_id b))"
    "fi_type g = NC" for b g
  proof -
    have "settled (as_q s) g" using that c same i unfolding audit_inv_def by metis
    then show ?thesis using settled_mono [OF q(2)] by blast
  qed
  ultimately have "audit_inv E s'" using q(1) m ok by (simp add: audit_inv_def)
  moreover have "\<exists>x' \<in> set (as_audits s'). an_id x' = an_id x \<and> an_plan x' = an_plan x \<and>
      (an_state x = A_Closed \<longrightarrow> x' = x \<and> findings_of s' (an_id x) = findings_of s (an_id x))" if "x \<in> set (as_audits s)" for x
    using a same that by metis
  then have "audit_evolves s s'" using q m(2) f(1) by (simp add: audit_evolves_def)
  ultimately show ?thesis by blast
qed

lemma raised_from_mono: "raised_from s x \<Longrightarrow> set (as_findings s) \<subseteq> set (as_findings s') \<Longrightarrow> raised_from s' x"
  unfolding raised_from_def by blast

lemma imp_evolves_refl [simp]: "imp_evolves s s"
  by (rule initiatives.rests)

lemma audits_ok_rest:
  assumes "audits_ok s" "rc_id ` set (q_records (as_q s)) \<subseteq> rc_id ` set (q_records (as_q s'))"
    and "map an_id (as_audits s') = map an_id (as_audits s)" "as_findings s' = as_findings s"
  shows "audits_ok s'"
proof -
  have "an_id ` set (as_audits s') = an_id ` set (as_audits s)" using assms(3) by (metis list.set_map)
  then show ?thesis using assms order_trans [OF _ assms(2)] by (simp add: audits_ok_def)
qed

lemma audit_step_both: "audit_step E s s' \<Longrightarrow> audit_inv E s \<Longrightarrow> audit_inv E s' \<and> audit_evolves s s'"
proof (induction rule: audit_step.induct)
  case (au_rest s s')
  then have q: "qms_inv (ae_qms E) (as_q s')" "qms_evolves (as_q s) (as_q s')" "capas_kept (as_q s) (as_q s')"
    by (simp_all add: qms_moves_def audit_inv_def)
  show ?case
    by (rule audit_move [OF au_rest(5) q, of "[]"])
      (use au_rest audits_ok_rest [OF _ record_ids_mono [OF q(2)]] in \<open>auto simp: audit_inv_def raised_from_def\<close>)
next
  case (au_initiative s s')
  then have q: "qms_inv (ae_qms E) (as_q s')" "qms_evolves (as_q s) (as_q s')" "capas_kept (as_q s) (as_q s')"
    by (simp_all add: qms_moves_def audit_inv_def)
  have m: "imp_inv (as_imp s')" "imp_evolves (as_imp s) (as_imp s')"
    using initiatives.run_both [OF au_initiative(1)] au_initiative(6) by (simp_all add: audit_inv_def)
  have "raised_from s' x" if "x \<in> set (ip_items (as_imp s'))" for x
    using that au_initiative(2,5,6) unfolding audit_inv_def raised_from_def by metis
  then show ?case
    by (intro audit_move [OF au_initiative(6) q m, of "[]"])
      (use au_initiative audits_ok_rest [OF _ record_ids_mono [OF q(2)]] in \<open>auto simp: audit_inv_def\<close>)
next
  case (au_open s s' r a)
  then have q: "qms_inv (ae_qms E) (as_q s')" "qms_evolves (as_q s) (as_q s')" "capas_kept (as_q s) (as_q s')"
    by (simp_all add: qms_moves_def audit_inv_def)
  have "audits_ok s'"
    using au_open(2,3,6,7,8) new_record_fresh [OF q(1) au_open(2)] by (auto simp: audit_inv_def audits_ok_def)
  then show ?case
    by (intro audit_move [OF au_open(8) q, of "[]"])
      (use au_open in \<open>auto simp: audit_inv_def raised_from_def\<close>)
next
  case (au_finding s q1 r s' f a)
  then have q1: "qms_inv (ae_qms E) q1" "qms_evolves (as_q s) q1" "capas_kept (as_q s) q1"
    by (simp_all add: qms_moves_def audit_inv_def)
  then have q2: "qms_inv (ae_qms E) (as_q s')" "qms_evolves q1 (as_q s')" "capas_kept q1 (as_q s')"
    using au_finding(3) by (simp_all add: qms_moves_def)
  have q: "qms_evolves (as_q s) (as_q s')" "capas_kept (as_q s) (as_q s')"
    using qms_evolves_trans [OF q1(2) q2(2)] capas_kept_trans [OF q1(3) q2(3)] by auto
  have a: "a \<in> set (as_audits s)" "an_id a = af_audit f" using get_audit_mem [OF au_finding(6)] by auto
  have open': "an_state b \<noteq> A_Closed" if "b \<in> set (as_audits s)" "an_id b = af_audit f" for b
    using same_audit [of s a b] a that au_finding(7,11) by (simp add: audit_inv_def)
  have old: "audits_ok s" using au_finding(11) by (simp add: audit_inv_def)
  have fresh: "fi_id f \<notin> fi_id ` set (as_findings s)" "fi_id f \<in> rc_id ` set (q_records (as_q s'))"
    using old new_record_fresh [OF q1(1) au_finding(2)] record_ids_mono [OF q2(2)] au_finding(4) unfolding audits_ok_def by auto
  have "fi_id ` set (as_findings s) \<subseteq> rc_id ` set (q_records (as_q s'))" "an_id ` set (as_audits s) \<subseteq> rc_id ` set (q_records (as_q s'))"
    using old record_ids_mono [OF q(1)] unfolding audits_ok_def by blast+
  moreover have "af_audit f \<in> an_id ` set (as_audits s)" using a by (metis image_eqI)
  ultimately have ok: "audits_ok s'"
    using old fresh by (simp add: audits_ok_def au_finding(9,10))
  have "raised_from s' x" if "x \<in> set (ip_items (as_imp s'))" for x
  proof (rule raised_from_mono [of s])
    show "raised_from s x" using that au_finding(11) by (simp add: audit_inv_def au_finding(8))
  qed (auto simp: au_finding(10))
  then show ?case
    by (intro audit_move [OF au_finding(11) q2(1) q, of "[f]"]) (use au_finding ok open' in \<open>auto simp: audit_inv_def\<close>)
next
  case (au_advance s s' a b)
  then have q: "qms_inv (ae_qms E) (as_q s')" "qms_evolves (as_q s) (as_q s')" "capas_kept (as_q s) (as_q s')"
    by (simp_all add: qms_moves_def audit_inv_def)
  have ok: "audits_ok s" using au_advance(10) by (simp add: audit_inv_def)
  have a: "a \<in> set (as_audits s)" using get_audit_mem [OF au_advance(2)] by blast
  have nc: "an_state a \<noteq> A_Closed" using au_advance(3) by (auto simp: audit_allowed_def audit_transitions_def)
  have ids: "map an_id (as_audits s') = map an_id (as_audits s)" using au_advance(4,8) by simp
  have keep: "\<exists>x' \<in> set (as_audits s'). an_id x' = an_id x \<and> an_plan x' = an_plan x \<and> (an_state x = A_Closed \<longrightarrow> x' = x)"
    if x: "x \<in> set (as_audits s)" for x
  proof (cases "an_id x = an_id a")
    case True
    then have "x = a" using same_audit [OF ok x a] by simp
    moreover have "b \<in> set (as_audits s')" using a au_advance(8) by (auto intro: rev_image_eqI)
    ultimately show ?thesis using au_advance(4,5) nc by (intro bexI [of _ b]) simp_all
  next
    case False
    then have "x \<in> set (as_audits s')" using x au_advance(8) by (auto intro: rev_image_eqI)
    then show ?thesis by blast
  qed
  have "x \<in> set (as_audits s) \<or> x = b" if "x \<in> set (as_audits s')" for x
    using that au_advance(8) by (auto split: if_splits)
  then have "x \<in> set (as_audits s) \<or> (\<forall>f \<in> set (findings_of s' (an_id x)). fi_type f = NC \<longrightarrow> settled (as_q s) f)"
    if "x \<in> set (as_audits s')" "an_state x = A_Closed" for x
    using that au_advance(4,6,9) unfolding findings_of_def by metis
  then show ?case
    by (intro audit_move [OF au_advance(10) q, of "[]"])
      (use au_advance(7,9,10) keep audits_ok_rest [OF ok record_ids_mono [OF q(2)] ids] in \<open>auto simp: audit_inv_def raised_from_def\<close>)
qed

lemma audit_evolves_trans: "audit_evolves s t \<Longrightarrow> audit_evolves t u \<Longrightarrow> audit_evolves s u"
  unfolding audit_evolves_def using qms_evolves_trans capas_kept_trans imp_evolves_trans prefix_order.trans by metis

interpretation audit_system: evolving "audit_step E" "audit_inv E" audit_evolves for E
  by unfold_locales (simp_all add: audit_step_both audit_evolves_trans, auto simp: audit_evolves_def qms_evolves_def)

subsection \<open>Every operation is a transition\<close>

lemma found_Inr [simp]: "found x = Inr a \<longleftrightarrow> x = Some a"
  by (simp add: found_def split: option.splits)

lemma qms_moves_refl [simp]: "qms_moves E q q"
  by (rule frame_moves) (simp_all add: store_frame_def)

lemma enter_finding_shape:
  assumes "enter_finding E actor now fresh s a r ft sev clause process q = Inr (q', f)" and "\<not> (ft = NC \<and> sev = None)"
  shows "qms_moves (ae_qms E) q q' \<and> fi_id f = rc_id r \<and> af_audit f = an_id a \<and> fi_type f = ft \<and> nc_carried q' f
    \<and> (\<exists>rs. q_records q' = q_records q @ rs)"
proof -
  have rows: "qms_moves (ae_qms E) p (p\<lparr>q_findings := fs\<rparr>)" for p fs
    by (rule frame_moves) (simp_all add: store_frame_def trail_def)
  show ?thesis
  proof (cases "ft = NC")
    case True
    then obtain x where x: "sev = Some x" using assms(2) by auto
    then obtain p k where k: "auto_capa_for_finding E actor now fresh s a r clause x q = Inr (p, k)"
      and f: "q' = p\<lparr>q_findings := q_findings p @ [finding.truncate f]\<rparr>"
        "f = \<lparr>fi_id = rc_id r, fi_type = ft, fi_capa = Some k, af_audit = an_id a, af_severity = sev, af_clause = clause, af_process = process\<rparr>"
      using assms(1) True by (auto simp: enter_finding_def Let_def)
    obtain c title block where c: "build_capa (ae_qms E) actor now fresh title x S_audit (audited_process s a) (Some (rc_id r)) block q = Inr (p, c)"
      "k = ca_id c"
      using k by (auto simp: auto_capa_for_finding_def)
    show ?thesis
      using f x c(2) build_capa_shape [OF c(1)] qms_moves_trans [OF build_moves [OF c(1)] rows] by (auto simp: nc_carried_def)
  next
    case False
    then show ?thesis using assms(1) rows by (auto simp: enter_finding_def Let_def nc_carried_def split: option.splits)
  qed
qed

lemma create_audit_step: "create_audit E actor now fresh i title lead s = Inr (s', a) \<Longrightarrow> audit_step E s s'"
proof -
  assume r: "create_audit E actor now fresh i title lead s = Inr (s', a)"
  then obtain p q1 x where p: "get_plan s i = Some p"
    and c: "capture_record (ae_qms E) actor now fresh (plain_capture ''AUDIT'' (audit_title title p)) None None False (as_q s) = Inr (q1, x)"
    by (auto simp: create_audit_def)
  have a: "an_id a = rc_id x" "an_state a = A_Scheduled"
    and s: "as_imp s' = as_imp s" "as_audits s' = as_audits s @ [a]" "as_findings s' = as_findings s"
      "\<exists>n. as_q s' = emit_record_event (user_id actor) ''AUDIT_CREATED'' (an_id a) None n q1"
    using r p c by (auto simp: create_audit_def Let_def)
  have "qms_moves (ae_qms E) (as_q s) (as_q s')" using s(4) qms_moves_trans [OF capture_moves [OF c] emit_moves] by metis
  moreover have "q_records (as_q s') = q_records (as_q s) @ [x]" using s(4) capture_record_run [OF c] by (auto simp: frame_defs)
  ultimately show ?thesis using a s by (intro au_open [of E s s' x a]) simp_all
qed

lemma create_finding_step: "create_finding E actor now fresh fresh2 i ft sev clause process summary s = Inr (s', f) \<Longrightarrow> audit_step E s s'"
proof -
  let ?t = "if some_text summary then the summary else finding_value ft @ '' finding''"
  assume r: "create_finding E actor now fresh fresh2 i ft sev clause process summary s = Inr (s', f)"
  then obtain a q1 x q2 where a: "get_audit s i = Some a" "an_state a \<noteq> A_Closed" "\<not> (ft = NC \<and> sev = None)"
    and c: "capture_record (ae_qms E) actor now fresh (plain_capture ''AUDIT_FINDING'' ?t) None None False (as_q s) = Inr (q1, x)"
    and e: "enter_finding E actor now fresh2 s a x ft sev clause process q1 = Inr (q2, f)"
    by (auto simp: create_finding_def)
  have s: "as_imp s' = as_imp s" "as_audits s' = as_audits s" "as_findings s' = as_findings s @ [f]"
      "\<exists>n. as_q s' = emit_record_event (user_id actor) ''AUDIT_FINDING_CREATED'' (fi_id f) None n q2"
    using r a c e by (auto simp: create_finding_def)
  note f = enter_finding_shape [OF e a(3)]
  have "nc_carried (as_q s') f" using f s(4) by (auto simp: nc_carried_def frame_defs)
  moreover have "qms_moves (ae_qms E) q1 (as_q s')" using s(4) f qms_moves_trans [OF _ emit_moves] by auto
  ultimately show ?thesis
    using f a s capture_moves [OF c] capture_record_run [OF c] get_audit_mem [OF a(1)] by (intro au_finding [of E s q1 x s' f a]) auto
qed

lemma correct_finding_step: "correct_finding E actor now fresh fresh2 i ft sev clause process reason s = Inr (s', f) \<Longrightarrow> audit_step E s s'"
proof -
  let ?t = "if some_text reason then the reason else finding_value ft @ '' finding (correction)''"
  assume r: "correct_finding E actor now fresh fresh2 i ft sev clause process reason s = Inr (s', f)"
  then obtain old a y q1 x q2 where a: "get_finding s i = Some old" "get_audit s (af_audit old) = Some a" "an_state a \<noteq> A_Closed"
      "\<not> (ft = NC \<and> sev = None)" and y: "load_record (as_q s) i = Inr y" "rc_superseded_by y = None"
    and c: "capture_record (ae_qms E) actor now fresh (plain_capture ''AUDIT_FINDING'' ?t) (Some i) None False (as_q s) = Inr (q1, x)"
    and e: "enter_finding E actor now fresh2 s a x ft sev (or_keep clause (af_clause old)) (or_keep process (af_process old)) q1 = Inr (q2, f)"
    by (auto simp: correct_finding_def)
  let ?q = "put_record (y\<lparr>rc_superseded_by := Some (fi_id f)\<rparr>) q2"
  have s: "as_imp s' = as_imp s" "as_audits s' = as_audits s" "as_findings s' = as_findings s @ [f]"
      "qms_moves (ae_qms E) ?q (as_q s')"
    using r a y c e by (auto simp: correct_finding_def emit_moves)
  have t: "q_capas (as_q s') = q_capas q2"
    using r a y c e by (auto simp: correct_finding_def frame_defs put_record_def)
  note f = enter_finding_shape [OF e a(4)]
  have "get_record (as_q s) i = Some y" using y(1) by (auto simp: load_record_def split: option.splits)
  moreover obtain rs where "q_records q2 = q_records (as_q s) @ x # rs" using f capture_record_run [OF c] by auto
  ultimately have g: "get_record q2 (rc_id y) = Some y"
    using get_record_mem [of "as_q s" i y] by (simp add: get_record_def find_append)
  have "qms_moves (ae_qms E) q1 ?q" using f qms_moves_trans [OF _ superseded_moves [OF g y(2)]] by blast
  then have "qms_moves (ae_qms E) q1 (as_q s')" using s(4) by (rule qms_moves_trans)
  moreover have "nc_carried q2 f" using f by blast
  then have "nc_carried (as_q s') f" by (simp add: nc_carried_def t)
  ultimately show ?thesis
    using f a s capture_moves [OF c] capture_record_run [OF c] get_audit_mem [OF a(2)] by (intro au_finding [of E s q1 x s' f a]) auto
qed

lemma raise_initiative_step: "raise_initiative_from_finding E actor now i c s = Inr (s', x, b) \<Longrightarrow> audit_step E s s'"
proof -
  assume r: "raise_initiative_from_finding E actor now i c s = Inr (s', x, b)"
  obtain f where f: "get_finding s i = Some f" "fi_type f \<in> {OBSERVATION, OFI}" using r by (auto simp: raise_initiative_from_finding_def)
  have fm: "f \<in> set (as_findings s)" "fi_id f = i" using find_key_SomeD [of fi_id i] f(1) by (auto simp: get_finding_def)
  show ?thesis
  proof (cases "get_spawned_initiative (as_imp s) i (ii_key c)")
    case (Some y)
    then show ?thesis using r f(1) by (intro au_rest) (auto simp: raise_initiative_from_finding_def)
  next
    case None
    let ?m = "(as_imp s)\<lparr>ip_vault := q_vault (as_q s)\<rparr>"
    obtain m d where m: "create_initiative (ae_imp E) actor now d ?m = Inr (m, x)" "ii_link d = Some i"
      and s: "s' = s\<lparr>as_imp := m, as_q := (as_q s)\<lparr>q_vault := ip_vault m\<rparr>\<rparr>"
      using r f(1) None by (auto simp: raise_initiative_from_finding_def Let_def)
    note c = create_initiative_shape [OF m(1)]
    have "imp_run (as_imp s) ?m" by (rule imp_same) (simp_all add: item_tables_def)
    then have run: "imp_run (as_imp s) m" using c(1) by (rule rtranclp.rtrancl_into_rtrancl)
    have "qms_moves (ae_qms E) (as_q s) (as_q s')" by (rule frame_moves) (simp_all add: s store_frame_def trail_def)
    moreover have "in_link x = Some (fi_id f) \<and> fi_type f \<noteq> NC" using c(4) m(2) fm(2) f(2) by auto
    ultimately show ?thesis using run c(5) fm(1) by (intro au_initiative) (auto simp: s)
  qed
qed

lemma not_blocking:
  assumes g: "audit_close_gate s i = Inr ()" and f: "f \<in> set (findings_of s i)" "fi_type f = NC"
    and r: "fi_id f \<in> rc_id ` set (q_records (as_q s))"
  shows "settled (as_q s) f"
proof -
  obtain x where x: "x \<in> set (q_records (as_q s))" "rc_id x = fi_id f" using r by auto
  let ?row = "(fi_type f, rc_superseded_by x \<noteq> None,
      case fi_capa f of None \<Rightarrow> None | Some k \<Rightarrow> map_option ca_state (get_capa (as_q s) k))"
  have "?row \<in> set (findings_for_close_gate s i)"
    using f(1) x by (force simp: findings_for_close_gate_def findings_of_def)
  moreover have "filter (\<lambda>(ft, sup, st). finding_blocks_close ft sup st) (findings_for_close_gate s i) = []"
    using g by (simp add: audit_close_gate_def)
  ultimately have "\<not> finding_blocks_close (fst ?row) (fst (snd ?row)) (snd (snd ?row))"
    unfolding filter_empty_conv by fastforce
  then consider "rc_superseded_by x \<noteq> None" | k c where "fi_capa f = Some k" "get_capa (as_q s) k = Some c" "ca_state c = C_Closed"
    using f(2) by (auto simp: finding_blocks_close_def split: option.splits if_splits)
  then show ?thesis using x get_capa_mem unfolding settled_def by cases metis+
qed

lemma advance_audit_step:
  assumes r: "advance_audit E actor now i st s = Inr s'" and ok: "audits_ok s"
  shows "audit_step E s s'"
proof -
  obtain a where a: "get_audit s i = Some a" "audit_allowed (an_state a) st" "st = A_Closed \<longrightarrow> audit_close_gate s i = Inr ()"
    using r by (auto simp: advance_audit_def split: if_splits)
  have s: "as_imp s' = as_imp s" "as_audits s' = map (\<lambda>y. if an_id y = i then moved_audit E now st a else y) (as_audits s)"
    "as_findings s' = as_findings s" "qms_moves (ae_qms E) (as_q s) (as_q s')"
    using r a by (auto simp: advance_audit_def emit_moves)
  have i: "an_id a = i" using get_audit_mem [OF a(1)] by blast
  have "settled (as_q s) f" if "st = A_Closed" "f \<in> set (findings_of s i)" "fi_type f = NC" for f
    by (rule not_blocking [of s i]) (use that a(3) ok in \<open>auto simp: audits_ok_def findings_of_def\<close>)
  then show ?thesis
    using a s i by (intro au_advance [of E s s' a "moved_audit E now st a"]) (simp_all add: moved_audit_def)
qed

lemma create_audit_program_step: "create_audit_program actor title period coverage s = Inr (s', p) \<Longrightarrow> audit_step E s s'"
proof -
  assume r: "create_audit_program actor title period coverage s = Inr (s', p)"
  obtain v n where a: "allocate_seq (user_org actor) ''AUDPROG'' [] (q_vault (as_q s)) = (v, n)" by (metis surj_pair)
  have "qms_moves (ae_qms E) (as_q s) (as_q s')"
    by (rule frame_moves) (use r a in \<open>auto simp: create_audit_program_def Let_def emit_audit_def frame_defs trail_def\<close>)
  then show ?thesis using r a by (intro au_rest) (auto simp: create_audit_program_def Let_def)
qed

lemma update_audit_program_step: "update_audit_program actor i p s = Inr (s', x) \<Longrightarrow> audit_step E s s'"
proof -
  assume r: "update_audit_program actor i p s = Inr (s', x)"
  then have "qms_moves (ae_qms E) (as_q s) (as_q s')"
    by (auto simp: update_audit_program_def Let_def emit_audit_def log_moves)
  then show ?thesis using r by (intro au_rest) (auto simp: update_audit_program_def Let_def)
qed

lemma create_audit_plan_step: "create_audit_plan E actor i process lead due checklist s = Inr (s', p) \<Longrightarrow> audit_step E s s'"
proof -
  assume r: "create_audit_plan E actor i process lead due checklist s = Inr (s', p)"
  have "qms_moves (ae_qms E) (as_q s) (as_q s')"
    by (rule frame_moves) (use r in \<open>auto simp: create_audit_plan_def Let_def emit_audit_def frame_defs trail_def\<close>)
  then show ?thesis using r by (intro au_rest) (auto simp: create_audit_plan_def Let_def)
qed

subsection \<open>The system\<close>

inductive audit_op :: "audit_env \<Rightarrow> audit_store \<Rightarrow> audit_store \<Rightarrow> bool" for E :: audit_env where
  ao_program: "create_audit_program actor title period coverage s = Inr (s', p) \<Longrightarrow> audit_op E s s'"
| ao_program_edit: "update_audit_program actor i p s = Inr (s', x) \<Longrightarrow> audit_op E s s'"
| ao_plan: "create_audit_plan E actor i process lead due checklist s = Inr (s', p) \<Longrightarrow> audit_op E s s'"
| ao_audit: "create_audit E actor now fresh i title lead s = Inr (s', a) \<Longrightarrow> audit_op E s s'"
| ao_finding: "create_finding E actor now fresh fresh2 i ft sev clause process summary s = Inr (s', f) \<Longrightarrow> audit_op E s s'"
| ao_correct: "correct_finding E actor now fresh fresh2 i ft sev clause process reason s = Inr (s', f) \<Longrightarrow> audit_op E s s'"
| ao_initiative: "raise_initiative_from_finding E actor now i c s = Inr (s', x, b) \<Longrightarrow> audit_op E s s'"
| ao_advance: "advance_audit E actor now i st s = Inr s' \<Longrightarrow> audit_op E s s'"
| ao_evidence: "qms_step (ae_qms E) (as_q s) q \<Longrightarrow> audit_op E s (s\<lparr>as_q := q\<rparr>)"
| ao_improvement: "imp_op (ae_imp E) (as_imp s) m \<Longrightarrow> audit_op E s (s\<lparr>as_imp := m\<rparr>)"

lemma audit_op_step: "audit_op E s s' \<Longrightarrow> audit_inv E s \<Longrightarrow> audit_step E s s'"
proof (induction rule: audit_op.induct)
  case (ao_advance actor now i st s s')
  then show ?case using advance_audit_step by (simp add: audit_inv_def)
next
  case (ao_evidence s q)
  then show ?case by (intro au_rest) (simp_all add: qms_step_moves)
next
  case (ao_improvement s m)
  have "imp_inv (as_imp s)" using ao_improvement(2) by (simp add: audit_inv_def)
  then show ?case
    using imp_op_run [OF ao_improvement(1)] imp_op_items [OF ao_improvement(1)] by (intro au_initiative) (simp_all add: items_from_def)
qed (blast intro: create_audit_program_step update_audit_program_step create_audit_plan_step create_audit_step create_finding_step
       correct_finding_step raise_initiative_step)+

interpretation auditing: evolving "audit_op E" "audit_inv E" audit_evolves for E
proof unfold_locales
  fix s t assume "audit_op E s t" "audit_inv E s"
  then have "audit_step E s t" by (rule audit_op_step)
  then show "audit_inv E t" "audit_evolves s t" using audit_system.keeps audit_system.moves \<open>audit_inv E s\<close> by blast+
qed (rule audit_system.rests, rule audit_evolves_trans)

definition empty_imp :: "imp_store" where
  "empty_imp = \<lparr>ip_vault = q_vault empty_qms, ip_next = 0, ip_items = [], ip_trail = [], ip_flows = [], ip_signatures = [],
     ip_events = []\<rparr>"

definition empty_audits :: "qms \<Rightarrow> audit_store" where
  "empty_audits q = \<lparr>as_q = q, as_imp = empty_imp, as_programs = [], as_plans = [], as_audits = [], as_findings = []\<rparr>"

definition reachable_audits :: "audit_env \<Rightarrow> audit_store \<Rightarrow> bool" where
  "reachable_audits E s \<longleftrightarrow> (\<exists>q. reachable_qms (ae_qms E) q \<and> (audit_op E)\<^sup>*\<^sup>* (empty_audits q) s)"

lemma reachable_audit_inv: "reachable_audits E s \<Longrightarrow> audit_inv E s"
proof -
  assume "reachable_audits E s"
  then obtain q where q: "reachable_qms (ae_qms E) q" "(audit_op E)\<^sup>*\<^sup>* (empty_audits q) s" by (auto simp: reachable_audits_def)
  have "audit_inv E (empty_audits q)"
    using reachable_inv [OF q(1)] by (simp add: audit_inv_def empty_audits_def empty_imp_def imp_inv_def audits_ok_def)
  then show ?thesis using auditing.run_keeps q(2) by blast
qed

end
