(* ===== verification/AuditProps.thy ===== *)
theory AuditProps
  imports AuditSpec QmsProps
begin

text \<open>
  What holds of internal audits and improvement initiatives in every reachable state of \<open>AuditSpec\<close>, with an instance: a
  nonconformity is recorded, corrected to an observation, an initiative is raised from it and the audit is closed; and a
  second run in which the general correction of records takes the place of the correction of findings.
\<close>

definition yard :: audit_env where
  "yard = \<lparr>ae_qms = depot, ae_imp = \<lparr>ne_flow = flow_env, ne_flow_definition = JObj [(''entry'', JStr ''qm'')], ne_hash = (\<lambda>_. [0xAB]),
     ne_process = (\<lambda>_. True), ne_user = (\<lambda>_. True)\<rparr>\<rparr>"

type_synonym act = "audit_store \<Rightarrow> (qms_error, audit_store) result"

fun run_acts :: "act list \<Rightarrow> audit_store \<Rightarrow> (qms_error, audit_store) result" where
  "run_acts [] s = Inr s"
| "run_acts (f # fs) s = bind_res (f s) (run_acts fs)"

definition only_store :: "(qms_error, audit_store \<times> 'a) result \<Rightarrow> (qms_error, audit_store) result" where
  "only_store r = bind_res r (\<lambda>(s, x). Inr s)"

lemma run_acts_reach:
  "\<forall>f \<in> set fs. \<forall>s s'. f s = Inr s' \<longrightarrow> audit_op E s s' \<Longrightarrow> run_acts fs s = Inr s' \<Longrightarrow> (audit_op E)\<^sup>*\<^sup>* s s'"
proof (induction fs arbitrary: s)
  case (Cons f fs)
  then obtain t where t: "f s = Inr t" "run_acts fs t = Inr s'" by auto
  have "audit_op E s t" using Cons.prems(1) t(1) by simp
  moreover have "(audit_op E)\<^sup>*\<^sup>* t s'" by (rule Cons.IH) (use Cons.prems(1) t(2) in simp_all)
  ultimately show ?case by (rule converse_rtranclp_into_rtranclp)
qed simp

definition recording :: "act list" where
  "recording =
     [\<lambda>s. only_store (create_audit_program ann ''p'' None None s),
      \<lambda>s. only_store (create_audit_plan yard ann (ag_id (hd (as_programs s))) None None None None s),
      \<lambda>s. only_store (create_audit yard ann 0 70 (al_id (hd (as_plans s))) None None s),
      \<lambda>s. advance_audit yard ann 0 (an_id (hd (as_audits s))) A_Planned s,
      \<lambda>s. advance_audit yard ann 0 (an_id (hd (as_audits s))) A_InProgress s,
      \<lambda>s. only_store (create_finding yard ann 0 70 71 (an_id (hd (as_audits s))) NC (Some Major) None None None s)]"

definition to_closing :: "act list" where
  "to_closing = map (\<lambda>st s. advance_audit yard ann 0 (an_id (hd (as_audits s))) st s) [A_FindingsDraft, A_Reported, A_Closing]"

definition shut :: act where
  "shut = (\<lambda>s. advance_audit yard ann 0 (an_id (hd (as_audits s))) A_Closed s)"

definition idea :: initiative_input where
  "idea = \<lparr>ii_title = ''t'', ii_description = None, ii_target = None, ii_source = IS_manual, ii_link = None, ii_key = None,
     ii_process = None, ii_owner = None\<rparr>"

definition settling :: "act list" where
  "settling =
     [\<lambda>s. only_store (correct_finding yard ann 0 72 73 (fi_id (hd (as_findings s))) OBSERVATION None None None None s),
      \<lambda>s. only_store (raise_initiative_from_finding yard ann 0 (fi_id (last (as_findings s))) idea s),
      \<lambda>s. bind_res (transition_initiative ann 0 (in_id (hd (ip_items (as_imp s)))) I_Cancelled None None (as_imp s)) (\<lambda>m. Inr (s\<lparr>as_imp := m\<rparr>))]"

definition bypassing :: act where
  "bypassing = (\<lambda>s. bind_res (capture_correction depot ann 0 74 (fi_id (hd (as_findings s))) (plain_capture ''EVIDENCE'' ''x'') (as_q s))
     (\<lambda>(q, r). Inr (s\<lparr>as_q := q\<rparr>)))"

declare year_str_def [code del] uuid_str_def [code del] id_str_def [code del]

lemma audit_demo:
  "case run_acts (recording @ to_closing @ settling @ [shut]) (empty_audits empty_qms) of
     Inr s \<Rightarrow> map an_state (as_audits s) = [A_Closed] \<and> map fi_type (as_findings s) = [NC, OBSERVATION]
       \<and> map in_stage (ip_items (as_imp s)) = [I_Cancelled] \<and> map in_source (ip_items (as_imp s)) = [IS_OFI]
   | Inl _ \<Rightarrow> False"
  by code_simp

lemma bypass_demo:
  "case run_acts (recording @ to_closing @ [bypassing, shut]) (empty_audits empty_qms) of
     Inr s \<Rightarrow> map an_state (as_audits s) = [A_Closed] \<and> map fi_type (as_findings s) = [NC]
       \<and> map ca_state (q_capas (as_q s)) = [C_Raised]
   | Inl _ \<Rightarrow> False"
  by code_simp

lemma unsettled_demo:
  "case run_acts (recording @ to_closing @ [shut]) (empty_audits empty_qms) of
     Inr s \<Rightarrow> False | Inl e \<Rightarrow> e = Refuse 409 ''audit_close_blocked''"
  by code_simp

declare year_str_def [code] uuid_str_def [code] id_str_def [code]

lemma recording_ops: "\<forall>f \<in> set recording. \<forall>s s'. f s = Inr s' \<longrightarrow> audit_op yard s s'"
  by (auto simp: recording_def only_store_def intro: audit_op.intros)

lemma to_closing_ops: "\<forall>f \<in> set to_closing. \<forall>s s'. f s = Inr s' \<longrightarrow> audit_op yard s s'"
  by (auto simp: to_closing_def intro: ao_advance)

lemma shut_op: "shut s = Inr s' \<Longrightarrow> audit_op yard s s'"
  unfolding shut_def by (rule ao_advance)

lemma settling_ops: "\<forall>f \<in> set settling. \<forall>s s'. f s = Inr s' \<longrightarrow> audit_op yard s s'"
  by (auto simp: settling_def only_store_def intro: ao_correct ao_initiative ao_improvement io_move)

lemma bypassing_op: "bypassing s = Inr s' \<Longrightarrow> audit_op yard s s'"
proof -
  assume "bypassing s = Inr s'"
  then obtain q r where "capture_correction depot ann 0 74 (fi_id (hd (as_findings s))) (plain_capture ''EVIDENCE'' ''x'') (as_q s) = Inr (q, r)"
    and s: "s' = s\<lparr>as_q := q\<rparr>" unfolding bypassing_def by auto
  then have "qms_step (ae_qms yard) (as_q s) q" unfolding qms_step_def yard_def by (simp add: op_correct)
  then show ?thesis unfolding s by (rule ao_evidence)
qed

lemma demo_run:
  assumes "case r of Inr s \<Rightarrow> P s | Inl e \<Rightarrow> False" shows "\<exists>s. r = Inr s \<and> P s"
  using assms by (cases r) simp_all

lemma demo_reachable:
  assumes "run_acts fs (empty_audits empty_qms) = Inr s" and "\<forall>f \<in> set fs. \<forall>s s'. f s = Inr s' \<longrightarrow> audit_op yard s s'"
  shows "reachable_audits yard s"
  using run_acts_reach [OF assms(2,1)] unfolding reachable_audits_def reachable_qms_def by blast

text \<open>The general correction of records takes a nonconformity off the list without a finding in its place: the audit closes
while the corrective action has only been raised.\<close>

lemma general_correction_unblocks:
  "\<exists>s. reachable_audits yard s \<and> map an_state (as_audits s) = [A_Closed] \<and> map fi_type (as_findings s) = [NC]
     \<and> map ca_state (q_capas (as_q s)) = [C_Raised]"
proof -
  obtain s where s: "run_acts (recording @ to_closing @ [bypassing, shut]) (empty_audits empty_qms) = Inr s"
    "map an_state (as_audits s) = [A_Closed] \<and> map fi_type (as_findings s) = [NC] \<and> map ca_state (q_capas (as_q s)) = [C_Raised]"
    using demo_run [OF bypass_demo] by metis
  have "reachable_audits yard s"
    by (rule demo_reachable [OF s(1)]) (use recording_ops to_closing_ops shut_op bypassing_op in auto)
  then show ?thesis using s(2) by (intro exI [of _ s]) simp
qed

text \<open>C5: closed audits. A closed audit is final: whatever happens afterwards in the system, its row stays as it is and no
finding of it is added or changed. Every nonconformity among its findings has a corrective action that names it as its
origin and has its severity, and that action is closed, or the record of the finding has been superseded.\<close>

theorem closed_audit_settled:
  assumes "reachable_audits E s" "a \<in> set (as_audits s)" "an_state a = A_Closed" "(audit_op E)\<^sup>*\<^sup>* s s'"
  shows "a \<in> set (as_audits s') \<and> findings_of s' (an_id a) = findings_of s (an_id a)
    \<and> (\<forall>f \<in> set (findings_of s' (an_id a)). fi_type f = NC \<longrightarrow>
        (\<exists>c \<in> set (q_capas (as_q s')). fi_capa f = Some (ca_id c) \<and> ca_origin c = Some (fi_id f) \<and> ca_source c = S_audit
           \<and> af_severity f = Some (ca_severity c)
           \<and> (ca_state c = C_Closed \<or> (\<exists>r \<in> set (q_records (as_q s')). rc_id r = fi_id f \<and> rc_superseded_by r \<noteq> None))))"
proof -
  have m: "audit_inv E s'" "audit_evolves s s'" using auditing.run_both [OF assms(4) reachable_audit_inv [OF assms(1)]] by auto
  have a: "a \<in> set (as_audits s')" "findings_of s' (an_id a) = findings_of s (an_id a)"
    using m(2) assms(2,3) unfolding audit_evolves_def by metis+
  have "\<exists>c \<in> set (q_capas (as_q s')). fi_capa f = Some (ca_id c) \<and> ca_origin c = Some (fi_id f) \<and> ca_source c = S_audit
      \<and> af_severity f = Some (ca_severity c)
      \<and> (ca_state c = C_Closed \<or> (\<exists>r \<in> set (q_records (as_q s')). rc_id r = fi_id f \<and> rc_superseded_by r \<noteq> None))"
    if f: "f \<in> set (findings_of s' (an_id a))" "fi_type f = NC" for f
  proof -
    have "f \<in> set (as_findings s')" using f(1) by (simp add: findings_of_def)
    then obtain c where c: "c \<in> set (q_capas (as_q s'))" "fi_capa f = Some (ca_id c)" "ca_origin c = Some (fi_id f)"
      "ca_source c = S_audit" "af_severity f = Some (ca_severity c)"
      using m(1) f(2) unfolding audit_inv_def nc_carried_def by metis
    have "settled (as_q s') f" using m(1) a(1) assms(3) f unfolding audit_inv_def by blast
    moreover have "ca_state c = C_Closed" if "d \<in> set (q_capas (as_q s'))" "fi_capa f = Some (ca_id d)" "ca_state d = C_Closed" for d
      using same_capa [of "as_q s'" c d] c(1,2) that m(1) by (simp add: audit_inv_def qms_inv_def trail_inv_def)
    ultimately show ?thesis using c unfolding settled_def by metis
  qed
  then show ?thesis using a by blast
qed

lemma settled_case:
  "\<exists>s a f x. reachable_audits yard s \<and> as_audits s = [a] \<and> an_state a = A_Closed \<and> f \<in> set (findings_of s (an_id a))
     \<and> fi_type f = NC \<and> ip_items (as_imp s) = [x] \<and> in_stage x = I_Cancelled \<and> in_source x = IS_OFI"
proof -
  obtain s where s: "run_acts (recording @ to_closing @ settling @ [shut]) (empty_audits empty_qms) = Inr s"
    "map an_state (as_audits s) = [A_Closed] \<and> map fi_type (as_findings s) = [NC, OBSERVATION]
       \<and> map in_stage (ip_items (as_imp s)) = [I_Cancelled] \<and> map in_source (ip_items (as_imp s)) = [IS_OFI]"
    using demo_run [OF audit_demo] by metis
  have r: "reachable_audits yard s"
    by (rule demo_reachable [OF s(1)]) (use recording_ops to_closing_ops settling_ops shut_op in auto)
  obtain a where a: "as_audits s = [a]" "an_state a = A_Closed" using s(2) by (auto simp: map_eq_Cons_conv)
  have "NC \<in> fi_type ` set (as_findings s)" using s(2) by (metis list.set_intros(1) list.set_map)
  then obtain f where f: "f \<in> set (as_findings s)" "fi_type f = NC" by auto
  have "audits_ok s" using reachable_audit_inv [OF r] by (simp add: audit_inv_def)
  then have "af_audit f = an_id a" using f a by (auto simp: audits_ok_def)
  moreover obtain x where "ip_items (as_imp s) = [x]" "in_stage x = I_Cancelled" "in_source x = IS_OFI"
    using s(2) by (auto simp: map_eq_Cons_conv)
  ultimately show ?thesis using r a f unfolding findings_of_def by auto
qed

lemma closed_audit_settled_witness:
  "\<exists>s a f. reachable_audits yard s \<and> as_audits s = [a] \<and> f \<in> set (findings_of s (an_id a)) \<and> fi_type f = NC
     \<and> (\<exists>c \<in> set (q_capas (as_q s)). ca_origin c = Some (fi_id f) \<and> ca_source c = S_audit)"
proof -
  obtain s a f where s: "reachable_audits yard s" "as_audits s = [a]" "an_state a = A_Closed" "f \<in> set (findings_of s (an_id a))"
    "fi_type f = NC" using settled_case by metis
  have "a \<in> set (as_audits s)" using s(2) by simp
  from closed_audit_settled [OF s(1) this s(3) rtranclp.rtrancl_refl] s show ?thesis by blast
qed

text \<open>C18: improvement initiatives. The stage events of an initiative begin with its raising in the stage Open, follow the
lifecycle table without a gap and end in its current stage; it has a closing time just when that stage is terminal; every
signed event is a closing one and its signature was made on this event by its author; an initiative with the source OFI
hangs on a finding that is not a nonconformity; and once in a terminal stage an initiative and its events never change.\<close>

theorem initiative_documented:
  assumes "reachable_audits E s" "x \<in> set (ip_items (as_imp s))"
  shows "item_history (as_imp s) (in_id x) \<noteq> [] \<and> item_chain None (item_history (as_imp s) (in_id x))
    \<and> iv_to (last (item_history (as_imp s) (in_id x))) = in_stage x \<and> (in_closed_at x \<noteq> None \<longleftrightarrow> improvement_terminal (in_stage x))
    \<and> (\<forall>e \<in> set (item_history (as_imp s) (in_id x)). iv_signed e \<noteq> None \<longrightarrow> iv_to e = I_Closed \<and>
         (\<exists>g \<in> set (ip_signatures (as_imp s)). iv_signed e = Some (qs_id g) \<and> qs_object g = iv_id e \<and> qs_signer g = iv_by e))
    \<and> (in_source x = IS_OFI \<longrightarrow> (\<exists>f \<in> set (as_findings s). in_link x = Some (fi_id f) \<and> fi_type f \<noteq> NC))
    \<and> (improvement_terminal (in_stage x) \<longrightarrow> (\<forall>s'. (audit_op E)\<^sup>*\<^sup>* s s' \<longrightarrow>
         x \<in> set (ip_items (as_imp s')) \<and> item_history (as_imp s') (in_id x) = item_history (as_imp s) (in_id x)))"
proof -
  have i: "audit_inv E s" using assms(1) by (rule reachable_audit_inv)
  then have "item_ok (as_imp s) x" "raised_from s x" "imp_inv (as_imp s)" using assms(2) by (auto simp: audit_inv_def imp_inv_def)
  moreover have "iv_to e = I_Closed \<and> (\<exists>g \<in> set (ip_signatures (as_imp s)). iv_signed e = Some (qs_id g) \<and> qs_object g = iv_id e \<and> qs_signer g = iv_by e)"
    if "e \<in> set (item_history (as_imp s) (in_id x))" "iv_signed e \<noteq> None" for e
    using that \<open>imp_inv (as_imp s)\<close> unfolding imp_inv_def sealed_close_def item_history_def by auto
  moreover have "x \<in> set (ip_items (as_imp s')) \<and> item_history (as_imp s') (in_id x) = item_history (as_imp s) (in_id x)"
    if "improvement_terminal (in_stage x)" "(audit_op E)\<^sup>*\<^sup>* s s'" for s'
  proof -
    have "imp_evolves (as_imp s) (as_imp s')" using auditing.run_moves [OF that(2) i] by (simp add: audit_evolves_def)
    then show ?thesis using that(1) assms(2) unfolding imp_evolves_def by metis
  qed
  ultimately show ?thesis unfolding item_ok_def raised_from_def by blast
qed

lemma initiative_documented_witness:
  "\<exists>s x. reachable_audits yard s \<and> ip_items (as_imp s) = [x] \<and> in_stage x = I_Cancelled \<and> in_closed_at x \<noteq> None
     \<and> (\<exists>f \<in> set (as_findings s). in_link x = Some (fi_id f) \<and> fi_type f \<noteq> NC)"
proof -
  obtain s x where s: "reachable_audits yard s" "ip_items (as_imp s) = [x]" "in_stage x = I_Cancelled" "in_source x = IS_OFI"
    using settled_case by metis
  have "x \<in> set (ip_items (as_imp s))" using s(2) by simp
  note d = initiative_documented [OF s(1) this]
  have "improvement_terminal (in_stage x)" using s(3) by (simp add: improvement_terminal_def)
  then show ?thesis using d s by blast
qed

end
