(* ===== verification/Spec2Isabelle.thy ===== *)
theory Spec2Isabelle
  imports Authz AuditVerify Watermark Lifecycles Locks VaultProps WorkflowProps DcrProps AuditProps
begin

text \<open>
  EasySynQ is a quality-management system: a FastAPI server over PostgreSQL, Redis, object storage and Keycloak that
  keeps controlled documents, retained records and the workflows of ISO 9001 around them. This library models the
  core of the server, the Python package \<open>apps/api/src/easysynq_api\<close>; all paths below are relative to it.

  \<^bold>\<open>The parts and how they interact.\<close> A request reaches a service (\<open>services/*\<close>), which asks the policy decision point
  (\<open>domain/authz\<close>) and works on tables; the pure rules of a subject are in \<open>domain/*\<close>. The document vault
  (\<open>services/vault\<close>) is the ground of everything: documents with immutable versions, at most one of them in force.
  Reviews, approvals and leadership sign-offs run through the workflow engine (\<open>services/workflow\<close>). Records
  (\<open>services/records\<close>) are captured evidence with a retention policy; corrective actions, complaints and
  nonconformities (\<open>services/capa\<close>), internal audits and their findings (\<open>services/audits\<close>) are records with a state
  beside them. Change requests (\<open>services/dcr\<close>) and improvement initiatives (\<open>services/improvement\<close>) are mutable rows
  with an append-only trail. Every operation adds rows to the audit table, which a background job links into a hash
  chain per organisation (\<open>services/audit\<close>).

  \<^bold>\<open>Conventions.\<close> A table is a list or a map in a record of the state, an enumeration a datatype, a row a record. An
  operation is a function of the environment, its arguments and the state, and returns \<open>Inl\<close> an error (the
  \<open>ProblemException\<close> with its status and code, or the Python exception that escapes) or \<open>Inr\<close> the new state; an error
  leaves the tables as they were, as the rollback of the transaction does. One operation is one step: row locks,
  advisory locks and the isolation levels, which make the services sequential, are not modelled. The tables are those
  of one organisation; a row of another one is answered as a missing one. Clocks, fresh UUIDs and the outcome of calls
  to the object store are arguments. Text is within Latin-1, integers are unbounded as in Python.

  \<^bold>\<open>Foundations.\<close>
  \<^item> \<open>Prelude\<close>: JSON values, errors, identifiers, the result monad, list and lookup lemmas and the collections the
    component proofs use. \<open>Bytes\<close>, \<open>Dates\<close>: the encodings and calendar of the Python standard library that are used.
  \<^item> \<open>Fsm\<close>: the locale \<open>fsm\<close> of a lifecycle table (targets, guard, terminal test) and \<open>ranked_fsm\<close> of those without a loop.
    \<open>Lifecycles\<close> (\<open>domain/capa\<close>, \<open>domain/dcr\<close>, \<open>domain/improvement\<close>, \<open>domain/audits\<close>, \<open>domain/records/disposition.py\<close>)
    interprets them on the five tables of the program and has the pure gates beside them.
  \<^item> \<open>Trails\<close>: the stage-event trails change requests and initiatives share. \<open>Evolve\<close>: the locale \<open>evolving\<close> of a step
    relation with an invariant and an order, from which the theorems about all runs follow; it is interpreted on the
    transitions of records, corrective actions, change requests, initiatives, audits and on the composed systems.

  \<^bold>\<open>Authorisation.\<close> \<open>Authz\<close> (\<open>domain/authz/types.py\<close>, \<open>pdp.py\<close>): scope match, predicates, separation of duties and the
  verdict. The locale \<open>deny_overrides\<close> states what a deny-wins decision promises and is interpreted on \<open>authorize\<close>.

  \<^bold>\<open>The audit chain.\<close> \<open>AuditCanonical\<close> (\<open>services/audit/canonical.py\<close>) builds the bytes of a row from length-prefixed
  fields; the locale \<open>prefix_code\<close> gives their injectivity. \<open>AuditChain\<close> is the linker (\<open>linker.py\<close>), \<open>AuditVerify\<close> the
  verifier (\<open>verify.py\<close>) with the locale \<open>sealed_chain\<close>; \<open>Watermark\<close> (\<open>watermark.py\<close>) the bound up to which rows may be
  linked, over a step relation \<open>pg_step\<close> of transactions that draw ids and commit or roll back in any order.

  \<^bold>\<open>The vault.\<close> \<open>VaultFsm\<close> (\<open>domain/vault\<close>), \<open>Locks\<close> (\<open>services/vault/locks.py\<close>), \<open>FormSchema\<close>
  (\<open>domain/records/form_schema.py\<close>), \<open>VaultStore\<close> (the tables and queries), \<open>VaultOps\<close> and \<open>VaultFreeze\<close>
  (\<open>services/vault/service.py\<close>, \<open>lifecycle.py\<close>, \<open>obsoletion.py\<close>, \<open>leadership_authorization.py\<close>). \<open>VaultInv\<close> has the
  invariant and the relation \<open>vault_step\<close> of all operations; \<open>VaultProps\<close> the theorems about its runs: one governing
  version, immutable content, signed releases, audited changes, and the abstract lifecycle of versions the operations
  refine.

  \<^bold>\<open>Workflows.\<close> \<open>WorkflowRules\<close> (\<open>domain/workflow\<close>), \<open>Workflow\<close> (\<open>services/workflow/engine.py\<close>), \<open>WorkflowInv\<close> and
  \<open>WorkflowProps\<close>: the state of one instance with its tasks, whose reachable states are \<open>wf_reach\<close>.

  \<^bold>\<open>Records and corrective actions\<close> share the store \<open>qms\<close> of \<open>QmsStore\<close>. \<open>Retention\<close>, \<open>RecordHash\<close>
  (\<open>domain/records\<close>), \<open>Records\<close> (\<open>services/records/service.py\<close>), \<open>RetentionPolicies\<close>, \<open>Disposition\<close>, \<open>DestroyOrder\<close>,
  \<open>RetentionSweep\<close> (\<open>disposition.py\<close>), \<open>Capa\<close> (\<open>services/capa\<close>). The abstract transitions are \<open>ev_step\<close> (\<open>RecordsSpec\<close>)
  and \<open>trail_step\<close> (\<open>CapaSpec\<close>); \<open>RecordsRefine\<close>, \<open>DestroyRefine\<close> and \<open>CapaRefine\<close> prove that every operation is a run
  of them, \<open>QmsSystem\<close> composes all operations into \<open>qms_step\<close>, \<open>PackClosure\<close> gives the cascade over sealed evidence
  packs its declarative meaning and \<open>QmsProps\<close> has the theorems.

  \<^bold>\<open>Change requests.\<close> \<open>Dcr\<close> (\<open>services/dcr\<close>), \<open>DcrSpec\<close> (\<open>change_step\<close>, and \<open>change_sys\<close> together with the steps of the
  vault), \<open>DcrProps\<close>.

  \<^bold>\<open>Improvement and audits.\<close> \<open>Improvement\<close> (\<open>services/improvement\<close>), \<open>ImprovementSpec\<close> (\<open>imp_step\<close>), \<open>Audits\<close>
  (\<open>services/audits\<close>), whose state joins the retained evidence and the initiatives; \<open>AuditMoves\<close> and \<open>AuditSpec\<close>
  (\<open>audit_step\<close>, and \<open>audit_op\<close>, the system of all their operations), \<open>AuditProps\<close>.

  \<^bold>\<open>Parameters.\<close> Code that is not in the repository, or whose result the modelled code only reads, is a field of an
  environment: SHA-256 (\<open>qe_hash\<close>, \<open>ce_hash\<close>, \<open>ne_hash\<close>, the argument \<open>H\<close> of the chain) and canonical JSON of the package rfc8785
  (\<open>qe_jcs\<close>), assumed injective only where a theorem says so; the object store (\<open>qe_promote\<close>, \<open>qe_extend\<close>, \<open>blob_known\<close>);
  the tables of types, frameworks, distribution entries, clauses, processes and users (\<open>vault_env\<close>, \<open>qms_env\<close>,
  \<open>change_env\<close>, \<open>imp_env\<close>); the workflow definitions and role assignments with the working-day calendar (\<open>wf_env\<close>).

  \<^bold>\<open>Bounds and termination.\<close> Loops are recursive functions: the linker on the number of unlinked rows, the closure over
  packs on the packs not yet affected, the workflow router on the stages not yet visited, so that a cycle of empty
  stages ends in an error. There is no fuel: the drain loop of the linker runs over the list of windows it is given.
  Revision labels recurse on the quotient by 26.

  \<^bold>\<open>Not modelled.\<close> The HTTP routers (they parse, authorise and call the services); list and label queries and the
  presentation of rows; rendering, watermarking, mirroring, backup, search and mail (I/O with other programs); set-up and
  Keycloak; the ingestion of existing documents; the external anchoring of the audit chain; objectives, risks, context and
  interested parties beyond the frozen registers of the vault; management reviews beyond their minutes; the building and
  sharing of evidence packs; scheduled tasks other than the sweeps of releases, retention and purges.
\<close>

end
